(* ===== verification/Prelude.thy ===== *)
theory Prelude
  imports Complex_Main "HOL-Library.Sublist" "HOL-Library.Char_ord" "HOL-Library.List_Lexorder"
    "HOL-Library.Product_Lexorder" "HOL-Library.Multiset"
begin

text \<open>
  Shared vocabulary of the development: the Python string and container operations the
  source uses, generic facts about runs of operations, and the two contracts several
  components share (an operation that may succeed at most once per key, and an invariant
  kept by every step). Text is \<^typ>\<open>string\<close>; instants and durations are \<^typ>\<open>real\<close> seconds.
\<close>

type_synonym instant = real
type_synonym seconds = real
type_synonym uuid = string
type_synonym digest = string

named_theorems frame_simps \<open>what an operation leaves unchanged\<close>

subsection \<open>Python truthiness and small helpers\<close>

text \<open>\<open>k or d\<close> for an optional string: \<open>None\<close> and the empty string are both false.\<close>

definition str_or :: "string option \<Rightarrow> string \<Rightarrow> string" where
  "str_or k d = (case k of None \<Rightarrow> d | Some s \<Rightarrow> if s = [] then d else s)"

lemma str_or_simps [simp]:
  "str_or None d = d"
  "str_or (Some []) d = d"
  "s \<noteq> [] \<Longrightarrow> str_or (Some s) d = s"
  by (simp_all add: str_or_def)

text \<open>\<open>next((x for x in xs if p(x)), None)\<close> is \<^const>\<open>List.find\<close>.\<close>

lemma find_SomeD: "find p xs = Some x \<Longrightarrow> p x \<and> x \<in> set xs"
  by (induction xs) (auto split: if_splits)

lemma find_None_all: "find p xs = None \<longleftrightarrow> (\<forall>x \<in> set xs. \<not> p x)"
  by (induction xs) auto

text \<open>\<open>sorted(set(...))\<close>: the ascending list without repetitions.\<close>

definition sorted_set :: "'a::linorder list \<Rightarrow> 'a list" where
  "sorted_set xs = remdups (sort xs)"

lemma set_sorted_set [simp]: "set (sorted_set xs) = set xs"
  by (simp add: sorted_set_def)

lemma distinct_sorted_set [simp]: "distinct (sorted_set xs)"
  by (simp add: sorted_set_def)

lemma sorted_sorted_set [simp]: "sorted (sorted_set xs)"
  by (simp add: sorted_set_def sorted_remdups)

lemma sorted_set_cong: "set xs = set ys \<Longrightarrow> sorted_set xs = sorted_set ys"
  by (rule sorted_distinct_set_unique) simp_all

lemma distinct_singleton: "\<lbrakk>distinct xs; set xs = {a}\<rbrakk> \<Longrightarrow> xs = [a]"
proof -
  assume xs: "distinct xs" "set xs = {a}"
  then have "length xs = 1" using distinct_card [of xs] by simp
  then obtain x where "xs = [x]" by (auto simp: length_Suc_conv)
  with xs show ?thesis by simp
qed

subsection \<open>Python string operations\<close>

definition starts_with :: "string \<Rightarrow> string \<Rightarrow> bool" where
  "starts_with s p \<longleftrightarrow> take (length p) s = p"

definition ends_with :: "string \<Rightarrow> string \<Rightarrow> bool" where
  "ends_with s p \<longleftrightarrow> length p \<le> length s \<and> drop (length s - length p) s = p"

lemma starts_with_append [simp]: "starts_with (p @ s) p"
  by (simp add: starts_with_def)

lemma starts_withD: "starts_with s p \<Longrightarrow> \<exists>rest. s = p @ rest"
  by (metis append_take_drop_id starts_with_def)

lemma ends_with_append [simp]: "ends_with (s @ p) p"
  by (simp add: ends_with_def)

text \<open>\<open>s.split(c)\<close> for a one-character separator: always at least one part.\<close>

fun split_on :: "char \<Rightarrow> string \<Rightarrow> string list" where
  "split_on c [] = [[]]"
| "split_on c (x # xs) =
     (if x = c then [] # split_on c xs
      else case split_on c xs of [] \<Rightarrow> [[x]] | p # ps \<Rightarrow> (x # p) # ps)"

text \<open>\<open>sep.join(parts)\<close>.\<close>

fun join_with :: "string \<Rightarrow> string list \<Rightarrow> string" where
  "join_with sep [] = []"
| "join_with sep [p] = p"
| "join_with sep (p # q # ps) = p @ sep @ join_with sep (q # ps)"

lemma split_on_not_Nil [simp]: "split_on c s \<noteq> []"
  by (induction s) (auto split: list.splits)

lemma join_split_on: "join_with [c] (split_on c s) = s"
proof (induction s)
  case Nil
  then show ?case by simp
next
  case (Cons x xs)
  obtain p ps where ps: "split_on c xs = p # ps"
    by (meson neq_Nil_conv split_on_not_Nil)
  show ?case
    by (cases "x = c"; cases ps) (use ps Cons.IH in auto)
qed

lemma split_on_parts_free: "p \<in> set (split_on c s) \<Longrightarrow> c \<notin> set p"
proof (induction s arbitrary: p)
  case Nil
  then show ?case by simp
next
  case (Cons x xs)
  obtain q qs where qs: "split_on c xs = q # qs"
    by (meson neq_Nil_conv split_on_not_Nil)
  then have "c \<notin> set q" and "\<And>r. r \<in> set qs \<Longrightarrow> c \<notin> set r"
    using Cons.IH by simp_all
  then show ?case using Cons.prems qs by (auto split: if_splits)
qed

definition lower_char :: "char \<Rightarrow> char" where
  "lower_char c = (let n = (of_char c :: nat) in
     if 65 \<le> n \<and> n \<le> 90 \<or> 192 \<le> n \<and> n \<le> 222 \<and> n \<noteq> 215 then char_of (n + 32) else c)"

definition lower :: "string \<Rightarrow> string" where
  "lower s = map lower_char s"

lemma length_lower [simp]: "length (lower s) = length s"
  by (simp add: lower_def)

text \<open>\<open>str(n)\<close> for an integer.\<close>

function nat_text :: "nat \<Rightarrow> string" where
  "nat_text n = (if n < 10 then [char_of (n + 48)] else nat_text (n div 10) @ [char_of (n mod 10 + 48)])"
  by pat_completeness auto
termination by (relation "measure id") auto

declare nat_text.simps [simp del]

definition int_text :: "int \<Rightarrow> string" where
  "int_text n = (if n < 0 then ''-'' @ nat_text (nat (- n)) else nat_text (nat n))"

text \<open>White space as \<open>str.split\<close> and \<open>str.strip\<close> see it.\<close>

definition py_space :: "char \<Rightarrow> bool" where
  "py_space c = (let n = (of_char c :: nat) in
     9 \<le> n \<and> n \<le> 13 \<or> 28 \<le> n \<and> n \<le> 32 \<or> n = 133 \<or> n = 160)"

definition strip :: "string \<Rightarrow> string" where
  "strip s = rev (dropWhile py_space (rev (dropWhile py_space s)))"

text \<open>\<open>s.split()\<close>: maximal runs of characters that are not white space.\<close>

fun words_of :: "string \<Rightarrow> string list" where
  "words_of [] = []"
| "words_of (c # cs) =
     (if py_space c then words_of cs
      else case cs of
        [] \<Rightarrow> [[c]]
      | d # _ \<Rightarrow> if py_space d then [c] # words_of cs
                 else case words_of cs of [] \<Rightarrow> [[c]] | w # ws \<Rightarrow> (c # w) # ws)"

subsection \<open>Operations that may succeed at most once per key\<close>

text \<open>
  Several stores hand out a permission once: an approval, a callback nonce, a webhook
  delivery identifier, a dead-letter replay. The list of the keys that a run of requests
  was granted never repeats a key.
\<close>

fun granted :: "('s \<Rightarrow> 'q \<Rightarrow> bool \<times> 's) \<Rightarrow> ('q \<Rightarrow> 'k) \<Rightarrow> 's \<Rightarrow> 'q list \<Rightarrow> 'k list" where
  "granted use key s [] = []"
| "granted use key s (q # qs) =
     (case use s q of (ok, s') \<Rightarrow>
        (if ok then [key q] else []) @ granted use key s' qs)"

locale one_shot =
  fixes use :: "'s \<Rightarrow> 'q \<Rightarrow> bool \<times> 's"
    and key :: "'q \<Rightarrow> 'k"
    and spent :: "'s \<Rightarrow> 'k \<Rightarrow> bool"
  assumes unspent: "use s q = (True, s') \<Longrightarrow> \<not> spent s (key q)"
    and spends: "use s q = (True, s') \<Longrightarrow> spent s' (key q)"
    and stays_spent: "use s q = (ok, s') \<Longrightarrow> spent s k \<Longrightarrow> spent s' k"
begin

lemma granted_unspent: "k \<in> set (granted use key s qs) \<Longrightarrow> \<not> spent s k"
proof (induction qs arbitrary: s)
  case Nil
  then show ?case by simp
next
  case (Cons q qs)
  obtain ok s' where u: "use s q = (ok, s')" by fastforce
  then have "k = key q \<and> ok \<or> k \<in> set (granted use key s' qs)"
    using Cons.prems by (auto split: if_splits)
  then show ?case
  proof
    assume "k = key q \<and> ok"
    then show ?thesis using u unspent by auto
  next
    assume "k \<in> set (granted use key s' qs)"
    then have "\<not> spent s' k" by (rule Cons.IH)
    then show ?thesis using stays_spent [OF u] by auto
  qed
qed

lemma granted_distinct: "distinct (granted use key s qs)"
proof (induction qs arbitrary: s)
  case Nil
  then show ?case by simp
next
  case (Cons q qs)
  obtain ok s' where u: "use s q = (ok, s')" by fastforce
  show ?case
  proof (cases ok)
    case True
    then have "spent s' (key q)" using u spends by simp
    then have "key q \<notin> set (granted use key s' qs)" using granted_unspent by auto
    then show ?thesis using u Cons.IH by simp
  next
    case False
    then show ?thesis using u Cons.IH by simp
  qed
qed

end

subsection \<open>Invariants of a step function\<close>

text \<open>A run folds the step over a list of events; what every step keeps, every run keeps.\<close>

locale kept_by =
  fixes step :: "'e \<Rightarrow> 's \<Rightarrow> 's"
    and inv :: "'s \<Rightarrow> bool"
  assumes step_keeps: "inv s \<Longrightarrow> inv (step e s)"
begin

lemma run_keeps: "inv s \<Longrightarrow> inv (fold step es s)"
  by (induction es arbitrary: s) (auto intro: step_keeps)

end

text \<open>The same for a reflexive and transitive relation between the states of a run.\<close>

locale related_by =
  fixes step :: "'e \<Rightarrow> 's \<Rightarrow> 's"
    and rel :: "'s \<Rightarrow> 's \<Rightarrow> bool"
  assumes step_rel: "rel s (step e s)"
    and rel_refl: "rel s s"
    and rel_trans: "rel s t \<Longrightarrow> rel t u \<Longrightarrow> rel s u"
begin

lemma run_rel: "rel s (fold step es s)"
  by (induction es arbitrary: s) (auto intro: rel_refl rel_trans step_rel)

end

end
