(* ===== verification/Lifecycle.thy ===== *)
theory Lifecycle
  imports Prelude
begin

text \<open>
  The task data model of \<open>core/domain.py\<close> and the guarded state machine of
  \<open>orchestrator/state_machine.py\<close>. A \<open>TaskRecord\<close> is a mutable object: \<open>transition\<close> is
  modelled as a function that returns the object as it is left together with the exception
  raised, if any, so that a failure half way through is visible.
\<close>

subsection \<open>Data\<close>

datatype task_state =
    RECEIVED | VALIDATED | AWAITING_APPROVAL | QUEUED | PLANNING | EXECUTING | TESTING
  | GUARDING | REVIEWING | FIXING | READY_FOR_PR | PR_OPENED | COMPLETED | FAILED | CANCELLED
  | CONTEXT_READY | PLANNED | APPROVAL_REQUIRED | VERIFYING

text \<open>The string value of the enumeration, as \<open>StrEnum\<close> formats it.\<close>

fun state_value :: "task_state \<Rightarrow> string" where
  "state_value RECEIVED = ''received''"
| "state_value VALIDATED = ''validated''"
| "state_value AWAITING_APPROVAL = ''awaiting_approval''"
| "state_value QUEUED = ''queued''"
| "state_value PLANNING = ''planning''"
| "state_value EXECUTING = ''executing''"
| "state_value TESTING = ''testing''"
| "state_value GUARDING = ''guarding''"
| "state_value REVIEWING = ''reviewing''"
| "state_value FIXING = ''fixing''"
| "state_value READY_FOR_PR = ''ready_for_pr''"
| "state_value PR_OPENED = ''pr_opened''"
| "state_value COMPLETED = ''completed''"
| "state_value FAILED = ''failed''"
| "state_value CANCELLED = ''cancelled''"
| "state_value CONTEXT_READY = ''context_ready''"
| "state_value PLANNED = ''planned''"
| "state_value APPROVAL_REQUIRED = ''approval_required''"
| "state_value VERIFYING = ''verifying''"

datatype risk_level = LOW | MEDIUM | HIGH | CRITICAL

record task_request =
  repository :: string
  instruction :: string
  base_branch :: string
  dry_run :: bool

record evidence_item =
  ev_kind :: string
  ev_summary :: string
  ev_created_at :: instant
  ev_immutable_hash :: "string option"

record audit_event =
  ae_action :: string
  ae_actor :: string
  ae_key :: string
  ae_occurred_at :: instant
  ae_detail :: string

record task_record =
  task_id :: uuid
  task_request :: task_request
  task_state :: task_state
  task_risk :: risk_level
  created_at :: instant
  updated_at :: instant
  evidence :: "string list"
  evidence_items :: "evidence_item list"
  audit_events :: "audit_event list"
  failure_reason :: "string option"

subsection \<open>Validation of the models\<close>

text \<open>The character class and shape of \<open>^[A-Za-z0-9_.-]+/[A-Za-z0-9_.-]+$\<close>.\<close>

definition repo_char :: "char \<Rightarrow> bool" where
  "repo_char c = (let n = (of_char c :: nat) in
     65 \<le> n \<and> n \<le> 90 \<or> 97 \<le> n \<and> n \<le> 122 \<or> 48 \<le> n \<and> n \<le> 57
     \<or> c = CHR ''_'' \<or> c = CHR ''.'' \<or> c = CHR ''-'')"

definition repo_name_ok :: "string \<Rightarrow> bool" where
  "repo_name_ok s = (case split_on CHR ''/'' s of
     [owner, name] \<Rightarrow> owner \<noteq> [] \<and> name \<noteq> [] \<and> list_all repo_char owner \<and> list_all repo_char name
   | _ \<Rightarrow> False)"

definition TaskRequest :: "string \<Rightarrow> string \<Rightarrow> string \<Rightarrow> bool \<Rightarrow> task_request option" where
  "TaskRequest repo instr branch dry =
     (if repo_name_ok repo \<and> 3 \<le> length instr \<and> length instr \<le> 20000
      then Some \<lparr>repository = repo, instruction = instr, base_branch = branch, dry_run = dry\<rparr>
      else None)"

text \<open>The constructor of \<open>AuditEvent\<close>: \<open>None\<close> is pydantic's \<open>ValidationError\<close>.\<close>

definition AuditEvent ::
  "string \<Rightarrow> string \<Rightarrow> string \<Rightarrow> instant \<Rightarrow> string \<Rightarrow> audit_event option" where
  "AuditEvent action actor key occurred detail =
     (if 1 \<le> length action \<and> length action \<le> 128 \<and> 1 \<le> length actor \<and> length actor \<le> 128
         \<and> 1 \<le> length key \<and> length key \<le> 255 \<and> length detail \<le> 4000
      then Some \<lparr>ae_action = action, ae_actor = actor, ae_key = key,
                 ae_occurred_at = occurred, ae_detail = detail\<rparr>
      else None)"

text \<open>\<open>TaskRecord(request=request)\<close>: the defaults of a new task.\<close>

definition new_task :: "uuid \<Rightarrow> task_request \<Rightarrow> instant \<Rightarrow> task_record" where
  "new_task tid req now =
     \<lparr>task_id = tid, task_request = req, task_state = RECEIVED, task_risk = MEDIUM,
      created_at = now, updated_at = now, evidence = [], evidence_items = [],
      audit_events = [], failure_reason = None\<rparr>"

subsection \<open>The state machine\<close>

fun ALLOWED :: "task_state \<Rightarrow> task_state list" where
  "ALLOWED RECEIVED = [VALIDATED, CONTEXT_READY, FAILED, CANCELLED]"
| "ALLOWED VALIDATED = [QUEUED, AWAITING_APPROVAL, FAILED, CANCELLED]"
| "ALLOWED AWAITING_APPROVAL = [QUEUED, FAILED, CANCELLED]"
| "ALLOWED QUEUED = [PLANNING, FAILED, CANCELLED]"
| "ALLOWED PLANNING = [EXECUTING, AWAITING_APPROVAL, FAILED, CANCELLED]"
| "ALLOWED CONTEXT_READY = [PLANNED, FAILED, CANCELLED]"
| "ALLOWED PLANNED = [APPROVAL_REQUIRED, EXECUTING, FAILED, CANCELLED]"
| "ALLOWED APPROVAL_REQUIRED = [EXECUTING, CANCELLED, FAILED]"
| "ALLOWED EXECUTING = [TESTING, VERIFYING, FAILED, CANCELLED]"
| "ALLOWED TESTING = [GUARDING, FIXING, FAILED, CANCELLED]"
| "ALLOWED GUARDING = [REVIEWING, FIXING, FAILED, CANCELLED]"
| "ALLOWED VERIFYING = [REVIEWING, EXECUTING, FAILED]"
| "ALLOWED REVIEWING = [EXECUTING, FIXING, READY_FOR_PR, FAILED, CANCELLED]"
| "ALLOWED FIXING = [EXECUTING, FAILED, CANCELLED]"
| "ALLOWED READY_FOR_PR = [PR_OPENED, COMPLETED, FAILED]"
| "ALLOWED PR_OPENED = [COMPLETED, FAILED, CANCELLED]"
| "ALLOWED COMPLETED = []"
| "ALLOWED FAILED = []"
| "ALLOWED CANCELLED = []"

datatype transition_error = InvalidTransition task_state task_state | AuditValidationError

definition edge_detail :: "task_state \<Rightarrow> task_state \<Rightarrow> string" where
  "edge_detail source target = state_value source @ ''->'' @ state_value target"

definition transition_key ::
  "task_state \<Rightarrow> task_state \<Rightarrow> string option \<Rightarrow> string option \<Rightarrow> string" where
  "transition_key source target ev key = str_or key
     (''transition:'' @ state_value source @ '':'' @ state_value target @ '':'' @ str_or ev [])"

definition transition ::
  "instant \<Rightarrow> task_record \<Rightarrow> task_state \<Rightarrow> string option \<Rightarrow> string option \<Rightarrow> string
   \<Rightarrow> transition_error option \<times> task_record" where
  "transition now task target ev idempotency_key actor =
     (let key = transition_key (task_state task) target ev idempotency_key in
      if \<exists>event \<in> set (audit_events task). ae_key event = key then (None, task)
      else if target \<notin> set (ALLOWED (task_state task))
        then (Some (InvalidTransition (task_state task) target), task)
      else
        let source = task_state task;
            moved = task\<lparr>task_state := target, updated_at := now\<rparr>;
            noted = (if str_or ev [] \<noteq> []
                     then moved\<lparr>evidence := evidence moved @ [str_or ev []]\<rparr> else moved)
        in case AuditEvent ''task.transition'' actor key now (edge_detail source target) of
             None \<Rightarrow> (Some AuditValidationError, noted)
           | Some event \<Rightarrow> (None, noted\<lparr>audit_events := audit_events noted @ [event]\<rparr>))"

text \<open>A call of \<open>transition\<close>, and a history of calls on one task object.\<close>

record transition_call =
  tc_now :: instant
  tc_target :: task_state
  tc_evidence :: "string option"
  tc_key :: "string option"
  tc_actor :: string

definition apply_call :: "transition_call \<Rightarrow> task_record \<Rightarrow> task_record" where
  "apply_call c t =
     snd (transition (tc_now c) t (tc_target c) (tc_evidence c) (tc_key c) (tc_actor c))"

definition apply_calls :: "transition_call list \<Rightarrow> task_record \<Rightarrow> task_record" where
  "apply_calls cs t = fold apply_call cs t"

subsection \<open>One call\<close>

lemma state_value_inj [simp]: "state_value a = state_value b \<longleftrightarrow> a = b"
  by (cases a; cases b) simp_all

lemma length_state_value: "1 \<le> length (state_value s) \<and> length (state_value s) \<le> 17"
  by (cases s) simp_all

lemma length_edge_detail: "length (edge_detail a b) \<le> 36"
  using length_state_value [of a] length_state_value [of b] by (simp add: edge_detail_def)

text \<open>The four outcomes of a call, on the fields that matter.\<close>

lemma transition_cases:
  obtains (seen) "transition now t tgt ev k a = (None, t)"
      "\<exists>e \<in> set (audit_events t). ae_key e = transition_key (task_state t) tgt ev k"
  | (denied) "transition now t tgt ev k a = (Some (InvalidTransition (task_state t) tgt), t)"
      "tgt \<notin> set (ALLOWED (task_state t))"
  | (broken) t' where "transition now t tgt ev k a = (Some AuditValidationError, t')"
      "tgt \<in> set (ALLOWED (task_state t))" "task_state t' = tgt"
      "audit_events t' = audit_events t"
      "AuditEvent ''task.transition'' a (transition_key (task_state t) tgt ev k) now
         (edge_detail (task_state t) tgt) = None"
  | (moved) t' e where "transition now t tgt ev k a = (None, t')"
      "tgt \<in> set (ALLOWED (task_state t))" "task_state t' = tgt"
      "audit_events t' = audit_events t @ [e]"
      "ae_detail e = edge_detail (task_state t) tgt"
      "ae_key e = transition_key (task_state t) tgt ev k"
      "\<forall>e' \<in> set (audit_events t). ae_key e' \<noteq> ae_key e"
proof -
  let ?key = "transition_key (task_state t) tgt ev k"
  consider "\<exists>e \<in> set (audit_events t). ae_key e = ?key"
    | "\<forall>e \<in> set (audit_events t). ae_key e \<noteq> ?key" "tgt \<notin> set (ALLOWED (task_state t))"
    | "\<forall>e \<in> set (audit_events t). ae_key e \<noteq> ?key" "tgt \<in> set (ALLOWED (task_state t))"
    by blast
  then show thesis
  proof cases
    case 1
    then show ?thesis using seen by (auto simp: transition_def)
  next
    case 2
    then show ?thesis using denied by (auto simp: transition_def)
  next
    case 3
    show ?thesis
    proof (cases "AuditEvent ''task.transition'' a ?key now (edge_detail (task_state t) tgt)")
      case None
      show ?thesis
        by (intro broken [of "snd (transition now t tgt ev k a)"])
          (use 3 None in \<open>auto simp: transition_def Let_def\<close>)
    next
      case (Some e)
      then have "ae_key e = ?key" "ae_detail e = edge_detail (task_state t) tgt"
        by (auto simp: AuditEvent_def split: if_splits)
      then show ?thesis
        by (intro moved [of "snd (transition now t tgt ev k a)" e])
          (use 3 Some in \<open>auto simp: transition_def Let_def\<close>)
    qed
  qed
qed

lemma apply_call_state:
  "task_state (apply_call c t) = task_state t
   \<or> task_state (apply_call c t) \<in> set (ALLOWED (task_state t))"
  unfolding apply_call_def
  by (rule transition_cases [of "tc_now c" t "tc_target c" "tc_evidence c" "tc_key c" "tc_actor c"])
    simp_all

subsection \<open>Histories\<close>

definition may_follow :: "task_state \<Rightarrow> task_state \<Rightarrow> bool" where
  "may_follow a b \<longleftrightarrow> b \<in> set (ALLOWED a)"

interpretation lifecycle_paths: related_by apply_call
  "\<lambda>s t. may_follow\<^sup>*\<^sup>* (task_state s) (task_state t)"
proof
  show "may_follow\<^sup>*\<^sup>* (task_state s) (task_state (apply_call c s))" for s c
    using apply_call_state [of c s] by (auto simp: may_follow_def)
qed auto

text \<open>
  Whatever sequence of transition calls is made on a task, accepted, repeated or refused,
  the state it ends in is reachable from the state it started in along edges of the
  declared transition table.
\<close>

theorem calls_follow_table:
  "may_follow\<^sup>*\<^sup>* (task_state t) (task_state (apply_calls cs t))"
  unfolding apply_calls_def by (rule lifecycle_paths.run_rel)

lemma may_follow_closed: "\<lbrakk>ALLOWED s = []; may_follow\<^sup>*\<^sup>* s u\<rbrakk> \<Longrightarrow> u = s"
  by (erule converse_rtranclpE) (auto simp: may_follow_def)

text \<open>
  Completed, failed and cancelled tasks are final: no sequence of transition calls
  changes the state of a task that has reached one of them.
\<close>

theorem terminal_states_absorb:
  assumes "task_state t \<in> {COMPLETED, FAILED, CANCELLED}"
  shows "task_state (apply_calls cs t) = task_state t"
proof (rule may_follow_closed)
  show "ALLOWED (task_state t) = []" using assms by auto
  show "may_follow\<^sup>*\<^sup>* (task_state t) (task_state (apply_calls cs t))"
    unfolding apply_calls_def by (rule lifecycle_paths.run_rel)
qed

definition sample_request :: task_request where
  "sample_request = \<lparr>repository = ''o/r'', instruction = ''fix'', base_branch = ''main'', dry_run = True\<rparr>"

definition sample_call :: "task_state \<Rightarrow> transition_call" where
  "sample_call s = \<lparr>tc_now = 1, tc_target = s, tc_evidence = None, tc_key = None, tc_actor = ''x''\<rparr>"

theorem terminal_states_absorb_witness:
  "task_state (apply_calls [sample_call QUEUED]
     ((new_task ''t'' sample_request 0)\<lparr>task_state := FAILED\<rparr>)) = FAILED"
  using terminal_states_absorb
    [of "(new_task ''t'' sample_request 0)\<lparr>task_state := FAILED\<rparr>" "[sample_call QUEUED]"]
  by simp

subsection \<open>The audit trail\<close>

text \<open>
  \<open>audit_trail a es b\<close>: the details of the events \<open>es\<close> spell a path of the table from
  \<open>a\<close> to \<open>b\<close>, one edge per event.
\<close>

inductive audit_trail :: "task_state \<Rightarrow> audit_event list \<Rightarrow> task_state \<Rightarrow> bool" where
  trail_start: "audit_trail a [] a"
| trail_edge: "\<lbrakk>audit_trail a es b; may_follow b c; ae_detail e = edge_detail b c\<rbrakk>
    \<Longrightarrow> audit_trail a (es @ [e]) c"

inductive_cases audit_trail_snocE: "audit_trail a (es @ [e]) c"

text \<open>The callers' side of the audit model: an actor and keys of a length it accepts.\<close>

definition call_ok :: "transition_call \<Rightarrow> bool" where
  "call_ok c \<longleftrightarrow> 1 \<le> length (tc_actor c) \<and> length (tc_actor c) \<le> 128
     \<and> length (str_or (tc_key c) []) \<le> 255 \<and> length (str_or (tc_evidence c) []) \<le> 208"

lemma call_ok_key:
  assumes "call_ok c"
  shows "1 \<le> length (transition_key s (tc_target c) (tc_evidence c) (tc_key c))
    \<and> length (transition_key s (tc_target c) (tc_evidence c) (tc_key c)) \<le> 255"
  using assms length_state_value [of s] length_state_value [of "tc_target c"]
  by (auto simp: call_ok_def transition_key_def str_or_def Suc_le_eq split: option.splits if_splits)

lemma call_ok_audits:
  assumes "call_ok c"
  shows "AuditEvent ''task.transition'' (tc_actor c)
    (transition_key s (tc_target c) (tc_evidence c) (tc_key c)) now (edge_detail s (tc_target c)) \<noteq> None"
  using assms call_ok_key [OF assms, of s] length_edge_detail [of s "tc_target c"]
  by (auto simp: AuditEvent_def call_ok_def)

lemma apply_call_trail:
  assumes "call_ok c" "audit_trail a (audit_events t) (task_state t)"
  shows "audit_trail a (audit_events (apply_call c t)) (task_state (apply_call c t))"
  unfolding apply_call_def
  by (rule transition_cases [of "tc_now c" t "tc_target c" "tc_evidence c" "tc_key c" "tc_actor c"])
    (use assms call_ok_audits [OF assms(1), of "task_state t" "tc_now c"] in
      \<open>auto intro: trail_edge simp: may_follow_def\<close>)

lemma apply_calls_trail:
  "\<lbrakk>\<forall>c \<in> set cs. call_ok c; audit_trail a (audit_events t) (task_state t)\<rbrakk>
   \<Longrightarrow> audit_trail a (audit_events (apply_calls cs t)) (task_state (apply_calls cs t))"
  unfolding apply_calls_def
  by (induction cs arbitrary: t) (simp_all add: apply_call_trail)

text \<open>
  C1. For callers that pass an actor of 1 to 128 characters and keys the audit model
  accepts, the audit log of a task is a complete account of its life: its events spell,
  in order and without a gap, a path of the transition table from received to the state
  the task is in.
\<close>

theorem audit_log_explains_state:
  assumes "\<forall>c \<in> set cs. call_ok c"
  shows "audit_trail RECEIVED (audit_events (apply_calls cs (new_task i r n)))
    (task_state (apply_calls cs (new_task i r n)))"
  using assms by (rule apply_calls_trail) (simp add: new_task_def trail_start)

theorem audit_log_explains_state_witness:
  "audit_trail RECEIVED
     (audit_events (apply_calls [sample_call VALIDATED] (new_task ''t'' sample_request 0)))
     (task_state (apply_calls [sample_call VALIDATED] (new_task ''t'' sample_request 0)))"
  by (rule audit_log_explains_state) (simp add: sample_call_def call_ok_def)

text \<open>The stages of delivery come after a review.\<close>

lemma trail_delivery_reviewed:
  "\<lbrakk>audit_trail a es b; a = RECEIVED; b \<in> {READY_FOR_PR, PR_OPENED, COMPLETED}\<rbrakk>
   \<Longrightarrow> \<exists>e \<in> set es. ae_detail e = edge_detail REVIEWING READY_FOR_PR"
proof (induction rule: audit_trail.induct)
  case (trail_start a)
  then show ?case by auto
next
  case (trail_edge a es b c e)
  then show ?case by (cases b) (auto simp: may_follow_def)
qed

text \<open>A task in a stage of delivery was at some call taken from the review to delivery, recorded or not.\<close>

lemma passed_review:
  assumes "task_state t = RECEIVED" "task_state (apply_calls cs t) \<in> {READY_FOR_PR, PR_OPENED, COMPLETED}"
  shows "\<exists>earlier c later. cs = earlier @ c # later \<and> task_state (apply_calls earlier t) = REVIEWING
    \<and> task_state (apply_calls (earlier @ [c]) t) = READY_FOR_PR"
  using assms(2)
proof (induction cs rule: rev_induct)
  case Nil
  then show ?case using assms(1) by (simp add: apply_calls_def)
next
  case (snoc c cs)
  let ?before = "task_state (apply_calls cs t)" and ?now = "task_state (apply_calls (cs @ [c]) t)"
  have step: "?now = ?before \<or> ?now \<in> set (ALLOWED ?before)"
    using apply_call_state [of c "apply_calls cs t"] by (simp add: apply_calls_def)
  show ?case
  proof (cases "?before \<in> {READY_FOR_PR, PR_OPENED, COMPLETED}")
    case True
    then obtain earlier d later where "cs = earlier @ d # later" "task_state (apply_calls earlier t) = REVIEWING"
        "task_state (apply_calls (earlier @ [d]) t) = READY_FOR_PR"
      using snoc.IH by blast
    then show ?thesis by (intro exI [of _ earlier] exI [of _ d] exI [of _ "later @ [c]"]) simp
  next
    case False
    then have "?before = REVIEWING \<and> ?now = READY_FOR_PR" using step snoc.prems by (cases ?before) auto
    then show ?thesis by blast
  qed
qed

text \<open>
  C2. No delivery without review. Whatever calls of transition were made on a new task, accepted, repeated, refused
  or failing in the audit model: if the task is ready for a pull request, has one, or is completed, one of the
  calls took it from reviewing to ready_for_pr. If moreover every call has an actor and keys of a length the
  audit model accepts (call_ok), the audit log holds an event for that edge.
\<close>

theorem delivery_was_reviewed:
  assumes "task_state (apply_calls cs (new_task i r n)) \<in> {READY_FOR_PR, PR_OPENED, COMPLETED}"
  shows "(\<exists>earlier c later. cs = earlier @ c # later
      \<and> task_state (apply_calls earlier (new_task i r n)) = REVIEWING
      \<and> task_state (apply_calls (earlier @ [c]) (new_task i r n)) = READY_FOR_PR)
    \<and> ((\<forall>c \<in> set cs. call_ok c) \<longrightarrow> (\<exists>e \<in> set (audit_events (apply_calls cs (new_task i r n))).
        ae_detail e = ''reviewing->ready_for_pr''))"
proof (intro conjI impI)
  show "\<exists>earlier c later. cs = earlier @ c # later \<and> task_state (apply_calls earlier (new_task i r n)) = REVIEWING
      \<and> task_state (apply_calls (earlier @ [c]) (new_task i r n)) = READY_FOR_PR"
    by (rule passed_review [OF _ assms]) (simp add: new_task_def)
  assume "\<forall>c \<in> set cs. call_ok c"
  then have "audit_trail RECEIVED (audit_events (apply_calls cs (new_task i r n)))
      (task_state (apply_calls cs (new_task i r n)))"
    by (rule apply_calls_trail) (simp add: new_task_def trail_start)
  from trail_delivery_reviewed [OF this refl assms]
  show "\<exists>e \<in> set (audit_events (apply_calls cs (new_task i r n))). ae_detail e = ''reviewing->ready_for_pr''"
    by (simp add: edge_detail_def)
qed

definition reviewed_path :: "transition_call list" where
  "reviewed_path = map sample_call
     [VALIDATED, QUEUED, PLANNING, EXECUTING, TESTING, GUARDING, REVIEWING, READY_FOR_PR]"

lemma reviewed_path_run:
  "task_state (apply_calls reviewed_path (new_task ''t'' sample_request 0)) = READY_FOR_PR"
  by (simp add: reviewed_path_def apply_calls_def apply_call_def transition_def sample_call_def
      new_task_def transition_key_def str_or_def AuditEvent_def edge_detail_def Let_def)

theorem delivery_was_reviewed_witness:
  "\<exists>e \<in> set (audit_events (apply_calls reviewed_path (new_task ''t'' sample_request 0))).
    ae_detail e = ''reviewing->ready_for_pr''"
proof -
  have "\<forall>c \<in> set reviewed_path. call_ok c" by (simp add: reviewed_path_def sample_call_def call_ok_def)
  then show ?thesis using delivery_was_reviewed [of reviewed_path "''t''" sample_request 0] reviewed_path_run by simp
qed

subsection \<open>Idempotency keys\<close>

interpretation audit_keys: kept_by apply_call "\<lambda>t. distinct (map ae_key (audit_events t))"
proof
  fix t :: task_record and c
  assume "distinct (map ae_key (audit_events t))"
  then show "distinct (map ae_key (audit_events (apply_call c t)))"
    unfolding apply_call_def
    by (cases rule: transition_cases
        [of "tc_now c" t "tc_target c" "tc_evidence c" "tc_key c" "tc_actor c"]) auto
qed

interpretation audit_growth: related_by apply_call
  "\<lambda>s t. set (audit_events s) \<subseteq> set (audit_events t)"
proof
  show "set (audit_events t) \<subseteq> set (audit_events (apply_call c t))" for t :: task_record and c
    unfolding apply_call_def
    by (cases rule: transition_cases
        [of "tc_now c" t "tc_target c" "tc_evidence c" "tc_key c" "tc_actor c"]) auto
qed auto

lemma audit_events_grow: "e \<in> set (audit_events t) \<Longrightarrow> e \<in> set (audit_events (apply_calls cs t))"
  using audit_growth.run_rel [of t cs] by (auto simp: apply_calls_def)

lemma transition_seen:
  "\<exists>e \<in> set (audit_events t). ae_key e = transition_key (task_state t) tgt ev k
   \<Longrightarrow> transition now t tgt ev k a = (None, t)"
  by (simp add: transition_def)

text \<open>
  Explicit idempotency keys: once a call with a given key has moved the task, every
  later call with that key, whatever its target and evidence, and whatever happened in
  between, leaves the task exactly as it is and raises nothing.
\<close>

theorem explicit_key_applies_once:
  assumes "k \<noteq> []" and "call_ok c" and "tc_key c = Some k"
    and "task_state (apply_call c t) \<noteq> task_state t"
  shows "transition now (apply_calls cs (apply_call c t)) tgt ev (Some k) a
    = (None, apply_calls cs (apply_call c t))"
proof (rule transition_seen)
  have key: "transition_key s g e (Some k) = k" for s g e
    using assms(1) by (simp add: transition_key_def)
  have "\<exists>e \<in> set (audit_events (apply_call c t)). ae_key e = k"
    using assms(2-4) key call_ok_audits [OF assms(2), of "task_state t" "tc_now c"]
    unfolding apply_call_def
    by (cases rule: transition_cases
        [of "tc_now c" t "tc_target c" "tc_evidence c" "tc_key c" "tc_actor c"]) auto
  then show "\<exists>e \<in> set (audit_events (apply_calls cs (apply_call c t))).
      ae_key e = transition_key (task_state (apply_calls cs (apply_call c t))) tgt ev (Some k)"
    using audit_events_grow by (auto simp: key)
qed

theorem explicit_key_applies_once_witness:
  "transition 5 (apply_calls [sample_call QUEUED]
      (apply_call (sample_call VALIDATED\<lparr>tc_key := Some ''request-1''\<rparr>) (new_task ''t'' sample_request 0)))
     VALIDATED None (Some ''request-1'') ''x''
   = (None, apply_calls [sample_call QUEUED]
      (apply_call (sample_call VALIDATED\<lparr>tc_key := Some ''request-1''\<rparr>) (new_task ''t'' sample_request 0)))"
  by (rule explicit_key_applies_once)
    (simp_all add: sample_call_def call_ok_def apply_call_def transition_def new_task_def
      transition_key_def AuditEvent_def edge_detail_def Let_def)

text \<open>
  Calls without a key share the key derived from source, target and evidence, and a
  key moves a task once. So in the whole life of a task an edge of the table is taken at
  most once with the same evidence: when a corrective loop brings the task back to the
  source of an edge it has taken before, asking for the edge again raises no error and
  does not move the task.
\<close>

theorem default_key_swallows_second_pass:
  assumes "\<exists>e \<in> set (audit_events t). ae_key e = transition_key s tgt ev None"
    and "task_state (apply_calls cs t) = s"
  shows "transition now (apply_calls cs t) tgt ev None a = (None, apply_calls cs t)"
proof (rule transition_seen)
  show "\<exists>e \<in> set (audit_events (apply_calls cs t)).
      ae_key e = transition_key (task_state (apply_calls cs t)) tgt ev None"
    using assms audit_events_grow by blast
qed

lemmas lifecycle_eval = apply_calls_def apply_call_def transition_def sample_call_def
  new_task_def transition_key_def str_or_def AuditEvent_def edge_detail_def Let_def

theorem default_key_swallows_second_pass_witness:
  "transition 9 (apply_calls (map sample_call [FIXING, EXECUTING])
       (apply_calls (map sample_call [VALIDATED, QUEUED, PLANNING, EXECUTING, TESTING])
         (new_task ''t'' sample_request 0))) TESTING None None ''x''
   = (None, apply_calls (map sample_call [FIXING, EXECUTING])
       (apply_calls (map sample_call [VALIDATED, QUEUED, PLANNING, EXECUTING, TESTING])
         (new_task ''t'' sample_request 0)))"
  by (rule default_key_swallows_second_pass [where s = EXECUTING])
    (simp_all add: lifecycle_eval)

text \<open>
  The task is moved before its audit event is built. A call over an allowed edge whose
  key the audit model refuses (longer than 255 characters, for instance because the
  evidence text is) raises, and leaves the task in the target state with no audit event
  for the move.
\<close>

theorem oversized_key_moves_unaudited:
  assumes "tgt \<in> set (ALLOWED (task_state t))"
    and "\<forall>e \<in> set (audit_events t). length (ae_key e) \<le> 255"
    and "255 < length (transition_key (task_state t) tgt ev k)"
  shows "\<exists>t'. transition now t tgt ev k a = (Some AuditValidationError, t')
    \<and> task_state t' = tgt \<and> audit_events t' = audit_events t"
  by (rule transition_cases [of now t tgt ev k a])
    (use assms in \<open>auto simp: transition_def AuditEvent_def Let_def\<close>)

theorem oversized_key_moves_unaudited_witness:
  "\<exists>t'. transition 1 (new_task ''t'' sample_request 0) VALIDATED (Some (replicate 256 CHR ''e'')) None ''x''
      = (Some AuditValidationError, t')
    \<and> task_state t' = VALIDATED \<and> audit_events t' = audit_events (new_task ''t'' sample_request 0)"
  by (rule oversized_key_moves_unaudited) (simp_all add: new_task_def transition_key_def)

subsection \<open>Progress\<close>

text \<open>One way to completion, as a function of the state: it arrives within eight steps.\<close>

fun toward_completed :: "task_state \<Rightarrow> task_state" where
  "toward_completed RECEIVED = CONTEXT_READY"
| "toward_completed CONTEXT_READY = PLANNED"
| "toward_completed VALIDATED = QUEUED"
| "toward_completed AWAITING_APPROVAL = QUEUED"
| "toward_completed QUEUED = PLANNING"
| "toward_completed EXECUTING = VERIFYING"
| "toward_completed TESTING = GUARDING"
| "toward_completed GUARDING = REVIEWING"
| "toward_completed VERIFYING = REVIEWING"
| "toward_completed REVIEWING = READY_FOR_PR"
| "toward_completed READY_FOR_PR = COMPLETED"
| "toward_completed PR_OPENED = COMPLETED"
| "toward_completed COMPLETED = COMPLETED"
| "toward_completed FAILED = FAILED"
| "toward_completed CANCELLED = CANCELLED"
| "toward_completed _ = EXECUTING"

lemma toward_follows: "may_follow\<^sup>=\<^sup>= s (toward_completed s)"
  by (cases s) (simp_all add: may_follow_def)

lemma toward_path: "may_follow\<^sup>*\<^sup>* s ((toward_completed ^^ n) s)"
proof (induction n)
  case (Suc n)
  then show ?case
    using toward_follows [of "(toward_completed ^^ n) s"]
    by (auto intro: rtranclp.rtrancl_into_rtrancl)
qed simp

lemma toward_arrives: "s \<notin> {FAILED, CANCELLED} \<Longrightarrow> (toward_completed ^^ 8) s = COMPLETED"
  by (cases s) (simp_all add: eval_nat_numeral)

text \<open>
  No task is ever wedged by the table: from every state that is not final, the task may
  fail in one step, and a path of the table leads to completed.
\<close>

theorem open_states_can_finish:
  assumes "s \<notin> {COMPLETED, FAILED, CANCELLED}"
  shows "may_follow s FAILED \<and> may_follow\<^sup>*\<^sup>* s COMPLETED"
proof
  show "may_follow s FAILED" using assms by (cases s) (simp_all add: may_follow_def)
  show "may_follow\<^sup>*\<^sup>* s COMPLETED"
    using toward_path [of s 8] toward_arrives [of s] assms by simp
qed

theorem open_states_can_finish_witness:
  "may_follow AWAITING_APPROVAL FAILED \<and> may_follow\<^sup>*\<^sup>* AWAITING_APPROVAL COMPLETED"
  by (rule open_states_can_finish) simp

end
