(* ===== verification/Py_Path.thy ===== *)
theory Py_Path
  imports Prelude
begin

text \<open>
  The two pieces of Python's standard library that the policy, skill and repository code
  reads paths with: \<open>pathlib.PurePosixPath\<close> (parsing drops empty and dot components, one
  or three and more leading slashes are the root, exactly two are kept apart) and
  \<open>fnmatch.fnmatch\<close> on a POSIX host (the star also matches slashes).
\<close>

subsection \<open>PurePosixPath\<close>

record pure_path =
  pp_root :: string
  pp_tail :: "string list"

fun leading_slashes :: "string \<Rightarrow> nat" where
  "leading_slashes [] = 0"
| "leading_slashes (c # cs) = (if c = CHR ''/'' then Suc (leading_slashes cs) else 0)"

definition pure_path :: "string \<Rightarrow> pure_path" where
  "pure_path s =
     \<lparr>pp_root = (if leading_slashes s = 0 then [] else if leading_slashes s = 2 then ''//'' else ''/''),
      pp_tail = filter (\<lambda>p. p \<noteq> [] \<and> p \<noteq> ''.'') (split_on CHR ''/'' s)\<rparr>"

definition path_parts :: "string \<Rightarrow> string list" where
  "path_parts s = (if pp_root (pure_path s) = [] then [] else [pp_root (pure_path s)])
     @ pp_tail (pure_path s)"

definition path_name :: "string \<Rightarrow> string" where
  "path_name s = (if pp_tail (pure_path s) = [] then [] else last (pp_tail (pure_path s)))"

definition path_is_absolute :: "string \<Rightarrow> bool" where
  "path_is_absolute s \<longleftrightarrow> pp_root (pure_path s) \<noteq> []"

definition path_str :: "string \<Rightarrow> string" where
  "path_str s = (let p = pure_path s in
     if pp_root p = [] \<and> pp_tail p = [] then ''.''
     else pp_root p @ join_with ''/'' (pp_tail p))"

lemma path_tail_parts: "x \<in> set (pp_tail (pure_path s)) \<Longrightarrow> x \<noteq> [] \<and> x \<noteq> ''.'' \<and> CHR ''/'' \<notin> set x"
  by (auto simp: pure_path_def dest: split_on_parts_free)

lemma path_name_no_slash: "CHR ''/'' \<notin> set (path_name s)"
  by (auto simp: path_name_def dest: path_tail_parts last_in_set)

lemma path_absolute_slash: "path_is_absolute s \<longleftrightarrow> (\<exists>rest. s = CHR ''/'' # rest)"
  by (cases s) (auto simp: path_is_absolute_def pure_path_def)

text \<open>A path without dot or empty components is its own normal form.\<close>

lemma path_str_plain:
  assumes "s \<noteq> []" "\<forall>p \<in> set (split_on CHR ''/'' s). p \<noteq> [] \<and> p \<noteq> ''.''"
  shows "path_str s = s"
proof -
  have f: "filter (\<lambda>p. p \<noteq> [] \<and> p \<noteq> ''.'') (split_on CHR ''/'' s) = split_on CHR ''/'' s"
    using assms(2) by simp
  have "leading_slashes s = 0"
    using assms(1,2) by (cases s) auto
  then show ?thesis
    using f join_split_on [of "CHR ''/''" s] split_on_not_Nil [of "CHR ''/''" s]
    by (simp add: path_str_def pure_path_def Let_def)
qed

subsection \<open>fnmatch\<close>

text \<open>One member of a bracket expression: a character or a range.\<close>

datatype glob_item = GChar char | GRange char char

datatype glob_token = GAny | GStar | GLit char | GSet bool "glob_item list"

text \<open>The members between the brackets, read from left to right.\<close>

fun glob_items :: "string \<Rightarrow> glob_item list" where
  "glob_items [] = []"
| "glob_items [c] = [GChar c]"
| "glob_items [c, d] = [GChar c, GChar d]"
| "glob_items (c # d # e # rest) =
     (if d = CHR ''-'' then GRange c e # glob_items rest else GChar c # glob_items (d # e # rest))"

text \<open>
  The body of a bracket expression ends at the first closing bracket, where a closing
  bracket at the start of the body (after an exclamation mark, if any) is a member.
\<close>

fun until_bracket :: "string \<Rightarrow> (string \<times> string) option" where
  "until_bracket [] = None"
| "until_bracket (c # cs) =
     (if c = CHR '']'' then Some ([], cs)
      else case until_bracket cs of None \<Rightarrow> None | Some (body, rest) \<Rightarrow> Some (c # body, rest))"

definition bracket_body :: "string \<Rightarrow> (string \<times> string) option" where
  "bracket_body cs =
     (if take 1 cs = '']''
      then map_option (\<lambda>(body, rest). (CHR '']'' # body, rest)) (until_bracket (tl cs))
      else until_bracket cs)"

definition glob_bracket :: "string \<Rightarrow> (glob_token \<times> string) option" where
  "glob_bracket cs =
     (let negated = (case cs of c # _ \<Rightarrow> c = CHR ''!'' | [] \<Rightarrow> False)
      in case bracket_body (if negated then tl cs else cs) of
           None \<Rightarrow> None
         | Some (body, rest) \<Rightarrow> Some (GSet negated (glob_items body), rest))"

lemma until_bracket_shorter: "until_bracket cs = Some (b, r) \<Longrightarrow> length r < length cs"
  by (induction cs arbitrary: b r) (fastforce split: if_splits option.splits)+

lemma bracket_body_shorter: "bracket_body cs = Some (b, r) \<Longrightarrow> length r < length cs"
  unfolding bracket_body_def
  by (cases cs) (auto split: if_splits option.splits dest!: until_bracket_shorter)

lemma glob_bracket_shorter: "glob_bracket cs = Some (t, r) \<Longrightarrow> length r \<le> length cs"
  unfolding glob_bracket_def Let_def
  by (auto split: option.splits if_splits list.splits prod.splits dest!: bracket_body_shorter)

function glob_tokens :: "string \<Rightarrow> glob_token list" where
  "glob_tokens [] = []"
| "glob_tokens (c # cs) =
     (if c = CHR ''*'' then GStar # glob_tokens cs
      else if c = CHR ''?'' then GAny # glob_tokens cs
      else if c = CHR ''['' then
        (case glob_bracket cs of None \<Rightarrow> GLit c # glob_tokens cs
         | Some (t, rest) \<Rightarrow> t # glob_tokens rest)
      else GLit c # glob_tokens cs)"
  by pat_completeness auto
termination
  by (relation "measure length") (auto dest!: glob_bracket_shorter)

definition item_matches :: "char \<Rightarrow> glob_item \<Rightarrow> bool" where
  "item_matches c g = (case g of GChar d \<Rightarrow> c = d | GRange lo hi \<Rightarrow> lo \<le> c \<and> c \<le> hi)"

fun glob_match :: "glob_token list \<Rightarrow> string \<Rightarrow> bool" where
  "glob_match [] s = (s = [])"
| "glob_match (GStar # ts) [] = glob_match ts []"
| "glob_match (GStar # ts) (c # cs) = (glob_match ts (c # cs) \<or> glob_match (GStar # ts) cs)"
| "glob_match (GAny # ts) s = (case s of [] \<Rightarrow> False | _ # cs \<Rightarrow> glob_match ts cs)"
| "glob_match (GLit d # ts) s = (case s of [] \<Rightarrow> False | c # cs \<Rightarrow> c = d \<and> glob_match ts cs)"
| "glob_match (GSet negated items # ts) s =
     (case s of [] \<Rightarrow> False
      | c # cs \<Rightarrow> (list_ex (item_matches c) items \<noteq> negated) \<and> glob_match ts cs)"

definition fnmatch :: "string \<Rightarrow> string \<Rightarrow> bool" where
  "fnmatch name pat = glob_match (glob_tokens pat) name"

lemma glob_star: "glob_match [GStar] s"
  by (induction s) simp_all

lemma fnmatch_literal_prefix:
  "\<lbrakk>\<forall>c \<in> set p. c \<notin> {CHR ''*'', CHR ''?'', CHR ''[''}\<rbrakk> \<Longrightarrow> fnmatch s (p @ ''*'') \<longleftrightarrow> starts_with s p"
proof (induction p arbitrary: s)
  case Nil
  then show ?case by (simp add: fnmatch_def glob_star starts_with_def)
next
  case (Cons c p)
  then show ?case by (cases s) (auto simp: fnmatch_def starts_with_def)
qed

end
