(* ===== verification/Policy.thy ===== *)
theory Policy
  imports Py_Path Lifecycle
begin

text \<open>
  The declarative policy engine of \<open>policies/engine.py\<close> and \<open>policies/models.py\<close>:
  rules are matched against a request in a deterministic order, a mandatory platform
  effect is computed from the risk input, and the strongest effect wins. The canonical
  hash of a decision (\<open>stable_hash\<close>, SHA-256 over canonical JSON) is a parameter.
\<close>

subsection \<open>Data\<close>

datatype policy_effect = ALLOW | APPROVAL | DENY

text \<open>\<open>PolicyPriority\<close> is an \<open>IntEnum\<close>.\<close>

datatype policy_priority = TASK | REPOSITORY_PROFILE | REPOSITORY | GLOBAL

fun priority_value :: "policy_priority \<Rightarrow> int" where
  "priority_value TASK = 10"
| "priority_value REPOSITORY_PROFILE = 20"
| "priority_value REPOSITORY = 30"
| "priority_value GLOBAL = 40"

record policy_rule =
  rule_id :: string
  rule_version :: string
  rule_priority :: policy_priority
  rule_effect :: policy_effect
  rule_actions :: "string list"
  path_patterns :: "string list"
  command_names :: "string list"
  required_roles :: "string list"
  rule_skills :: "string list"
  rule_checks :: "string list"
  rule_reason :: string

record risk_input =
  changed_paths :: "string list"
  changed_bytes :: int
  authentication_changed :: bool
  authorization_changed :: bool
  secret_changed :: bool
  migration_changed :: bool
  workflow_changed :: bool
  infrastructure_changed :: bool
  deployment_requested :: bool
  network_expanded :: bool
  dependency_changed :: bool
  destructive_command :: bool
  resource_escalation :: bool
  critical_findings :: int

record policy_request =
  rq_action :: string
  rq_repository :: string
  rq_actor_role :: string
  rq_paths :: "string list"
  rq_command :: "string list"
  rq_network_hosts :: "string list"
  rq_risk :: risk_input

record policy_values =
  pd_effect :: policy_effect
  pd_risk :: risk_level
  pd_reasons :: "string list"
  pd_matched_rules :: "string list"
  pd_policy_versions :: "string list"
  pd_required_skills :: "string list"
  pd_required_checks :: "string list"
  pd_resource_limits :: "(string \<times> int) list"
  pd_network_limits :: "string list"
  pd_tool_limits :: "(string \<times> int) list"
  pd_reevaluate_when :: "string list"

record policy_decision = policy_values +
  decision_hash :: digest

fun effect_value :: "policy_effect \<Rightarrow> string" where
  "effect_value ALLOW = ''allow''"
| "effect_value DENY = ''deny''"
| "effect_value APPROVAL = ''approval_required''"

text \<open>The strength order the engine implements by its case distinctions.\<close>

instantiation policy_effect :: linorder
begin

definition less_eq_policy_effect :: "policy_effect \<Rightarrow> policy_effect \<Rightarrow> bool" where
  "less_eq_policy_effect a b \<longleftrightarrow> a = ALLOW \<or> b = DENY \<or> a = b"

definition less_policy_effect :: "policy_effect \<Rightarrow> policy_effect \<Rightarrow> bool" where
  "less_policy_effect a b \<longleftrightarrow> a \<le> b \<and> a \<noteq> (b :: policy_effect)"

instance
proof
  fix x y z :: policy_effect
  show "x < y \<longleftrightarrow> x \<le> y \<and> \<not> y \<le> x"
    by (cases x; cases y) (simp_all add: less_policy_effect_def less_eq_policy_effect_def)
  show "x \<le> x" by (simp add: less_eq_policy_effect_def)
  show "x \<le> z" if "x \<le> y" "y \<le> z"
    using that by (cases x; cases y; cases z) (simp_all add: less_eq_policy_effect_def)
  show "x = y" if "x \<le> y" "y \<le> x"
    using that by (cases x; cases y) (simp_all add: less_eq_policy_effect_def)
  show "x \<le> y \<or> y \<le> x" by (cases x; cases y) (simp_all add: less_eq_policy_effect_def)
qed

end

lemma effect_order [simp]:
  "ALLOW \<le> e" "e \<le> DENY" "APPROVAL \<le> e \<longleftrightarrow> e \<noteq> ALLOW" "DENY \<le> e \<longleftrightarrow> e = DENY"
  "e \<le> ALLOW \<longleftrightarrow> e = ALLOW"
  by (cases e; simp add: less_eq_policy_effect_def)+

subsection \<open>Operations\<close>

definition assess_risk :: "risk_input \<Rightarrow> risk_level" where
  "assess_risk v =
     (if critical_findings v \<noteq> 0 \<or> destructive_command v \<or> secret_changed v then CRITICAL
      else if migration_changed v \<or> workflow_changed v \<or> infrastructure_changed v
        \<or> deployment_requested v \<or> network_expanded v \<or> resource_escalation v
        \<or> authentication_changed v \<or> authorization_changed v then HIGH
      else if 20 < length (changed_paths v) \<or> 500000 < changed_bytes v \<or> dependency_changed v
        then MEDIUM
      else LOW)"

definition mandatory_prefixes :: "string list" where
  "mandatory_prefixes = [''.github/workflows/'', ''alembic/'', ''migrations/'', ''infra/production/'']"

definition mandatory_effect :: "risk_input \<Rightarrow> string list \<Rightarrow> string list \<Rightarrow> policy_effect" where
  "mandatory_effect risk paths command =
     (if destructive_command risk
         \<or> command \<noteq> [] \<and> path_name (hd command) \<in> {''rm'', ''dd'', ''mkfs''}
      then DENY
      else if list_ex (\<lambda>path. list_ex (starts_with path) mandatory_prefixes) paths
         \<or> migration_changed risk \<or> workflow_changed risk \<or> deployment_requested risk
         \<or> secret_changed risk \<or> network_expanded risk \<or> resource_escalation risk
         \<or> 0 < critical_findings risk
      then APPROVAL
      else ALLOW)"

definition matches :: "policy_rule \<Rightarrow> policy_request \<Rightarrow> bool" where
  "matches rule request =
     (if rq_action request \<notin> set (rule_actions rule) then False
      else if path_patterns rule \<noteq> []
        \<and> \<not> list_ex (\<lambda>path. list_ex (fnmatch path) (path_patterns rule)) (rq_paths request) then False
      else if command_names rule \<noteq> []
        \<and> (rq_command request = [] \<or> path_name (hd (rq_command request)) \<notin> set (command_names rule))
        then False
      else if required_roles rule \<noteq> [] \<and> rq_actor_role request \<notin> set (required_roles rule) then False
      else True)"

text \<open>The constructor sorts by descending priority, then by identifier (a stable sort).\<close>

definition rule_order :: "policy_rule \<Rightarrow> int \<times> string" where
  "rule_order r = (- priority_value (rule_priority r), rule_id r)"

definition engine_rules :: "policy_rule list \<Rightarrow> policy_rule list" where
  "engine_rules rules = sort_key rule_order rules"

text \<open>The loop over the matched rules, with its early exit on a deny.\<close>

fun strongest_effect :: "policy_effect \<Rightarrow> policy_rule list \<Rightarrow> policy_effect" where
  "strongest_effect strongest [] = strongest"
| "strongest_effect strongest (rule # rest) =
     (if rule_effect rule = DENY then DENY
      else if rule_effect rule = APPROVAL \<and> strongest = ALLOW then strongest_effect APPROVAL rest
      else strongest_effect strongest rest)"

definition decide_values :: "policy_rule list \<Rightarrow> policy_request \<Rightarrow> policy_values" where
  "decide_values rules request =
     (let matched = filter (\<lambda>rule. matches rule request) (engine_rules rules);
          mandatory = mandatory_effect (rq_risk request) (rq_paths request) (rq_command request);
          reasons = (if matched = [] then [''No matching declarative rule''] else map rule_reason matched)
      in \<lparr>pd_effect = strongest_effect mandatory matched,
          pd_risk = assess_risk (rq_risk request),
          pd_reasons = (if mandatory \<noteq> ALLOW
             then reasons @ [''Mandatory platform effect: '' @ effect_value mandatory] else reasons),
          pd_matched_rules = map rule_id matched,
          pd_policy_versions = sorted_set (map rule_version matched),
          pd_required_skills = sorted_set (concat (map rule_skills matched)),
          pd_required_checks = sorted_set (concat (map rule_checks matched)),
          pd_resource_limits = [(''memory_mb'', 1024), (''cpu_millis'', 1000)],
          pd_network_limits = [],
          pd_tool_limits = [(''calls'', 100), (''changed_files'', 100)],
          pd_reevaluate_when = [''base_sha_changes'', ''plan_changes'', ''diff_scope_changes'']\<rparr>)"

definition decide ::
  "(policy_values \<Rightarrow> digest) \<Rightarrow> policy_rule list \<Rightarrow> policy_request \<Rightarrow> policy_decision" where
  "decide stable_hash rules request =
     policy_values.extend (decide_values rules request)
       \<lparr>decision_hash = stable_hash (decide_values rules request)\<rparr>"

record command_decision =
  cd_allowed :: bool
  cd_risk :: risk_level
  cd_approval_required :: bool
  cd_reason :: string

definition blocked_commands :: "string list" where
  "blocked_commands = [''rm'', ''mkfs'', ''shutdown'', ''reboot'', ''dd'']"

definition protected_roots :: "string list" where
  "protected_roots = [''.github/workflows'', ''migrations'', ''alembic'', ''infra/production'']"

text \<open>\<open>None\<close> is the \<open>PolicyDenied\<close> raised for an empty command.\<close>

definition evaluate_command :: "string list \<Rightarrow> command_decision option" where
  "evaluate_command command = (case command of [] \<Rightarrow> None | first # _ \<Rightarrow>
     Some (if path_name first \<in> set blocked_commands
           then \<lparr>cd_allowed = False, cd_risk = CRITICAL, cd_approval_required = True,
                 cd_reason = ''Destructive command blocked''\<rparr>
           else \<lparr>cd_allowed = True, cd_risk = MEDIUM, cd_approval_required = False,
                 cd_reason = ''Command permitted by base policy''\<rparr>))"

definition under_root :: "string \<Rightarrow> string \<Rightarrow> bool" where
  "under_root path base \<longleftrightarrow> path = base \<or> starts_with path (base @ ''/'')"

definition evaluate_paths :: "string list \<Rightarrow> command_decision" where
  "evaluate_paths paths =
     (let guarded = sorted_set (filter (\<lambda>p. list_ex (under_root p) protected_roots) (map path_str paths))
      in if guarded \<noteq> []
         then \<lparr>cd_allowed = True, cd_risk = HIGH, cd_approval_required = True,
               cd_reason = ''Protected paths require approval: '' @ join_with '', '' guarded\<rparr>
         else \<lparr>cd_allowed = True, cd_risk = MEDIUM, cd_approval_required = False,
               cd_reason = ''No protected paths touched''\<rparr>)"

text \<open>\<open>policies/loader.py\<close> after parsing: identifiers must be unique.\<close>

definition load_policy_rules :: "policy_rule list option \<Rightarrow> policy_rule list option" where
  "load_policy_rules parsed = (case parsed of None \<Rightarrow> None
     | Some rules \<Rightarrow> if distinct (map rule_id rules) then Some (sort_key rule_order rules) else None)"

subsection \<open>The effect of a decision\<close>

lemma Max_insert_deny: "finite A \<Longrightarrow> Max (insert DENY A) = DENY"
  by (rule Max_eqI) auto

lemma Max_insert_max:
  "finite A \<Longrightarrow> Max (insert a (insert b A)) = Max (insert (max a b) A)"
  by (cases "A = {}") (simp_all add: max.assoc)

lemma strongest_effect_Max:
  "strongest_effect m rs = Max (insert m (rule_effect ` set rs))"
proof (induction rs arbitrary: m)
  case Nil
  then show ?case by simp
next
  case (Cons r rs)
  have "Max (insert m (rule_effect ` set (r # rs)))
      = Max (insert (max m (rule_effect r)) (rule_effect ` set rs))"
    unfolding list.set image_insert by (rule Max_insert_max) simp
  also have "\<dots> = strongest_effect (max m (rule_effect r)) rs"
    by (rule Cons.IH [symmetric])
  also have "\<dots> = strongest_effect m (r # rs)"
    using Cons.IH [of DENY]
    by (cases "rule_effect r"; cases m) (simp_all add: max_def Max_insert_deny)
  finally show ?case by simp
qed

lemma set_engine_rules [simp]: "set (engine_rules rules) = set rules"
  by (simp add: engine_rules_def)

lemma decide_effect [simp]:
  "pd_effect (decide h rules request) =
     Max (insert (mandatory_effect (rq_risk request) (rq_paths request) (rq_command request))
       (rule_effect ` {r \<in> set rules. matches r request}))"
  by (simp add: decide_def policy_values.defs decide_values_def Let_def strongest_effect_Max
      image_def conj_commute)

text \<open>
  C22. The early-exit loop of the engine computes the strongest effect: the effect of a
  decision is the maximum, in the order allow, approval, deny, of the mandatory platform
  effect and the effects of the rules that match the request, whatever their priorities.
\<close>

theorem decision_is_strongest:
  "pd_effect (decide stable_hash rules request) =
     Max (insert (mandatory_effect (rq_risk request) (rq_paths request) (rq_command request))
       (rule_effect ` {r \<in> set rules. matches r request}))"
  by (rule decide_effect)

text \<open>
  A declarative rule set cannot weaken a decision: adding rules, in any position and at
  any priority, keeps the effect or makes it stronger, and the effect is never weaker than
  the mandatory platform effect.
\<close>

theorem rules_only_strengthen:
  assumes "set rules \<subseteq> set rules'"
  shows "mandatory_effect (rq_risk request) (rq_paths request) (rq_command request)
      \<le> pd_effect (decide h rules request)
    \<and> pd_effect (decide h rules request) \<le> pd_effect (decide h rules' request)"
proof
  let ?m = "mandatory_effect (rq_risk request) (rq_paths request) (rq_command request)"
  show "?m \<le> pd_effect (decide h rules request)" by (simp add: Max_ge)
  show "pd_effect (decide h rules request) \<le> pd_effect (decide h rules' request)"
    unfolding decide_effect by (rule Max_mono) (use assms in auto)
qed

definition quiet_risk :: risk_input where
  "quiet_risk = \<lparr>changed_paths = [], changed_bytes = 0, authentication_changed = False,
     authorization_changed = False, secret_changed = False, migration_changed = False,
     workflow_changed = False, infrastructure_changed = False, deployment_requested = False,
     network_expanded = False, dependency_changed = False, destructive_command = False,
     resource_escalation = False, critical_findings = 0\<rparr>"

definition quiet_request :: "string list \<Rightarrow> policy_request" where
  "quiet_request paths = \<lparr>rq_action = ''write'', rq_repository = ''o/r'', rq_actor_role = ''operator'',
     rq_paths = paths, rq_command = [], rq_network_hosts = [], rq_risk = quiet_risk\<rparr>"

definition sample_rule :: "string \<Rightarrow> policy_priority \<Rightarrow> policy_effect \<Rightarrow> policy_rule" where
  "sample_rule i p e = \<lparr>rule_id = i, rule_version = ''1'', rule_priority = p, rule_effect = e,
     rule_actions = [''write''], path_patterns = [''src/*''], command_names = [], required_roles = [],
     rule_skills = [], rule_checks = [], rule_reason = ''r''\<rparr>"

theorem rules_only_strengthen_witness:
  "mandatory_effect quiet_risk [''src/a.py''] [] \<le>
     pd_effect (decide (\<lambda>_. ''h'') [sample_rule ''a'' GLOBAL ALLOW] (quiet_request [''src/a.py'']))
   \<and> pd_effect (decide (\<lambda>_. ''h'') [sample_rule ''a'' GLOBAL ALLOW] (quiet_request [''src/a.py'']))
     \<le> pd_effect (decide (\<lambda>_. ''h'') [sample_rule ''a'' GLOBAL ALLOW, sample_rule ''b'' TASK DENY]
         (quiet_request [''src/a.py'']))"
  using rules_only_strengthen
    [of "[sample_rule ''a'' GLOBAL ALLOW]" "[sample_rule ''a'' GLOBAL ALLOW, sample_rule ''b'' TASK DENY]"
      "quiet_request [''src/a.py'']" "\<lambda>_. ''h''"]
  by (simp add: quiet_request_def del: decide_effect)

text \<open>
  Decisions are deterministic in the rule set: for rules with distinct identifiers, as
  the loader demands, the whole decision (effect, reasons, matched rules, versions,
  obligations and hash) does not depend on the order in which the rules were given.
\<close>

theorem decision_ignores_rule_order:
  assumes "mset rules = mset rules'" and "distinct (map rule_id rules)"
  shows "decide stable_hash rules request = decide stable_hash rules' request"
proof -
  have inj: "inj_on rule_order (set rules)" and d: "distinct rules"
    using assms(2) by (auto simp: rule_order_def inj_on_def distinct_map)
  have d': "distinct rules'" and same: "set rules' = set rules"
    using assms(1) d by (metis mset_eq_imp_distinct_iff, metis mset_eq_setD)
  have "map rule_order (engine_rules rules) = map rule_order (engine_rules rules')"
    by (rule sorted_distinct_set_unique)
      (use inj d d' same in \<open>simp_all add: engine_rules_def distinct_map\<close>)
  then have "engine_rules rules = engine_rules rules'"
    by (rule inj_on_map_eq_map [THEN iffD1, rotated]) (use inj same in simp)
  then show ?thesis by (simp add: decide_def decide_values_def)
qed

theorem decision_ignores_rule_order_witness:
  "decide (\<lambda>_. ''h'') [sample_rule ''a'' GLOBAL ALLOW, sample_rule ''b'' TASK DENY] (quiet_request [])
   = decide (\<lambda>_. ''h'') [sample_rule ''b'' TASK DENY, sample_rule ''a'' GLOBAL ALLOW] (quiet_request [])"
  by (rule decision_ignores_rule_order) (simp_all add: sample_rule_def)

text \<open>
  A request whose assessed risk is critical is never simply allowed, whatever the rules
  say: its decision requires approval or denies.
\<close>

theorem critical_risk_not_allowed:
  assumes "assess_risk (rq_risk request) = CRITICAL" and "0 \<le> critical_findings (rq_risk request)"
  shows "pd_effect (decide h rules request) \<noteq> ALLOW"
proof -
  have "mandatory_effect (rq_risk request) (rq_paths request) (rq_command request) \<noteq> ALLOW"
    using assms by (auto simp: assess_risk_def mandatory_effect_def split: if_splits)
  moreover have "mandatory_effect (rq_risk request) (rq_paths request) (rq_command request)
      \<le> pd_effect (decide h rules request)"
    by (simp add: Max_ge)
  ultimately show ?thesis by (metis effect_order(5))
qed

theorem critical_risk_not_allowed_witness:
  "pd_effect (decide (\<lambda>_. ''h'') [] (quiet_request []\<lparr>rq_risk := quiet_risk\<lparr>secret_changed := True\<rparr>\<rparr>)) \<noteq> ALLOW"
  by (rule critical_risk_not_allowed) (simp_all add: quiet_request_def quiet_risk_def assess_risk_def)

subsection \<open>Protected paths\<close>

lemma path_str_dot_prefix:
  "path_str (''./.github/workflows/'' @ rest) = (if pp_tail (pure_path rest) = []
     then ''.github/workflows''
     else ''.github/workflows/'' @ join_with ''/'' (pp_tail (pure_path rest)))"
  by (cases "pp_tail (pure_path rest)") (simp_all add: path_str_def pure_path_def Let_def)

lemma dotted_path_protected:
  "list_ex (under_root (path_str (''./.github/workflows/'' @ rest))) protected_roots"
  unfolding path_str_dot_prefix by (simp add: protected_roots_def under_root_def starts_with_def)

lemma evaluate_paths_guarded:
  "cd_approval_required (evaluate_paths ps)
   \<longleftrightarrow> list_ex (\<lambda>p. list_ex (under_root (path_str p)) protected_roots) ps"
proof -
  have "sorted_set xs = [] \<longleftrightarrow> xs = []" for xs :: "string list"
    using set_sorted_set [of xs] by (metis set_empty)
  then show ?thesis
    by (simp add: evaluate_paths_def filter_empty_conv list_ex_iff)
qed

lemma guarded_path:
  "list_ex (under_root (path_str p)) protected_roots \<Longrightarrow> cd_approval_required (evaluate_paths [p])"
  by (simp add: evaluate_paths_guarded)

text \<open>
  The two protected-path checks disagree. The path gate normalises a path before it
  compares it with the protected roots, and asks for approval for every path written with a
  leading dot component below the workflow directory; the mandatory effect compares the
  text, so the same request is allowed outright when no risk flag is set and no rule matches.
\<close>
theorem dotted_workflow_path_unguarded:
  "cd_approval_required (evaluate_paths [''./.github/workflows/'' @ rest])
   \<and> pd_effect (decide h [] (quiet_request [''./.github/workflows/'' @ rest])) = ALLOW"
proof
  show "cd_approval_required (evaluate_paths [''./.github/workflows/'' @ rest])"
    by (rule guarded_path) (rule dotted_path_protected)
  show "pd_effect (decide h [] (quiet_request [''./.github/workflows/'' @ rest])) = ALLOW"
    by (simp add: quiet_request_def quiet_risk_def mandatory_effect_def mandatory_prefixes_def
        starts_with_def)
qed

end
