(* ===== verification/Approval.thy ===== *)
theory Approval
  imports Policy
begin

text \<open>
  Approval records and their store (\<open>policies/models.py\<close>, \<open>policies/approvals.py\<close>):
  records are added once and consumed under a list of checks, in the order of the code.
  Each operation runs under the store's lock, so the operations are the atomic steps.
\<close>

datatype approval_verdict = APPROVED | REJECTED

record approval_record =
  approval_id :: string
  ap_task_id :: string
  ap_scope :: "string list"
  ap_decision :: approval_verdict
  ap_actor :: string
  ap_actor_role :: string
  ap_reason :: string
  requested_at :: instant
  decided_at :: instant
  expires_at :: instant
  one_time :: bool
  ap_base_sha :: string
  ap_plan_hash :: digest
  ap_diff_hash :: "digest option"
  ap_policy_version :: string
  ap_evidence_hash :: digest

text \<open>Lower-case hexadecimal of a given length: the patterns \<open>^[0-9a-f]{n}$\<close>.\<close>

definition hex_char :: "char \<Rightarrow> bool" where
  "hex_char c = (let n = (of_char c :: nat) in 48 \<le> n \<and> n \<le> 57 \<or> 97 \<le> n \<and> n \<le> 102)"

definition hex_ok :: "nat \<Rightarrow> string \<Rightarrow> bool" where
  "hex_ok n s \<longleftrightarrow> length s = n \<and> list_all hex_char s"

text \<open>What the model validates when an \<open>ApprovalRecord\<close> is constructed.\<close>

definition approval_record_ok :: "approval_record \<Rightarrow> bool" where
  "approval_record_ok a \<longleftrightarrow>
     \<not> (decided_at a < requested_at a \<or> expires_at a \<le> decided_at a)
     \<and> hex_ok 40 (ap_base_sha a) \<and> hex_ok 64 (ap_plan_hash a)
     \<and> (case ap_diff_hash a of None \<Rightarrow> True | Some h \<Rightarrow> hex_ok 64 h)
     \<and> hex_ok 64 (ap_evidence_hash a)"

datatype approval_error =
    Immutable | Missing | Rejected | Expired | Already_used | Scope_mismatch
  | Base_or_plan_changed | Diff_changed | Role_insufficient

record approval_store =
  records :: "string \<Rightarrow> approval_record option"
  used :: "string set"

definition ApprovalStore :: approval_store where
  "ApprovalStore = \<lparr>records = (\<lambda>_. None), used = {}\<rparr>"

definition add :: "approval_record \<Rightarrow> approval_store \<Rightarrow> (approval_error + unit) \<times> approval_store" where
  "add approval s = (if records s (approval_id approval) \<noteq> None then (Inl Immutable, s)
     else (Inr (), s\<lparr>records := (records s)(approval_id approval := Some approval)\<rparr>))"

record consume_request =
  cr_approval_id :: string
  cr_task_id :: string
  cr_scope :: "string list"
  cr_base_sha :: string
  cr_plan_hash :: digest
  cr_diff_hash :: "digest option"
  cr_actor_role :: string
  cr_now :: instant

definition consume ::
  "consume_request \<Rightarrow> approval_store \<Rightarrow> (approval_error + approval_record) \<times> approval_store" where
  "consume q s = (case records s (cr_approval_id q) of
     None \<Rightarrow> (Inl Missing, s)
   | Some approval \<Rightarrow>
       if ap_decision approval \<noteq> APPROVED then (Inl Rejected, s)
       else if expires_at approval \<le> cr_now q then (Inl Expired, s)
       else if one_time approval \<and> cr_approval_id q \<in> used s then (Inl Already_used, s)
       else if ap_task_id approval \<noteq> cr_task_id q \<or> \<not> set (cr_scope q) \<subseteq> set (ap_scope approval)
         then (Inl Scope_mismatch, s)
       else if ap_base_sha approval \<noteq> cr_base_sha q \<or> ap_plan_hash approval \<noteq> cr_plan_hash q
         then (Inl Base_or_plan_changed, s)
       else if ap_diff_hash approval \<noteq> None \<and> ap_diff_hash approval \<noteq> cr_diff_hash q
         then (Inl Diff_changed, s)
       else if ap_actor_role approval \<noteq> ''owner'' \<and> ap_actor_role approval \<noteq> cr_actor_role q
         then (Inl Role_insufficient, s)
       else (Inr approval,
             if one_time approval then s\<lparr>used := insert (cr_approval_id q) (used s)\<rparr> else s))"

subsection \<open>Histories of a store\<close>

datatype store_call = Add approval_record | Consume consume_request

text \<open>A call as a grant: it succeeds exactly when a one-time approval is consumed.\<close>

definition consume_once :: "approval_store \<Rightarrow> store_call \<Rightarrow> bool \<times> approval_store" where
  "consume_once s c = (case c of
     Add a \<Rightarrow> (False, snd (add a s))
   | Consume q \<Rightarrow> (case consume q s of
       (Inl _, s') \<Rightarrow> (False, s')
     | (Inr a, s') \<Rightarrow> (one_time a, s')))"

definition call_key :: "store_call \<Rightarrow> string" where
  "call_key c = (case c of Add a \<Rightarrow> approval_id a | Consume q \<Rightarrow> cr_approval_id q)"

definition apply_store_call :: "store_call \<Rightarrow> approval_store \<Rightarrow> approval_store" where
  "apply_store_call c s = snd (consume_once s c)"

lemma consume_ok:
  "consume q s = (Inr a, s') \<longleftrightarrow>
     records s (cr_approval_id q) = Some a \<and> ap_decision a = APPROVED \<and> cr_now q < expires_at a
     \<and> (one_time a \<longrightarrow> cr_approval_id q \<notin> used s)
     \<and> ap_task_id a = cr_task_id q \<and> set (cr_scope q) \<subseteq> set (ap_scope a)
     \<and> ap_base_sha a = cr_base_sha q \<and> ap_plan_hash a = cr_plan_hash q
     \<and> (ap_diff_hash a = None \<or> ap_diff_hash a = cr_diff_hash q)
     \<and> (ap_actor_role a = ''owner'' \<or> ap_actor_role a = cr_actor_role q)
     \<and> s' = (if one_time a then s\<lparr>used := insert (cr_approval_id q) (used s)\<rparr> else s)"
  unfolding consume_def by (cases "records s (cr_approval_id q)") auto

lemma consume_error: "consume q s = (Inl e, s') \<Longrightarrow> s' = s"
  unfolding consume_def by (cases "records s (cr_approval_id q)") (auto split: if_splits)

lemma consume_frame:
  assumes "consume q s = (r, s')"
  shows "records s' = records s \<and> used s \<subseteq> used s'"
  using assms consume_error [of q s] consume_ok [of q s]
  by (cases r) (auto split: if_splits)

lemma add_frame [simp]: "used (snd (add a s)) = used s"
  by (simp add: add_def)

text \<open>A consumed one-time approval stays in the store.\<close>

definition spent_approval :: "approval_store \<Rightarrow> string \<Rightarrow> bool" where
  "spent_approval s k \<longleftrightarrow> k \<in> used s"

lemma consume_once_frame: "consume_once s c = (ok, s') \<Longrightarrow> used s \<subseteq> used s'"
  by (auto simp: consume_once_def split: store_call.splits sum.splits prod.splits
      dest!: consume_frame)

interpretation approvals: one_shot consume_once call_key spent_approval
proof
  fix s c s'
  assume "consume_once s c = (True, s')"
  then obtain q a where c: "c = Consume q" and ok: "consume q s = (Inr a, s')" "one_time a"
    by (auto simp: consume_once_def split: store_call.splits prod.splits sum.splits)
  show "\<not> spent_approval s (call_key c)"
    using ok c by (simp add: consume_ok spent_approval_def call_key_def)
  show "spent_approval s' (call_key c)"
    using ok c by (simp add: consume_ok spent_approval_def call_key_def)
next
  fix s c ok s' k
  show "\<lbrakk>consume_once s c = (ok, s'); spent_approval s k\<rbrakk> \<Longrightarrow> spent_approval s' k"
    using consume_once_frame [of s c ok s'] by (auto simp: spent_approval_def)
qed

text \<open>
  C21. Over any history of additions and consumptions of an approval store, an approval
  identifier is consumed as a one-time approval at most once.
\<close>

theorem one_time_approval_once: "distinct (granted consume_once call_key s calls)"
  by (rule approvals.granted_distinct)

text \<open>
  What a successful consumption guarantees: the record exists, was approved, has not
  expired, is for this task, covers the whole requested scope, was given for the same base
  and plan and (when it pins one) the same diff, by the owner or in the requested role; and
  these conditions, with the record unspent if it is one-time, are all it takes.
\<close>

theorem consume_grants_iff:
  "(\<exists>s'. consume q s = (Inr a, s')) \<longleftrightarrow>
     records s (cr_approval_id q) = Some a \<and> ap_decision a = APPROVED \<and> cr_now q < expires_at a
     \<and> \<not> (one_time a \<and> cr_approval_id q \<in> used s)
     \<and> ap_task_id a = cr_task_id q \<and> set (cr_scope q) \<subseteq> set (ap_scope a)
     \<and> ap_base_sha a = cr_base_sha q \<and> ap_plan_hash a = cr_plan_hash q
     \<and> ap_diff_hash a \<in> {None, cr_diff_hash q}
     \<and> ap_actor_role a \<in> {''owner'', cr_actor_role q}"
  unfolding consume_ok by auto

subsection \<open>Records are immutable\<close>

interpretation approval_frames: related_by apply_store_call
  "\<lambda>s t. records s \<subseteq>\<^sub>m records t \<and> used s \<subseteq> used t"
proof
  fix s :: approval_store and c
  show "records s \<subseteq>\<^sub>m records (apply_store_call c s) \<and> used s \<subseteq> used (apply_store_call c s)"
    unfolding apply_store_call_def consume_once_def
    by (auto simp: add_def map_le_def split: store_call.splits prod.splits sum.splits
        dest!: consume_frame)
qed (auto intro: map_le_trans)

text \<open>
  Approval records are immutable: whatever calls follow, a stored record is never
  replaced or removed, and an approval that is spent stays spent.
\<close>

theorem approval_records_immutable:
  assumes "records s k = Some a"
  shows "records (fold apply_store_call calls s) k = Some a
    \<and> used s \<subseteq> used (fold apply_store_call calls s)"
  using approval_frames.run_rel [of s calls] assms by (auto simp: map_le_def dom_def)

definition sample_approval :: approval_record where
  "sample_approval = \<lparr>approval_id = ''a1'', ap_task_id = ''t1'', ap_scope = [''src/x.py''],
     ap_decision = APPROVED, ap_actor = ''ann'', ap_actor_role = ''owner'', ap_reason = ''ok'',
     requested_at = 0, decided_at = 1, expires_at = 10, one_time = True,
     ap_base_sha = replicate 40 CHR ''a'', ap_plan_hash = replicate 64 CHR ''b'', ap_diff_hash = None,
     ap_policy_version = ''1'', ap_evidence_hash = replicate 64 CHR ''c''\<rparr>"

theorem approval_records_immutable_witness:
  "records (fold apply_store_call [Add (sample_approval\<lparr>one_time := False\<rparr>)]
       (ApprovalStore\<lparr>records := [''a1'' \<mapsto> sample_approval]\<rparr>)) ''a1'' = Some sample_approval
   \<and> used (ApprovalStore\<lparr>records := [''a1'' \<mapsto> sample_approval]\<rparr>)
     \<subseteq> used (fold apply_store_call [Add (sample_approval\<lparr>one_time := False\<rparr>)]
       (ApprovalStore\<lparr>records := [''a1'' \<mapsto> sample_approval]\<rparr>))"
  by (rule approval_records_immutable) simp

end
