(* ===== verification/Checkpoint.thy ===== *)
theory Checkpoint
  imports Prelude
begin

text \<open>
  Workflow checkpoints (\<open>orchestrator/checkpoints.py\<close>): the record, the store protocol the
  engine is written against, as a record of operations with the contract as a locale, and
  the in-memory store that provides it.
\<close>

record checkpoint =
  ck_task_id :: string
  ck_stage :: string
  ck_sequence :: int
  ck_input_hash :: digest
  ck_output_hash :: digest
  ck_prompt_version :: "string option"
  ck_provider_evidence :: "string list"
  ck_tool_evidence :: "string list"
  ck_created_at :: instant

definition new_checkpoint ::
  "string \<Rightarrow> string \<Rightarrow> int \<Rightarrow> digest \<Rightarrow> digest \<Rightarrow> string option \<Rightarrow> string list \<Rightarrow> string list
   \<Rightarrow> instant \<Rightarrow> checkpoint" where
  "new_checkpoint tid stage sequence ih oh prompt provider tools now =
     \<lparr>ck_task_id = tid, ck_stage = stage, ck_sequence = sequence, ck_input_hash = ih,
      ck_output_hash = oh, ck_prompt_version = prompt, ck_provider_evidence = provider,
      ck_tool_evidence = tools, ck_created_at = now\<rparr>"

text \<open>The protocol; \<open>None\<close> in the result of an append is the raised \<open>ValueError\<close>.\<close>

record 's checkpoint_ops =
  cs_append :: "checkpoint \<Rightarrow> 's \<Rightarrow> checkpoint option \<times> 's"
  cs_latest :: "string \<Rightarrow> 's \<Rightarrow> checkpoint option"
  cs_list :: "string \<Rightarrow> 's \<Rightarrow> checkpoint list"

text \<open>Two checkpoints of a task record the same work when stage and input agree.\<close>

definition same_work :: "string \<Rightarrow> digest \<Rightarrow> checkpoint \<Rightarrow> bool" where
  "same_work stage ih item \<longleftrightarrow> ck_stage item = stage \<and> ck_input_hash item = ih"

subsection \<open>The in-memory store\<close>

type_synonym memory_store = "string \<Rightarrow> checkpoint list option"

definition InMemoryCheckpointStore :: memory_store where
  "InMemoryCheckpointStore = (\<lambda>_. None)"

definition memory_items :: "memory_store \<Rightarrow> string \<Rightarrow> checkpoint list" where
  "memory_items s tid = (case s tid of None \<Rightarrow> [] | Some items \<Rightarrow> items)"

definition memory_append :: "checkpoint \<Rightarrow> memory_store \<Rightarrow> checkpoint option \<times> memory_store" where
  "memory_append c s =
     (let items = memory_items s (ck_task_id c); present = s(ck_task_id c := Some items)
      in case find (same_work (ck_stage c) (ck_input_hash c)) items of
           Some item \<Rightarrow> (Some item, present)
         | None \<Rightarrow>
             if ck_sequence c \<noteq> int (length items) + 1 then (None, present)
             else (Some c, present(ck_task_id c := Some (items @ [c]))))"

definition memory_latest :: "string \<Rightarrow> memory_store \<Rightarrow> checkpoint option" where
  "memory_latest tid s = (let items = memory_items s tid in
     if items = [] then None else Some (last items))"

definition memory_list :: "string \<Rightarrow> memory_store \<Rightarrow> checkpoint list" where
  "memory_list tid s = memory_items s tid"

definition memory_ops :: "memory_store checkpoint_ops" where
  "memory_ops = \<lparr>cs_append = memory_append, cs_latest = memory_latest, cs_list = memory_list\<rparr>"

subsection \<open>The contract\<close>

text \<open>
  \<open>log s tid\<close> is the list of checkpoints the store holds for a task. An append of work
  already recorded returns the recorded checkpoint, an append out of sequence is refused,
  and any other append adds the checkpoint at the end of its own task's log.
\<close>

locale checkpoint_store =
  fixes ops :: "'s checkpoint_ops"
    and log :: "'s \<Rightarrow> string \<Rightarrow> checkpoint list"
  assumes list_log: "cs_list ops tid s = log s tid"
    and latest_log: "cs_latest ops tid s = (if log s tid = [] then None else Some (last (log s tid)))"
    and append_known: "find (same_work (ck_stage c) (ck_input_hash c)) (log s (ck_task_id c)) = Some item
      \<Longrightarrow> fst (cs_append ops c s) = Some item \<and> log (snd (cs_append ops c s)) = log s"
    and append_gap: "\<lbrakk>find (same_work (ck_stage c) (ck_input_hash c)) (log s (ck_task_id c)) = None;
      ck_sequence c \<noteq> int (length (log s (ck_task_id c))) + 1\<rbrakk>
      \<Longrightarrow> fst (cs_append ops c s) = None \<and> log (snd (cs_append ops c s)) = log s"
    and append_new: "\<lbrakk>find (same_work (ck_stage c) (ck_input_hash c)) (log s (ck_task_id c)) = None;
      ck_sequence c = int (length (log s (ck_task_id c))) + 1\<rbrakk>
      \<Longrightarrow> fst (cs_append ops c s) = Some c
        \<and> log (snd (cs_append ops c s)) = (log s)(ck_task_id c := log s (ck_task_id c) @ [c])"
begin

text \<open>A log only grows at its end, whatever is appended.\<close>

lemma append_log:
  "log (snd (cs_append ops c s)) = log s
   \<or> log (snd (cs_append ops c s)) = (log s)(ck_task_id c := log s (ck_task_id c) @ [c])
     \<and> (\<forall>item \<in> set (log s (ck_task_id c)). \<not> same_work (ck_stage c) (ck_input_hash c) item)
     \<and> ck_sequence c = int (length (log s (ck_task_id c))) + 1"
  using append_known [of c s] append_gap [of c s] append_new [of c s]
  by (cases "find (same_work (ck_stage c) (ck_input_hash c)) (log s (ck_task_id c))")
    (auto simp: find_None_all)

end

interpretation memory: checkpoint_store memory_ops memory_items
  by unfold_locales
    (auto simp: memory_ops_def memory_list_def memory_latest_def memory_append_def memory_items_def
      Let_def fun_eq_iff split: option.splits)

text \<open>Logs that an engine may resume from: numbered from one, each piece of work once.\<close>

definition log_numbered :: "checkpoint list \<Rightarrow> bool" where
  "log_numbered items \<longleftrightarrow> map ck_sequence items = map int [1..<Suc (length items)]"

definition log_distinct :: "checkpoint list \<Rightarrow> bool" where
  "log_distinct items \<longleftrightarrow> distinct (map (\<lambda>c. (ck_stage c, ck_input_hash c)) items)"

lemma log_numbered_snoc:
  "\<lbrakk>log_numbered items; ck_sequence c = int (length items) + 1\<rbrakk> \<Longrightarrow> log_numbered (items @ [c])"
  by (simp add: log_numbered_def)

lemma log_distinct_snoc:
  "\<lbrakk>log_distinct items; \<forall>item \<in> set items. \<not> same_work (ck_stage c) (ck_input_hash c) item\<rbrakk>
   \<Longrightarrow> log_distinct (items @ [c])"
  by (auto simp: log_distinct_def same_work_def)

definition append_step :: "checkpoint \<Rightarrow> memory_store \<Rightarrow> memory_store" where
  "append_step c s = snd (memory_append c s)"

lemma append_step_items:
  "memory_items (append_step c s) = memory_items s
   \<or> memory_items (append_step c s) = (memory_items s)(ck_task_id c := memory_items s (ck_task_id c) @ [c])
     \<and> (\<forall>item \<in> set (memory_items s (ck_task_id c)). \<not> same_work (ck_stage c) (ck_input_hash c) item)
     \<and> ck_sequence c = int (length (memory_items s (ck_task_id c))) + 1"
  using memory.append_log [of c s] by (simp add: memory_ops_def append_step_def)

interpretation memory_logs: kept_by append_step
  "\<lambda>s. \<forall>tid. log_numbered (memory_items s tid) \<and> log_distinct (memory_items s tid)"
proof
  show "\<forall>tid. log_numbered (memory_items (append_step c s) tid)
      \<and> log_distinct (memory_items (append_step c s) tid)"
    if "\<forall>tid. log_numbered (memory_items s tid) \<and> log_distinct (memory_items s tid)" for s c
    using that append_step_items [of c s] by (auto simp: log_numbered_snoc log_distinct_snoc)
qed

interpretation memory_growth: related_by append_step
  "\<lambda>s t. \<forall>tid. prefix (memory_items s tid) (memory_items t tid)"
proof
  show "\<forall>tid. prefix (memory_items s tid) (memory_items (append_step c s) tid)" for s c
    using append_step_items [of c s] by auto
qed (auto intro: prefix_order.trans)

text \<open>
  For any sequence of appends on a new in-memory store, every task's log is numbered
  1, 2, 3, ... without a gap and holds no repeated work, and what a log holds at any point of
  the sequence stays at its front for ever.
\<close>

theorem memory_log_invariant:
  "log_numbered (memory_items (fold append_step cs InMemoryCheckpointStore) tid)
   \<and> log_distinct (memory_items (fold append_step cs InMemoryCheckpointStore) tid)
   \<and> prefix (memory_items (fold append_step cs InMemoryCheckpointStore) tid)
       (memory_items (fold append_step (cs @ ds) InMemoryCheckpointStore) tid)"
proof -
  have "\<forall>tid. log_numbered (memory_items InMemoryCheckpointStore tid)
      \<and> log_distinct (memory_items InMemoryCheckpointStore tid)"
    by (simp add: InMemoryCheckpointStore_def memory_items_def log_numbered_def log_distinct_def)
  from memory_logs.run_keeps [OF this, of cs]
    memory_growth.run_rel [of "fold append_step cs InMemoryCheckpointStore" ds]
  show ?thesis by simp
qed

end
