(* ===== verification/Workflow.thy ===== *)
theory Workflow
  imports Checkpoint
begin

text \<open>
  The resumable workflow engine of \<open>orchestrator/engine.py\<close>. Stage handlers, the clocks, the
  cancellation event and the hash functions are parameters: a handler is a function of the
  payload and of an environment, which it may change, and it may raise. The loop of \<open>run\<close> is
  a recursive function over the run object, the checkpoint store and the environment, with
  a termination proof.
\<close>

subsection \<open>Data\<close>

datatype workflow_stage =
    WS_RECEIVE | WS_VALIDATE | WS_BUILD_CONTEXT | WS_PLAN | WS_EVALUATE_RISK | WS_OBTAIN_APPROVAL
  | WS_CREATE_BRANCH | WS_PROVISION_SANDBOX | WS_EXECUTE_TOOLS | WS_RUN_TESTS | WS_RUN_SKILLS
  | WS_BLIND_REVIEW | WS_SECURITY_REVIEW | WS_CORRECTIVE_ROUND | WS_FINAL_VERIFICATION
  | WS_PREPARE_DRAFT_PR | WS_COMPLETED | WS_FAILED | WS_CANCELLED

fun stage_value :: "workflow_stage \<Rightarrow> string" where
  "stage_value WS_RECEIVE = ''receive''"
| "stage_value WS_VALIDATE = ''validate''"
| "stage_value WS_BUILD_CONTEXT = ''build_context''"
| "stage_value WS_PLAN = ''plan''"
| "stage_value WS_EVALUATE_RISK = ''evaluate_risk''"
| "stage_value WS_OBTAIN_APPROVAL = ''obtain_approval''"
| "stage_value WS_CREATE_BRANCH = ''create_branch''"
| "stage_value WS_PROVISION_SANDBOX = ''provision_sandbox''"
| "stage_value WS_EXECUTE_TOOLS = ''execute_tools''"
| "stage_value WS_RUN_TESTS = ''run_tests''"
| "stage_value WS_RUN_SKILLS = ''run_skills''"
| "stage_value WS_BLIND_REVIEW = ''blind_review''"
| "stage_value WS_SECURITY_REVIEW = ''security_review''"
| "stage_value WS_CORRECTIVE_ROUND = ''corrective_round''"
| "stage_value WS_FINAL_VERIFICATION = ''final_verification''"
| "stage_value WS_PREPARE_DRAFT_PR = ''prepare_draft_pr''"
| "stage_value WS_COMPLETED = ''completed''"
| "stage_value WS_FAILED = ''failed''"
| "stage_value WS_CANCELLED = ''cancelled''"

definition all_stages :: "workflow_stage list" where
  "all_stages = [WS_RECEIVE, WS_VALIDATE, WS_BUILD_CONTEXT, WS_PLAN, WS_EVALUATE_RISK,
     WS_OBTAIN_APPROVAL, WS_CREATE_BRANCH, WS_PROVISION_SANDBOX, WS_EXECUTE_TOOLS, WS_RUN_TESTS,
     WS_RUN_SKILLS, WS_BLIND_REVIEW, WS_SECURITY_REVIEW, WS_CORRECTIVE_ROUND,
     WS_FINAL_VERIFICATION, WS_PREPARE_DRAFT_PR, WS_COMPLETED, WS_FAILED, WS_CANCELLED]"

text \<open>The constructor call \<open>WorkflowStage(value)\<close>; \<open>None\<close> is its \<open>ValueError\<close>.\<close>

definition stage_of_value :: "string \<Rightarrow> workflow_stage option" where
  "stage_of_value v = find (\<lambda>s. stage_value s = v) all_stages"

definition ORDER :: "workflow_stage list" where
  "ORDER = [WS_RECEIVE, WS_VALIDATE, WS_BUILD_CONTEXT, WS_PLAN, WS_EVALUATE_RISK,
     WS_OBTAIN_APPROVAL, WS_CREATE_BRANCH, WS_PROVISION_SANDBOX, WS_EXECUTE_TOOLS, WS_RUN_TESTS,
     WS_RUN_SKILLS, WS_BLIND_REVIEW, WS_SECURITY_REVIEW, WS_FINAL_VERIFICATION,
     WS_PREPARE_DRAFT_PR, WS_COMPLETED]"

record 'v stage_result =
  sr_output :: "string \<Rightarrow> 'v option"
  sr_prompt_version :: "string option"
  sr_provider_evidence :: "string list"
  sr_tool_evidence :: "string list"
  sr_findings :: "string list"
  requires_correction :: bool
  approval_pending :: bool
  approval_denied :: bool

datatype 'v handler_outcome = Returned "'v stage_result" | Raised string

record 'v workflow_run =
  wf_task_id :: string
  wf_payload :: "string \<Rightarrow> 'v option"
  wf_stage :: workflow_stage
  corrective_rounds :: int
  failure_fingerprints :: "digest \<Rightarrow> int option"
  wf_cancelled :: bool

datatype engine_error =
    Deadline_exceeded | No_handler workflow_stage | Approval_pending | Approval_denied
  | Repeated_finding | Max_corrective_rounds | No_transition workflow_stage
  | Unknown_stage string | Checkpoint_refused | Handler_raised string

text \<open>
  The engine object together with what it reads from its surroundings: the registered
  handlers and limits, the payload and finding hashes, the monotonic and wall clocks and
  the cancellation event.
\<close>

record ('v, 'w) engine =
  handlers :: "workflow_stage \<Rightarrow>
    ((string \<Rightarrow> 'v option) \<Rightarrow> 'w \<Rightarrow> 'v handler_outcome \<times> 'w) option"
  max_rounds :: int
  deadline_seconds :: seconds
  repeat_limit :: int
  payload_hash :: "(string \<Rightarrow> 'v option) \<Rightarrow> digest"
  finding_hash :: "string \<Rightarrow> digest"
  monotonic :: "'w \<Rightarrow> seconds"
  wall_clock :: "'w \<Rightarrow> instant"
  cancel_is_set :: "'w \<Rightarrow> bool"

subsection \<open>Operations\<close>

fun successor_in :: "'a list \<Rightarrow> 'a \<Rightarrow> 'a option" where
  "successor_in (x # y # rest) a = (if x = a then Some y else successor_in (y # rest) a)"
| "successor_in _ a = None"

definition next_stage :: "workflow_stage \<Rightarrow> workflow_stage option" where
  "next_stage stage =
     (if stage = WS_CORRECTIVE_ROUND then Some WS_RUN_TESTS else successor_in ORDER stage)"

definition normalized_finding :: "string \<Rightarrow> string" where
  "normalized_finding finding = join_with '' '' (words_of (lower finding))"

fun record_findings ::
  "('v, 'w) engine \<Rightarrow> string list \<Rightarrow> 'v workflow_run \<Rightarrow> engine_error option \<times> 'v workflow_run" where
  "record_findings e [] flow = (None, flow)"
| "record_findings e (finding # rest) flow =
     (let fingerprint = finding_hash e (normalized_finding finding);
          count = (case failure_fingerprints flow fingerprint of None \<Rightarrow> 0 | Some n \<Rightarrow> n) + 1;
          counted = flow\<lparr>failure_fingerprints := (failure_fingerprints flow)(fingerprint := Some count)\<rparr>
      in if count \<ge> repeat_limit e then (Some Repeated_finding, counted\<lparr>wf_stage := WS_FAILED\<rparr>)
         else record_findings e rest counted)"

datatype ('v, 's, 'w) iteration =
    Continue "'v workflow_run" 's 'w
  | Stop "engine_error option" "'v workflow_run" 's 'w

text \<open>What follows a handler's result, once its checkpoint is stored.\<close>

definition after_checkpoint ::
  "('v, 'w) engine \<Rightarrow> 'v stage_result \<Rightarrow> 'v workflow_run \<Rightarrow> 's \<Rightarrow> 'w \<Rightarrow> ('v, 's, 'w) iteration" where
  "after_checkpoint e r flow s w =
     (if requires_correction r then
        (case record_findings e (sr_findings r) flow of
           (Some err, flow') \<Rightarrow> Stop (Some err) flow' s w
         | (None, flow') \<Rightarrow>
             if corrective_rounds flow' \<ge> max_rounds e
             then Stop (Some Max_corrective_rounds) (flow'\<lparr>wf_stage := WS_FAILED\<rparr>) s w
             else Continue (flow'\<lparr>corrective_rounds := corrective_rounds flow' + 1,
                                wf_stage := WS_CORRECTIVE_ROUND\<rparr>) s w)
      else (case next_stage (wf_stage flow) of
          None \<Rightarrow> Stop (Some (No_transition (wf_stage flow))) flow s w
        | Some stage \<Rightarrow> Continue (flow\<lparr>wf_stage := stage\<rparr>) s w))"

definition run_stage ::
  "('v, 'w) engine \<Rightarrow> 's checkpoint_ops \<Rightarrow> digest \<Rightarrow> checkpoint list \<Rightarrow> 'v stage_result
   \<Rightarrow> 'v workflow_run \<Rightarrow> 's \<Rightarrow> 'w \<Rightarrow> ('v, 's, 'w) iteration" where
  "run_stage e ops input_hash existing r flow s w =
     (if approval_pending r then Stop (Some Approval_pending) flow s w
      else if approval_denied r then Stop (Some Approval_denied) (flow\<lparr>wf_stage := WS_FAILED\<rparr>) s w
      else
        let updated = flow\<lparr>wf_payload := wf_payload flow ++ sr_output r\<rparr>;
            c = new_checkpoint (wf_task_id flow) (stage_value (wf_stage flow)) (int (length existing) + 1)
                  input_hash (payload_hash e (sr_output r)) (sr_prompt_version r)
                  (sr_provider_evidence r) (sr_tool_evidence r) (wall_clock e w)
        in case cs_append ops c s of
             (None, s') \<Rightarrow> Stop (Some Checkpoint_refused) updated s' w
           | (Some _, s') \<Rightarrow> after_checkpoint e r updated s' w)"

text \<open>One pass through the body of the loop; \<open>started\<close> is the monotonic start time.\<close>

definition iterate ::
  "('v, 'w) engine \<Rightarrow> 's checkpoint_ops \<Rightarrow> seconds \<Rightarrow> 'v workflow_run \<Rightarrow> 's \<Rightarrow> 'w
   \<Rightarrow> ('v, 's, 'w) iteration" where
  "iterate e ops started flow s w =
     (if wf_stage flow \<in> {WS_COMPLETED, WS_FAILED, WS_CANCELLED} then Stop None flow s w
      else if cancel_is_set e w \<or> wf_cancelled flow then Stop None (flow\<lparr>wf_stage := WS_CANCELLED\<rparr>) s w
      else if monotonic e w - started > deadline_seconds e
        then Stop (Some Deadline_exceeded) (flow\<lparr>wf_stage := WS_FAILED\<rparr>) s w
      else case handlers e (wf_stage flow) of
        None \<Rightarrow> Stop (Some (No_handler (wf_stage flow))) (flow\<lparr>wf_stage := WS_FAILED\<rparr>) s w
      | Some handler \<Rightarrow>
          let input_hash = payload_hash e (wf_payload flow);
              existing = cs_list ops (wf_task_id flow) s
          in if \<exists>item \<in> set existing. same_work (stage_value (wf_stage flow)) input_hash item
             then (case next_stage (wf_stage flow) of
                 None \<Rightarrow> Stop (Some (No_transition (wf_stage flow))) flow s w
               | Some stage \<Rightarrow> Continue (flow\<lparr>wf_stage := stage\<rparr>) s w)
             else (case handler (wf_payload flow) w of
                 (Raised err, w') \<Rightarrow> Stop (Some (Handler_raised err)) flow s w'
               | (Returned r, w') \<Rightarrow> run_stage e ops input_hash existing r flow s w'))"

subsection \<open>Termination\<close>

text \<open>How far a stage is from completion; a corrective round goes back to the tests.\<close>

fun stage_pos :: "workflow_stage \<Rightarrow> nat" where
  "stage_pos WS_RECEIVE = 0"
| "stage_pos WS_VALIDATE = 1"
| "stage_pos WS_BUILD_CONTEXT = 2"
| "stage_pos WS_PLAN = 3"
| "stage_pos WS_EVALUATE_RISK = 4"
| "stage_pos WS_OBTAIN_APPROVAL = 5"
| "stage_pos WS_CREATE_BRANCH = 6"
| "stage_pos WS_PROVISION_SANDBOX = 7"
| "stage_pos WS_EXECUTE_TOOLS = 8"
| "stage_pos WS_RUN_TESTS = 9"
| "stage_pos WS_CORRECTIVE_ROUND = 9"
| "stage_pos WS_RUN_SKILLS = 10"
| "stage_pos WS_BLIND_REVIEW = 11"
| "stage_pos WS_SECURITY_REVIEW = 12"
| "stage_pos WS_FINAL_VERIFICATION = 13"
| "stage_pos WS_PREPARE_DRAFT_PR = 14"
| "stage_pos _ = 15"

definition stage_distance :: "workflow_stage \<Rightarrow> nat" where
  "stage_distance s = (if s = WS_CORRECTIVE_ROUND then 7 else 15 - stage_pos s)"

definition rounds_left :: "('v, 'w) engine \<Rightarrow> 'v workflow_run \<Rightarrow> nat" where
  "rounds_left e flow = nat (max_rounds e - corrective_rounds flow)"

lemma next_stage_cases:
  "next_stage s = Some t \<Longrightarrow>
     s = WS_CORRECTIVE_ROUND \<and> t = WS_RUN_TESTS
     \<or> s \<noteq> WS_CORRECTIVE_ROUND \<and> t \<noteq> WS_CORRECTIVE_ROUND \<and> stage_pos t = Suc (stage_pos s)
       \<and> s \<in> set ORDER \<and> t \<in> set ORDER"
  by (cases s) (simp_all add: next_stage_def ORDER_def)

lemma next_stage_distance: "next_stage s = Some t \<Longrightarrow> stage_distance t < stage_distance s"
  by (cases s) (auto simp: next_stage_def ORDER_def stage_distance_def)

lemma next_stage_defined:
  "s \<notin> {WS_COMPLETED, WS_FAILED, WS_CANCELLED} \<Longrightarrow> \<exists>t. next_stage s = Some t"
  by (cases s) (simp_all add: next_stage_def ORDER_def)

lemma record_findings_frame:
  assumes "record_findings e fs flow = (err, flow')"
  shows "wf_task_id flow' = wf_task_id flow \<and> wf_payload flow' = wf_payload flow
    \<and> corrective_rounds flow' = corrective_rounds flow \<and> wf_cancelled flow' = wf_cancelled flow
    \<and> wf_stage flow' = (if err = None then wf_stage flow else WS_FAILED)"
  using assms
proof (induction e fs flow rule: record_findings.induct)
  case (2 e finding rest flow)
  then show ?case by (auto simp: Let_def split: if_splits)
qed simp

lemma after_checkpoint_continue:
  assumes "after_checkpoint e r flow s w = Continue flow' s' w'"
  shows "s' = s \<and> w' = w \<and> wf_task_id flow' = wf_task_id flow \<and>
    (\<not> requires_correction r \<and> next_stage (wf_stage flow) = Some (wf_stage flow')
        \<and> corrective_rounds flow' = corrective_rounds flow
     \<or> requires_correction r \<and> wf_stage flow' = WS_CORRECTIVE_ROUND
        \<and> corrective_rounds flow < max_rounds e \<and> corrective_rounds flow' = corrective_rounds flow + 1)"
  using assms record_findings_frame [of e "sr_findings r" flow]
  by (auto simp: after_checkpoint_def split: if_splits option.splits prod.splits)

text \<open>A pass that goes on moved one stage on, or used up one corrective round.\<close>

definition moved_on :: "('v, 'w) engine \<Rightarrow> 'v workflow_run \<Rightarrow> 'v workflow_run \<Rightarrow> bool" where
  "moved_on e flow flow' \<longleftrightarrow>
     next_stage (wf_stage flow) = Some (wf_stage flow') \<and> corrective_rounds flow' = corrective_rounds flow
     \<or> wf_stage flow' = WS_CORRECTIVE_ROUND \<and> corrective_rounds flow < max_rounds e
       \<and> corrective_rounds flow' = corrective_rounds flow + 1"

lemma iterate_continue:
  assumes "iterate e ops started flow s w = Continue flow' s' w'"
  shows "moved_on e flow flow' \<and> wf_task_id flow' = wf_task_id flow \<and>
    ((\<exists>item \<in> set (cs_list ops (wf_task_id flow) s).
         same_work (stage_value (wf_stage flow)) (payload_hash e (wf_payload flow)) item)
       \<and> s' = s \<and> next_stage (wf_stage flow) = Some (wf_stage flow')
     \<or> (\<exists>c d. cs_append ops c s = (Some d, s') \<and> ck_task_id c = wf_task_id flow
          \<and> ck_stage c = stage_value (wf_stage flow)))"
proof -
  define known where "known \<longleftrightarrow> (\<exists>item \<in> set (cs_list ops (wf_task_id flow) s).
      same_work (stage_value (wf_stage flow)) (payload_hash e (wf_payload flow)) item)"
  obtain h where h: "handlers e (wf_stage flow) = Some h"
    using assms by (auto simp: iterate_def split: if_splits option.splits)
  show ?thesis
  proof (cases known)
    case True
    then have "next_stage (wf_stage flow) = Some (wf_stage flow') \<and> s' = s
        \<and> corrective_rounds flow' = corrective_rounds flow \<and> wf_task_id flow' = wf_task_id flow"
      using assms h by (auto simp: iterate_def known_def Let_def split: if_splits option.splits)
    then show ?thesis using True by (simp add: moved_on_def known_def)
  next
    case False
    then obtain r w1 where "run_stage e ops (payload_hash e (wf_payload flow))
        (cs_list ops (wf_task_id flow) s) r flow s w1 = Continue flow' s' w'"
      using assms h
      by (auto simp: iterate_def known_def Let_def split: if_splits option.splits
          prod.splits handler_outcome.splits)
    then obtain d s1 where c: "cs_append ops (new_checkpoint (wf_task_id flow)
          (stage_value (wf_stage flow)) (int (length (cs_list ops (wf_task_id flow) s)) + 1)
          (payload_hash e (wf_payload flow)) (payload_hash e (sr_output r)) (sr_prompt_version r)
          (sr_provider_evidence r) (sr_tool_evidence r) (wall_clock e w1)) s = (Some d, s1)"
      and after: "after_checkpoint e r (flow\<lparr>wf_payload := wf_payload flow ++ sr_output r\<rparr>) s1 w1
        = Continue flow' s' w'"
      by (auto simp: run_stage_def Let_def split: if_splits option.splits prod.splits)
    have "moved_on e flow flow' \<and> wf_task_id flow' = wf_task_id flow"
      using after_checkpoint_continue [OF after] by (auto simp: moved_on_def)
    moreover have "s1 = s'" using after_checkpoint_continue [OF after] by simp
    ultimately show ?thesis using c by (fastforce simp: new_checkpoint_def)
  qed
qed

lemma moved_on_decreases:
  assumes "moved_on e flow flow'"
  shows "rounds_left e flow' < rounds_left e flow
    \<or> rounds_left e flow' = rounds_left e flow \<and> stage_distance (wf_stage flow') < stage_distance (wf_stage flow)"
  using assms next_stage_distance [of "wf_stage flow"]
  by (auto simp: moved_on_def rounds_left_def)

text \<open>
  The loop of \<open>run\<close>: passes until one stops. It is a function of its starting point because
  every pass that goes on either is one stage closer to completion or has one corrective
  round less to spend.
\<close>

function run_loop ::
  "('v, 'w) engine \<Rightarrow> 's checkpoint_ops \<Rightarrow> seconds \<Rightarrow> 'v workflow_run \<Rightarrow> 's \<Rightarrow> 'w
   \<Rightarrow> engine_error option \<times> 'v workflow_run \<times> 's \<times> 'w" where
  "run_loop e ops started flow s w =
     (case iterate e ops started flow s w of
        Stop err flow' s' w' \<Rightarrow> (err, flow', s', w')
      | Continue flow' s' w' \<Rightarrow> run_loop e ops started flow' s' w')"
  by pat_completeness auto
termination
proof (relation "measures [\<lambda>(e, ops, t, flow, s, w). rounds_left e flow,
      \<lambda>(e, ops, t, flow, s, w). stage_distance (wf_stage flow)]")
  show "((e, ops, started, flow', s', w'), e, ops, started, flow, s, w) \<in> measures
      [\<lambda>(e, ops, t, flow, s, w). rounds_left e flow, \<lambda>(e, ops, t, flow, s, w). stage_distance (wf_stage flow)]"
    if "iterate e ops started flow s w = Continue flow' s' w'" for e ops started flow s w flow' s' w'
    using moved_on_decreases [of e flow flow'] iterate_continue [OF that] by auto
qed simp

declare run_loop.simps [simp del]

definition run ::
  "('v, 'w) engine \<Rightarrow> 's checkpoint_ops \<Rightarrow> 'v workflow_run \<Rightarrow> 's \<Rightarrow> 'w
   \<Rightarrow> engine_error option \<times> 'v workflow_run \<times> 's \<times> 'w" where
  "run e ops flow s w =
     (let started = monotonic e w in
      case cs_latest ops (wf_task_id flow) s of
        None \<Rightarrow> run_loop e ops started flow s w
      | Some latest \<Rightarrow>
          (case stage_of_value (ck_stage latest) of
             None \<Rightarrow> (Some (Unknown_stage (ck_stage latest)), flow, s, w)
           | Some recorded \<Rightarrow>
               (case next_stage recorded of
                  None \<Rightarrow> (Some (No_transition recorded), flow, s, w)
                | Some stage \<Rightarrow> run_loop e ops started (flow\<lparr>wf_stage := stage\<rparr>) s w)))"

subsection \<open>How a run ends\<close>

lemma run_loop_last:
  assumes "run_loop e ops t flow s w = (err, flow', s', w')" and "P flow s w"
    and "\<And>f s w f' s' w'. \<lbrakk>P f s w; iterate e ops t f s w = Continue f' s' w'\<rbrakk> \<Longrightarrow> P f' s' w'"
  shows "\<exists>f1 s1 w1. P f1 s1 w1 \<and> iterate e ops t f1 s1 w1 = Stop err flow' s' w'"
  using assms
proof (induction e ops t flow s w rule: run_loop.induct)
  case (1 e ops t flow s w)
  show ?case
  proof (cases "iterate e ops t flow s w")
    case (Continue f2 s2 w2)
    then have "run_loop e ops t f2 s2 w2 = (err, flow', s', w')"
      using 1 (2) by (simp add: run_loop.simps [of e ops t flow])
    with 1 Continue show ?thesis by blast
  next
    case (Stop err2 f2 s2 w2)
    then show ?thesis using 1 by (auto simp: run_loop.simps [of e ops t flow])
  qed
qed

text \<open>The stage a run stops in, as far as its error tells.\<close>

fun stop_stage_ok :: "engine_error option \<Rightarrow> workflow_stage \<Rightarrow> bool" where
  "stop_stage_ok None st \<longleftrightarrow> st \<in> {WS_COMPLETED, WS_FAILED, WS_CANCELLED}"
| "stop_stage_ok (Some err) st \<longleftrightarrow>
     (case err of
        Approval_pending \<Rightarrow> st \<notin> {WS_COMPLETED, WS_FAILED, WS_CANCELLED}
      | Handler_raised _ \<Rightarrow> st \<notin> {WS_COMPLETED, WS_FAILED, WS_CANCELLED}
      | Checkpoint_refused \<Rightarrow> st \<notin> {WS_COMPLETED, WS_FAILED, WS_CANCELLED}
      | No_transition _ \<Rightarrow> False
      | Unknown_stage _ \<Rightarrow> False
      | _ \<Rightarrow> st = WS_FAILED)"

lemma record_findings_error:
  "record_findings e fs flow = (Some err, flow') \<Longrightarrow> err = Repeated_finding"
  by (induction e fs flow rule: record_findings.induct) (auto simp: Let_def split: if_splits)

lemma after_checkpoint_stop:
  assumes "after_checkpoint e r flow s w = Stop err flow' s' w'"
    and "wf_stage flow \<notin> {WS_COMPLETED, WS_FAILED, WS_CANCELLED}"
  shows "requires_correction r \<and> err \<in> {Some Repeated_finding, Some Max_corrective_rounds}
    \<and> wf_stage flow' = WS_FAILED \<and> corrective_rounds flow' = corrective_rounds flow
    \<and> wf_task_id flow' = wf_task_id flow \<and> s' = s"
  using assms next_stage_defined [of "wf_stage flow"] record_findings_frame [of e "sr_findings r" flow]
  by (auto simp: after_checkpoint_def split: if_splits option.splits prod.splits
      dest: record_findings_error)

lemma run_stage_stop:
  assumes "run_stage e ops ih items r flow s w = Stop err flow' s' w'"
    and "wf_stage flow \<notin> {WS_COMPLETED, WS_FAILED, WS_CANCELLED}"
  shows "stop_stage_ok err (wf_stage flow') \<and> err \<noteq> None
    \<and> corrective_rounds flow' = corrective_rounds flow \<and> wf_task_id flow' = wf_task_id flow"
proof -
  from assms show ?thesis
    using after_checkpoint_stop [of e r "flow\<lparr>wf_payload := wf_payload flow ++ sr_output r\<rparr>"]
    by (fastforce simp: run_stage_def Let_def split: if_splits option.splits prod.splits)
qed

lemma iterate_stop:
  assumes "iterate e ops t flow s w = Stop err flow' s' w'"
  shows "stop_stage_ok err (wf_stage flow') \<and> corrective_rounds flow' = corrective_rounds flow
    \<and> wf_task_id flow' = wf_task_id flow \<and> (wf_stage flow' = WS_COMPLETED \<longrightarrow> flow' = flow \<and> s' = s)
    \<and> (err = None \<longrightarrow> wf_stage flow' = WS_CANCELLED \<or> flow' = flow)"
proof (cases "wf_stage flow \<in> {WS_COMPLETED, WS_FAILED, WS_CANCELLED}")
  case True
  then show ?thesis using assms by (auto simp: iterate_def)
next
  case live: False
  show ?thesis
  proof (cases "\<exists>r items w1. run_stage e ops (payload_hash e (wf_payload flow)) items r flow s w1
      = Stop err flow' s' w'")
    case True
    then obtain r items w1 where r: "run_stage e ops (payload_hash e (wf_payload flow)) items r
      flow s w1 = Stop err flow' s' w'" by blast
    have "wf_stage flow' \<noteq> WS_COMPLETED"
      using run_stage_stop [OF r live] by (cases err) (auto split: engine_error.splits)
    then show ?thesis using run_stage_stop [OF r live] by auto
  next
    case False
    then show ?thesis using assms live next_stage_defined [OF live]
      by (auto simp: iterate_def Let_def split: if_splits option.splits prod.splits
          handler_outcome.splits)
  qed
qed

definition in_bounds :: "('v, 'w) engine \<Rightarrow> 'v workflow_run \<Rightarrow> 'v workflow_run \<Rightarrow> bool" where
  "in_bounds e first flow \<longleftrightarrow> wf_task_id flow = wf_task_id first
     \<and> corrective_rounds first \<le> corrective_rounds flow
     \<and> corrective_rounds flow \<le> max (corrective_rounds first) (max_rounds e)
     \<and> (wf_stage flow = WS_FAILED \<longrightarrow> wf_stage first = WS_FAILED)"

lemma next_stage_alive: "next_stage s = Some t \<Longrightarrow> t \<noteq> WS_FAILED \<and> t \<noteq> WS_CANCELLED"
  by (cases s) (auto simp: next_stage_def ORDER_def)

lemma in_bounds_continue:
  "\<lbrakk>in_bounds e first flow; iterate e ops t flow s w = Continue flow' s' w'\<rbrakk> \<Longrightarrow> in_bounds e first flow'"
  by (drule iterate_continue) (auto simp: in_bounds_def moved_on_def dest: next_stage_alive)


text \<open>
  An engine that meets its deadline in the second stage: the run fails with that error, the
  first stage's checkpoint stays.
\<close>

definition plain_result :: "string \<Rightarrow> unit stage_result" where
  "plain_result tool = \<lparr>sr_output = (\<lambda>_. None), sr_prompt_version = None, sr_provider_evidence = [],
     sr_tool_evidence = [tool], sr_findings = [], requires_correction = False,
     approval_pending = False, approval_denied = False\<rparr>"

definition slow_engine :: "(unit, real) engine" where
  "slow_engine = \<lparr>handlers = (\<lambda>_. Some (\<lambda>_ w. (Returned (plain_result ''tool''), w + 1000))),
     max_rounds = 2, deadline_seconds = 1800, repeat_limit = 2, payload_hash = (\<lambda>_. ''h''),
     finding_hash = id, monotonic = id, wall_clock = id, cancel_is_set = (\<lambda>_. False)\<rparr>"

definition fresh_run :: "string \<Rightarrow> 'v workflow_run" where
  "fresh_run tid = \<lparr>wf_task_id = tid, wf_payload = (\<lambda>_. None), wf_stage = WS_RECEIVE,
     corrective_rounds = 0, failure_fingerprints = (\<lambda>_. None), wf_cancelled = False\<rparr>"

lemmas iterate_simps = iterate_def run_stage_def after_checkpoint_def new_checkpoint_def Let_def
  plain_result_def fresh_run_def memory_ops_def memory_append_def memory_list_def memory_items_def
  memory_latest_def same_work_def


subsection \<open>What a run leaves in the log\<close>

definition logged :: "workflow_stage \<Rightarrow> checkpoint list \<Rightarrow> bool" where
  "logged st items \<longleftrightarrow> stage_value st \<in> ck_stage ` set items"

text \<open>Every stage of the order that comes before \<open>st\<close> has a checkpoint.\<close>

definition covered :: "checkpoint list \<Rightarrow> workflow_stage \<Rightarrow> bool" where
  "covered items st \<longleftrightarrow> (\<forall>u \<in> set ORDER. stage_pos u < stage_pos st \<longrightarrow> logged u items)"

text \<open>Handlers of stages before the tools' execution never ask for a correction.\<close>

definition late_corrections :: "('v, 'w) engine \<Rightarrow> bool" where
  "late_corrections e \<longleftrightarrow> (\<forall>st h p w r w'. handlers e st = Some h \<and> h p w = (Returned r, w')
     \<and> requires_correction r \<longrightarrow> stage_pos WS_EXECUTE_TOOLS \<le> stage_pos st)"

lemma covered_mono: "\<lbrakk>covered items st; set items \<subseteq> set items'\<rbrakk> \<Longrightarrow> covered items' st"
  by (auto simp: covered_def logged_def)

lemma order_pos_inj: "\<lbrakk>u \<in> set ORDER; v \<in> set ORDER; stage_pos u = stage_pos v\<rbrakk> \<Longrightarrow> u = v"
  by (auto simp: ORDER_def)

lemma covered_next:
  assumes "covered items st" "logged st items" "next_stage st = Some st'"
  shows "covered items st'"
  using next_stage_cases [OF assms(3)]
proof (elim disjE conjE)
  assume "st = WS_CORRECTIVE_ROUND" "st' = WS_RUN_TESTS"
  then show ?thesis using assms (1) by (simp add: covered_def)
next
  assume st: "stage_pos st' = Suc (stage_pos st)" "st \<in> set ORDER"
  show ?thesis unfolding covered_def
  proof (intro ballI impI)
    fix u assume u: "u \<in> set ORDER" "stage_pos u < stage_pos st'"
    show "logged u items"
    proof (cases "stage_pos u < stage_pos st")
      case True
      then show ?thesis using assms (1) u by (simp add: covered_def)
    next
      case False
      then have "u = st" using u st by (intro order_pos_inj) auto
      then show ?thesis using assms (2) by simp
    qed
  qed
qed

lemma covered_corrective:
  assumes "covered items st" "logged st items" "stage_pos WS_EXECUTE_TOOLS \<le> stage_pos st"
  shows "covered items WS_CORRECTIVE_ROUND"
proof (cases "stage_pos st = stage_pos WS_EXECUTE_TOOLS")
  case True
  then have "next_stage st = Some WS_RUN_TESTS" by (cases st) (auto simp: next_stage_def ORDER_def)
  from covered_next [OF assms(1,2) this] show ?thesis by (simp add: covered_def)
next
  case False
  then show ?thesis using assms by (auto simp: covered_def)
qed

lemma iterate_late_corrections:
  assumes "late_corrections e" and "iterate e ops t flow s w = Continue flow' s' w'"
  shows "next_stage (wf_stage flow) = Some (wf_stage flow')
    \<or> wf_stage flow' = WS_CORRECTIVE_ROUND \<and> stage_pos WS_EXECUTE_TOOLS \<le> stage_pos (wf_stage flow)"
proof (cases "next_stage (wf_stage flow) = Some (wf_stage flow')")
  case False
  then obtain h r w1 where h: "handlers e (wf_stage flow) = Some h" "h (wf_payload flow) w = (Returned r, w1)"
    and run: "run_stage e ops (payload_hash e (wf_payload flow)) (cs_list ops (wf_task_id flow) s)
        r flow s w1 = Continue flow' s' w'"
    using assms (2)
    by (auto simp: iterate_def Let_def split: if_splits option.splits prod.splits handler_outcome.splits)
  from run False have "requires_correction r \<and> wf_stage flow' = WS_CORRECTIVE_ROUND"
    by (auto simp: run_stage_def Let_def split: if_splits option.splits prod.splits
        dest!: after_checkpoint_continue)
  then show ?thesis using h assms (1) unfolding late_corrections_def by blast
qed simp

lemma run_stage_stop_store:
  assumes "run_stage e ops ih items r flow s w = Stop err flow' s' w'"
  shows "s' = s \<or> (\<exists>c. s' = snd (cs_append ops c s) \<and> ck_task_id c = wf_task_id flow
    \<and> ck_stage c = stage_value (wf_stage flow))"
proof -
  define c where "c = new_checkpoint (wf_task_id flow) (stage_value (wf_stage flow))
    (int (length items) + 1) ih (payload_hash e (sr_output r)) (sr_prompt_version r)
    (sr_provider_evidence r) (sr_tool_evidence r) (wall_clock e w)"
  have c: "ck_task_id c = wf_task_id flow" "ck_stage c = stage_value (wf_stage flow)"
    by (simp_all add: c_def new_checkpoint_def)
  have after: "s' = s1" if "after_checkpoint e r f1 s1 w1 = Stop err flow' s' w'" for f1 s1 w1
    using that by (auto simp: after_checkpoint_def split: if_splits option.splits prod.splits)
  have "s' = s \<or> s' = snd (cs_append ops c s)"
    using assms unfolding run_stage_def Let_def c_def [symmetric]
    by (cases "cs_append ops c s") (auto split: if_splits option.splits dest: after)
  with c show ?thesis by blast
qed

lemma iterate_stop_store:
  assumes "iterate e ops t flow s w = Stop err flow' s' w'"
  shows "s' = s \<or> (\<exists>c. s' = snd (cs_append ops c s) \<and> ck_task_id c = wf_task_id flow
    \<and> ck_stage c = stage_value (wf_stage flow))"
proof (cases "s' = s")
  case False
  then obtain r w1 where "run_stage e ops (payload_hash e (wf_payload flow))
    (cs_list ops (wf_task_id flow) s) r flow s w1 = Stop err flow' s' w'"
    using assms
    by (auto simp: iterate_def Let_def split: if_splits option.splits prod.splits handler_outcome.splits)
  then show ?thesis by (rule run_stage_stop_store)
qed simp

text \<open>No stage is logged before the stages that come first.\<close>

definition log_ordered :: "checkpoint list \<Rightarrow> bool" where
  "log_ordered items \<longleftrightarrow> (\<forall>st. logged st items \<longrightarrow> covered items st)
     \<and> (\<forall>item \<in> set items. \<exists>st. ck_stage item = stage_value st)"

lemma stage_of_stage_value: "stage_of_value (stage_value st) = Some st"
  by (cases st) (simp_all add: stage_of_value_def all_stages_def)

lemma stage_value_inj: "stage_value a = stage_value b \<Longrightarrow> a = b"
  by (metis stage_of_stage_value option.inject)

lemma log_ordered_snoc:
  assumes "log_ordered items" "covered items st" "ck_stage c = stage_value st"
  shows "log_ordered (items @ [c])"
proof -
  have "covered (items @ [c]) u" if "logged u (items @ [c])" for u
  proof -
    have "covered items u"
      using that assms stage_value_inj [of u st] by (auto simp: log_ordered_def logged_def)
    then show ?thesis by (rule covered_mono) auto
  qed
  then show ?thesis using assms by (auto simp: log_ordered_def)
qed

definition work_left :: "('v, 'w) engine \<Rightarrow> 'v workflow_run \<Rightarrow> nat" where
  "work_left e flow = 8 * rounds_left e flow + stage_distance (wf_stage flow)"

lemma moved_on_work: "moved_on e flow flow' \<Longrightarrow> work_left e flow' < work_left e flow"
  using next_stage_distance [of "wf_stage flow" "wf_stage flow'"]
  by (auto simp: moved_on_def work_left_def rounds_left_def stage_distance_def [of WS_CORRECTIVE_ROUND])

text \<open>A run either enters the loop in some stage or refuses the stage it finds recorded.\<close>

lemma run_cases:
  assumes "run e ops flow s w = (err, flow', s', w')"
  obtains (loop) st where "cs_latest ops (wf_task_id flow) s = None \<and> st = wf_stage flow
        \<or> (\<exists>c recorded. cs_latest ops (wf_task_id flow) s = Some c
            \<and> stage_of_value (ck_stage c) = Some recorded \<and> next_stage recorded = Some st)"
      "run_loop e ops (monotonic e w) (flow\<lparr>wf_stage := st\<rparr>) s w = (err, flow', s', w')"
  | (refused) "s' = s" "flow' = flow" "err \<noteq> None"
proof (cases "cs_latest ops (wf_task_id flow) s")
  case None
  then show ?thesis using assms loop [of "wf_stage flow"] by (simp add: run_def Let_def)
next
  case (Some c)
  then show ?thesis using assms loop refused
    by (auto simp: run_def Let_def split: option.splits)
qed

context checkpoint_store
begin

text \<open>The effect on the logs of an append for one task and stage.\<close>

definition log_step :: "string \<Rightarrow> workflow_stage \<Rightarrow> 's \<Rightarrow> 's \<Rightarrow> bool" where
  "log_step tid st s s' \<longleftrightarrow> log s' = log s
     \<or> (\<exists>c. log s' = (log s)(tid := log s tid @ [c]) \<and> ck_stage c = stage_value st)"

lemma append_log_step:
  "\<lbrakk>ck_task_id c = tid; ck_stage c = stage_value st\<rbrakk> \<Longrightarrow> log_step tid st s (snd (cs_append ops c s))"
  using append_log [of c s] by (auto simp: log_step_def)

lemma append_logged:
  assumes "cs_append ops c s = (Some d, s')" "ck_stage c = stage_value st"
  shows "logged st (log s' (ck_task_id c))"
proof (cases "find (same_work (ck_stage c) (ck_input_hash c)) (log s (ck_task_id c))")
  case None
  then have "ck_sequence c = int (length (log s (ck_task_id c))) + 1"
    using append_gap [OF None] assms by fastforce
  then show ?thesis using append_new [OF None] assms by (simp add: logged_def)
next
  case (Some item)
  then show ?thesis using append_known [OF Some] assms find_SomeD [OF Some]
    by (force simp: logged_def same_work_def)
qed

lemma iterate_log_step:
  assumes "iterate e ops t flow s w = Continue flow' s' w'"
  shows "log_step (wf_task_id flow) (wf_stage flow) s s' \<and> logged (wf_stage flow) (log s' (wf_task_id flow))"
  using iterate_continue [OF assms]
proof (elim conjE disjE)
  assume "\<exists>item \<in> set (cs_list ops (wf_task_id flow) s).
      same_work (stage_value (wf_stage flow)) (payload_hash e (wf_payload flow)) item" "s' = s"
  then show ?thesis by (force simp: log_step_def logged_def list_log same_work_def)
next
  assume "\<exists>c d. cs_append ops c s = (Some d, s') \<and> ck_task_id c = wf_task_id flow
      \<and> ck_stage c = stage_value (wf_stage flow)"
  then obtain c d where "cs_append ops c s = (Some d, s')" "ck_task_id c = wf_task_id flow"
    "ck_stage c = stage_value (wf_stage flow)" by blast
  then show ?thesis using append_logged [of c s d s'] append_log_step [of c _ _ s] by fastforce
qed

lemma iterate_stop_log:
  "iterate e ops t flow s w = Stop err flow' s' w' \<Longrightarrow> log_step (wf_task_id flow) (wf_stage flow) s s'"
  by (drule iterate_stop_store) (auto intro: append_log_step, simp add: log_step_def)

text \<open>What holds at the head of the loop, from the run's start on.\<close>

definition on_track :: "('v, 'w) engine \<Rightarrow> 'v workflow_run \<Rightarrow> 's \<Rightarrow> 'v workflow_run \<Rightarrow> 's \<Rightarrow> bool" where
  "on_track e flow0 s0 flow s \<longleftrightarrow> wf_task_id flow = wf_task_id flow0
     \<and> log_ordered (log s (wf_task_id flow0)) \<and> covered (log s (wf_task_id flow0)) (wf_stage flow)
     \<and> (\<forall>tid. tid \<noteq> wf_task_id flow0 \<longrightarrow> log s tid = log s0 tid)"

lemma log_step_ordered:
  assumes "log_step tid st s s'" "log_ordered (log s tid)" "covered (log s tid) st"
  shows "log_ordered (log s' tid) \<and> covered (log s' tid) st"
proof -
  have "set (log s tid) \<subseteq> set (log s' tid)" using assms (1) by (auto simp: log_step_def)
  with covered_mono [OF assms(3)] log_ordered_snoc [OF assms(2,3)] assms show ?thesis
    by (auto simp: log_step_def)
qed

lemma on_track_continue:
  assumes "late_corrections e" "on_track e flow0 s0 flow s"
    and it: "iterate e ops t flow s w = Continue flow' s' w'"
  shows "on_track e flow0 s0 flow' s'"
proof -
  let ?tid = "wf_task_id flow"
  have log: "log_step ?tid (wf_stage flow) s s'" "logged (wf_stage flow) (log s' ?tid)"
    using iterate_log_step [OF it] by simp_all
  have ordered: "log_ordered (log s' ?tid)" "covered (log s' ?tid) (wf_stage flow)"
    using log_step_ordered [OF log(1)] assms (2) by (simp_all add: on_track_def)
  have "covered (log s' ?tid) (wf_stage flow')"
    using iterate_late_corrections [OF assms(1) it] covered_next [OF ordered(2) log(2)]
      covered_corrective [OF ordered(2) log(2)] by auto
  moreover have "wf_task_id flow' = ?tid" using iterate_continue [OF it] by simp
  moreover have "log s' tid = log s tid" if "tid \<noteq> ?tid" for tid
    using that log (1) by (auto simp: log_step_def)
  ultimately show ?thesis using assms (2) ordered by (simp add: on_track_def)
qed

lemma run_loop_log:
  assumes "late_corrections e" "log_ordered (log s (wf_task_id flow))"
    and "covered (log s (wf_task_id flow)) (wf_stage flow)"
    and loop: "run_loop e ops t flow s w = (err, flow', s', w')"
  shows "log_ordered (log s' (wf_task_id flow)) \<and> (\<forall>tid. tid \<noteq> wf_task_id flow \<longrightarrow> log s' tid = log s tid)
    \<and> (wf_stage flow' = WS_COMPLETED \<longrightarrow> covered (log s' (wf_task_id flow)) WS_COMPLETED)"
proof -
  have "\<exists>f1 s1 w1. on_track e flow s f1 s1 \<and> iterate e ops t f1 s1 w1 = Stop err flow' s' w'"
    using loop
  proof (rule run_loop_last)
    show "on_track e flow s flow s" using assms by (simp add: on_track_def)
  qed (rule on_track_continue [OF assms(1)])
  then obtain f1 s1 w1 where track: "on_track e flow s f1 s1"
    and stop: "iterate e ops t f1 s1 w1 = Stop err flow' s' w'" by blast
  have "log_ordered (log s' (wf_task_id flow)) \<and> covered (log s' (wf_task_id flow)) (wf_stage f1)"
    using log_step_ordered [OF iterate_stop_log [OF stop]] track by (simp add: on_track_def)
  moreover have "log s' tid = log s tid" if "tid \<noteq> wf_task_id flow" for tid
    using that iterate_stop_log [OF stop] track by (auto simp: on_track_def log_step_def)
  moreover have "wf_stage f1 = WS_COMPLETED" if "wf_stage flow' = WS_COMPLETED"
    using that iterate_stop [OF stop] by simp
  ultimately show ?thesis by auto
qed

lemma run_start_covered:
  assumes "log_ordered (log s tid)" "cs_latest ops tid s = Some c"
    "stage_of_value (ck_stage c) = Some st" "next_stage st = Some st'"
  shows "covered (log s tid) st'"
proof -
  have "c \<in> set (log s tid)" using assms (2) by (auto simp: latest_log split: if_splits)
  moreover have "stage_value st = ck_stage c"
    using assms (3) find_SomeD [of "\<lambda>st. stage_value st = ck_stage c"] by (simp add: stage_of_value_def)
  ultimately have "logged st (log s tid)" by (auto simp: logged_def)
  then show ?thesis using assms covered_next by (auto simp: log_ordered_def)
qed

lemma run_log:
  assumes "late_corrections e" "log_ordered (log s (wf_task_id flow))" "wf_stage flow = WS_RECEIVE"
    and run: "run e ops flow s w = (err, flow', s', w')"
  shows "log_ordered (log s' (wf_task_id flow)) \<and> (\<forall>tid. tid \<noteq> wf_task_id flow \<longrightarrow> log s' tid = log s tid)
    \<and> (wf_stage flow' = WS_COMPLETED \<longrightarrow> covered (log s' (wf_task_id flow)) WS_COMPLETED)"
  using run
proof (cases rule: run_cases)
  case (loop st)
  have "covered (log s (wf_task_id flow)) st"
    using loop(1) run_start_covered [OF assms(2)] assms(3) by (auto simp: covered_def)
  with run_loop_log [of e s "flow\<lparr>wf_stage := st\<rparr>"] loop(2) assms show ?thesis by auto
qed (use assms in simp)

text \<open>A pass adds at most one checkpoint, so the work left bounds what a run adds.\<close>

lemma run_loop_length:
  assumes "run_loop e ops t flow s w = (err, flow', s', w')"
  shows "length (log s' (wf_task_id flow)) \<le> length (log s (wf_task_id flow)) + work_left e flow + 1"
proof -
  let ?tid = "wf_task_id flow"
  have step: "length (log s2 tid) \<le> Suc (length (log s1 tid))" if "log_step tid st s1 s2" for tid st s1 s2
    using that by (auto simp: log_step_def)
  have "\<exists>f1 s1 w1. (wf_task_id f1 = ?tid \<and>
      length (log s1 ?tid) + work_left e f1 \<le> length (log s ?tid) + work_left e flow)
    \<and> iterate e ops t f1 s1 w1 = Stop err flow' s' w'"
    using assms
  proof (rule run_loop_last)
    show "wf_task_id f2 = ?tid \<and> length (log s2 ?tid) + work_left e f2 \<le> length (log s ?tid) + work_left e flow"
      if "wf_task_id f1 = ?tid \<and> length (log s1 ?tid) + work_left e f1 \<le> length (log s ?tid) + work_left e flow"
        and it: "iterate e ops t f1 s1 w1 = Continue f2 s2 w2" for f1 s1 w1 f2 s2 w2
      using that iterate_continue [OF it] moved_on_work [of e f1 f2] iterate_log_step [OF it]
        step [of ?tid "wf_stage f1" s1 s2] by auto
  qed simp
  then obtain f1 s1 w1 where "wf_task_id f1 = ?tid"
      "length (log s1 ?tid) + work_left e f1 \<le> length (log s ?tid) + work_left e flow"
      "iterate e ops t f1 s1 w1 = Stop err flow' s' w'" by blast
  with iterate_stop_log [of e t f1 s1 w1] step [of ?tid "wf_stage f1" s1 s'] show ?thesis by auto
qed

lemma run_length:
  assumes "run e ops flow s w = (err, flow', s', w')"
    and "wf_stage flow = WS_RECEIVE" and "corrective_rounds flow = 0"
  shows "length (log s' (wf_task_id flow)) \<le> length (log s (wf_task_id flow)) + 16 + 8 * nat (max_rounds e)"
  using assms(1)
proof (cases rule: run_cases)
  case (loop st)
  from run_loop_length [OF loop(2)] show ?thesis using assms(2,3)
    by (simp add: work_left_def rounds_left_def stage_distance_def split: if_splits)
qed simp

text \<open>A correction that the run may not make any more has its checkpoint all the same.\<close>

lemma correction_stop_logged:
  assumes it: "iterate e ops t flow s w = Stop (Some err) flow' s' w'"
    and err: "err = Max_corrective_rounds \<or> err = Repeated_finding"
  shows "wf_stage flow' = WS_FAILED \<and> (\<exists>c. cs_latest ops (wf_task_id flow) s' = Some c
    \<and> ck_stage c = stage_value (wf_stage flow))"
proof -
  have live: "wf_stage flow \<notin> {WS_COMPLETED, WS_FAILED, WS_CANCELLED}"
    using it by (auto simp: iterate_def split: if_splits)
  from it err next_stage_defined [OF live] obtain r w1 where
    new: "\<not> (\<exists>item \<in> set (log s (wf_task_id flow)).
        same_work (stage_value (wf_stage flow)) (payload_hash e (wf_payload flow)) item)"
    and rs: "run_stage e ops (payload_hash e (wf_payload flow)) (log s (wf_task_id flow)) r flow s w1
        = Stop (Some err) flow' s' w'"
    by (auto simp: iterate_def Let_def list_log split: if_splits option.splits prod.splits
        handler_outcome.splits)
  define c where "c = new_checkpoint (wf_task_id flow) (stage_value (wf_stage flow))
    (int (length (log s (wf_task_id flow))) + 1) (payload_hash e (wf_payload flow))
    (payload_hash e (sr_output r)) (sr_prompt_version r)
    (sr_provider_evidence r) (sr_tool_evidence r) (wall_clock e w1)"
  have c: "ck_task_id c = wf_task_id flow" "ck_stage c = stage_value (wf_stage flow)"
      "ck_sequence c = int (length (log s (ck_task_id c))) + 1"
      "ck_input_hash c = payload_hash e (wf_payload flow)"
    by (simp_all add: c_def new_checkpoint_def)
  obtain s1 d where app: "cs_append ops c s = (Some d, s1)"
    and after: "after_checkpoint e r (flow\<lparr>wf_payload := wf_payload flow ++ sr_output r\<rparr>) s1 w1
      = Stop (Some err) flow' s' w'"
    using rs err unfolding run_stage_def Let_def c_def [symmetric]
    by (cases "cs_append ops c s") (auto split: if_splits option.splits)
  have "s' = s1" "wf_stage flow' = WS_FAILED" using after_checkpoint_stop [OF after] live by auto
  moreover have "find (same_work (ck_stage c) (ck_input_hash c)) (log s (ck_task_id c)) = None"
    using new c by (simp add: find_None_iff)
  ultimately show ?thesis using append_new [OF _ c(3)] c app by (auto simp: latest_log)
qed

lemma resume_after_correction_stop:
  assumes "iterate e ops t flow s w = Stop (Some err) flow' s' w'"
    and "err = Max_corrective_rounds \<or> err = Repeated_finding"
    and "wf_task_id again = wf_task_id flow" and "next_stage (wf_stage flow) = Some follower"
  shows "wf_stage flow' = WS_FAILED
    \<and> run e2 ops again s' w2 = run_loop e2 ops (monotonic e2 w2) (again\<lparr>wf_stage := follower\<rparr>) s' w2"
  using correction_stop_logged [OF assms(1,2)] assms(3,4)
  by (auto simp: run_def Let_def stage_of_stage_value)

end

text \<open>
  C27. A run that starts at the first stage, receive, on a checkpoint store that keeps the store contract and holds the
  task's earlier records in stage order (none, for a new task), with handlers that ask for corrections only once
  the tools have run, keeps the task's log in stage order and touches no other task's log; if it ends
  completed, there is a checkpoint of each of the stages from receive to prepare_draft_pr, approval and
  both reviews included. Of a run started at a later stage nothing is claimed: it skips the stages before.
\<close>

theorem completed_run_passed_every_stage:
  assumes "checkpoint_store ops logs" and "late_corrections e"
    and "log_ordered (logs s (wf_task_id flow))" and "wf_stage flow = WS_RECEIVE"
    and "run e ops flow s w = (err, flow', s', w')"
  shows "log_ordered (logs s' (wf_task_id flow))
    \<and> (\<forall>tid. tid \<noteq> wf_task_id flow \<longrightarrow> logs s' tid = logs s tid)
    \<and> (wf_stage flow' = WS_COMPLETED \<longrightarrow>
        (\<forall>st \<in> set ORDER - {WS_COMPLETED}. logged st (logs s' (wf_task_id flow))))"
proof -
  have "stage_pos st < stage_pos WS_COMPLETED" if "st \<in> set ORDER - {WS_COMPLETED}" for st
    using that by (auto simp: ORDER_def)
  then show ?thesis using checkpoint_store.run_log [OF assms] by (simp add: covered_def)
qed

definition plain_engine :: "(unit, real) engine" where
  "plain_engine = slow_engine\<lparr>deadline_seconds := 100000\<rparr>"

lemma log_ordered_empty: "log_ordered []"
  by (simp add: log_ordered_def logged_def)

lemma plain_run_completes:
  "\<exists>flow' s' w'. run plain_engine memory_ops (fresh_run ''t'') InMemoryCheckpointStore 0
     = (None, flow', s', w') \<and> wf_stage flow' = WS_COMPLETED"
  by (simp add: run_def run_loop.simps iterate_simps slow_engine_def plain_engine_def
      InMemoryCheckpointStore_def next_stage_def ORDER_def)

theorem completed_run_passed_every_stage_witness:
  "\<exists>flow' s' w'. run plain_engine memory_ops (fresh_run ''t'') InMemoryCheckpointStore 0
       = (None, flow', s', w')
     \<and> logged WS_OBTAIN_APPROVAL (memory_items s' ''t'') \<and> logged WS_SECURITY_REVIEW (memory_items s' ''t'')"
proof -
  obtain flow' s' w' where run: "run plain_engine memory_ops (fresh_run ''t'') InMemoryCheckpointStore 0
     = (None, flow', s', w')" "wf_stage flow' = WS_COMPLETED"
    using plain_run_completes by blast
  have "late_corrections plain_engine"
    by (auto simp: late_corrections_def plain_engine_def slow_engine_def plain_result_def)
  moreover have "log_ordered (memory_items InMemoryCheckpointStore (wf_task_id (fresh_run ''t'')))"
    by (simp add: InMemoryCheckpointStore_def memory_items_def log_ordered_empty)
  ultimately show ?thesis
    using completed_run_passed_every_stage [OF memory.checkpoint_store_axioms _ _ _ run(1)] run
    by (simp add: fresh_run_def ORDER_def)
qed

text \<open>
  A run of a task adds at most 16 checkpoints to its log, and 8 more for each
  corrective round the engine allows: corrective rounds cannot go on for ever, and neither
  can the work repeated in them.
\<close>

theorem run_checkpoints_bounded:
  assumes "checkpoint_store ops logs" and "run e ops flow s w = (err, flow', s', w')"
    and "wf_stage flow = WS_RECEIVE" and "corrective_rounds flow = 0"
  shows "length (logs s' (wf_task_id flow))
    \<le> length (logs s (wf_task_id flow)) + 16 + 8 * nat (max_rounds e)"
  by (rule checkpoint_store.run_length [OF assms])

theorem run_checkpoints_bounded_witness:
  "\<exists>flow' s' w'. run plain_engine memory_ops (fresh_run ''t'') InMemoryCheckpointStore 0
       = (None, flow', s', w') \<and> length (memory_items s' ''t'') \<le> 32"
proof -
  obtain flow' s' w' where run: "run plain_engine memory_ops (fresh_run ''t'') InMemoryCheckpointStore 0
     = (None, flow', s', w')"
    using plain_run_completes by blast
  show ?thesis using run_checkpoints_bounded [OF memory.checkpoint_store_axioms run] run
    by (simp add: fresh_run_def plain_engine_def slow_engine_def InMemoryCheckpointStore_def
        memory_items_def)
qed

text \<open>
  A stage that fails because its demanded correction is one too many (or repeats a
  finding) has its checkpoint recorded before the failure: the next run of the task does not
  repeat the failed stage but goes on with the stage after it, so a security review that
  demanded a correction is not run again.
\<close>

theorem failed_review_skipped_on_resume:
  assumes "checkpoint_store ops logs"
    and "iterate e ops t flow s w = Stop (Some err) flow' s' w'"
    and "err = Max_corrective_rounds \<or> err = Repeated_finding"
    and "wf_task_id again = wf_task_id flow" and "next_stage (wf_stage flow) = Some follower"
  shows "wf_stage flow' = WS_FAILED
    \<and> run e2 ops again s' w2 = run_loop e2 ops (monotonic e2 w2) (again\<lparr>wf_stage := follower\<rparr>) s' w2"
  by (rule checkpoint_store.resume_after_correction_stop [OF assms])

definition failing_review :: "(unit, real) engine" where
  "failing_review = plain_engine\<lparr>max_rounds := 0, handlers := (\<lambda>st. Some (\<lambda>_ w.
     (Returned ((plain_result ''tool'')\<lparr>requires_correction := True\<rparr>), w + 1)))\<rparr>"

theorem failed_review_skipped_on_resume_witness:
  "\<exists>failed s'. iterate failing_review memory_ops 0 ((fresh_run ''t'')\<lparr>wf_stage := WS_SECURITY_REVIEW\<rparr>)
         InMemoryCheckpointStore 0 = Stop (Some Max_corrective_rounds) failed s' 1
     \<and> run plain_engine memory_ops (fresh_run ''t'') s' 1
       = run_loop plain_engine memory_ops 1 ((fresh_run ''t'')\<lparr>wf_stage := WS_FINAL_VERIFICATION\<rparr>) s' 1"
proof -
  have "\<exists>failed s'. iterate failing_review memory_ops 0 ((fresh_run ''t'')\<lparr>wf_stage := WS_SECURITY_REVIEW\<rparr>)
         InMemoryCheckpointStore 0 = Stop (Some Max_corrective_rounds) failed s' 1"
    by (simp add: iterate_simps failing_review_def plain_engine_def slow_engine_def
        InMemoryCheckpointStore_def)
  then obtain failed s' where it: "iterate failing_review memory_ops 0
      ((fresh_run ''t'')\<lparr>wf_stage := WS_SECURITY_REVIEW\<rparr>) InMemoryCheckpointStore 0
      = Stop (Some Max_corrective_rounds) failed s' 1" by blast
  have "run plain_engine memory_ops (fresh_run ''t'') s' 1 = run_loop plain_engine memory_ops
      (monotonic plain_engine 1) ((fresh_run ''t'')\<lparr>wf_stage := WS_FINAL_VERIFICATION\<rparr>) s' 1"
    using failed_review_skipped_on_resume [OF memory.checkpoint_store_axioms it,
        of "fresh_run ''t''" WS_FINAL_VERIFICATION plain_engine 1]
    by (simp add: fresh_run_def next_stage_def ORDER_def)
  with it show ?thesis by (auto simp: plain_engine_def slow_engine_def)
qed

end
