(* ===== verification/Retry.thy ===== *)
theory Retry
  imports Prelude
begin

text \<open>
  Retry decisions: the retry policy (\<open>queue/retry_policy.py\<close>) and the classification of an
  exception as a retryable or permanent failure (\<open>worker/failure_classification.py\<close>,
  \<open>providers/base.py\<close>). The random source is a number in the unit interval, given per call.
\<close>

subsection \<open>The policy\<close>

record retry_decision =
  rd_retry :: bool
  delay_seconds :: seconds
  rd_reason :: string

record retry_policy =
  maximum_attempts :: int
  base_delay :: seconds
  maximum_delay :: seconds
  maximum_elapsed :: seconds
  jitter_ratio :: real

text \<open>The constructor; \<open>None\<close> is the raised \<open>ValueError\<close>.\<close>

definition RetryPolicy :: "int \<Rightarrow> seconds \<Rightarrow> seconds \<Rightarrow> seconds \<Rightarrow> real \<Rightarrow> retry_policy option" where
  "RetryPolicy attempts base maximum elapsed jitter =
     (if attempts < 1 \<or> base \<le> 0 \<or> elapsed \<le> 0 then None
      else if \<not> (0 \<le> jitter \<and> jitter \<le> 1) then None
      else Some \<lparr>maximum_attempts = attempts, base_delay = base, maximum_delay = maximum,
                 maximum_elapsed = elapsed, jitter_ratio = jitter\<rparr>)"

definition default_policy :: retry_policy where
  "default_policy = \<lparr>maximum_attempts = 5, base_delay = 1, maximum_delay = 300,
     maximum_elapsed = 3600, jitter_ratio = 1 / 5\<rparr>"

text \<open>\<open>random.uniform(a, b)\<close> for the draw \<open>u\<close> of \<open>random()\<close>.\<close>

definition uniform :: "real \<Rightarrow> real \<Rightarrow> real \<Rightarrow> real" where
  "uniform a b u = a + (b - a) * u"

definition calculated_delay :: "retry_policy \<Rightarrow> int \<Rightarrow> seconds" where
  "calculated_delay p attempt =
     min (maximum_delay p) (base_delay p * 2 ^ nat (max 0 (attempt - 1)))"

definition refuse :: "string \<Rightarrow> retry_decision" where
  "refuse reason = \<lparr>rd_retry = False, delay_seconds = 0, rd_reason = reason\<rparr>"

definition retry_decide ::
  "retry_policy \<Rightarrow> real \<Rightarrow> int \<Rightarrow> bool \<Rightarrow> seconds option \<Rightarrow> seconds \<Rightarrow> retry_decision" where
  "retry_decide p u attempt retryable retry_after elapsed =
     (if \<not> retryable then refuse ''permanent-failure''
      else if attempt \<ge> maximum_attempts p then refuse ''attempt-budget-exhausted''
      else if elapsed \<ge> maximum_elapsed p then refuse ''elapsed-time-budget-exhausted''
      else
        let (delay, reason) =
          (case retry_after of
             Some seconds \<Rightarrow> (max 0 seconds, ''retry-after'')
           | None \<Rightarrow>
               let calculated = calculated_delay p attempt; spread = calculated * jitter_ratio p
               in (uniform (calculated - spread) (calculated + spread) u, ''exponential-backoff''))
        in if elapsed + delay > maximum_elapsed p then refuse ''elapsed-time-budget-exhausted''
           else \<lparr>rd_retry = True, delay_seconds = delay, rd_reason = reason\<rparr>)"

lemma RetryPolicy_limits:
  "RetryPolicy a b m e j = Some p \<Longrightarrow>
     1 \<le> maximum_attempts p \<and> 0 < base_delay p \<and> 0 < maximum_elapsed p
     \<and> maximum_delay p = m \<and> 0 \<le> jitter_ratio p \<and> jitter_ratio p \<le> 1"
  by (auto simp: RetryPolicy_def split: if_splits)

lemma uniform_within:
  assumes "a \<le> b" "0 \<le> u" "u \<le> 1"
  shows "a \<le> uniform a b u \<and> uniform a b u \<le> b"
proof -
  have "0 \<le> (b - a) * u" and "(b - a) * u \<le> (b - a) * 1"
    using assms by (simp, intro mult_left_mono) auto
  then show ?thesis by (simp add: uniform_def)
qed

lemma retry_decide_budget:
  "rd_retry (retry_decide p u n r ra el) \<Longrightarrow>
     r \<and> n < maximum_attempts p \<and> el + delay_seconds (retry_decide p u n r ra el) \<le> maximum_elapsed p"
  by (auto simp: retry_decide_def refuse_def Let_def split: if_splits option.splits)

lemma calculated_delay_within:
  assumes "0 < base_delay p" "0 < maximum_delay p"
  shows "0 < calculated_delay p n \<and> calculated_delay p n \<le> maximum_delay p"
  using assms by (simp add: calculated_delay_def)

lemma backoff_within:
  assumes "0 \<le> c" "0 \<le> j" "j \<le> 1" "0 \<le> u" "u \<le> 1"
  shows "0 \<le> uniform (c - c * j) (c + c * j) u \<and> uniform (c - c * j) (c + c * j) u \<le> c * (1 + j)"
proof -
  have "0 \<le> c * j" "c * j \<le> c * 1" using assms by (simp, intro mult_left_mono) auto
  then show ?thesis using uniform_within [of "c - c * j" "c + c * j" u] assms
    by (simp add: algebra_simps)
qed

text \<open>
  C40. A retry is granted only within every budget: for a policy the constructor accepts
  with a positive delay cap, a granted retry belongs to a retryable failure, its attempt number is below the
  attempt limit, it becomes due within the elapsed-time limit, and its delay is never
  negative; without a server's retry-after it is at most the delay cap
  stretched by the jitter.
\<close>

theorem granted_retry_within_budgets:
  assumes "RetryPolicy a b m e j = Some p" and "0 < m" and "0 \<le> u" "u \<le> 1"
    and "rd_retry (retry_decide p u n r ra el)"
  shows "r \<and> n < maximum_attempts p
    \<and> el + delay_seconds (retry_decide p u n r ra el) \<le> maximum_elapsed p
    \<and> 0 \<le> delay_seconds (retry_decide p u n r ra el)
    \<and> (ra = None \<longrightarrow> delay_seconds (retry_decide p u n r ra el) \<le> maximum_delay p * (1 + jitter_ratio p))"
proof -
  note lim = RetryPolicy_limits [OF assms(1)]
  have c: "0 \<le> calculated_delay p n" "calculated_delay p n \<le> maximum_delay p"
    using calculated_delay_within [of p n] lim assms (2) by auto
  have "calculated_delay p n * (1 + jitter_ratio p) \<le> maximum_delay p * (1 + jitter_ratio p)"
    using c lim by (intro mult_right_mono) auto
  moreover define pause where "pause = uniform (calculated_delay p n - calculated_delay p n * jitter_ratio p)
    (calculated_delay p n + calculated_delay p n * jitter_ratio p) u"
  ultimately have "0 \<le> pause \<and> pause \<le> maximum_delay p * (1 + jitter_ratio p)"
    using backoff_within [OF c(1), of "jitter_ratio p" u] lim assms(3,4) by linarith
  then have "0 \<le> delay_seconds (retry_decide p u n r ra el) \<and> (ra = None \<longrightarrow>
      delay_seconds (retry_decide p u n r ra el) \<le> maximum_delay p * (1 + jitter_ratio p))"
    using assms(5)
    by (auto simp: retry_decide_def refuse_def Let_def pause_def split: if_splits option.splits)
  with retry_decide_budget [OF assms(5)] show ?thesis by auto
qed

theorem granted_retry_within_budgets_witness:
  "rd_retry (retry_decide default_policy 1 4 True None 0)
   \<and> delay_seconds (retry_decide default_policy 1 4 True None 0) \<le> 360"
proof -
  have p: "RetryPolicy 5 1 300 3600 (1 / 5) = Some default_policy"
    by (simp add: RetryPolicy_def default_policy_def)
  have r: "rd_retry (retry_decide default_policy 1 4 True None 0)"
    by (simp add: retry_decide_def default_policy_def calculated_delay_def uniform_def)
  from granted_retry_within_budgets [OF p _ _ _ r] r show ?thesis
    by (simp add: default_policy_def)
qed

subsection \<open>Failure classification\<close>

datatype provider_failure =
    PF_AUTHENTICATION | PF_PERMISSION | PF_QUOTA | PF_RATE_LIMIT | PF_TIMEOUT | PF_CONNECTION
  | PF_SERVER | PF_MALFORMED_OUTPUT | PF_CONTENT_POLICY | PF_CANCELLATION | PF_UNKNOWN_MODEL
  | PF_BUDGET_EXHAUSTED

fun provider_failure_value :: "provider_failure \<Rightarrow> string" where
  "provider_failure_value PF_AUTHENTICATION = ''authentication''"
| "provider_failure_value PF_PERMISSION = ''permission''"
| "provider_failure_value PF_QUOTA = ''quota''"
| "provider_failure_value PF_RATE_LIMIT = ''rate_limit''"
| "provider_failure_value PF_TIMEOUT = ''timeout''"
| "provider_failure_value PF_CONNECTION = ''connection''"
| "provider_failure_value PF_SERVER = ''server''"
| "provider_failure_value PF_MALFORMED_OUTPUT = ''malformed_output''"
| "provider_failure_value PF_CONTENT_POLICY = ''content_policy''"
| "provider_failure_value PF_CANCELLATION = ''cancellation''"
| "provider_failure_value PF_UNKNOWN_MODEL = ''unknown_model''"
| "provider_failure_value PF_BUDGET_EXHAUSTED = ''budget_exhausted''"

record provider_error =
  failure_type :: provider_failure
  pe_message :: string
  pe_retryable :: bool
  pe_retry_after :: "seconds option"

text \<open>
  A raised exception: the names of its class and of the classes it inherits from, most
  specific first, and what a provider error carries.
\<close>

record exception =
  exn_classes :: "string list"
  exn_provider :: "provider_error option"

definition is_instance :: "exception \<Rightarrow> string \<Rightarrow> bool" where
  "is_instance e c \<longleftrightarrow> c \<in> set (exn_classes e)"

definition type_name :: "exception \<Rightarrow> string" where
  "type_name e = (case exn_classes e of [] \<Rightarrow> '''' | c # _ \<Rightarrow> c)"

datatype failure_class =
    RETRYABLE_PROVIDER | RETRYABLE_INFRASTRUCTURE | RATE_LIMITED | PERMANENT_VALIDATION
  | PERMANENT_AUTHORIZATION | FC_CANCELLED | FC_TIMEOUT | OWNERSHIP_LOST

fun failure_class_value :: "failure_class \<Rightarrow> string" where
  "failure_class_value RETRYABLE_PROVIDER = ''retryable_provider''"
| "failure_class_value RETRYABLE_INFRASTRUCTURE = ''retryable_infrastructure''"
| "failure_class_value RATE_LIMITED = ''rate_limited''"
| "failure_class_value PERMANENT_VALIDATION = ''permanent_validation''"
| "failure_class_value PERMANENT_AUTHORIZATION = ''permanent_authorization''"
| "failure_class_value FC_CANCELLED = ''cancelled''"
| "failure_class_value FC_TIMEOUT = ''timeout''"
| "failure_class_value OWNERSHIP_LOST = ''ownership_lost''"

record execution_failure =
  classification :: failure_class
  ef_summary :: string
  ef_retryable :: bool
  ef_retry_after :: "seconds option"

definition ExecutionFailure :: "failure_class \<Rightarrow> string \<Rightarrow> bool \<Rightarrow> execution_failure" where
  "ExecutionFailure c s r =
     \<lparr>classification = c, ef_summary = s, ef_retryable = r, ef_retry_after = None\<rparr>"

definition classify_provider :: "provider_error \<Rightarrow> execution_failure" where
  "classify_provider error =
     (if failure_type error = PF_CANCELLATION
        then ExecutionFailure FC_CANCELLED ''provider request cancelled'' False
      else if failure_type error = PF_RATE_LIMIT
        then (ExecutionFailure RATE_LIMITED ''provider rate limited'' True)
               \<lparr>ef_retry_after := pe_retry_after error\<rparr>
      else
        let permanent = failure_type error \<in> {PF_AUTHENTICATION, PF_PERMISSION,
              PF_MALFORMED_OUTPUT, PF_CONTENT_POLICY, PF_UNKNOWN_MODEL}
        in ExecutionFailure
             (if failure_type error \<in> {PF_AUTHENTICATION, PF_PERMISSION} then PERMANENT_AUTHORIZATION
              else if permanent then PERMANENT_VALIDATION else RETRYABLE_PROVIDER)
             (''provider failure: '' @ provider_failure_value (failure_type error))
             (\<not> permanent))"

definition classify_failure :: "exception \<Rightarrow> execution_failure" where
  "classify_failure error = (case exn_provider error of
     Some p \<Rightarrow> classify_provider p
   | None \<Rightarrow>
       if is_instance error ''TimeoutError''
         then ExecutionFailure FC_TIMEOUT ''execution deadline exceeded'' True
       else if is_instance error ''PermissionError''
         then ExecutionFailure PERMANENT_AUTHORIZATION ''authorization denied'' False
       else if is_instance error ''ValueError''
         then ExecutionFailure PERMANENT_VALIDATION ''validation failed'' False
       else if is_instance error ''CancelledError''
         then ExecutionFailure FC_CANCELLED ''execution cancelled'' False
       else ExecutionFailure RETRYABLE_INFRASTRUCTURE (type_name error) True)"

definition permanent_class :: "failure_class \<Rightarrow> bool" where
  "permanent_class c \<longleftrightarrow> c \<in> {PERMANENT_VALIDATION, PERMANENT_AUTHORIZATION, FC_CANCELLED}"

text \<open>
  The two halves of a classification agree: a failure is marked retryable exactly when
  its class is not a permanent one or a cancellation, a permanent failure carries no
  retry-after, and so the retry policy never grants a retry of a permanent failure,
  whatever the attempt and the elapsed time.
\<close>

theorem permanent_failures_never_retried:
  "(ef_retryable (classify_failure e) \<longleftrightarrow> \<not> permanent_class (classification (classify_failure e)))
   \<and> (ef_retry_after (classify_failure e) \<noteq> None \<longrightarrow> ef_retryable (classify_failure e))
   \<and> (permanent_class (classification (classify_failure e)) \<longrightarrow>
        \<not> rd_retry (retry_decide p u n (ef_retryable (classify_failure e))
                      (ef_retry_after (classify_failure e)) el))"
proof -
  have "(ef_retryable (classify_failure e) \<longleftrightarrow> \<not> permanent_class (classification (classify_failure e)))
      \<and> (ef_retry_after (classify_failure e) \<noteq> None \<longrightarrow> ef_retryable (classify_failure e))"
    by (auto simp: classify_failure_def classify_provider_def ExecutionFailure_def permanent_class_def
        Let_def split: option.splits)
  then show ?thesis by (auto simp: retry_decide_def refuse_def)
qed

theorem permanent_failures_never_retried_witness:
  "\<not> rd_retry (retry_decide default_policy 0 1
      (ef_retryable (classify_failure \<lparr>exn_classes = [''PermissionError'', ''OSError''], exn_provider = None\<rparr>))
      None 0)"
  using permanent_failures_never_retried
    [of "\<lparr>exn_classes = [''PermissionError'', ''OSError''], exn_provider = None\<rparr>" default_policy 0 1 0]
  by (simp add: classify_failure_def is_instance_def ExecutionFailure_def permanent_class_def)

end
