(* ===== verification/Redis_Port.thy ===== *)
theory Redis_Port
  imports Prelude "HOL-Library.AList"
begin

text \<open>
  The Redis server as the queue uses it: a record of the commands the scripts call, with their
  documented effect as a locale over a view of the store (strings with an expiry time,
  hashes, integer hashes, sets, sorted sets, lists). The server itself is not part of the
  repository; every fact about the queue is proved for any \<open>R\<close> and \<open>view\<close> that satisfy the
  locale. A small store of association lists is one such server, used to run the scripts.
\<close>

subsection \<open>Commands and view\<close>

record ('k, 'v) keyspace =
  strings :: "'k \<Rightarrow> ('v \<times> instant) option"
  hashes :: "'k \<Rightarrow> string \<Rightarrow> 'v option"
  counts :: "'k \<Rightarrow> string \<Rightarrow> int"
  members :: "'k \<Rightarrow> string set"
  scores :: "'k \<Rightarrow> string \<Rightarrow> real option"
  lists :: "'k \<Rightarrow> 'v list"
  server_time :: instant

record ('k, 'v, 's) redis_commands =
  cmd_get :: "'k \<Rightarrow> 's \<Rightarrow> 'v option"
  cmd_set_ex :: "'k \<Rightarrow> 'v \<Rightarrow> seconds \<Rightarrow> 's \<Rightarrow> 's"
  cmd_set_nx_ex :: "'k \<Rightarrow> 'v \<Rightarrow> seconds \<Rightarrow> 's \<Rightarrow> 's"
  cmd_del :: "'k \<Rightarrow> 's \<Rightarrow> 's"
  cmd_hget :: "'k \<Rightarrow> string \<Rightarrow> 's \<Rightarrow> 'v option"
  cmd_hset :: "'k \<Rightarrow> string \<Rightarrow> 'v \<Rightarrow> 's \<Rightarrow> 's"
  cmd_hsetnx :: "'k \<Rightarrow> string \<Rightarrow> 'v \<Rightarrow> 's \<Rightarrow> 's"
  cmd_hdel :: "'k \<Rightarrow> string \<Rightarrow> 's \<Rightarrow> 's"
  cmd_hvals :: "'k \<Rightarrow> 's \<Rightarrow> 'v list"
  cmd_hincrby :: "'k \<Rightarrow> string \<Rightarrow> int \<Rightarrow> 's \<Rightarrow> 's"
  cmd_sadd :: "'k \<Rightarrow> string \<Rightarrow> 's \<Rightarrow> 's"
  cmd_sismember :: "'k \<Rightarrow> string \<Rightarrow> 's \<Rightarrow> bool"
  cmd_zadd :: "'k \<Rightarrow> real \<Rightarrow> string \<Rightarrow> 's \<Rightarrow> 's"
  cmd_zrem :: "'k \<Rightarrow> string \<Rightarrow> 's \<Rightarrow> 's"
  cmd_zscore :: "'k \<Rightarrow> string \<Rightarrow> 's \<Rightarrow> real option"
  cmd_zrangebyscore :: "'k \<Rightarrow> real \<Rightarrow> nat \<Rightarrow> 's \<Rightarrow> string list"
  cmd_lpop :: "'k \<Rightarrow> 's \<Rightarrow> 'v option \<times> 's"
  cmd_rpush :: "'k \<Rightarrow> 'v \<Rightarrow> 's \<Rightarrow> 's"
  pass_time :: "seconds \<Rightarrow> 's \<Rightarrow> 's"

text \<open>A string key is readable until its expiry time.\<close>

definition live :: "('k, 'v) keyspace \<Rightarrow> 'k \<Rightarrow> 'v option" where
  "live ks k = (case strings ks k of
     None \<Rightarrow> None
   | Some (v, expiry) \<Rightarrow> if server_time ks < expiry then Some v else None)"

text \<open>The members with a score of at most \<open>hi\<close>, by score and then by name.\<close>

definition due_members :: "('k, 'v) keyspace \<Rightarrow> 'k \<Rightarrow> real \<Rightarrow> (real \<times> string) list" where
  "due_members ks k hi = sorted_list_of_set {(sc, m). scores ks k m = Some sc \<and> sc \<le> hi}"

locale redis =
  fixes R :: "('k, 'v, 's) redis_commands"
    and view :: "'s \<Rightarrow> ('k, 'v) keyspace"
  assumes get_law: "cmd_get R k s = live (view s) k"
    and set_ex_law: "view (cmd_set_ex R k v ttl s) =
      (view s)\<lparr>strings := (strings (view s))(k := Some (v, server_time (view s) + ttl))\<rparr>"
    and set_nx_ex_law: "view (cmd_set_nx_ex R k v ttl s) =
      (if live (view s) k \<noteq> None then view s
       else (view s)\<lparr>strings := (strings (view s))(k := Some (v, server_time (view s) + ttl))\<rparr>)"
    and del_law: "view (cmd_del R k s) = (view s)\<lparr>strings := (strings (view s))(k := None)\<rparr>"
    and hget_law: "cmd_hget R k f s = hashes (view s) k f"
    and hset_law: "view (cmd_hset R k f v s) =
      (view s)\<lparr>hashes := (hashes (view s))(k := (hashes (view s) k)(f := Some v))\<rparr>"
    and hsetnx_law: "view (cmd_hsetnx R k f v s) =
      (if hashes (view s) k f \<noteq> None then view s
       else (view s)\<lparr>hashes := (hashes (view s))(k := (hashes (view s) k)(f := Some v))\<rparr>)"
    and hdel_law: "view (cmd_hdel R k f s) =
      (view s)\<lparr>hashes := (hashes (view s))(k := (hashes (view s) k)(f := None))\<rparr>"
    and hvals_law: "\<exists>fs. distinct fs \<and> set fs = dom (hashes (view s) k)
      \<and> cmd_hvals R k s = map (\<lambda>f. the (hashes (view s) k f)) fs"
    and hincrby_law: "view (cmd_hincrby R k f i s) =
      (view s)\<lparr>counts := (counts (view s))(k := (counts (view s) k)(f := counts (view s) k f + i))\<rparr>"
    and sadd_law: "view (cmd_sadd R k m s) =
      (view s)\<lparr>members := (members (view s))(k := insert m (members (view s) k))\<rparr>"
    and sismember_law: "cmd_sismember R k m s \<longleftrightarrow> m \<in> members (view s) k"
    and zadd_law: "view (cmd_zadd R k sc m s) =
      (view s)\<lparr>scores := (scores (view s))(k := (scores (view s) k)(m := Some sc))\<rparr>"
    and zrem_law: "view (cmd_zrem R k m s) =
      (view s)\<lparr>scores := (scores (view s))(k := (scores (view s) k)(m := None))\<rparr>"
    and zscore_law: "cmd_zscore R k m s = scores (view s) k m"
    and zrange_law: "cmd_zrangebyscore R k hi n s = take n (map snd (due_members (view s) k hi))"
    and finite_scores: "finite (dom (scores (view s) k))"
    and lpop_law: "cmd_lpop R k s = (ov, s') \<Longrightarrow> (case lists (view s) k of
        [] \<Rightarrow> ov = None \<and> view s' = view s
      | v # vs \<Rightarrow> ov = Some v \<and> view s' = (view s)\<lparr>lists := (lists (view s))(k := vs)\<rparr>)"
    and rpush_law: "view (cmd_rpush R k v s) =
      (view s)\<lparr>lists := (lists (view s))(k := lists (view s) k @ [v])\<rparr>"
    and pass_time_law: "view (pass_time R d s) =
      (view s)\<lparr>server_time := server_time (view s) + max 0 d\<rparr>"
begin

lemmas read_laws = get_law hget_law sismember_law zscore_law
lemmas write_laws = set_ex_law set_nx_ex_law del_law hset_law hsetnx_law hdel_law hincrby_law
  sadd_law zadd_law zrem_law rpush_law pass_time_law

lemma lpop_empty: "lists (view s) k = [] \<Longrightarrow> fst (cmd_lpop R k s) = None \<and> view (snd (cmd_lpop R k s)) = view s"
  using lpop_law [of k s "fst (cmd_lpop R k s)" "snd (cmd_lpop R k s)"] by simp

lemma lpop_head:
  "lists (view s) k = v # vs \<Longrightarrow> fst (cmd_lpop R k s) = Some v
     \<and> view (snd (cmd_lpop R k s)) = (view s)\<lparr>lists := (lists (view s))(k := vs)\<rparr>"
  using lpop_law [of k s "fst (cmd_lpop R k s)" "snd (cmd_lpop R k s)"] by simp

text \<open>The range command finds exactly the members that are due, up to its limit.\<close>

lemma finite_due: "finite {(sc, m). scores (view s) k m = Some sc \<and> sc \<le> hi}"
proof -
  have "{(sc, m). scores (view s) k m = Some sc \<and> sc \<le> hi}
      \<subseteq> (\<lambda>m. (the (scores (view s) k m), m)) ` dom (scores (view s) k)"
    by (auto simp: image_iff dom_def)
  then show ?thesis using finite_scores finite_subset by blast
qed

lemma due_members_iff:
  "(sc, m) \<in> set (due_members (view s) k hi) \<longleftrightarrow> scores (view s) k m = Some sc \<and> sc \<le> hi"
  using finite_due [of s k hi] by (simp add: due_members_def)

lemma zrange_due:
  "m \<in> set (cmd_zrangebyscore R k hi n s) \<Longrightarrow> \<exists>sc. scores (view s) k m = Some sc \<and> sc \<le> hi"
  unfolding zrange_law using due_members_iff by (metis (no_types, lifting) imageE in_set_takeD
      prod.collapse set_map)

end

subsection \<open>A store of association lists\<close>

record ('k, 'v) mini_store =
  ms_strings :: "('k \<times> ('v \<times> instant)) list"
  ms_hashes :: "(('k \<times> string) \<times> 'v) list"
  ms_counts :: "(('k \<times> string) \<times> int) list"
  ms_members :: "('k \<times> string) list"
  ms_scores :: "(('k \<times> string) \<times> real) list"
  ms_lists :: "('k \<times> 'v list) list"
  ms_time :: instant

definition mini_list :: "'k \<Rightarrow> ('k, 'v) mini_store \<Rightarrow> 'v list" where
  "mini_list k s = (case map_of (ms_lists s) k of None \<Rightarrow> [] | Some vs \<Rightarrow> vs)"

definition mini_count :: "'k \<Rightarrow> string \<Rightarrow> ('k, 'v) mini_store \<Rightarrow> int" where
  "mini_count k f s = (case map_of (ms_counts s) (k, f) of None \<Rightarrow> 0 | Some n \<Rightarrow> n)"

definition mini_get :: "'k \<Rightarrow> ('k, 'v) mini_store \<Rightarrow> 'v option" where
  "mini_get k s = (case map_of (ms_strings s) k of
     None \<Rightarrow> None
   | Some (v, expiry) \<Rightarrow> if ms_time s < expiry then Some v else None)"

definition mini_set_ex :: "'k \<Rightarrow> 'v \<Rightarrow> seconds \<Rightarrow> ('k, 'v) mini_store \<Rightarrow> ('k, 'v) mini_store" where
  "mini_set_ex k v ttl s = s\<lparr>ms_strings := AList.update k (v, ms_time s + ttl) (ms_strings s)\<rparr>"

definition mini_range :: "'k \<Rightarrow> real \<Rightarrow> ('k, 'v) mini_store \<Rightarrow> (real \<times> string) list" where
  "mini_range k hi s = sort (remdups (filter (\<lambda>(sc, m). map_of (ms_scores s) (k, m) = Some sc \<and> sc \<le> hi)
     (map (\<lambda>((k', m), sc). (sc, m)) (ms_scores s))))"

definition mini_redis :: "('k, 'v, ('k, 'v) mini_store) redis_commands" where
  "mini_redis = \<lparr>
     cmd_get = mini_get,
     cmd_set_ex = mini_set_ex,
     cmd_set_nx_ex = (\<lambda>k v ttl s. if mini_get k s \<noteq> None then s else mini_set_ex k v ttl s),
     cmd_del = (\<lambda>k s. s\<lparr>ms_strings := AList.delete k (ms_strings s)\<rparr>),
     cmd_hget = (\<lambda>k f s. map_of (ms_hashes s) (k, f)),
     cmd_hset = (\<lambda>k f v s. s\<lparr>ms_hashes := AList.update (k, f) v (ms_hashes s)\<rparr>),
     cmd_hsetnx = (\<lambda>k f v s. if map_of (ms_hashes s) (k, f) \<noteq> None then s
       else s\<lparr>ms_hashes := AList.update (k, f) v (ms_hashes s)\<rparr>),
     cmd_hdel = (\<lambda>k f s. s\<lparr>ms_hashes := AList.delete (k, f) (ms_hashes s)\<rparr>),
     cmd_hvals = (\<lambda>k s. map (\<lambda>f. the (map_of (ms_hashes s) (k, f)))
       (remdups (map snd (filter (\<lambda>p. fst p = k) (map fst (ms_hashes s)))))),
     cmd_hincrby = (\<lambda>k f n s. s\<lparr>ms_counts := AList.update (k, f) (mini_count k f s + n) (ms_counts s)\<rparr>),
     cmd_sadd = (\<lambda>k m s. s\<lparr>ms_members := (k, m) # ms_members s\<rparr>),
     cmd_sismember = (\<lambda>k m s. (k, m) \<in> set (ms_members s)),
     cmd_zadd = (\<lambda>k sc m s. s\<lparr>ms_scores := AList.update (k, m) sc (ms_scores s)\<rparr>),
     cmd_zrem = (\<lambda>k m s. s\<lparr>ms_scores := AList.delete (k, m) (ms_scores s)\<rparr>),
     cmd_zscore = (\<lambda>k m s. map_of (ms_scores s) (k, m)),
     cmd_zrangebyscore = (\<lambda>k hi n s. take n (map snd (mini_range k hi s))),
     cmd_lpop = (\<lambda>k s. case mini_list k s of
         [] \<Rightarrow> (None, s)
       | v # vs \<Rightarrow> (Some v, s\<lparr>ms_lists := AList.update k vs (ms_lists s)\<rparr>)),
     cmd_rpush = (\<lambda>k v s. s\<lparr>ms_lists := AList.update k (mini_list k s @ [v]) (ms_lists s)\<rparr>),
     pass_time = (\<lambda>d s. s\<lparr>ms_time := ms_time s + max 0 d\<rparr>)\<rparr>"

definition mini_view :: "('k, 'v) mini_store \<Rightarrow> ('k, 'v) keyspace" where
  "mini_view s = \<lparr>strings = map_of (ms_strings s),
     hashes = (\<lambda>k f. map_of (ms_hashes s) (k, f)),
     counts = (\<lambda>k f. mini_count k f s),
     members = (\<lambda>k. {m. (k, m) \<in> set (ms_members s)}),
     scores = (\<lambda>k m. map_of (ms_scores s) (k, m)),
     lists = (\<lambda>k. mini_list k s),
     server_time = ms_time s\<rparr>"

definition empty_store :: "('k, 'v) mini_store" where
  "empty_store = \<lparr>ms_strings = [], ms_hashes = [], ms_counts = [], ms_members = [], ms_scores = [],
     ms_lists = [], ms_time = 0\<rparr>"

lemma mini_range_due: "mini_range k hi s = due_members (mini_view s) k hi"
proof -
  define found where "found = filter (\<lambda>(sc, m). map_of (ms_scores s) (k, m) = Some sc \<and> sc \<le> hi)
     (map (\<lambda>((k', m), sc). (sc, m)) (ms_scores s))"
  have "(sc, m) \<in> set (map (\<lambda>((k', m), sc). (sc, m)) (ms_scores s))"
    if "map_of (ms_scores s) (k, m) = Some sc" for sc m
    using map_of_SomeD [OF that] by force
  then have "set found = {(sc, m). scores (mini_view s) k m = Some sc \<and> sc \<le> hi}"
    unfolding found_def set_filter by (fastforce simp: mini_view_def)
  then have "due_members (mini_view s) k hi = sorted_list_of_set (set found)"
    by (simp add: due_members_def)
  moreover have "mini_range k hi s = sort (remdups found)"
    by (simp only: mini_range_def found_def)
  ultimately show ?thesis by (simp only: sorted_list_of_set_sort_remdups)
qed

lemma mini_keys: "set (remdups (map snd (filter (\<lambda>p. fst p = k) (map fst al)))) = dom (\<lambda>f. map_of al (k, f))"
  by (force simp: dom_def map_of_eq_None_iff)

interpretation mini: redis mini_redis mini_view
proof
  fix k :: 'k and s :: "('k, 'v) mini_store"
  show "\<exists>fs. distinct fs \<and> set fs = dom (hashes (mini_view s) k)
      \<and> cmd_hvals mini_redis k s = map (\<lambda>f. the (hashes (mini_view s) k f)) fs"
    using mini_keys [of k "ms_hashes s"]
    by (intro exI [of _ "remdups (map snd (filter (\<lambda>p. fst p = k) (map fst (ms_hashes s))))"])
      (simp add: mini_redis_def mini_view_def)
  have "dom (scores (mini_view s) k) \<subseteq> snd ` dom (map_of (ms_scores s))"
    by (force simp: mini_view_def)
  then show "finite (dom (scores (mini_view s) k))"
    using finite_dom_map_of finite_imageI finite_subset by blast
  show "cmd_zrangebyscore mini_redis k hi n s = take n (map snd (due_members (mini_view s) k hi))"
    for hi n by (simp add: mini_redis_def mini_range_due)
qed (auto simp: mini_redis_def mini_view_def mini_get_def mini_set_ex_def live_def fun_eq_iff
    AList.update_conv' AList.delete_conv' mini_count_def mini_list_def
    split: option.splits list.splits prod.splits)

end
