(* ===== verification/Queue.thy ===== *)
theory Queue
  imports Redis_Port Lifecycle Retry
begin

text \<open>
  The task queue, first part: the keys and the JSON values it keeps in Redis, the producer
  (\<open>queue/producer.py\<close>, \<open>queue/deduplication.py\<close>) and the consumer (\<open>queue/consumer.py\<close>).
  A Lua script is a function of the store that runs as one step; \<open>None\<close> in its result is a
  script error. JSON values are the records they encode.
\<close>

subsection \<open>Keys and values\<close>

datatype task_priority = P_CRITICAL | P_HIGH | P_NORMAL | P_LOW

definition all_priorities :: "task_priority list" where
  "all_priorities = [P_CRITICAL, P_HIGH, P_NORMAL, P_LOW]"

fun priority_digit :: "task_priority \<Rightarrow> string" where
  "priority_digit P_CRITICAL = ''0''"
| "priority_digit P_HIGH = ''1''"
| "priority_digit P_NORMAL = ''2''"
| "priority_digit P_LOW = ''3''"

datatype queue_key =
    Ready task_priority | Dedupe digest | Task_index | Inflight | Leases | Lease_expiry
  | Cancelled_set | Cancel_meta | Delayed | Delayed_due | Dlq | Dlq_task_index | Dlq_record_index
  | Counters | Worker_key string

fun key_text :: "string \<Rightarrow> queue_key \<Rightarrow> string" where
  "key_text p (Ready n) = p @ '':ready:'' @ priority_digit n"
| "key_text p (Dedupe d) = p @ '':dedupe:'' @ d"
| "key_text p Task_index = p @ '':task-index''"
| "key_text p Inflight = p @ '':inflight''"
| "key_text p Leases = p @ '':leases''"
| "key_text p Lease_expiry = p @ '':lease-expiry''"
| "key_text p Cancelled_set = p @ '':cancelled''"
| "key_text p Cancel_meta = p @ '':cancellation-metadata''"
| "key_text p Delayed = p @ '':delayed''"
| "key_text p Delayed_due = p @ '':delayed-due''"
| "key_text p Dlq = p @ '':dlq''"
| "key_text p Dlq_task_index = p @ '':dlq-task-index''"
| "key_text p Dlq_record_index = p @ '':dlq-record-index''"
| "key_text p Counters = p @ '':metric-counters''"
| "key_text p (Worker_key w) = p @ '':workers:'' @ w"

record envelope =
  env_message_id :: string
  env_task_id :: string
  env_task :: task_record
  env_attempt :: int
  env_priority :: task_priority
  env_enqueued_at :: instant
  env_owner :: "string option"
  env_worker :: "string option"
  env_claimed_at :: "instant option"
  env_lease_expires :: "instant option"

record lease =
  l_message_id :: string
  l_task_id :: string
  l_worker :: string
  l_owner :: string
  l_claimed_at :: instant
  l_expires_at :: instant
  l_deadline :: instant
  l_attempt :: int

record attempt_note =
  an_attempt :: int
  an_failure_class :: string
  an_failed_at :: instant
  an_summary :: string
  an_previous_worker :: "string option"

record retry_record =
  rr_message_id :: string
  rr_task_id :: string
  rr_envelope :: envelope
  rr_priority :: task_priority
  rr_attempt :: int
  rr_due_at :: instant
  rr_failure_class :: string
  rr_error_summary :: string
  rr_source :: string
  rr_first_failed :: instant
  rr_latest_failed :: instant
  rr_evidence :: "string option"
  rr_history :: "attempt_note list"

datatype replay_approval = RA_NOT_REQUIRED | RA_PENDING | RA_APPROVED | RA_DENIED

record dead_letter =
  dl_id :: string
  dl_message_id :: string
  dl_task_id :: string
  dl_envelope :: envelope
  dl_priority :: task_priority
  dl_attempts :: int
  dl_failure_class :: string
  dl_error_summary :: string
  dl_first_failed :: instant
  dl_final_failed :: instant
  dl_worker :: "string option"
  dl_evidence :: "string option"
  dl_source :: string
  replay_eligible :: bool
  approval_status :: replay_approval
  replayed_at :: "instant option"
  replayed_message_id :: "string option"
  dl_created_at :: instant
  dl_history :: "attempt_note list"
  dl_cancelled :: bool

record cancellation_record =
  cx_task_id :: string
  cx_actor :: string
  cx_reason :: string
  cx_at :: instant
  cx_evidence :: "string option"

record registration =
  wr_worker_id :: string
  wr_instance_id :: string
  wr_started_at :: instant
  wr_heartbeat :: instant
  wr_capacity :: int
  wr_active :: int
  wr_draining :: bool

datatype queue_value =
    VText string | VEnvelope envelope | VLease lease | VRetry retry_record
  | VDead dead_letter | VCancel cancellation_record | VWorker registration | VEmpty_object

type_synonym 's queue_redis = "(queue_key, queue_value, 's) redis_commands"
type_synonym queue_space = "(queue_key, queue_value) keyspace"

subsection \<open>Calls that may fail on the way\<close>

text \<open>
  A client call of a script is answered, or it fails: before the server has run the script,
  or after, when only the reply is lost. Both failures surface as the same
  \<open>QueueInfrastructureError\<close>, as does an error inside the script.
\<close>

datatype reply = Answered | Not_sent | Reply_lost

datatype queue_error = Infrastructure_error | Invalid_argument | Decode_error

definition through :: "reply \<Rightarrow> ('s \<Rightarrow> 'a option \<times> 's) \<Rightarrow> 's \<Rightarrow> (queue_error + 'a) \<times> 's" where
  "through reply call s = (case reply of
     Not_sent \<Rightarrow> (Inl Infrastructure_error, s)
   | Reply_lost \<Rightarrow> (Inl Infrastructure_error, snd (call s))
   | Answered \<Rightarrow> (case call s of
       (None, s') \<Rightarrow> (Inl Infrastructure_error, s')
     | (Some a, s') \<Rightarrow> (Inr a, s')))"

subsection \<open>Producer\<close>

definition normalize_idempotency_key :: "string \<Rightarrow> string option" where
  "normalize_idempotency_key key = (let normalized = strip key in
     if normalized = [] \<or> length normalized > 255 then None else Some normalized)"

definition task_deduplication_key :: "(string \<Rightarrow> digest) \<Rightarrow> string \<Rightarrow> digest option" where
  "task_deduplication_key sha256 key = map_option sha256 (normalize_idempotency_key key)"

definition enqueue_script ::
  "'s queue_redis \<Rightarrow> task_priority \<Rightarrow> digest \<Rightarrow> string \<Rightarrow> seconds \<Rightarrow> string \<Rightarrow> envelope \<Rightarrow> 's
   \<Rightarrow> (bool \<times> queue_value) option \<times> 's" where
  "enqueue_script R ready dedupe message_id ttl tid env s =
     (case cmd_get R (Dedupe dedupe) s of
        Some existing \<Rightarrow> (Some (False, existing), cmd_hincrby R Counters ''duplicate_enqueue'' 1 s)
      | None \<Rightarrow>
          let s1 = cmd_set_nx_ex R (Dedupe dedupe) (VText message_id) ttl s;
              s2 = cmd_hset R Task_index tid (VText message_id) s1;
              s3 = cmd_rpush R (Ready ready) (VEnvelope env) s2
          in (Some (True, VText message_id), cmd_hincrby R Counters ''enqueued'' 1 s3))"

record enqueue_result =
  er_message_id :: string
  er_accepted :: bool

definition dedupe_ttl :: seconds where
  "dedupe_ttl = 86400"

definition new_envelope :: "string \<Rightarrow> task_record \<Rightarrow> task_priority \<Rightarrow> envelope" where
  "new_envelope message_id task priority = \<lparr>env_message_id = message_id, env_task_id = task_id task,
     env_task = task, env_attempt = 0, env_priority = priority, env_enqueued_at = created_at task,
     env_owner = None, env_worker = None, env_claimed_at = None, env_lease_expires = None\<rparr>"

definition enqueue ::
  "'s queue_redis \<Rightarrow> (string \<Rightarrow> digest) \<Rightarrow> reply \<Rightarrow> uuid \<Rightarrow> task_record \<Rightarrow> string \<Rightarrow> task_priority \<Rightarrow> 's
   \<Rightarrow> (queue_error + enqueue_result) \<times> 's" where
  "enqueue R sha256 reply uid task idempotency_key priority s =
     (case task_deduplication_key sha256 idempotency_key of
        None \<Rightarrow> (Inl Invalid_argument, s)
      | Some dedupe \<Rightarrow>
          (case through reply (enqueue_script R priority dedupe uid dedupe_ttl (task_id task)
                  (new_envelope uid task priority)) s of
             (Inl err, s') \<Rightarrow> (Inl err, s')
           | (Inr (accepted, VText message_id), s') \<Rightarrow>
               (Inr \<lparr>er_message_id = message_id, er_accepted = accepted\<rparr>, s')
           | (Inr _, s') \<Rightarrow> (Inl Decode_error, s')))"

subsection \<open>Consumer\<close>

definition terminal_state :: "task_state \<Rightarrow> bool" where
  "terminal_state st \<longleftrightarrow> st = COMPLETED \<or> st = FAILED \<or> st = CANCELLED"

definition leased_envelope ::
  "string \<Rightarrow> string \<Rightarrow> instant \<Rightarrow> instant \<Rightarrow> envelope \<Rightarrow> envelope" where
  "leased_envelope owner worker now expires env =
     env\<lparr>env_owner := Some owner, env_worker := Some worker, env_claimed_at := Some now,
         env_lease_expires := Some expires\<rparr>"

definition new_lease :: "string \<Rightarrow> string \<Rightarrow> instant \<Rightarrow> instant \<Rightarrow> instant \<Rightarrow> envelope \<Rightarrow> lease" where
  "new_lease owner worker now expires deadline env =
     \<lparr>l_message_id = env_message_id env, l_task_id = env_task_id env, l_worker = worker,
      l_owner = owner, l_claimed_at = now, l_expires_at = expires, l_deadline = deadline,
      l_attempt = env_attempt env\<rparr>"

definition forget_lease :: "'s queue_redis \<Rightarrow> string \<Rightarrow> 's \<Rightarrow> 's" where
  "forget_lease R m s =
     cmd_zrem R Lease_expiry m (cmd_hdel R Leases m (cmd_hdel R Inflight m s))"

fun claim_script ::
  "'s queue_redis \<Rightarrow> string \<Rightarrow> string \<Rightarrow> instant \<Rightarrow> instant \<Rightarrow> task_priority list \<Rightarrow> 's
   \<Rightarrow> envelope option option \<times> 's" where
  "claim_script R owner worker now expires [] s = (Some None, s)"
| "claim_script R owner worker now expires (p # ps) s =
     (case cmd_lpop R (Ready p) s of
        (None, s1) \<Rightarrow> claim_script R owner worker now expires ps s1
      | (Some (VEnvelope env), s1) \<Rightarrow>
          if cmd_sismember R Cancelled_set (env_task_id env) s1 \<or> terminal_state (task_state (env_task env))
          then claim_script R owner worker now expires ps (forget_lease R (env_message_id env) s1)
          else
            let m = env_message_id env;
                claimed = leased_envelope owner worker now expires env;
                s2 = cmd_hset R Inflight m (VEnvelope claimed) s1;
                s3 = cmd_hset R Leases m (VLease (new_lease owner worker now expires expires env)) s2;
                s4 = cmd_zadd R Lease_expiry expires m s3
            in (Some (Some claimed), cmd_hincrby R Counters ''claims'' 1 s4)
      | (Some _, s1) \<Rightarrow> (None, s1))"

record claimed_task =
  ct_task :: task_record
  ct_message_id :: string
  ct_owner :: string
  ct_attempt :: int
  ct_lease_expires :: instant
  ct_priority :: task_priority

definition claim ::
  "'s queue_redis \<Rightarrow> string \<Rightarrow> reply \<Rightarrow> uuid \<Rightarrow> instant \<Rightarrow> seconds \<Rightarrow> 's
   \<Rightarrow> (queue_error + claimed_task option) \<times> 's" where
  "claim R worker reply uid now visibility s =
     (let expiry = now + visibility; owner = worker @ '':'' @ uid in
      case through reply (claim_script R owner worker now expiry all_priorities) s of
        (Inl err, s') \<Rightarrow> (Inl err, s')
      | (Inr None, s') \<Rightarrow> (Inr None, s')
      | (Inr (Some env), s') \<Rightarrow>
          (case env_lease_expires env of
             None \<Rightarrow> (Inl Decode_error, s')
           | Some expires \<Rightarrow> (Inr (Some \<lparr>ct_task = env_task env, ct_message_id = env_message_id env,
               ct_owner = owner, ct_attempt = env_attempt env, ct_lease_expires = expires,
               ct_priority = env_priority env\<rparr>), s')))"

definition ack_script ::
  "'s queue_redis \<Rightarrow> string \<Rightarrow> string \<Rightarrow> string \<Rightarrow> 's \<Rightarrow> int option \<times> 's" where
  "ack_script R message_id owner worker s =
     (case cmd_hget R Leases message_id s of
        None \<Rightarrow> (Some 0, s)
      | Some (VLease metadata) \<Rightarrow>
          if l_owner metadata \<noteq> owner \<or> l_worker metadata \<noteq> worker
            then (Some (-1), cmd_hincrby R Counters ''wrong_owner_acknowledgements'' 1 s)
          else if cmd_sismember R Cancelled_set (l_task_id metadata) s then (Some (-2), s)
          else (Some 1, cmd_hincrby R Counters ''acknowledgements'' 1 (forget_lease R message_id s))
      | Some _ \<Rightarrow> (None, s))"

definition is_one :: "(queue_error + int) \<times> 's \<Rightarrow> (queue_error + bool) \<times> 's" where
  "is_one r = (case r of (Inl err, s) \<Rightarrow> (Inl err, s) | (Inr n, s) \<Rightarrow> (Inr (n = 1), s))"

definition acknowledge ::
  "'s queue_redis \<Rightarrow> string \<Rightarrow> reply \<Rightarrow> claimed_task \<Rightarrow> 's \<Rightarrow> (queue_error + bool) \<times> 's" where
  "acknowledge R worker reply claimed s =
     is_one (through reply (ack_script R (ct_message_id claimed) (ct_owner claimed) worker) s)"

definition renew_script ::
  "'s queue_redis \<Rightarrow> string \<Rightarrow> string \<Rightarrow> string \<Rightarrow> string \<Rightarrow> instant \<Rightarrow> 's \<Rightarrow> int option \<times> 's" where
  "renew_script R message_id owner tid worker expiry s =
     (case cmd_hget R Leases message_id s of
        None \<Rightarrow> (Some 0, s)
      | Some v \<Rightarrow>
          if cmd_sismember R Cancelled_set tid s then (Some 0, s)
          else (case v of
            VLease metadata \<Rightarrow>
              if l_owner metadata \<noteq> owner \<or> l_worker metadata \<noteq> worker
                then (Some (-1), cmd_hincrby R Counters ''wrong_owner_renewals'' 1 s)
              else
                let renewed = metadata\<lparr>l_expires_at := expiry, l_deadline := expiry\<rparr>;
                    s1 = cmd_hset R Leases message_id (VLease renewed) s;
                    s2 = cmd_zadd R Lease_expiry expiry message_id s1
                in (Some 1, cmd_hincrby R Counters ''renewals'' 1 s2)
          | _ \<Rightarrow> (None, s)))"

definition renew_lease ::
  "'s queue_redis \<Rightarrow> string \<Rightarrow> reply \<Rightarrow> instant \<Rightarrow> seconds \<Rightarrow> claimed_task \<Rightarrow> 's
   \<Rightarrow> (queue_error + bool) \<times> 's" where
  "renew_lease R worker reply now visibility claimed s =
     is_one (through reply (renew_script R (ct_message_id claimed) (ct_owner claimed)
       (task_id (ct_task claimed)) worker (now + visibility)) s)"

text \<open>Different keys have different names, so no script reads another structure's data.\<close>

lemma key_text_inj: "key_text p a = key_text p b \<Longrightarrow> a = b"
proof -
  have "priority_digit m = priority_digit n \<Longrightarrow> m = n" for m n
    by (cases m; cases n) simp_all
  then show "key_text p a = key_text p b \<Longrightarrow> a = b"
    by (cases a; cases b) simp_all
qed

end
