(* ===== verification/Queue_Failure.thy ===== *)
theory Queue_Failure
  imports Queue
begin

text \<open>
  The task queue, second part: what happens to a delivery that fails, is cancelled or is
  abandoned. Retry scheduler (\<open>queue/retry_scheduler.py\<close>), dead letters
  (\<open>queue/dead_letter_queue.py\<close>), cancellation (\<open>queue/cancellation.py\<close>), lease recovery
  (\<open>queue/recovery.py\<close>) and the failure dispatcher (\<open>worker/failure_delivery.py\<close>).
\<close>

subsection \<open>Retry scheduler\<close>

definition schedule_script ::
  "'s queue_redis \<Rightarrow> string \<Rightarrow> string \<Rightarrow> retry_record \<Rightarrow> instant \<Rightarrow> 's \<Rightarrow> bool option \<times> 's" where
  "schedule_script R message_id tid record due s =
     (if cmd_sismember R Cancelled_set tid s then (Some False, s)
      else if cmd_hget R Delayed message_id s \<noteq> None then (Some False, s)
      else (Some True, cmd_zadd R Delayed_due due message_id
                         (cmd_hset R Delayed message_id (VRetry record) s)))"

record schedule_result =
  sc_scheduled :: bool
  sc_exhausted :: bool
  sc_record :: "retry_record option"

record schedule_request =
  sq_envelope :: envelope
  sq_failure :: execution_failure
  sq_now :: instant
  sq_first_failed :: "instant option"
  sq_history :: "attempt_note list"
  sq_evidence :: "string option"
  sq_draw :: real

definition failure_note :: "int \<Rightarrow> execution_failure \<Rightarrow> instant \<Rightarrow> attempt_note" where
  "failure_note attempt failure now = \<lparr>an_attempt = attempt,
     an_failure_class = failure_class_value (classification failure), an_failed_at = now,
     an_summary = ef_summary failure, an_previous_worker = None\<rparr>"

definition retry_record_of ::
  "schedule_request \<Rightarrow> int \<Rightarrow> retry_decision \<Rightarrow> instant \<Rightarrow> retry_record" where
  "retry_record_of q attempt decision first =
     (let updated = (sq_envelope q)\<lparr>env_attempt := attempt\<rparr>; failure = sq_failure q in
      \<lparr>rr_message_id = env_message_id updated, rr_task_id = env_task_id updated,
       rr_envelope = updated, rr_priority = env_priority updated, rr_attempt = attempt,
       rr_due_at = sq_now q + delay_seconds decision,
       rr_failure_class = failure_class_value (classification failure),
       rr_error_summary = ef_summary failure, rr_source = rd_reason decision,
       rr_first_failed = first, rr_latest_failed = sq_now q, rr_evidence = sq_evidence q,
       rr_history = sq_history q @ [failure_note attempt failure (sq_now q)]\<rparr>)"

definition retry_record_ok :: "retry_record \<Rightarrow> bool" where
  "retry_record_ok r \<longleftrightarrow> rr_attempt r \<ge> 1 \<and> length (rr_error_summary r) \<le> 1000"

definition schedule_failure ::
  "'s queue_redis \<Rightarrow> retry_policy \<Rightarrow> reply \<Rightarrow> schedule_request \<Rightarrow> 's
   \<Rightarrow> (queue_error + schedule_result) \<times> 's" where
  "schedule_failure R policy reply q s =
     (let first = (case sq_first_failed q of None \<Rightarrow> sq_now q | Some t \<Rightarrow> t);
          attempt = env_attempt (sq_envelope q) + 1;
          decision = retry_decide policy (sq_draw q) attempt (ef_retryable (sq_failure q))
            (ef_retry_after (sq_failure q)) (sq_now q - first)
      in if \<not> rd_retry decision
         then (Inr \<lparr>sc_scheduled = False, sc_exhausted = True, sc_record = None\<rparr>, s)
         else
           let record = retry_record_of q attempt decision first
           in if \<not> retry_record_ok record then (Inl Invalid_argument, s)
              else (case through reply (schedule_script R (rr_message_id record) (rr_task_id record)
                      record (rr_due_at record)) s of
                  (Inl err, s') \<Rightarrow> (Inl err, s')
                | (Inr scheduled, s') \<Rightarrow> (Inr \<lparr>sc_scheduled = scheduled, sc_exhausted = False,
                    sc_record = Some record\<rparr>, s')))"

record promotion =
  promoted :: nat
  pr_cancelled :: nat
  pr_terminal :: nat

definition forget_retry :: "'s queue_redis \<Rightarrow> string \<Rightarrow> 's \<Rightarrow> 's" where
  "forget_retry R m s = cmd_zrem R Delayed_due m (cmd_hdel R Delayed m s)"

fun promote_ids ::
  "'s queue_redis \<Rightarrow> string list \<Rightarrow> promotion \<Rightarrow> 's \<Rightarrow> promotion option \<times> 's" where
  "promote_ids R [] tally s = (Some tally, s)"
| "promote_ids R (m # ms) tally s =
     (case cmd_hget R Delayed m s of
        None \<Rightarrow> promote_ids R ms tally (cmd_zrem R Delayed_due m s)
      | Some (VRetry retry) \<Rightarrow>
          if cmd_sismember R Cancelled_set (rr_task_id retry) s
            then promote_ids R ms (tally\<lparr>pr_cancelled := pr_cancelled tally + 1\<rparr>) (forget_retry R m s)
          else if terminal_state (task_state (env_task (rr_envelope retry)))
            then promote_ids R ms (tally\<lparr>pr_terminal := pr_terminal tally + 1\<rparr>) (forget_retry R m s)
          else promote_ids R ms (tally\<lparr>promoted := promoted tally + 1\<rparr>)
                 (cmd_hincrby R Counters ''retry_promotions'' 1
                   (cmd_rpush R (Ready (env_priority (rr_envelope retry))) (VEnvelope (rr_envelope retry))
                     (forget_retry R m s)))
      | Some _ \<Rightarrow> (None, s))"

definition promote_script :: "'s queue_redis \<Rightarrow> instant \<Rightarrow> nat \<Rightarrow> 's \<Rightarrow> promotion option \<times> 's" where
  "promote_script R now batch s =
     promote_ids R (cmd_zrangebyscore R Delayed_due now batch s)
       \<lparr>promoted = 0, pr_cancelled = 0, pr_terminal = 0\<rparr> s"

definition promote_due ::
  "'s queue_redis \<Rightarrow> reply \<Rightarrow> int \<Rightarrow> instant \<Rightarrow> 's \<Rightarrow> (queue_error + promotion) \<times> 's" where
  "promote_due R reply batch now s =
     (if batch < 1 then (Inl Invalid_argument, s)
      else through reply (promote_script R now (nat batch)) s)"

subsection \<open>Dead letters\<close>

definition finalize_script ::
  "'s queue_redis \<Rightarrow> dead_letter \<Rightarrow> 's \<Rightarrow> (bool \<times> queue_value) option \<times> 's" where
  "finalize_script R record s =
     (case cmd_hget R Dlq (dl_message_id record) s of
        Some existing \<Rightarrow> (Some (False, existing), s)
      | None \<Rightarrow>
          let s1 = cmd_hset R Dlq (dl_message_id record) (VDead record) s;
              s2 = cmd_hset R Dlq_task_index (dl_task_id record) (VText (dl_message_id record)) s1;
              s3 = cmd_hset R Dlq_record_index (dl_id record) (VText (dl_message_id record)) s2
          in (Some (True, VDead record), cmd_hincrby R Counters ''dlq_finalizations'' 1 s3))"

definition replay_allowed_for :: "string \<Rightarrow> bool" where
  "replay_allowed_for failure_class =
     (failure_class \<notin> {''permanent_authorization'', ''permanent_validation''})"

definition finalize ::
  "'s queue_redis \<Rightarrow> reply \<Rightarrow> dead_letter \<Rightarrow> 's \<Rightarrow> (queue_error + dead_letter) \<times> 's" where
  "finalize R reply record s =
     (let checked = record\<lparr>replay_eligible := replay_eligible record
                              \<and> replay_allowed_for (dl_failure_class record)\<rparr>
      in case through reply (finalize_script R checked) s of
           (Inl err, s') \<Rightarrow> (Inl err, s')
         | (Inr (_, VDead stored), s') \<Rightarrow> (Inr stored, s')
         | (Inr _, s') \<Rightarrow> (Inl Decode_error, s'))"

definition dlq_get :: "'s queue_redis \<Rightarrow> string \<Rightarrow> 's \<Rightarrow> dead_letter option" where
  "dlq_get R record_id s =
     (let lookup = (case cmd_hget R Dlq_record_index record_id s of
            Some (VText m) \<Rightarrow> str_or (Some m) record_id | _ \<Rightarrow> record_id)
      in case cmd_hget R Dlq lookup s of Some (VDead record) \<Rightarrow> Some record | _ \<Rightarrow> None)"

definition get_by_task :: "'s queue_redis \<Rightarrow> string \<Rightarrow> 's \<Rightarrow> dead_letter option" where
  "get_by_task R tid s =
     (case cmd_hget R Dlq_task_index tid s of
        Some (VText m) \<Rightarrow> if m = [] then None else
          (case cmd_hget R Dlq m s of Some (VDead record) \<Rightarrow> Some record | _ \<Rightarrow> None)
      | _ \<Rightarrow> None)"

definition approve_write :: "'s queue_redis \<Rightarrow> dead_letter \<Rightarrow> bool \<Rightarrow> 's \<Rightarrow> dead_letter \<times> 's" where
  "approve_write R record approved s =
     (let updated = record\<lparr>approval_status := (if approved then RA_APPROVED else RA_DENIED)\<rparr>
      in (updated, cmd_hset R Dlq (dl_message_id updated) (VDead updated) s))"

definition approve_replay ::
  "'s queue_redis \<Rightarrow> string \<Rightarrow> bool \<Rightarrow> 's \<Rightarrow> dead_letter option \<times> 's" where
  "approve_replay R record_id approved s =
     (case dlq_get R record_id s of
        None \<Rightarrow> (None, s)
      | Some record \<Rightarrow> (case approve_write R record approved s of (updated, s') \<Rightarrow> (Some updated, s')))"

datatype replay_result =
    RR_REPLAYED | RR_NOT_FOUND | RR_ALREADY_REPLAYED | RR_NOT_APPROVED | RR_CANCELLED | RR_TERMINAL

definition replayed_envelope :: "string \<Rightarrow> envelope \<Rightarrow> envelope" where
  "replayed_envelope message_id env = env\<lparr>env_message_id := message_id, env_owner := None,
     env_worker := None, env_claimed_at := None, env_lease_expires := None\<rparr>"

definition replay_script ::
  "'s queue_redis \<Rightarrow> string \<Rightarrow> string \<Rightarrow> dead_letter \<Rightarrow> 's \<Rightarrow> replay_result option \<times> 's" where
  "replay_script R message_id new_id updated s =
     (case cmd_hget R Dlq message_id s of
        None \<Rightarrow> (Some RR_NOT_FOUND, s)
      | Some (VDead record) \<Rightarrow>
          if replayed_message_id record \<noteq> None then (Some RR_ALREADY_REPLAYED, s)
          else if \<not> replay_eligible record \<or> approval_status record \<noteq> RA_APPROVED
            then (Some RR_NOT_APPROVED, s)
          else if cmd_sismember R Cancelled_set (dl_task_id record) s then (Some RR_CANCELLED, s)
          else if task_state (env_task (dl_envelope record)) \<in> {COMPLETED, CANCELLED}
            then (Some RR_TERMINAL, s)
          else
            let env = replayed_envelope new_id (dl_envelope record);
                s1 = cmd_hset R Dlq message_id (VDead updated) s;
                s2 = cmd_rpush R (Ready (env_priority env)) (VEnvelope env) s1
            in (Some RR_REPLAYED, cmd_hincrby R Counters ''dlq_replays'' 1 s2)
      | Some _ \<Rightarrow> (None, s))"

definition mark_replayed :: "string \<Rightarrow> instant \<Rightarrow> dead_letter \<Rightarrow> dead_letter" where
  "mark_replayed new_id now record =
     record\<lparr>replayed_message_id := Some new_id, replayed_at := Some now\<rparr>"

definition replay ::
  "'s queue_redis \<Rightarrow> reply \<Rightarrow> uuid \<Rightarrow> instant \<Rightarrow> string \<Rightarrow> 's
   \<Rightarrow> (queue_error + replay_result \<times> string option) \<times> 's" where
  "replay R reply uid now record_id s =
     (case dlq_get R record_id s of
        None \<Rightarrow> (Inr (RR_NOT_FOUND, None), s)
      | Some record \<Rightarrow>
          (case through reply (replay_script R (dl_message_id record) uid (mark_replayed uid now record)) s of
             (Inl err, s') \<Rightarrow> (Inl err, s')
           | (Inr RR_REPLAYED, s') \<Rightarrow> (Inr (RR_REPLAYED, Some uid), s')
           | (Inr result, s') \<Rightarrow> (Inr (result, None), s')))"

subsection \<open>Cancellation\<close>

datatype cancellation_result =
    CX_CANCELLED | CX_ALREADY_CANCELLED | CX_ALREADY_TERMINAL | CX_NOT_FOUND | CX_RUNNING_SIGNALLED

definition cancel_script ::
  "'s queue_redis \<Rightarrow> string \<Rightarrow> cancellation_record \<Rightarrow> 's \<Rightarrow> cancellation_result option \<times> 's" where
  "cancel_script R tid record s =
     (if cmd_sismember R Cancelled_set tid s then (Some CX_ALREADY_CANCELLED, s)
      else
        let message = cmd_hget R Task_index tid s; dlq = cmd_hget R Dlq_task_index tid s in
        if message = None \<and> dlq = None then (Some CX_NOT_FOUND, s)
        else
          let s1 = cmd_sadd R Cancelled_set tid s;
              s2 = cmd_hset R Cancel_meta tid (VCancel record) s1;
              s3 = cmd_hincrby R Counters ''cancellations'' 1 s2
          in (case message of
                None \<Rightarrow> (Some CX_CANCELLED, s3)
              | Some (VText m) \<Rightarrow> (Some CX_CANCELLED, forget_retry R m s3)
              | Some _ \<Rightarrow> (None, s3)))"

text \<open>
  The service: the durable cancellation comes first when there is one (a function of the
  caller's surroundings), \<open>signals\<close> are the tasks running in this process and their events.
\<close>

record local_signals =
  registered :: "string set"
  signalled :: "string set"

definition register_running :: "string \<Rightarrow> local_signals \<Rightarrow> local_signals" where
  "register_running tid sg = sg\<lparr>registered := insert tid (registered sg)\<rparr>"

definition unregister_running :: "string \<Rightarrow> local_signals \<Rightarrow> local_signals" where
  "unregister_running tid sg = sg\<lparr>registered := registered sg - {tid}\<rparr>"

definition cancel ::
  "'s queue_redis \<Rightarrow> (string \<Rightarrow> 'd \<Rightarrow> cancellation_result \<times> 'd) option \<Rightarrow> reply
   \<Rightarrow> cancellation_record \<Rightarrow> 'd \<Rightarrow> local_signals \<Rightarrow> 's
   \<Rightarrow> (queue_error + cancellation_result) \<times> 'd \<times> local_signals \<times> 's" where
  "cancel R durable reply record d sg s =
     (let tid = cx_task_id record;
          (verdict, d') = (case durable of
             None \<Rightarrow> (None, d)
           | Some f \<Rightarrow> (case f tid d of (v, d') \<Rightarrow> (Some v, d')))
      in if verdict = Some CX_ALREADY_TERMINAL \<or> verdict = Some CX_NOT_FOUND
         then (Inr (the verdict), d', sg, s)
         else (case through reply (cancel_script R tid record) s of
             (Inl err, s') \<Rightarrow> (Inl err, d', sg, s')
           | (Inr parsed, s') \<Rightarrow>
               if tid \<in> registered sg \<and> parsed \<in> {CX_CANCELLED, CX_ALREADY_CANCELLED}
               then (Inr CX_RUNNING_SIGNALLED, d', sg\<lparr>signalled := insert tid (signalled sg)\<rparr>, s')
               else (Inr parsed, d', sg, s')))"

subsection \<open>Lease recovery\<close>

datatype recovery_status =
    Missing_index | Renewed | Orphan_cleaned | Terminal_cleaned | Cancelled_cleaned
  | Dead_lettered | Retry_already_scheduled | Retry_scheduled

text \<open>The payload of a recovery: the empty object, a retry to schedule, or a dead letter.\<close>

datatype recovery_payload = No_payload | Retry_payload retry_record | Dead_payload dead_letter

definition retry_value :: "recovery_payload \<Rightarrow> queue_value" where
  "retry_value payload = (case payload of Retry_payload retry \<Rightarrow> VRetry retry | _ \<Rightarrow> VEmpty_object)"

definition recover_script ::
  "'s queue_redis \<Rightarrow> string \<Rightarrow> instant \<Rightarrow> bool \<Rightarrow> recovery_payload \<Rightarrow> instant \<Rightarrow> 's
   \<Rightarrow> recovery_status option \<times> 's" where
  "recover_script R m now durable_terminal payload due s =
     (case cmd_zscore R Lease_expiry m s of
        None \<Rightarrow> (Some Missing_index, s)
      | Some score \<Rightarrow>
          if score > now then (Some Renewed, s)
          else (case (cmd_hget R Leases m s, cmd_hget R Inflight m s) of
             (Some (VLease metadata), Some (VEnvelope env)) \<Rightarrow>
               if l_deadline metadata > now then (Some Renewed, s)
               else
                 let terminal = durable_terminal \<or> task_state (env_task env) \<in> {COMPLETED, FAILED};
                     cancelled = cmd_sismember R Cancelled_set (env_task_id env) s
                       \<or> task_state (env_task env) = CANCELLED;
                     s1 = forget_lease R m s
                 in if terminal then (Some Terminal_cleaned, s1)
                    else if cancelled then (Some Cancelled_cleaned, s1)
                    else (case payload of
                       Dead_payload letter \<Rightarrow>
                         let s2 = cmd_hsetnx R Dlq m (VDead letter) s1;
                             s3 = cmd_hset R Dlq_task_index (env_task_id env) (VText m) s2;
                             s4 = cmd_hset R Dlq_record_index (dl_id letter) (VText m) s3;
                             s5 = cmd_hincrby R Counters ''dlq_finalizations'' 1 s4
                         in (Some Dead_lettered, cmd_hincrby R Counters ''recoveries'' 1 s5)
                     | _ \<Rightarrow>
                         if cmd_hget R Delayed m s1 \<noteq> None then (Some Retry_already_scheduled, s1)
                         else
                           let s2 = cmd_hsetnx R Delayed m (retry_value payload) s1;
                               s3 = cmd_zadd R Delayed_due due m s2;
                               s4 = cmd_hincrby R Counters ''recoveries'' 1 s3
                           in (Some Retry_scheduled, cmd_hincrby R Counters ''retry_schedules'' 1 s4))
           | (Some _, Some _) \<Rightarrow> (None, s)
           | _ \<Rightarrow> (Some Orphan_cleaned, forget_lease R m s)))"

definition recovery_note :: "int \<Rightarrow> instant \<Rightarrow> lease \<Rightarrow> attempt_note" where
  "recovery_note attempt now l = \<lparr>an_attempt = attempt,
     an_failure_class = ''retryable_infrastructure'', an_failed_at = now,
     an_summary = ''lease expired before acknowledgement'', an_previous_worker = Some (l_worker l)\<rparr>"

definition recovery_letter ::
  "uuid \<Rightarrow> instant \<Rightarrow> string \<Rightarrow> envelope \<Rightarrow> lease \<Rightarrow> dead_letter" where
  "recovery_letter uid now m updated l =
     \<lparr>dl_id = uid, dl_message_id = m, dl_task_id = env_task_id updated, dl_envelope = updated,
      dl_priority = env_priority updated, dl_attempts = env_attempt updated,
      dl_failure_class = ''retry_exhaustion'',
      dl_error_summary = ''lease expired and retry budget was exhausted'',
      dl_first_failed = now, dl_final_failed = now, dl_worker = Some (l_worker l),
      dl_evidence = None, dl_source = ''recovery'', replay_eligible = True,
      approval_status = RA_PENDING, replayed_at = None, replayed_message_id = None,
      dl_created_at = now, dl_history = [recovery_note (env_attempt updated) now l],
      dl_cancelled = False\<rparr>"

definition recovery_retry ::
  "instant \<Rightarrow> instant \<Rightarrow> string \<Rightarrow> string \<Rightarrow> envelope \<Rightarrow> lease \<Rightarrow> retry_record" where
  "recovery_retry now due reason m updated l =
     \<lparr>rr_message_id = m, rr_task_id = env_task_id updated, rr_envelope = updated,
      rr_priority = env_priority updated, rr_attempt = env_attempt updated, rr_due_at = due,
      rr_failure_class = ''retryable_infrastructure'',
      rr_error_summary = ''lease expired before acknowledgement'', rr_source = reason,
      rr_first_failed = now, rr_latest_failed = now, rr_evidence = None,
      rr_history = [recovery_note (env_attempt updated) now l]\<rparr>"

text \<open>
  What is read and decided before the script runs: whether the durable state is terminal,
  the payload and the due time. \<open>uid\<close> and \<open>u\<close> are the identifier and the random draw used.
\<close>

definition recovery_plan ::
  "'s queue_redis \<Rightarrow> retry_policy \<Rightarrow> (string \<Rightarrow> string option) \<Rightarrow> int \<Rightarrow> uuid \<Rightarrow> real \<Rightarrow> instant
   \<Rightarrow> string \<Rightarrow> 's \<Rightarrow> (bool \<times> recovery_payload \<times> instant) option" where
  "recovery_plan R policy durable limit uid u now m s =
     (case (cmd_hget R Inflight m s, cmd_hget R Leases m s) of
        (Some (VEnvelope env), Some (VLease l)) \<Rightarrow>
          let durable_state = (if env_task_id env = [] then None else durable (env_task_id env));
              terminal = durable_state \<in> {Some ''completed'', Some ''failed'', Some ''cancelled''};
              attempt = env_attempt env + 1;
              decision = retry_decide policy u attempt True None 0;
              updated = env\<lparr>env_attempt := attempt\<rparr>
          in if attempt \<ge> limit \<or> \<not> rd_retry decision
             then Some (terminal, Dead_payload (recovery_letter uid now m updated l), now)
             else let due = now + delay_seconds decision
                  in Some (terminal, Retry_payload (recovery_retry now due (rd_reason decision) m updated l), due)
      | (Some (VEnvelope env), None) \<Rightarrow>
          let durable_state = (if env_task_id env = [] then None else durable (env_task_id env))
          in Some (durable_state \<in> {Some ''completed'', Some ''failed'', Some ''cancelled''}, No_payload, now)
      | (None, None) \<Rightarrow> Some (False, No_payload, now)
      | (None, Some (VLease _)) \<Rightarrow> Some (False, No_payload, now)
      | _ \<Rightarrow> None)"

definition recover_one ::
  "'s queue_redis \<Rightarrow> retry_policy \<Rightarrow> (string \<Rightarrow> string option) \<Rightarrow> int \<Rightarrow> reply \<Rightarrow> uuid \<Rightarrow> real
   \<Rightarrow> instant \<Rightarrow> string \<Rightarrow> 's \<Rightarrow> (queue_error + recovery_status) \<times> 's" where
  "recover_one R policy durable limit reply uid u now m s =
     (case recovery_plan R policy durable limit uid u now m s of
        None \<Rightarrow> (Inl Decode_error, s)
      | Some (terminal, payload, due) \<Rightarrow>
          through reply (recover_script R m now terminal payload due) s)"

fun recover_all ::
  "'s queue_redis \<Rightarrow> retry_policy \<Rightarrow> (string \<Rightarrow> string option) \<Rightarrow> int \<Rightarrow> reply list \<Rightarrow> (nat \<Rightarrow> uuid)
   \<Rightarrow> (nat \<Rightarrow> real) \<Rightarrow> instant \<Rightarrow> string list \<Rightarrow> recovery_status list \<Rightarrow> 's
   \<Rightarrow> (queue_error + recovery_status list) \<times> 's" where
  "recover_all R policy durable limit replies uids draws now [] statuses s = (Inr statuses, s)"
| "recover_all R policy durable limit replies uids draws now (m # ms) statuses s =
     (let n = length statuses;
          reply = (if n < length replies then replies ! n else Answered)
      in case recover_one R policy durable limit reply (uids n) (draws n) now m s of
           (Inl err, s') \<Rightarrow> (Inl err, s')
         | (Inr status, s') \<Rightarrow>
             recover_all R policy durable limit replies uids draws now ms (statuses @ [status]) s')"

definition recover_expired ::
  "'s queue_redis \<Rightarrow> retry_policy \<Rightarrow> (string \<Rightarrow> string option) \<Rightarrow> reply list \<Rightarrow> (nat \<Rightarrow> uuid)
   \<Rightarrow> (nat \<Rightarrow> real) \<Rightarrow> int \<Rightarrow> int option \<Rightarrow> instant \<Rightarrow> 's
   \<Rightarrow> (queue_error + recovery_status list) \<times> 's" where
  "recover_expired R policy durable replies uids draws batch attempts now s =
     (if batch < 1 then (Inl Invalid_argument, s)
      else
        let limit = (case attempts of None \<Rightarrow> maximum_attempts policy
              | Some n \<Rightarrow> if n = 0 then maximum_attempts policy else n)
        in recover_all R policy durable limit replies uids draws now
             (cmd_zrangebyscore R Lease_expiry now (nat batch) s) [] s)"

subsection \<open>The failure dispatcher\<close>

definition delivery_envelope :: "claimed_task \<Rightarrow> envelope" where
  "delivery_envelope c = \<lparr>env_message_id = ct_message_id c, env_task_id = task_id (ct_task c),
     env_task = ct_task c, env_attempt = ct_attempt c, env_priority = ct_priority c,
     env_enqueued_at = created_at (ct_task c), env_owner = None, env_worker = None,
     env_claimed_at = None, env_lease_expires = None\<rparr>"

definition dispatch_letter ::
  "string \<Rightarrow> uuid \<Rightarrow> instant \<Rightarrow> claimed_task \<Rightarrow> execution_failure \<Rightarrow> dead_letter" where
  "dispatch_letter worker uid now c failure =
     \<lparr>dl_id = uid, dl_message_id = ct_message_id c, dl_task_id = task_id (ct_task c),
      dl_envelope = delivery_envelope c, dl_priority = ct_priority c, dl_attempts = ct_attempt c + 1,
      dl_failure_class = failure_class_value (classification failure),
      dl_error_summary = ef_summary failure, dl_first_failed = now, dl_final_failed = now,
      dl_worker = Some worker, dl_evidence = None, dl_source = ''execution'',
      replay_eligible = ef_retryable failure, approval_status = RA_PENDING, replayed_at = None,
      replayed_message_id = None, dl_created_at = now, dl_history = [], dl_cancelled = False\<rparr>"

text \<open>The three replies are those of the schedule, the finalisation and the acknowledgement.\<close>

definition dispatch_failure ::
  "'s queue_redis \<Rightarrow> retry_policy \<Rightarrow> string \<Rightarrow> reply \<times> reply \<times> reply \<Rightarrow> uuid \<Rightarrow> real \<Rightarrow> instant
   \<Rightarrow> claimed_task \<Rightarrow> execution_failure \<Rightarrow> 's \<Rightarrow> (queue_error + bool) \<times> 's" where
  "dispatch_failure R policy worker replies uid u now c failure s =
     (case schedule_failure R policy (fst replies)
             \<lparr>sq_envelope = delivery_envelope c, sq_failure = failure, sq_now = now,
              sq_first_failed = None, sq_history = [], sq_evidence = None, sq_draw = u\<rparr> s of
        (Inl err, s1) \<Rightarrow> (Inl err, s1)
      | (Inr scheduled, s1) \<Rightarrow>
          if sc_exhausted scheduled then
            (case finalize R (fst (snd replies)) (dispatch_letter worker uid now c failure) s1 of
               (Inl err, s2) \<Rightarrow> (Inl err, s2)
             | (Inr _, s2) \<Rightarrow> acknowledge R worker (snd (snd replies)) c s2)
          else acknowledge R worker (snd (snd replies)) c s1)"

end
