(* ===== verification/Queue_Safety.thy ===== *)
theory Queue_Safety
  imports Queue_Failure
begin

text \<open>
  What the queue guarantees. The atomic steps of all its clients (producers, workers, the
  maintenance loops, operators) are put into one step function; a history is any
  sequence of steps, in any interleaving. The invariant \<open>sound\<close> says what every structure
  in Redis holds and that the indexes agree with what they index.
\<close>

subsection \<open>Histories\<close>

datatype queue_event =
    Q_enqueue task_priority digest string seconds string envelope
  | Q_claim string string instant instant
  | Q_ack string string string
  | Q_renew string string string string instant
  | Q_schedule string string retry_record instant
  | Q_promote instant nat
  | Q_finalize dead_letter
  | Q_approve dead_letter bool
  | Q_replay string string dead_letter
  | Q_cancel string cancellation_record
  | Q_recover string instant bool recovery_payload instant
  | Q_time seconds

fun queue_step :: "'s queue_redis \<Rightarrow> queue_event \<Rightarrow> 's \<Rightarrow> 's" where
  "queue_step R (Q_enqueue p d m ttl t env) s = snd (enqueue_script R p d m ttl t env s)"
| "queue_step R (Q_claim ow w now ex) s = snd (claim_script R ow w now ex all_priorities s)"
| "queue_step R (Q_ack m ow w) s = snd (ack_script R m ow w s)"
| "queue_step R (Q_renew m ow t w ex) s = snd (renew_script R m ow t w ex s)"
| "queue_step R (Q_schedule m t r due) s = snd (schedule_script R m t r due s)"
| "queue_step R (Q_promote now n) s = snd (promote_script R now n s)"
| "queue_step R (Q_finalize d) s = snd (finalize_script R d s)"
| "queue_step R (Q_approve d b) s = snd (approve_write R d b s)"
| "queue_step R (Q_replay m n d) s = snd (replay_script R m n d s)"
| "queue_step R (Q_cancel t c) s = snd (cancel_script R t c s)"
| "queue_step R (Q_recover m now dt payload due) s = snd (recover_script R m now dt payload due s)"
| "queue_step R (Q_time d) s = pass_time R d s"

definition queue_run :: "'s queue_redis \<Rightarrow> queue_event list \<Rightarrow> 's \<Rightarrow> 's" where
  "queue_run R steps s = fold (queue_step R) steps s"

subsection \<open>What the scripts do to the view\<close>

definition drop_lease :: "string \<Rightarrow> queue_space \<Rightarrow> queue_space" where
  "drop_lease m ks = ks\<lparr>hashes := (hashes ks)(Inflight := (hashes ks Inflight)(m := None),
       Leases := (hashes ks Leases)(m := None)),
     scores := (scores ks)(Lease_expiry := (scores ks Lease_expiry)(m := None))\<rparr>"

definition put_lease :: "envelope \<Rightarrow> lease \<Rightarrow> instant \<Rightarrow> queue_space \<Rightarrow> queue_space" where
  "put_lease env l due ks = ks\<lparr>hashes := (hashes ks)(
       Inflight := (hashes ks Inflight)(env_message_id env := Some (VEnvelope env)),
       Leases := (hashes ks Leases)(env_message_id env := Some (VLease l))),
     scores := (scores ks)(Lease_expiry := (scores ks Lease_expiry)(env_message_id env := Some due))\<rparr>"

definition drop_retry :: "string \<Rightarrow> queue_space \<Rightarrow> queue_space" where
  "drop_retry m ks = ks\<lparr>hashes := (hashes ks)(Delayed := (hashes ks Delayed)(m := None)),
     scores := (scores ks)(Delayed_due := (scores ks Delayed_due)(m := None))\<rparr>"

definition put_retry :: "string \<Rightarrow> queue_value \<Rightarrow> instant \<Rightarrow> queue_space \<Rightarrow> queue_space" where
  "put_retry m v due ks = ks\<lparr>hashes := (hashes ks)(Delayed := (hashes ks Delayed)(m := Some v)),
     scores := (scores ks)(Delayed_due := (scores ks Delayed_due)(m := Some due))\<rparr>"

definition push_ready :: "task_priority \<Rightarrow> envelope \<Rightarrow> queue_space \<Rightarrow> queue_space" where
  "push_ready p env ks = ks\<lparr>lists := (lists ks)(Ready p := lists ks (Ready p) @ [VEnvelope env])\<rparr>"

definition put_hash :: "queue_key \<Rightarrow> string \<Rightarrow> queue_value \<Rightarrow> queue_space \<Rightarrow> queue_space" where
  "put_hash k f v ks = ks\<lparr>hashes := (hashes ks)(k := (hashes ks k)(f := Some v))\<rparr>"

text \<open>A Redis server that holds the queue's keys and values.\<close>

locale queue_server = redis R view
  for R :: "'s queue_redis" and view :: "'s \<Rightarrow> queue_space"
begin

lemma view_forget_lease: "view (forget_lease R m s) = drop_lease m (view s)"
  by (simp add: forget_lease_def drop_lease_def write_laws)

end

interpretation mini_queue: queue_server mini_redis mini_view
  by (rule queue_server.intro) (rule mini.redis_axioms)

subsection \<open>The invariant\<close>

text \<open>
  \<open>owner_of\<close> names the task a message identifier was generated for, as identifiers are not
  generated twice, and says whether a finished task may be in the message (a task that is submitted again a day
  later is enqueued as it is). A stored envelope belongs to its task.
\<close>

type_synonym message_facts = "string \<Rightarrow> string \<times> bool"

definition envelope_ok :: "message_facts \<Rightarrow> envelope \<Rightarrow> bool" where
  "envelope_ok owner_of env \<longleftrightarrow> env_task_id env = fst (owner_of (env_message_id env))
     \<and> task_id (env_task env) = env_task_id env
     \<and> (terminal_state (task_state (env_task env)) \<longrightarrow> snd (owner_of (env_message_id env)))"

definition retry_ok :: "message_facts \<Rightarrow> string \<Rightarrow> retry_record \<Rightarrow> bool" where
  "retry_ok owner_of m r \<longleftrightarrow> env_message_id (rr_envelope r) = m \<and> rr_task_id r = fst (owner_of m)
     \<and> envelope_ok owner_of (rr_envelope r)"

definition letter_ok :: "message_facts \<Rightarrow> string \<Rightarrow> dead_letter \<Rightarrow> bool" where
  "letter_ok owner_of m d \<longleftrightarrow> dl_message_id d = m \<and> dl_task_id d = fst (owner_of m)
     \<and> env_message_id (dl_envelope d) = m \<and> envelope_ok owner_of (dl_envelope d)"

definition typed :: "message_facts \<Rightarrow> queue_space \<Rightarrow> bool" where
  "typed owner_of ks \<longleftrightarrow>
     (\<forall>p v. v \<in> set (lists ks (Ready p)) \<longrightarrow> (\<exists>env. v = VEnvelope env \<and> envelope_ok owner_of env))
     \<and> (\<forall>m v. hashes ks Inflight m = Some v \<longrightarrow>
          (\<exists>env. v = VEnvelope env \<and> env_message_id env = m \<and> envelope_ok owner_of env))
     \<and> (\<forall>m v. hashes ks Leases m = Some v \<longrightarrow> (\<exists>l. v = VLease l \<and> l_task_id l = fst (owner_of m)))
     \<and> (\<forall>m v. hashes ks Delayed m = Some v \<longrightarrow> v = VEmpty_object \<or> (\<exists>r. v = VRetry r \<and> retry_ok owner_of m r))
     \<and> (\<forall>m v. hashes ks Dlq m = Some v \<longrightarrow> (\<exists>d. v = VDead d \<and> letter_ok owner_of m d))
     \<and> (\<forall>t v. hashes ks Task_index t = Some v \<longrightarrow> (\<exists>m. v = VText m \<and> fst (owner_of m) = t))"

text \<open>
  A delayed entry is a retry or the empty object, which recovery passes when it read no lease or no message.
  A lease, its message and its deadline come and go together; so do a retry and its due time.
\<close>

definition indexed :: "queue_space \<Rightarrow> bool" where
  "indexed ks \<longleftrightarrow> (\<forall>m. (hashes ks Inflight m = None \<longleftrightarrow> hashes ks Leases m = None)
     \<and> (scores ks Lease_expiry m = None \<longleftrightarrow> hashes ks Leases m = None)
     \<and> (scores ks Delayed_due m = None \<longleftrightarrow> hashes ks Delayed m = None))"

definition sound :: "message_facts \<Rightarrow> queue_space \<Rightarrow> bool" where
  "sound owner_of ks \<longleftrightarrow> typed owner_of ks \<and> indexed ks"

text \<open>
  The arguments clients pass: identifiers of the task at hand and records read or built for them. A recovery may pass any
  of its payloads, the empty object included, and any task may be enqueued.
\<close>

fun step_ok :: "message_facts \<Rightarrow> queue_event \<Rightarrow> bool" where
  "step_ok f (Q_enqueue p d m ttl t env) \<longleftrightarrow> env_message_id env = m \<and> fst (f m) = t \<and> envelope_ok f env"
| "step_ok f (Q_schedule m t r due) \<longleftrightarrow> t = fst (f m) \<and> retry_ok f m r"
| "step_ok f (Q_finalize d) \<longleftrightarrow> letter_ok f (dl_message_id d) d"
| "step_ok f (Q_approve d b) \<longleftrightarrow> letter_ok f (dl_message_id d) d"
| "step_ok f (Q_replay m n d) \<longleftrightarrow> letter_ok f m d \<and> f n = f m"
| "step_ok f (Q_recover m now dt payload due) \<longleftrightarrow> (case payload of
     Retry_payload r \<Rightarrow> retry_ok f m r | Dead_payload d \<Rightarrow> letter_ok f m d | No_payload \<Rightarrow> True)"
| "step_ok f _ \<longleftrightarrow> True"

definition quiet :: "queue_space \<Rightarrow> queue_space \<Rightarrow> bool" where
  "quiet ks ks' \<longleftrightarrow> lists ks' = lists ks \<and> hashes ks' = hashes ks \<and> scores ks' = scores ks"

lemma quiet_sound: "\<lbrakk>sound f ks; quiet ks ks'\<rbrakk> \<Longrightarrow> sound f ks'"
  by (simp add: quiet_def sound_def typed_def indexed_def)

lemma sound_counts [simp]: "sound f (ks\<lparr>counts := c\<rparr>) = sound f ks"
  by (simp add: sound_def typed_def indexed_def)

lemma sound_members [simp]: "sound f (ks\<lparr>members := c\<rparr>) = sound f ks"
  by (simp add: sound_def typed_def indexed_def)

lemma sound_strings [simp]: "sound f (ks\<lparr>strings := c\<rparr>) = sound f ks"
  by (simp add: sound_def typed_def indexed_def)

lemma sound_time [simp]: "sound f (ks\<lparr>server_time := c\<rparr>) = sound f ks"
  by (simp add: sound_def typed_def indexed_def)

lemma sound_drop_lease: "sound f ks \<Longrightarrow> sound f (drop_lease m ks)"
  unfolding sound_def typed_def indexed_def drop_lease_def by simp

lemma sound_put_lease:
  "\<lbrakk>sound f ks; envelope_ok f env; l_task_id l = fst (f (env_message_id env))\<rbrakk> \<Longrightarrow> sound f (put_lease env l due ks)"
  unfolding sound_def typed_def indexed_def put_lease_def by simp

lemma sound_drop_retry: "sound f ks \<Longrightarrow> sound f (drop_retry m ks)"
  unfolding sound_def typed_def indexed_def drop_retry_def by simp

lemma sound_put_retry: "\<lbrakk>sound f ks; retry_ok f m r\<rbrakk> \<Longrightarrow> sound f (put_retry m (VRetry r) due ks)"
  unfolding sound_def typed_def indexed_def put_retry_def by simp

lemma sound_put_empty: "sound f ks \<Longrightarrow> sound f (put_retry m VEmpty_object due ks)"
  unfolding sound_def typed_def indexed_def put_retry_def by simp

lemma sound_push_ready: "\<lbrakk>sound f ks; envelope_ok f env\<rbrakk> \<Longrightarrow> sound f (push_ready p env ks)"
  unfolding sound_def typed_def indexed_def push_ready_def by auto

lemma sound_pop_ready:
  "\<lbrakk>sound f ks; lists ks (Ready p) = v # vs\<rbrakk>
   \<Longrightarrow> sound f (ks\<lparr>lists := (lists ks)(Ready p := vs)\<rparr>) \<and> (\<exists>env. v = VEnvelope env \<and> envelope_ok f env)"
  unfolding sound_def typed_def indexed_def by (auto; metis list.set_intros)

lemma sound_put_letter: "\<lbrakk>sound f ks; letter_ok f m d\<rbrakk> \<Longrightarrow> sound f (put_hash Dlq m (VDead d) ks)"
  unfolding sound_def typed_def indexed_def put_hash_def by simp

lemma sound_put_index: "\<lbrakk>sound f ks; fst (f m) = t\<rbrakk> \<Longrightarrow> sound f (put_hash Task_index t (VText m) ks)"
  unfolding sound_def typed_def indexed_def put_hash_def by simp

lemma sound_put_other:
  "\<lbrakk>sound f ks; k \<in> {Dlq_task_index, Dlq_record_index, Cancel_meta}\<rbrakk> \<Longrightarrow> sound f (put_hash k g v ks)"
  unfolding sound_def typed_def indexed_def put_hash_def by auto

lemmas sound_intros = sound_drop_lease sound_put_lease sound_drop_retry sound_put_retry
  sound_push_ready sound_put_letter sound_put_index sound_put_other

subsection \<open>Every step keeps the invariant\<close>

context queue_server
begin

lemma view_hset: "view (cmd_hset R k g v s) = put_hash k g v (view s)"
  by (simp add: put_hash_def write_laws)

lemma view_rpush: "view (cmd_rpush R (Ready p) (VEnvelope env) s) = push_ready p env (view s)"
  by (simp add: push_ready_def write_laws)

lemma view_forget_retry: "view (forget_retry R m s) = drop_retry m (view s)"
  by (simp add: forget_retry_def drop_retry_def write_laws)

lemma view_put_retry: "view (cmd_zadd R Delayed_due due m (cmd_hset R Delayed m v s)) = put_retry m v due (view s)"
  by (simp add: put_retry_def write_laws)

lemma view_put_lease:
  "m = env_message_id env \<Longrightarrow> view (cmd_zadd R Lease_expiry due m (cmd_hset R Leases m (VLease l)
     (cmd_hset R Inflight m (VEnvelope env) s))) = put_lease env l due (view s)"
  by (simp add: put_lease_def write_laws fun_upd_twist)

lemma sound_hincrby [simp]: "sound f (view (cmd_hincrby R k g n s)) = sound f (view s)"
  by (simp add: write_laws)

lemma sound_sadd [simp]: "sound f (view (cmd_sadd R k m s)) = sound f (view s)"
  by (simp add: write_laws)

lemma sound_set_nx [simp]: "sound f (view (cmd_set_nx_ex R k v ttl s)) = sound f (view s)"
  by (simp add: write_laws)

lemmas view_folds = view_forget_lease view_forget_retry view_put_retry view_put_lease view_rpush view_hset

text \<open>What is read back from a sound store.\<close>

lemma read_lease: "\<lbrakk>sound f (view s); cmd_hget R Leases m s = Some v\<rbrakk> \<Longrightarrow> \<exists>l. v = VLease l \<and> l_task_id l = fst (f m)"
  by (simp add: sound_def typed_def hget_law)

lemma read_inflight: "\<lbrakk>sound f (view s); cmd_hget R Inflight m s = Some v\<rbrakk>
   \<Longrightarrow> \<exists>env. v = VEnvelope env \<and> env_message_id env = m \<and> envelope_ok f env"
  by (simp add: sound_def typed_def hget_law)

lemma read_delayed: "\<lbrakk>sound f (view s); cmd_hget R Delayed m s = Some v\<rbrakk> \<Longrightarrow> v = VEmpty_object \<or> (\<exists>r. v = VRetry r \<and> retry_ok f m r)"
  by (simp add: sound_def typed_def hget_law)

lemma read_letter: "\<lbrakk>sound f (view s); cmd_hget R Dlq m s = Some v\<rbrakk> \<Longrightarrow> \<exists>d. v = VDead d \<and> letter_ok f m d"
  by (simp add: sound_def typed_def hget_law)

lemma read_index: "\<lbrakk>sound f (view s); cmd_hget R Task_index t s = Some v\<rbrakk> \<Longrightarrow> \<exists>m. v = VText m \<and> fst (f m) = t"
  by (simp add: sound_def typed_def hget_law)

lemma lease_presence:
  "sound f (view s) \<Longrightarrow> (cmd_hget R Leases m s = None \<longleftrightarrow> cmd_hget R Inflight m s = None)
     \<and> (cmd_zscore R Lease_expiry m s = None \<longleftrightarrow> cmd_hget R Leases m s = None)"
  by (simp add: sound_def indexed_def read_laws)

lemma enqueue_sound:
  "\<lbrakk>sound f (view s); fst (f m) = t; envelope_ok f env\<rbrakk> \<Longrightarrow> sound f (view (snd (enqueue_script R p d m ttl t env s)))"
  by (simp add: enqueue_script_def Let_def view_folds sound_push_ready sound_put_index split: option.splits)

lemma claim_sound: "sound f (view s) \<Longrightarrow> sound f (view (snd (claim_script R ow w now ex ps s)))"
proof (induction ps arbitrary: s)
  case (Cons p ps)
  show ?case
  proof (cases "lists (view s) (Ready p)")
    case Nil
    then obtain s1 where "cmd_lpop R (Ready p) s = (None, s1)" "view s1 = view s"
      using lpop_empty [OF Nil] by (metis prod.collapse)
    with Cons show ?thesis by simp
  next
    case (Cons v vs)
    from sound_pop_ready [OF Cons.prems this] obtain env where
      env: "v = VEnvelope env" "envelope_ok f env"
      and popped: "sound f ((view s)\<lparr>lists := (lists (view s))(Ready p := vs)\<rparr>)" by blast
    obtain s1 where s1: "cmd_lpop R (Ready p) s = (Some (VEnvelope env), s1)" "sound f (view s1)"
      using lpop_head [OF Cons] env popped by (metis prod.collapse)
    have "sound f (view (snd (claim_script R ow w now ex ps (forget_lease R (env_message_id env) s1))))"
      using s1 by (intro Cons.IH) (simp add: view_folds sound_intros)
    moreover have "sound f (put_lease (leased_envelope ow w now ex env) (new_lease ow w now ex ex env) ex (view s1))"
      using s1 env by (intro sound_put_lease) (simp_all add: leased_envelope_def new_lease_def envelope_ok_def)
    moreover have "env_message_id env = env_message_id (leased_envelope ow w now ex env)"
      by (simp add: leased_envelope_def)
    ultimately show ?thesis using s1 by (simp add: Let_def view_put_lease)
  qed
qed simp

lemma ack_sound: "sound f (view s) \<Longrightarrow> sound f (view (snd (ack_script R m ow w s)))"
  by (auto simp: ack_script_def view_folds intro!: sound_intros split: option.splits queue_value.splits)

lemma renew_sound:
  assumes "sound f (view s)"
  shows "sound f (view (snd (renew_script R m ow t w ex s)))"
proof (cases "cmd_hget R Leases m s")
  case None
  then show ?thesis using assms by (simp add: renew_script_def)
next
  case (Some v)
  obtain l where l: "v = VLease l" "l_task_id l = fst (f m)" using read_lease [OF assms Some] by blast
  have "hashes (view s) Leases m \<noteq> None" using Some by (simp add: read_laws)
  then have "sound f (view (cmd_zadd R Lease_expiry ex m
      (cmd_hset R Leases m (VLease (l\<lparr>l_expires_at := ex, l_deadline := ex\<rparr>)) s)))"
    using assms l unfolding sound_def typed_def indexed_def by (auto simp: write_laws)
  then show ?thesis using assms Some l by (simp add: renew_script_def Let_def)
qed

lemma schedule_sound:
  "\<lbrakk>sound f (view s); retry_ok f m r\<rbrakk> \<Longrightarrow> sound f (view (snd (schedule_script R m t r due s)))"
  by (simp add: schedule_script_def view_folds sound_intros)

lemma promote_ids_sound: "sound f (view s) \<Longrightarrow> sound f (view (snd (promote_ids R ms tally s)))"
proof (induction ms arbitrary: tally s)
  case (Cons m ms)
  show ?case
  proof (cases "cmd_hget R Delayed m s")
    case None
    have "sound f (drop_retry m (view s))" using Cons.prems by (rule sound_drop_retry)
    moreover have "view (cmd_zrem R Delayed_due m s) = drop_retry m (view s)"
      using None by (simp add: drop_retry_def write_laws read_laws fun_upd_idem)
    ultimately have "sound f (view (cmd_zrem R Delayed_due m s))" by simp
    then show ?thesis using None Cons.IH by simp
  next
    case (Some v)
    consider "v = VEmpty_object" | r where "v = VRetry r" "retry_ok f m r" using read_delayed [OF Cons.prems Some] by blast
    then show ?thesis
    proof cases
      case 1
      then show ?thesis using Some Cons.prems by simp
    next
      case r: 2
      have "sound f (view (forget_retry R m s))" using Cons.prems by (simp add: view_folds sound_intros)
      moreover from this r have "sound f (view (cmd_hincrby R Counters ''retry_promotions'' 1
          (cmd_rpush R (Ready (env_priority (rr_envelope r))) (VEnvelope (rr_envelope r)) (forget_retry R m s))))"
        by (simp add: view_rpush retry_ok_def sound_push_ready)
      ultimately show ?thesis using Some r Cons.IH by simp
    qed
  qed
qed simp

lemma finalize_sound:
  "\<lbrakk>sound f (view s); letter_ok f (dl_message_id d) d\<rbrakk> \<Longrightarrow> sound f (view (snd (finalize_script R d s)))"
  by (simp add: finalize_script_def Let_def view_folds sound_intros split: option.splits)

lemma approve_sound:
  "\<lbrakk>sound f (view s); letter_ok f (dl_message_id d) d\<rbrakk> \<Longrightarrow> sound f (view (snd (approve_write R d b s)))"
  by (simp add: approve_write_def Let_def view_folds letter_ok_def sound_put_letter)

lemma replay_sound:
  assumes "sound f (view s)" "letter_ok f m d" "f n = f m"
  shows "sound f (view (snd (replay_script R m n d s)))"
proof (cases "cmd_hget R Dlq m s")
  case None
  then show ?thesis using assms by (simp add: replay_script_def)
next
  case (Some v)
  obtain old where old: "v = VDead old" "letter_ok f m old" using read_letter [OF assms(1) Some] by blast
  then have "envelope_ok f (replayed_envelope n (dl_envelope old))"
    using assms(3) by (auto simp: replayed_envelope_def letter_ok_def envelope_ok_def)
  then show ?thesis using Some old assms
    by (simp add: replay_script_def Let_def view_folds sound_push_ready sound_put_letter)
qed

lemma cancel_sound:
  "sound f (view s) \<Longrightarrow> sound f (view (snd (cancel_script R t c s)))"
  by (auto simp: cancel_script_def Let_def view_folds intro!: sound_drop_retry sound_put_other
      split: option.splits queue_value.splits)

lemma recover_sound:
  assumes "sound f (view s)" and "step_ok f (Q_recover m now dt payload due)"
  shows "sound f (view (snd (recover_script R m now dt payload due s)))"
proof -
  have forget: "sound f (view (forget_lease R m s))" using assms by (simp add: view_folds sound_intros)
  have dead: "sound f (view (cmd_hsetnx R Dlq m (VDead d) s1))"
    if "sound f (view s1)" "payload = Dead_payload d" for s1 d
    using that assms sound_put_letter [of f "view s1" m d]
    by (simp add: hsetnx_law put_hash_def)
  have retry: "sound f (view (cmd_zadd R Delayed_due due m (cmd_hsetnx R Delayed m (retry_value (Retry_payload r)) s1)))"
    if "sound f (view s1)" "cmd_hget R Delayed m s1 = None" "retry_ok f m r" for s1 r
    using that sound_put_retry [of f "view s1" m r due]
    by (simp add: retry_value_def write_laws read_laws put_retry_def)
  have empty: "sound f (view (cmd_zadd R Delayed_due due m (cmd_hsetnx R Delayed m (retry_value No_payload) s1)))"
    if "sound f (view s1)" "cmd_hget R Delayed m s1 = None" for s1
    using that sound_put_empty [of f "view s1" m due]
    by (simp add: retry_value_def write_laws read_laws put_retry_def)
  show ?thesis using assms(1) forget
    by (cases payload)
      (use assms(2) in \<open>auto simp: recover_script_def Let_def view_hset dead retry empty
         intro!: sound_put_other split: option.splits queue_value.splits\<close>)
qed

lemma step_sound: "\<lbrakk>sound f (view s); step_ok f e\<rbrakk> \<Longrightarrow> sound f (view (queue_step R e s))"
  by (cases e) (simp_all add: enqueue_sound claim_sound ack_sound renew_sound schedule_sound
      promote_ids_sound promote_script_def finalize_sound approve_sound replay_sound cancel_sound
      recover_sound pass_time_law)

lemma run_sound:
  "\<lbrakk>sound f (view s); \<forall>e \<in> set es. step_ok f e\<rbrakk> \<Longrightarrow> sound f (view (queue_run R es s))"
  unfolding queue_run_def by (induction es arbitrary: s) (auto intro: step_sound)

end

text \<open>A script answers when it neither fails nor meets a lease without its message.\<close>

fun answers :: "'s queue_redis \<Rightarrow> queue_event \<Rightarrow> 's \<Rightarrow> bool" where
  "answers R (Q_enqueue p d m ttl t env) s \<longleftrightarrow> fst (enqueue_script R p d m ttl t env s) \<noteq> None"
| "answers R (Q_claim ow w now ex) s \<longleftrightarrow> fst (claim_script R ow w now ex all_priorities s) \<noteq> None"
| "answers R (Q_ack m ow w) s \<longleftrightarrow> fst (ack_script R m ow w s) \<noteq> None"
| "answers R (Q_renew m ow t w ex) s \<longleftrightarrow> fst (renew_script R m ow t w ex s) \<noteq> None"
| "answers R (Q_schedule m t r due) s \<longleftrightarrow> fst (schedule_script R m t r due s) \<noteq> None"
| "answers R (Q_promote now n) s \<longleftrightarrow> fst (promote_script R now n s) \<noteq> None"
| "answers R (Q_finalize d) s \<longleftrightarrow> fst (finalize_script R d s) \<noteq> None"
| "answers R (Q_replay m n d) s \<longleftrightarrow> fst (replay_script R m n d s) \<noteq> None"
| "answers R (Q_cancel t c) s \<longleftrightarrow> fst (cancel_script R t c s) \<noteq> None"
| "answers R (Q_recover m now dt payload due) s \<longleftrightarrow>
     fst (recover_script R m now dt payload due s) \<notin> {None, Some Orphan_cleaned}"
| "answers R _ s \<longleftrightarrow> True"

subsection \<open>No message is lost\<close>

text \<open>A message is in one of the structures, and its delayed entry, if any, is one that can be read.\<close>

definition readable :: "string \<Rightarrow> queue_space \<Rightarrow> bool" where
  "readable m ks \<longleftrightarrow> hashes ks Delayed m \<noteq> Some VEmpty_object"

definition tracked :: "string \<Rightarrow> queue_space \<Rightarrow> bool" where
  "tracked m ks \<longleftrightarrow> readable m ks \<and> ((\<exists>p env. VEnvelope env \<in> set (lists ks (Ready p)) \<and> env_message_id env = m)
     \<or> hashes ks Inflight m \<noteq> None \<or> hashes ks Delayed m \<noteq> None \<or> hashes ks Dlq m \<noteq> None)"

text \<open>A message is accounted for while it is tracked, or once its task is cancelled.\<close>

definition accounted :: "message_facts \<Rightarrow> string \<Rightarrow> queue_space \<Rightarrow> bool" where
  "accounted f m ks \<longleftrightarrow> tracked m ks \<or> fst (f m) \<in> members ks Cancelled_set"

text \<open>
  The ways out: an acknowledgement that succeeds, the recovery of a lease whose task the durable store reports as
  finished, and a recovery that passes the empty object for the message.
\<close>

fun releases :: "'s queue_redis \<Rightarrow> string \<Rightarrow> queue_event \<Rightarrow> 's \<Rightarrow> bool" where
  "releases R m (Q_ack m' ow w) s \<longleftrightarrow> m' = m \<and> fst (ack_script R m ow w s) = Some 1"
| "releases R m (Q_recover m' now dt payload due) s \<longleftrightarrow> m' = m \<and> (dt \<or> payload = No_payload)"
| "releases R m _ s \<longleftrightarrow> False"

fun never_released :: "'s queue_redis \<Rightarrow> string \<Rightarrow> queue_event list \<Rightarrow> 's \<Rightarrow> bool" where
  "never_released R m [] s \<longleftrightarrow> True"
| "never_released R m (e # es) s \<longleftrightarrow> \<not> releases R m e s \<and> never_released R m es (queue_step R e s)"

lemmas accounted_defs = accounted_def tracked_def readable_def

lemma accounted_simps [simp]:
  "accounted f m (ks\<lparr>counts := c\<rparr>) = accounted f m ks"
  "accounted f m (ks\<lparr>strings := st\<rparr>) = accounted f m ks"
  "accounted f m (ks\<lparr>server_time := t\<rparr>) = accounted f m ks"
  by (simp_all add: accounted_defs)

lemma accounted_drop_lease:
  "\<lbrakk>accounted f m ks; m' = m \<Longrightarrow> fst (f m) \<in> members ks Cancelled_set\<rbrakk> \<Longrightarrow> accounted f m (drop_lease m' ks)"
  by (auto simp: accounted_defs drop_lease_def)

lemma accounted_drop_retry:
  "\<lbrakk>accounted f m ks; m' = m \<Longrightarrow> fst (f m) \<in> members ks Cancelled_set\<rbrakk> \<Longrightarrow> accounted f m (drop_retry m' ks)"
  by (auto simp: accounted_defs drop_retry_def)

lemma accounted_put_lease:
  "accounted f m ks \<or> env_message_id env = m \<and> readable m ks \<Longrightarrow> accounted f m (put_lease env l due ks)"
  by (auto simp: accounted_defs put_lease_def)

lemma accounted_put_retry:
  "\<lbrakk>accounted f m ks \<or> m' = m; v \<noteq> VEmpty_object\<rbrakk> \<Longrightarrow> accounted f m (put_retry m' v due ks)"
  by (auto simp: accounted_defs put_retry_def)

lemma accounted_push:
  "accounted f m ks \<or> env_message_id env = m \<and> readable m ks \<Longrightarrow> accounted f m (push_ready p env ks)"
  by (auto simp: accounted_defs push_ready_def)

lemma accounted_hash:
  "\<lbrakk>accounted f m ks \<or> k = Dlq \<and> g = m \<and> readable m ks; k \<noteq> Delayed\<rbrakk> \<Longrightarrow> accounted f m (put_hash k g v ks)"
  by (auto simp: accounted_defs put_hash_def)

lemma accounted_pop:
  assumes "accounted f m ks" "lists ks (Ready p) = VEnvelope env # vs"
  shows "accounted f m (ks\<lparr>lists := (lists ks)(Ready p := vs)\<rparr>) \<or> env_message_id env = m \<and> readable m ks"
  using assms by (auto simp: accounted_defs) (metis list.set_cases set_ConsD queue_value.inject(2))+

context queue_server
begin

lemma accounted_hincrby [simp]: "accounted f m (view (cmd_hincrby R k g i s)) = accounted f m (view s)"
  by (simp add: write_laws)

lemma accounted_set_nx [simp]: "accounted f m (view (cmd_set_nx_ex R k v ttl s)) = accounted f m (view s)"
  by (simp add: write_laws)

text \<open>What claims and promotions leave alone; tombstones stay, and time only moves on.\<close>

lemma claim_frame:
  "strings (view (snd (claim_script R ow w now ex ps s))) = strings (view s)
   \<and> members (view (snd (claim_script R ow w now ex ps s))) = members (view s)
   \<and> server_time (view (snd (claim_script R ow w now ex ps s))) = server_time (view s)
   \<and> hashes (view (snd (claim_script R ow w now ex ps s))) Dlq = hashes (view s) Dlq"
proof (induction ps arbitrary: s)
  case (Cons p ps)
  show ?case
  proof (cases "lists (view s) (Ready p)")
    case Nil
    then obtain s1 where "cmd_lpop R (Ready p) s = (None, s1)" "view s1 = view s"
      using lpop_empty [OF Nil] by (metis prod.collapse)
    with Cons show ?thesis by simp
  next
    case (Cons v vs)
    obtain s1 where "cmd_lpop R (Ready p) s = (Some v, s1)"
        "view s1 = (view s)\<lparr>lists := (lists (view s))(Ready p := vs)\<rparr>"
      using lpop_head [OF Cons] by (metis prod.collapse)
    then show ?thesis using Cons.IH
      by (cases v) (simp_all add: Let_def view_forget_lease drop_lease_def write_laws)
  qed
qed simp

lemma promote_frame:
  "strings (view (snd (promote_ids R ms tally s))) = strings (view s)
   \<and> members (view (snd (promote_ids R ms tally s))) = members (view s)
   \<and> server_time (view (snd (promote_ids R ms tally s))) = server_time (view s)
   \<and> hashes (view (snd (promote_ids R ms tally s))) Dlq = hashes (view s) Dlq"
proof (induction ms arbitrary: tally s)
  case (Cons m ms)
  show ?case
  proof (cases "cmd_hget R Delayed m s")
    case None
    then show ?thesis using Cons.IH by (simp add: write_laws)
  next
    case (Some v)
    then show ?thesis using Cons.IH
      by (cases v) (simp_all add: view_forget_retry drop_retry_def write_laws)
  qed
qed simp

lemma step_tombstones: "members (view s) Cancelled_set \<subseteq> members (view (queue_step R e s)) Cancelled_set"
proof (induction e)
  case (Q_claim ow w now ex)
  show ?case using claim_frame by simp
next
  case (Q_promote now n)
  show ?case using promote_frame by (simp add: promote_script_def)
qed (auto simp: enqueue_script_def ack_script_def renew_script_def schedule_script_def finalize_script_def
    approve_write_def replay_script_def cancel_script_def recover_script_def forget_lease_def forget_retry_def
    write_laws Let_def split: option.splits queue_value.splits recovery_payload.splits)

lemma enqueue_accounted:
  "accounted f m (view s) \<Longrightarrow> accounted f m (view (snd (enqueue_script R p d m' ttl t env s)))"
  by (simp add: enqueue_script_def Let_def view_folds accounted_push accounted_hash split: option.splits)

lemma claim_accounted:
  assumes "\<not> snd (f m)"
  shows "\<lbrakk>sound f (view s); accounted f m (view s)\<rbrakk>
   \<Longrightarrow> accounted f m (view (snd (claim_script R ow w now ex ps s)))"
proof (induction ps arbitrary: s)
  case (Cons p ps)
  show ?case
  proof (cases "lists (view s) (Ready p)")
    case Nil
    then obtain s1 where "cmd_lpop R (Ready p) s = (None, s1)" "view s1 = view s"
      using lpop_empty [OF Nil] by (metis prod.collapse)
    with Cons show ?thesis by simp
  next
    case (Cons v vs)
    from sound_pop_ready [OF Cons.prems(1) this] obtain env where
      env: "v = VEnvelope env" "envelope_ok f env"
      and popped: "sound f ((view s)\<lparr>lists := (lists (view s))(Ready p := vs)\<rparr>)" by blast
    obtain s1 where s1: "cmd_lpop R (Ready p) s = (Some (VEnvelope env), s1)" "sound f (view s1)"
      and acc: "accounted f m (view s1) \<or> env_message_id env = m \<and> readable m (view s1)"
      using lpop_head [OF Cons] env popped accounted_pop [OF Cons.prems(2), of p env vs] Cons
      by (auto simp: readable_def prod_eq_iff)
    have "accounted f m (view (snd (claim_script R ow w now ex ps (forget_lease R (env_message_id env) s1))))"
      if dropped: "cmd_sismember R Cancelled_set (env_task_id env) s1 \<or> terminal_state (task_state (env_task env))"
    proof (rule Cons.IH)
      show "sound f (view (forget_lease R (env_message_id env) s1))"
        using s1 by (simp add: view_folds sound_intros)
      have "fst (f m) \<in> members (view s1) Cancelled_set" if "env_message_id env = m"
        using dropped that env assms by (auto simp: read_laws envelope_ok_def)
      then show "accounted f m (view (forget_lease R (env_message_id env) s1))"
        using acc by (auto simp: view_folds accounted_defs drop_lease_def)
    qed
    moreover have "accounted f m (put_lease (leased_envelope ow w now ex env)
        (new_lease ow w now ex ex env) ex (view s1))"
      using acc by (intro accounted_put_lease) (simp add: leased_envelope_def)
    moreover have "env_message_id env = env_message_id (leased_envelope ow w now ex env)"
      by (simp add: leased_envelope_def)
    ultimately show ?thesis using s1 env by (simp add: Let_def view_put_lease)
  qed
qed simp

lemma ack_accounted:
  assumes "sound f (view s)" "accounted f m (view s)" "\<not> releases R m (Q_ack m' ow w) s"
  shows "accounted f m (view (snd (ack_script R m' ow w s)))"
proof (cases "fst (ack_script R m' ow w s) = Some 1")
  case True
  then have "m' \<noteq> m" using assms(3) by auto
  then show ?thesis using assms
    by (auto simp: ack_script_def view_folds intro!: accounted_drop_lease
        split: option.splits queue_value.splits)
next
  case False
  then show ?thesis using assms by (auto simp: ack_script_def split: option.splits queue_value.splits)
qed

lemma renew_accounted:
  assumes "sound f (view s)" "accounted f m (view s)"
  shows "accounted f m (view (snd (renew_script R m' ow t w ex s)))"
  using assms(2) by (auto simp: renew_script_def Let_def view_hset accounted_defs put_hash_def
      zadd_law hincrby_law split: option.splits queue_value.splits)

lemma schedule_accounted:
  "accounted f m (view s) \<Longrightarrow> accounted f m (view (snd (schedule_script R m' t r due s)))"
  by (simp add: schedule_script_def view_folds accounted_put_retry)

lemma promote_ids_accounted:
  assumes "\<not> snd (f m)"
  shows "\<lbrakk>sound f (view s); accounted f m (view s)\<rbrakk> \<Longrightarrow> accounted f m (view (snd (promote_ids R ms tally s)))"
proof (induction ms arbitrary: tally s)
  case (Cons x ms)
  show ?case
  proof (cases "cmd_hget R Delayed x s")
    case None
    have "sound f (drop_retry x (view s))" using Cons.prems(1) by (rule sound_drop_retry)
    moreover have "view (cmd_zrem R Delayed_due x s) = drop_retry x (view s)"
      using None by (simp add: drop_retry_def write_laws read_laws fun_upd_idem)
    moreover have "accounted f m (view (cmd_zrem R Delayed_due x s))"
      using Cons.prems(2) by (simp add: zrem_law accounted_defs)
    ultimately show ?thesis using None Cons.IH by simp
  next
    case (Some v)
    consider "v = VEmpty_object" | r where "v = VRetry r" "retry_ok f x r" using read_delayed [OF Cons.prems(1) Some] by blast
    then show ?thesis
    proof cases
      case 1
      then show ?thesis using Some Cons.prems(2) by simp
    next
      case r: 2
      let ?pushed = "cmd_hincrby R Counters ''retry_promotions'' 1
          (cmd_rpush R (Ready (env_priority (rr_envelope r))) (VEnvelope (rr_envelope r)) (forget_retry R x s))"
      have snd1: "sound f (view (forget_retry R x s))" using Cons.prems by (simp add: view_folds sound_intros)
      have snd2: "sound f (view ?pushed)"
        using snd1 r by (simp add: view_rpush retry_ok_def sound_push_ready)
      have acc2: "accounted f m (view ?pushed)"
      proof (cases "x = m")
        case True
        have "readable m (drop_retry m (view s))" by (simp add: readable_def drop_retry_def)
        then show ?thesis using r True by (simp add: view_folds retry_ok_def accounted_push)
      next
        case False
        then show ?thesis using Cons.prems(2) by (simp add: view_folds accounted_push accounted_drop_retry)
      qed
      have acc1: "accounted f m (view (forget_retry R x s))"
        if "cmd_sismember R Cancelled_set (rr_task_id r) s \<or> terminal_state (task_state (env_task (rr_envelope r)))"
      proof -
        have "fst (f m) \<in> members (view s) Cancelled_set" if "x = m"
          using \<open>cmd_sismember R Cancelled_set (rr_task_id r) s \<or> _\<close> that r assms
          by (auto simp: read_laws retry_ok_def envelope_ok_def)
        then show ?thesis using Cons.prems(2) by (auto simp: view_folds intro!: accounted_drop_retry)
      qed
      show ?thesis using Some r Cons.IH snd1 snd2 acc1 acc2 by simp
    qed
  qed
qed simp

lemma finalize_accounted:
  "accounted f m (view s) \<Longrightarrow> accounted f m (view (snd (finalize_script R d s)))"
  by (simp add: finalize_script_def Let_def view_folds accounted_hash split: option.splits)

lemma replay_accounted:
  "accounted f m (view s) \<Longrightarrow> accounted f m (view (snd (replay_script R m' n d s)))"
  by (auto simp: replay_script_def Let_def view_folds intro!: accounted_push accounted_hash
      split: option.splits queue_value.splits)

lemma cancel_accounted:
  assumes "sound f (view s)" "accounted f m (view s)"
  shows "accounted f m (view (snd (cancel_script R t c s)))"
proof -
  let ?s3 = "cmd_hincrby R Counters ''cancellations'' 1 (cmd_hset R Cancel_meta t (VCancel c) (cmd_sadd R Cancelled_set t s))"
  have s3: "accounted f m (view ?s3)" "t \<in> members (view ?s3) Cancelled_set"
    using assms(2) by (auto simp: view_hset accounted_defs put_hash_def sadd_law hincrby_law)
  have "accounted f m (view (forget_retry R x ?s3))" if "cmd_hget R Task_index t s = Some (VText x)" for x
    using read_index [OF assms(1) that] s3 by (auto simp: view_folds intro!: accounted_drop_retry)
  then show ?thesis using assms(2) s3(1)
    by (auto simp: cancel_script_def Let_def split: option.splits queue_value.splits)
qed

lemma accounted_hset: "\<lbrakk>accounted f m (view s); k \<noteq> Delayed\<rbrakk> \<Longrightarrow> accounted f m (view (cmd_hset R k g v s))"
  by (simp add: view_hset accounted_hash)

lemma accounted_hsetnx:
  "\<lbrakk>accounted f m (view s) \<or> g = m \<and> readable m (view s) \<and> (k = Dlq \<or> k = Delayed); k = Delayed \<Longrightarrow> g = m \<Longrightarrow> v \<noteq> VEmpty_object\<rbrakk>
   \<Longrightarrow> accounted f m (view (cmd_hsetnx R k g v s))"
  by (auto simp: hsetnx_law accounted_defs)

lemma accounted_zadd [simp]: "accounted f m (view (cmd_zadd R k sc x s)) = accounted f m (view s)"
  by (simp add: zadd_law accounted_defs)

lemma accounted_delayed: "\<lbrakk>cmd_hget R Delayed m s \<noteq> None; readable m (view s)\<rbrakk> \<Longrightarrow> accounted f m (view s)"
  by (simp add: read_laws accounted_defs)

lemmas accounted_stored = accounted_hset accounted_hsetnx accounted_delayed

lemma readable_forget_lease [simp]: "readable m (view (forget_lease R x s)) = readable m (view s)"
  by (simp add: view_folds readable_def drop_lease_def)

lemma cancelled_stays_accounted:
  "fst (f m) \<in> members (view s) Cancelled_set \<Longrightarrow> accounted f m (view (queue_step R e s))"
  using step_tombstones [of s e] by (auto simp: accounted_def)

lemma recover_accounted:
  assumes "sound f (view s)" "accounted f m (view s)" "step_ok f (Q_recover x now dt payload due)"
    and "\<not> releases R m (Q_recover x now dt payload due) s" "\<not> snd (f m)"
  shows "accounted f m (view (snd (recover_script R x now dt payload due s)))"
proof (cases "fst (f m) \<in> members (view s) Cancelled_set")
  case True
  then show ?thesis using cancelled_stays_accounted [of f m s "Q_recover x now dt payload due"] by simp
next
  case False
  then have ok: "readable m (view s)" using assms(2) by (simp add: accounted_defs)
  show ?thesis
  proof (cases "cmd_zscore R Lease_expiry x s")
    case None
    then show ?thesis using assms by (simp add: recover_script_def)
  next
    case (Some score)
    then obtain vl ve where found: "cmd_hget R Leases x s = Some vl" "cmd_hget R Inflight x s = Some ve"
      using lease_presence [OF assms(1), of x] by (cases "cmd_hget R Leases x s"; cases "cmd_hget R Inflight x s") auto
    from read_lease [OF assms(1) found(1)] obtain l where l: "vl = VLease l" by blast
    from read_inflight [OF assms(1) found(2)] obtain env where
      env: "ve = VEnvelope env" "env_message_id env = x" "envelope_ok f env" by blast
    have others: "accounted f m (view (forget_lease R x s))" if "x \<noteq> m"
      using that assms(2) by (auto simp: view_folds intro: accounted_drop_lease)
    have alive: "task_state (env_task env) \<notin> {COMPLETED, FAILED, CANCELLED}" "\<not> dt" "payload \<noteq> No_payload"
        "\<not> cmd_sismember R Cancelled_set (env_task_id env) s" if "x = m"
      using env assms(4,5) False that by (auto simp: envelope_ok_def terminal_state_def read_laws)
    show ?thesis
    proof (cases "x = m")
      case True
      note alive = alive [OF True] and here = Some [unfolded True] found [unfolded True]
      show ?thesis
      proof (cases payload)
        case (Dead_payload d)
        show ?thesis unfolding True using assms(2) alive ok
          by (auto simp: recover_script_def Let_def here l env(1) Dead_payload intro!: accounted_hset accounted_hsetnx)
      next
        case (Retry_payload r)
        have "accounted f m (view (forget_lease R m s))" if "cmd_hget R Delayed m (forget_lease R m s) = Some y" for y
          using accounted_delayed [of m "forget_lease R m s" f] that ok by simp
        then show ?thesis unfolding True using assms(2) alive ok
          by (auto simp: recover_script_def Let_def here l env(1) Retry_payload retry_value_def
              intro!: accounted_hsetnx)
      next
        case No_payload
        then show ?thesis using alive by simp
      qed
    next
      case False
      then show ?thesis using assms(2) others [OF False]
        by (cases payload) (auto simp: recover_script_def Let_def Some found l env intro!: accounted_hset accounted_hsetnx)
    qed
  qed
qed

lemma step_accounted:
  "\<lbrakk>sound f (view s); accounted f m (view s); step_ok f e; \<not> releases R m e s; \<not> snd (f m)\<rbrakk>
   \<Longrightarrow> accounted f m (view (queue_step R e s))"
proof (induction e)
  case (Q_ack m' ow w)
  then show ?case using ack_accounted [of f s m m' ow w] by simp
next
  case (Q_recover x now dt payload due)
  then show ?case using recover_accounted [of f s m x now dt payload due] by simp
qed (simp_all add: enqueue_accounted claim_accounted renew_accounted schedule_accounted
    promote_ids_accounted promote_script_def finalize_accounted approve_write_def Let_def accounted_hset
    replay_accounted cancel_accounted pass_time_law)

lemma run_accounted:
  "\<lbrakk>sound f (view s); \<forall>e \<in> set es. step_ok f e; accounted f m (view s); never_released R m es s; \<not> snd (f m)\<rbrakk>
   \<Longrightarrow> accounted f m (view (queue_run R es s))"
proof (induction es arbitrary: s)
  case Nil
  then show ?case by (simp add: queue_run_def)
next
  case (Cons e es)
  then have "accounted f m (view (queue_run R es (queue_step R e s)))"
    by (intro Cons.IH step_sound step_accounted) simp_all
  then show ?case by (simp add: queue_run_def)
qed

text \<open>A sound store never makes a script fail, and a lease always has its message.\<close>

lemma recover_results:
  assumes "sound f (view s)" "step_ok f (Q_recover m now dt payload due)"
  shows "fst (recover_script R m now dt payload due s) \<notin> {None, Some Orphan_cleaned}"
proof (cases "cmd_zscore R Lease_expiry m s")
  case None
  then show ?thesis by (simp add: recover_script_def)
next
  case (Some score)
  then obtain vl ve where found: "cmd_hget R Leases m s = Some vl" "cmd_hget R Inflight m s = Some ve"
    using lease_presence [OF assms(1), of m] by (cases "cmd_hget R Leases m s"; cases "cmd_hget R Inflight m s") auto
  from read_lease [OF assms(1) found(1)] obtain l where l: "vl = VLease l" by blast
  from read_inflight [OF assms(1) found(2)] obtain env where env: "ve = VEnvelope env" by blast
  show ?thesis using assms(2)
    by (cases payload) (auto simp: recover_script_def Let_def Some found l env)
qed

lemma claim_results: "sound f (view s) \<Longrightarrow> fst (claim_script R ow w now ex ps s) \<noteq> None"
proof (induction ps arbitrary: s)
  case (Cons p ps)
  show ?case
  proof (cases "lists (view s) (Ready p)")
    case Nil
    then obtain s1 where "cmd_lpop R (Ready p) s = (None, s1)" "view s1 = view s"
      using lpop_empty [OF Nil] by (metis prod.collapse)
    with Cons show ?thesis by simp
  next
    case (Cons v vs)
    from sound_pop_ready [OF Cons.prems this] obtain env where
      env: "v = VEnvelope env" "envelope_ok f env"
      and popped: "sound f ((view s)\<lparr>lists := (lists (view s))(Ready p := vs)\<rparr>)" by blast
    obtain s1 where s1: "cmd_lpop R (Ready p) s = (Some (VEnvelope env), s1)" "sound f (view s1)"
      using lpop_head [OF Cons] env popped by (metis prod.collapse)
    then have "fst (claim_script R ow w now ex ps (forget_lease R (env_message_id env) s1)) \<noteq> None"
      by (intro Cons.IH) (simp add: view_folds sound_intros)
    then show ?thesis using s1 by (simp add: Let_def)
  qed
qed simp

lemma promote_results:
  "\<lbrakk>sound f (view s); \<forall>m. readable m (view s)\<rbrakk> \<Longrightarrow> fst (promote_ids R ms tally s) \<noteq> None"
proof (induction ms arbitrary: tally s)
  case (Cons x ms)
  have dropped: "\<forall>m. readable m (drop_retry x (view s))" using Cons.prems(2) by (simp add: readable_def drop_retry_def)
  show ?case
  proof (cases "cmd_hget R Delayed x s")
    case None
    have "view (cmd_zrem R Delayed_due x s) = drop_retry x (view s)"
      using None by (simp add: drop_retry_def write_laws read_laws fun_upd_idem)
    then show ?thesis using None Cons dropped by (simp add: sound_drop_retry)
  next
    case (Some v)
    have "v \<noteq> VEmpty_object" using Some Cons.prems(2) by (auto simp: readable_def read_laws)
    then obtain r where r: "v = VRetry r" "retry_ok f x r" using read_delayed [OF Cons.prems(1) Some] by blast
    have "\<forall>m. readable m (view (cmd_hincrby R Counters ''retry_promotions'' 1
        (cmd_rpush R (Ready (env_priority (rr_envelope r))) (VEnvelope (rr_envelope r)) (forget_retry R x s))))"
      using dropped by (simp add: view_folds readable_def hincrby_law push_ready_def)
    then show ?thesis using Some r Cons dropped by (simp add: view_folds sound_intros retry_ok_def)
  qed
qed simp

text \<open>An empty object stops every promotion that comes to it, and stays where it is.\<close>

lemma promote_meets_empty_object:
  "cmd_hget R Delayed m s = Some VEmpty_object \<Longrightarrow> promote_ids R (m # ms) tally s = (None, s)"
  by simp

lemma step_answers:
  "\<lbrakk>sound f (view s); step_ok f e; (\<forall>now n. e \<noteq> Q_promote now n) \<or> (\<forall>m. readable m (view s))\<rbrakk> \<Longrightarrow> answers R e s"
proof (induction e)
  case (Q_ack m ow w)
  then show ?case using read_lease [of f s m] by (auto simp: ack_script_def split: option.splits)
next
  case (Q_renew m ow t w ex)
  then show ?case using read_lease [of f s m]
    by (auto simp: renew_script_def Let_def split: option.splits queue_value.splits)
next
  case (Q_replay m n d)
  then show ?case using read_letter [of f s m]
    by (auto simp: replay_script_def Let_def split: option.splits queue_value.splits)
next
  case (Q_cancel t c)
  then show ?case using read_index [of f s t]
    by (auto simp: cancel_script_def Let_def split: option.splits queue_value.splits)
next
  case (Q_recover m now dt payload due)
  then show ?case using recover_results [of f s] by auto
qed (auto simp: enqueue_script_def schedule_script_def finalize_script_def Let_def promote_script_def
    dest: claim_results promote_results split: option.splits)

lemma step_time: "server_time (view s) \<le> server_time (view (queue_step R e s))"
proof (induction e)
  case (Q_claim ow w now ex)
  show ?case using claim_frame by simp
next
  case (Q_promote now n)
  show ?case using promote_frame by (simp add: promote_script_def)
qed (simp_all add: enqueue_script_def ack_script_def renew_script_def schedule_script_def finalize_script_def
    approve_write_def replay_script_def cancel_script_def recover_script_def forget_lease_def forget_retry_def
    write_laws Let_def split: option.splits queue_value.splits recovery_payload.splits)

lemma run_time: "server_time (view s) \<le> server_time (view (queue_run R es s))"
  unfolding queue_run_def
proof (induction es arbitrary: s)
  case (Cons e es)
  then show ?case using step_time [of s e] by (simp add: order_trans)
qed simp

lemma run_tombstones: "members (view s) Cancelled_set \<subseteq> members (view (queue_run R es s)) Cancelled_set"
  unfolding queue_run_def
proof (induction es arbitrary: s)
  case (Cons e es)
  then show ?case using step_tombstones [of s e] by (auto simp: subset_iff)
qed simp

text \<open>A deduplication entry stays as it is until it expires.\<close>

lemma step_dedupe:
  assumes "strings (view s) (Dedupe d) = Some (v, expiry)" "server_time (view s) < expiry"
  shows "strings (view (queue_step R e s)) (Dedupe d) = Some (v, expiry)"
proof (cases e)
  case (Q_claim ow w now ex)
  then show ?thesis using claim_frame assms by simp
next
  case (Q_promote now n)
  then show ?thesis using promote_frame assms by (simp add: promote_script_def)
next
  case (Q_enqueue p d' m ttl t env)
  then show ?thesis using assms
    by (cases "d' = d") (simp_all add: enqueue_script_def Let_def write_laws read_laws live_def
        split: option.splits)
qed (use assms in \<open>simp_all add: ack_script_def renew_script_def schedule_script_def finalize_script_def
    approve_write_def replay_script_def cancel_script_def recover_script_def forget_lease_def forget_retry_def
    write_laws Let_def split: option.splits queue_value.splits recovery_payload.splits\<close>)

lemma run_dedupe:
  "\<lbrakk>strings (view s) (Dedupe d) = Some (v, expiry); server_time (view (queue_run R es s)) < expiry\<rbrakk>
   \<Longrightarrow> strings (view (queue_run R es s)) (Dedupe d) = Some (v, expiry)"
proof (induction es arbitrary: s)
  case Nil
  then show ?case by (simp add: queue_run_def)
next
  case (Cons e es)
  have run: "queue_run R (e # es) s = queue_run R es (queue_step R e s)" by (simp add: queue_run_def)
  have "server_time (view s) < expiry"
    using Cons.prems(2) step_time [of s e] run_time [of "queue_step R e s" es] run by simp
  with Cons.prems(1) have "strings (view (queue_step R e s)) (Dedupe d) = Some (v, expiry)"
    by (rule step_dedupe)
  then show ?case using Cons.IH Cons.prems(2) run by simp
qed

text \<open>A dead letter is only ever changed by an approval or by its replay.\<close>

lemma step_letter:
  assumes "hashes (view s) Dlq m = Some v" "\<forall>d b. e \<noteq> Q_approve d b" "\<forall>n d. e \<noteq> Q_replay m n d"
  shows "hashes (view (queue_step R e s)) Dlq m = Some v"
proof (cases e)
  case (Q_claim ow w now ex)
  then show ?thesis using claim_frame assms by simp
next
  case (Q_promote now n)
  then show ?thesis using promote_frame assms by (simp add: promote_script_def)
next
  case (Q_replay x n d)
  then show ?thesis using assms
    by (auto simp: replay_script_def Let_def write_laws split: option.splits queue_value.splits)
next
  case (Q_finalize d)
  then show ?thesis using assms
    by (auto simp: finalize_script_def Let_def write_laws read_laws split: option.splits)
next
  case (Q_recover x now dt payload due)
  then show ?thesis using assms
    by (auto simp: recover_script_def forget_lease_def Let_def write_laws
        split: option.splits queue_value.splits recovery_payload.splits)
qed (use assms in \<open>simp_all add: enqueue_script_def ack_script_def renew_script_def schedule_script_def
    approve_write_def cancel_script_def forget_lease_def forget_retry_def write_laws Let_def
    split: option.splits queue_value.splits\<close>)

end

subsection \<open>Replays as one-time grants\<close>

datatype replay_call = Replay_call string string instant dead_letter | Elsewhere queue_event

definition replay_use :: "'s queue_redis \<Rightarrow> 's \<Rightarrow> replay_call \<Rightarrow> bool \<times> 's" where
  "replay_use R s c = (case c of
     Replay_call m n now record \<Rightarrow>
       (fst (replay_script R m n (mark_replayed n now record) s) = Some RR_REPLAYED,
        snd (replay_script R m n (mark_replayed n now record) s))
   | Elsewhere e \<Rightarrow> (False, if (\<exists>d b. e = Q_approve d b) \<or> (\<exists>m n d. e = Q_replay m n d) then s
        else queue_step R e s))"

definition replay_key :: "replay_call \<Rightarrow> string" where
  "replay_key c = (case c of Replay_call m n now record \<Rightarrow> m | Elsewhere _ \<Rightarrow> [])"

definition replayed :: "queue_space \<Rightarrow> string \<Rightarrow> bool" where
  "replayed ks m \<longleftrightarrow> (\<exists>d. hashes ks Dlq m = Some (VDead d) \<and> replayed_message_id d \<noteq> None)"

sublocale queue_server < replays: one_shot "replay_use R" replay_key "\<lambda>s. replayed (view s)"
proof
  fix s :: 's and q s'
  assume use: "replay_use R s q = (True, s')"
  then obtain m n t d where q: "q = Replay_call m n t d"
      and r: "fst (replay_script R m n (mark_replayed n t d) s) = Some RR_REPLAYED"
      and s': "s' = snd (replay_script R m n (mark_replayed n t d) s)"
    by (cases q) (auto simp: replay_use_def)
  from r s' show "replayed (view s') (replay_key q)"
    by (auto simp: q replay_key_def replayed_def replay_script_def mark_replayed_def Let_def write_laws
        split: option.splits queue_value.splits if_splits)
  from r show "\<not> replayed (view s) (replay_key q)"
    by (auto simp: q replay_key_def replayed_def replay_script_def read_laws
        split: option.splits queue_value.splits if_splits)
next
  fix s :: 's and q ok s' k
  assume use: "replay_use R s q = (ok, s')" and spent: "replayed (view s) k"
  then obtain d where d: "hashes (view s) Dlq k = Some (VDead d)" "replayed_message_id d \<noteq> None"
    by (auto simp: replayed_def)
  show "replayed (view s') k"
  proof (cases q)
    case (Replay_call m n t r)
    then have s': "s' = queue_step R (Q_replay m n (mark_replayed n t r)) s" using use by (simp add: replay_use_def)
    show ?thesis
    proof (cases "m = k")
      case True
      then have "s' = s" using s' d by (simp add: replay_script_def read_laws)
      then show ?thesis using spent by simp
    next
      case False
      then show ?thesis using s' d step_letter [of s k "VDead d" "Q_replay m n (mark_replayed n t r)"]
        by (auto simp: replayed_def)
    qed
  next
    case (Elsewhere e)
    then show ?thesis using use d spent step_letter [of s k "VDead d" e]
      by (auto simp: replay_use_def replayed_def split: if_splits)
  qed
qed

context queue_server
begin

lemma replays_distinct: "distinct (granted (replay_use R) replay_key s calls)"
  by (rule replays.granted_distinct)

end

end
