(* ===== verification/Queue_Samples.thy ===== *)
theory Queue_Samples
  imports Queue_Safety
begin

text \<open>
  Sample tasks, messages and stores on the server of association lists, used to run the
  scripts on concrete inputs, and the outcome of the two calls a failing worker makes.
\<close>

lemma sound_empty: "sound f (mini_view empty_store)"
  by (simp add: sound_def typed_def indexed_def mini_view_def empty_store_def mini_list_def)

lemmas script_defs = enqueue_script_def ack_script_def renew_script_def schedule_script_def
  promote_script_def finalize_script_def replay_script_def cancel_script_def recover_script_def
  forget_lease_def forget_retry_def

lemmas mini_defs = mini_redis_def mini_get_def mini_set_ex_def mini_list_def mini_count_def mini_range_def
  mini_view_def empty_store_def

text \<open>A sample message: the task is named after its identifier.\<close>

definition sample_task :: "string \<Rightarrow> task_record" where
  "sample_task t = (new_task t sample_request 0)\<lparr>task_state := QUEUED\<rparr>"

definition sample_envelope :: "string \<Rightarrow> string \<Rightarrow> envelope" where
  "sample_envelope m t = new_envelope m (sample_task t) P_NORMAL"

definition sample_enqueue :: "string \<Rightarrow> string \<Rightarrow> queue_event" where
  "sample_enqueue m t = Q_enqueue P_NORMAL m m 86400 t (sample_envelope m t)"

lemma sample_envelope_ok: "fst (f m) = t \<Longrightarrow> envelope_ok f (sample_envelope m t)"
  by (simp add: envelope_ok_def sample_envelope_def new_envelope_def sample_task_def new_task_def
      terminal_state_def)

definition sample_recovery :: "string \<Rightarrow> string \<Rightarrow> queue_event" where
  "sample_recovery m t = Q_recover m 100 False (Retry_payload (recovery_retry 100 101 ''exponential-backoff'' m
     (sample_envelope m t) (new_lease ''o'' ''w'' 1 61 61 (sample_envelope m t)))) 101"

lemmas sample_defs = sample_enqueue_def sample_envelope_def sample_task_def new_envelope_def new_task_def
  sample_recovery_def recovery_retry_def envelope_ok_def retry_ok_def terminal_state_def

definition sample_claim :: "string \<Rightarrow> string \<Rightarrow> string \<Rightarrow> claimed_task" where
  "sample_claim m t ow = \<lparr>ct_task = sample_task t, ct_message_id = m, ct_owner = ow, ct_attempt = 0,
     ct_lease_expires = 61, ct_priority = P_NORMAL\<rparr>"

definition leased_store :: "(queue_key, queue_value) mini_store" where
  "leased_store = queue_run mini_redis [sample_enqueue ''m'' ''t'', Q_claim ''o'' ''w'' 1 61] empty_store"

lemma leased_store_sound: "sound (\<lambda>_. (''t'', False)) (mini_view leased_store)"
  unfolding leased_store_def by (rule mini_queue.run_sound [OF sound_empty]) (simp add: sample_defs)

lemma leased_store_lease:
  "hashes (mini_view leased_store) Leases ''m'' = Some (VLease (new_lease ''o'' ''w'' 1 61 61 (sample_envelope ''m'' ''t'')))
   \<and> members (mini_view leased_store) Cancelled_set = {} \<and> hashes (mini_view leased_store) Delayed ''m'' = None
   \<and> hashes (mini_view leased_store) Dlq ''m'' = None"
  by (simp add: leased_store_def queue_run_def script_defs mini_defs sample_defs all_priorities_def Let_def
      new_lease_def leased_envelope_def)

lemma schedule_failure_outcome:
  assumes "redis R view" and "length (ef_summary (sq_failure q)) \<le> 1000" and "0 \<le> env_attempt (sq_envelope q)"
    and "env_task_id (sq_envelope q) \<notin> members (view s) Cancelled_set"
    and "hashes (view s) Delayed (env_message_id (sq_envelope q)) = None"
    and "sq_first_failed q = None"
    and "decision = retry_decide p (sq_draw q) (env_attempt (sq_envelope q) + 1) (ef_retryable (sq_failure q))
      (ef_retry_after (sq_failure q)) 0"
    and "record = retry_record_of q (env_attempt (sq_envelope q) + 1) decision (sq_now q)"
  shows "schedule_failure R p Answered q s =
    (if rd_retry decision
     then (Inr \<lparr>sc_scheduled = True, sc_exhausted = False, sc_record = Some record\<rparr>,
           cmd_zadd R Delayed_due (rr_due_at record) (rr_message_id record)
             (cmd_hset R Delayed (rr_message_id record) (VRetry record) s))
     else (Inr \<lparr>sc_scheduled = False, sc_exhausted = True, sc_record = None\<rparr>, s))"
  using assms
  by (simp add: schedule_failure_def retry_record_ok_def retry_record_of_def Let_def through_def
      schedule_script_def redis.read_laws)

lemma acknowledge_outcome:
  assumes "redis R view" and "hashes (view s) Leases (ct_message_id c) = Some (VLease l)"
    and "l_owner l = ct_owner c" "l_worker l = w" "l_task_id l \<notin> members (view s) Cancelled_set"
  shows "acknowledge R w Answered c s
    = (Inr True, cmd_hincrby R Counters ''acknowledgements'' 1 (forget_lease R (ct_message_id c) s))"
  using assms by (simp add: acknowledge_def is_one_def through_def ack_script_def redis.read_laws)

definition slow_failure :: execution_failure where
  "slow_failure = ExecutionFailure FC_TIMEOUT ''execution deadline exceeded'' True"

end
