(* ===== verification/Queue_Properties.thy ===== *)
theory Queue_Properties
  imports Queue_Samples
begin

text \<open>
  The guarantees of the queue, stated for any Redis server that keeps the command laws:
  deduplication, ownership of leases, cancellation, the fate of failed deliveries and the
  replay of dead letters, for the operations of the Python classes.
\<close>

subsection \<open>The store\<close>

text \<open>
  C35. In every history of the queue, in whatever order its clients' scripts run with arguments that name the task of
  their message, Redis stays well formed: every structure holds values of its kind that belong to the right task,
  a message is in flight exactly when it has a lease and a deadline, and is delayed exactly when it has a due time.
  A delayed entry is a retry, or the empty object recovery sends when it has read no lease or no message. No script
  fails on what it reads and recovery never finds a lease without its message, except a promotion while such an
  object waits.
\<close>

theorem queue_stays_well_formed:
  assumes "queue_server R view" and "sound f (view s)" and "\<forall>e \<in> set es. step_ok f e" and "step_ok f e"
  shows "sound f (view (queue_run R es s))
    \<and> ((\<forall>now n. e \<noteq> Q_promote now n) \<or> (\<forall>m. hashes (view (queue_run R es s)) Delayed m \<noteq> Some VEmpty_object)
       \<longrightarrow> answers R e (queue_run R es s))"
proof
  show *: "sound f (view (queue_run R es s))"
    using queue_server.run_sound [OF assms(1-3)] .
  then show "(\<forall>now n. e \<noteq> Q_promote now n) \<or> (\<forall>m. hashes (view (queue_run R es s)) Delayed m \<noteq> Some VEmpty_object)
       \<longrightarrow> answers R e (queue_run R es s)"
    using queue_server.step_answers [OF assms(1) * assms(4)] by (simp add: readable_def)
qed

theorem queue_stays_well_formed_witness:
  "answers mini_redis (Q_claim ''o'' ''w'' 1 61)
     (queue_run mini_redis [sample_enqueue ''m'' ''t'', Q_time 1] empty_store)"
  using queue_stays_well_formed [OF mini_queue.queue_server_axioms sound_empty [of "\<lambda>_. (''t'', False)"],
      of "[sample_enqueue ''m'' ''t'', Q_time 1]" "Q_claim ''o'' ''w'' 1 61"]
  by (simp add: sample_enqueue_def sample_envelope_ok sample_envelope_def [of "''m''"] new_envelope_def
      envelope_ok_def sample_task_def new_task_def terminal_state_def)

text \<open>
  The empty object in the delayed retries, with another retry behind it: the promotion ends in a script error, and so
  does every later one. The lease was missing when recovery read it and expired when its script ran.
\<close>

lemma empty_payload_poisons_promotion:
  "let s = queue_run mini_redis [sample_enqueue ''m'' ''t'', Q_claim ''o'' ''w'' 1 61, Q_recover ''m'' 100 False No_payload 100,
        sample_enqueue ''n'' ''t'', Q_claim ''o'' ''w'' 101 161, Q_schedule ''n'' ''t''
          (recovery_retry 100 101 ''r'' ''n'' (sample_envelope ''n'' ''t'') (new_lease ''o'' ''w'' 1 61 61 (sample_envelope ''n'' ''t''))) 101]
        empty_store
   in cmd_hget mini_redis Delayed ''m'' s = Some VEmpty_object \<and> cmd_hget mini_redis Delayed ''n'' s \<noteq> None
     \<and> fst (promote_script mini_redis 200 10 s) = None
     \<and> fst (promote_script mini_redis 300 10 (snd (promote_script mini_redis 200 10 s))) = None"
  by code_simp

text \<open>
  C34. No message is lost. Assumed are arguments that name the task of their message, and for this message
  only envelopes of a task that is not finished. If the message is ready, leased, waiting for a retry or a dead letter
  (its delayed entry, if any, not the empty object), it still is after any history in which its lease's owner does not
  acknowledge it and recovery neither drops it because the durable state says its task has ended nor sends
  the empty object for it, unless its task is cancelled. Crashes, lost replies, expiry, repeated steps are histories.
\<close>

theorem no_message_lost:
  assumes "queue_server R view" and "sound f (view s)" and "\<forall>e \<in> set es. step_ok f e"
    and "tracked m (view s)" and "never_released R m es s" and "\<not> snd (f m)"
    and "fst (f m) \<notin> members (view (queue_run R es s)) Cancelled_set"
  shows "tracked m (view (queue_run R es s))"
  using queue_server.run_accounted [OF assms(1-3) _ assms(5,6)] assms(4,7)
  by (simp add: accounted_def)

lemma sample_history_ok:
  "\<forall>e \<in> set [Q_claim ''o'' ''w'' 1 61, Q_ack ''m'' ''x'' ''w'', sample_recovery ''m'' ''t'']. step_ok (\<lambda>_. (''t'', False)) e"
  by (simp add: sample_defs)

theorem no_message_lost_witness:
  "tracked ''m'' (mini_view (queue_run mini_redis
     [Q_claim ''o'' ''w'' 1 61, Q_ack ''m'' ''x'' ''w'', sample_recovery ''m'' ''t'']
     (queue_run mini_redis [sample_enqueue ''m'' ''t''] empty_store)))"
proof (rule no_message_lost [OF mini_queue.queue_server_axioms _ sample_history_ok])
  show "sound (\<lambda>_. (''t'', False)) (mini_view (queue_run mini_redis [sample_enqueue ''m'' ''t''] empty_store))"
    by (rule mini_queue.run_sound [OF sound_empty]) (simp add: sample_defs)
  show "\<not> snd (''t'', False)" by simp
  show "tracked ''m'' (mini_view (queue_run mini_redis [sample_enqueue ''m'' ''t''] empty_store))"
    by (simp add: tracked_def readable_def queue_run_def script_defs mini_defs sample_defs)
  show "never_released mini_redis ''m'' [Q_claim ''o'' ''w'' 1 61, Q_ack ''m'' ''x'' ''w'',
      sample_recovery ''m'' ''t''] (queue_run mini_redis [sample_enqueue ''m'' ''t''] empty_store)"
    by (simp add: queue_run_def script_defs mini_defs sample_defs all_priorities_def Let_def new_lease_def
        leased_envelope_def)
  show "fst (''t'', False) \<notin> members (mini_view (queue_run mini_redis [Q_claim ''o'' ''w'' 1 61, Q_ack ''m'' ''x'' ''w'',
      sample_recovery ''m'' ''t''] (queue_run mini_redis [sample_enqueue ''m'' ''t''] empty_store))) Cancelled_set"
    by (simp add: queue_run_def script_defs mini_defs sample_defs all_priorities_def Let_def new_lease_def
        leased_envelope_def)
qed

subsection \<open>Deduplication\<close>

text \<open>
  C36. Enqueueing is idempotent under retries. When an enqueue under a new key has reached
  Redis, answered or with its reply lost, every later enqueue with a key of the same
  normal form, for whatever task and after whatever history, as long as
  less than a day has passed on the server, is answered as not accepted with the first
  message's identifier and adds nothing to the queue.
\<close>

theorem enqueue_idempotent:
  assumes "queue_server R view" and "task_deduplication_key sha key = Some d"
    and "task_deduplication_key sha key2 = Some d"
    and "cmd_get R (Dedupe d) s = None" and "r \<noteq> Not_sent"
    and "server_time (view (queue_run R es (snd (enqueue R sha r uid task key p s))))
           < server_time (view s) + 86400"
  shows "let s2 = queue_run R es (snd (enqueue R sha r uid task key p s))
    in fst (enqueue R sha Answered uid2 task2 key2 p2 s2)
         = Inr \<lparr>er_message_id = uid, er_accepted = False\<rparr>
       \<and> lists (view (snd (enqueue R sha Answered uid2 task2 key2 p2 s2))) = lists (view s2)
       \<and> hashes (view (snd (enqueue R sha Answered uid2 task2 key2 p2 s2))) = hashes (view s2)"
proof -
  let ?s1 = "snd (enqueue R sha r uid task key p s)"
  have "?s1 = snd (enqueue_script R p d uid dedupe_ttl (task_id task) (new_envelope uid task p) s)"
    using assms(2,4,5)
    by (cases r) (simp_all add: enqueue_def through_def enqueue_script_def Let_def)
  then have "strings (view ?s1) (Dedupe d) = Some (VText uid, server_time (view s) + 86400)"
    using assms(1,4) unfolding queue_server_def
    by (simp add: enqueue_script_def Let_def redis.write_laws redis.get_law dedupe_ttl_def)
  from queue_server.run_dedupe [OF assms(1) this assms(6)] assms(6)
  have "cmd_get R (Dedupe d) (queue_run R es ?s1) = Some (VText uid)"
    using assms(1) unfolding queue_server_def by (simp add: redis.get_law live_def)
  then show ?thesis using assms(1,3) unfolding queue_server_def
    by (simp add: Let_def enqueue_def through_def enqueue_script_def redis.hincrby_law)
qed

theorem enqueue_idempotent_witness:
  "fst (enqueue mini_redis id Answered ''m2'' (sample_task ''t'') ''k '' P_HIGH
      (snd (enqueue mini_redis id Reply_lost ''m1'' (sample_task ''t'') '' k'' P_NORMAL empty_store)))
    = Inr \<lparr>er_message_id = ''m1'', er_accepted = False\<rparr>"
proof -
  have "task_deduplication_key id '' k'' = Some ''k''" "task_deduplication_key id ''k '' = Some ''k''"
    by (simp_all add: task_deduplication_key_def normalize_idempotency_key_def strip_def py_space_def)
  moreover have "server_time (mini_view (queue_run mini_redis [] (snd (enqueue mini_redis id Reply_lost ''m1''
      (sample_task ''t'') '' k'' P_NORMAL empty_store)))) < server_time (mini_view empty_store) + 86400"
    by (simp add: enqueue_def through_def queue_run_def calculation script_defs mini_defs)
  ultimately show ?thesis
    using enqueue_idempotent [OF mini_queue.queue_server_axioms, of id "'' k''" "''k''" "''k ''"
        empty_store Reply_lost "[]" "''m1''" "sample_task ''t''" P_NORMAL "''m2''" "sample_task ''t''" P_HIGH]
    by (simp add: queue_run_def Let_def mini_defs)
qed

subsection \<open>Leases\<close>

text \<open>
  An acknowledgement succeeds exactly for the owner: on a sound store an answered acknowledgement is true iff
  the message has a lease with the delivery's owner token held by this worker and its task
  is not cancelled; then lease, message and deadline are gone, otherwise all three and every
  list are unchanged.
\<close>

theorem acknowledge_only_by_owner:
  assumes "queue_server R view" and "sound f (view s)"
  shows "let m = ct_message_id c; s' = snd (acknowledge R w Answered c s);
             mine = (\<exists>l. hashes (view s) Leases m = Some (VLease l) \<and> l_owner l = ct_owner c
                       \<and> l_worker l = w \<and> l_task_id l \<notin> members (view s) Cancelled_set)
    in fst (acknowledge R w Answered c s) = Inr mine
       \<and> lists (view s') = lists (view s)
       \<and> (if mine then hashes (view s') Leases m = None \<and> hashes (view s') Inflight m = None
              \<and> scores (view s') Lease_expiry m = None
          else hashes (view s') = hashes (view s) \<and> scores (view s') = scores (view s))"
proof (cases "cmd_hget R Leases (ct_message_id c) s")
  case None
  then show ?thesis using assms(1) unfolding queue_server_def
    by (simp add: acknowledge_def is_one_def through_def ack_script_def Let_def redis.read_laws)
next
  case (Some v)
  obtain l where "v = VLease l" using queue_server.read_lease [OF assms Some] by blast
  then show ?thesis using assms(1) Some unfolding queue_server_def
    by (auto simp: acknowledge_def is_one_def through_def ack_script_def forget_lease_def Let_def
        redis.read_laws redis.write_laws)
qed

theorem acknowledge_only_by_owner_witness:
  "fst (acknowledge mini_redis ''w'' Answered (sample_claim ''m'' ''t'' ''o'') leased_store) = Inr True
   \<and> fst (acknowledge mini_redis ''w'' Answered (sample_claim ''m'' ''t'' ''x'') leased_store) = Inr False"
  using acknowledge_only_by_owner [OF mini_queue.queue_server_axioms leased_store_sound,
      where w = "''w''" and c = "sample_claim ''m'' ''t'' ''o''"]
    acknowledge_only_by_owner [OF mini_queue.queue_server_axioms leased_store_sound,
      where w = "''w''" and c = "sample_claim ''m'' ''t'' ''x''"]
  by (simp add: Let_def leased_store_lease sample_claim_def new_lease_def)

lemma claim_script_leases:
  assumes "queue_server R view" and "sound f (view s)"
    and "claim_script R ow w now ex ps s = (Some (Some env), s')"
  shows "env_task_id env \<notin> members (view s) Cancelled_set
    \<and> \<not> terminal_state (task_state (env_task env)) \<and> task_id (env_task env) = env_task_id env
    \<and> env_lease_expires env = Some ex
    \<and> (\<exists>l. hashes (view s') Leases (env_message_id env) = Some (VLease l)
         \<and> l_owner l = ow \<and> l_worker l = w \<and> l_task_id l = env_task_id env \<and> l_deadline l = ex)
    \<and> hashes (view s') Inflight (env_message_id env) = Some (VEnvelope env)
    \<and> scores (view s') Lease_expiry (env_message_id env) = Some ex"
  using assms(2,3)
proof (induction ps arbitrary: s)
  case (Cons p ps)
  have R: "redis R view" using assms(1) unfolding queue_server_def .
  show ?case
  proof (cases "lists (view s) (Ready p)")
    case Nil
    then obtain s1 where "cmd_lpop R (Ready p) s = (None, s1)" "view s1 = view s"
      using redis.lpop_empty [OF R Nil] by (metis prod.collapse)
    with Cons.IH [of s1] Cons.prems show ?thesis by simp
  next
    case (Cons v vs)
    from sound_pop_ready [OF Cons.prems(1) this] obtain env1 where
      env1: "v = VEnvelope env1" "envelope_ok f env1"
      and popped: "sound f ((view s)\<lparr>lists := (lists (view s))(Ready p := vs)\<rparr>)" by blast
    obtain s1 where s1: "cmd_lpop R (Ready p) s = (Some (VEnvelope env1), s1)"
        "view s1 = (view s)\<lparr>lists := (lists (view s))(Ready p := vs)\<rparr>"
      using redis.lpop_head [OF R Cons] env1 by (metis prod.collapse)
    have "sound f (view (forget_lease R (env_message_id env1) s1))
        \<and> members (view (forget_lease R (env_message_id env1) s1)) = members (view s)"
      using popped s1(2) queue_server.view_forget_lease [OF assms(1)]
      by (simp add: sound_drop_lease) (simp add: drop_lease_def)
    with Cons.IH [of "forget_lease R (env_message_id env1) s1"] Cons.prems s1 env1 show ?thesis
      by (auto simp: Let_def envelope_ok_def leased_envelope_def new_lease_def redis.read_laws [OF R]
          redis.write_laws [OF R] split: if_splits)
  qed
qed simp

text \<open>
  A claim hands out live work only, under a lease of its own: what an answered claim
  returns is a task that is neither cancelled nor finished, and from then on the message
  is leased to exactly the token and worker that the delivery carries, until the deadline
  that the delivery states.
\<close>

theorem claim_leases_live_work:
  assumes "queue_server R view" and "sound f (view s)"
    and "claim R w Answered uid now vis s = (Inr (Some c), s')"
  shows "task_id (ct_task c) \<notin> members (view s) Cancelled_set \<and> \<not> terminal_state (task_state (ct_task c))
    \<and> ct_lease_expires c = now + vis
    \<and> (\<exists>l. hashes (view s') Leases (ct_message_id c) = Some (VLease l) \<and> l_owner l = ct_owner c
         \<and> l_worker l = w \<and> l_task_id l = task_id (ct_task c) \<and> l_deadline l = ct_lease_expires c)
    \<and> scores (view s') Lease_expiry (ct_message_id c) = Some (ct_lease_expires c)"
proof -
  from assms(3) obtain env where env: "claim_script R (w @ '':'' @ uid) w now (now + vis) all_priorities s
      = (Some (Some env), s')"
    and c: "env_lease_expires env = Some (ct_lease_expires c)" "ct_task c = env_task env"
      "ct_message_id c = env_message_id env" "ct_owner c = w @ '':'' @ uid"
    by (auto simp: claim_def Let_def through_def split: prod.splits sum.splits option.splits)
  from claim_script_leases [OF assms(1,2) env] c show ?thesis by auto
qed

theorem claim_leases_live_work_witness:
  "\<exists>c s'. claim mini_redis ''w'' Answered ''u'' 1 60 (queue_run mini_redis [sample_enqueue ''m'' ''t''] empty_store)
       = (Inr (Some c), s') \<and> ct_owner c = ''w:u'' \<and> ct_lease_expires c = 61
     \<and> scores (mini_view s') Lease_expiry (ct_message_id c) = Some 61"
proof -
  obtain c s' where claimed: "claim mini_redis ''w'' Answered ''u'' 1 60
      (queue_run mini_redis [sample_enqueue ''m'' ''t''] empty_store) = (Inr (Some c), s')" "ct_owner c = ''w:u''"
    by (simp add: claim_def through_def queue_run_def script_defs mini_defs sample_defs all_priorities_def
        Let_def new_lease_def leased_envelope_def)
  have "sound (\<lambda>_. (''t'', False)) (mini_view (queue_run mini_redis [sample_enqueue ''m'' ''t''] empty_store))"
    by (rule mini_queue.run_sound [OF sound_empty]) (simp add: sample_defs)
  from claim_leases_live_work [OF mini_queue.queue_server_axioms this claimed(1)] claimed show ?thesis
    by auto
qed

lemma claim_empty:
  assumes "redis R view" and "\<forall>q \<in> set ps. lists (view s) (Ready q) = []"
  shows "fst (claim_script R ow w now ex ps s) = Some None
    \<and> lists (view (snd (claim_script R ow w now ex ps s))) = lists (view s)"
  using assms(2)
proof (induction ps arbitrary: s)
  case (Cons q ps)
  obtain s2 where s2: "cmd_lpop R (Ready q) s = (None, s2)" "view s2 = view s"
    using redis.lpop_empty [OF assms(1)] Cons.prems by (metis list.set_intros(1) prod.collapse)
  then show ?case using Cons.IH [of s2] Cons.prems by simp
qed simp

lemma claim_cancelled_head:
  assumes "queue_server R view" and "distinct ps" and "p \<in> set ps"
    and "lists (view s) (Ready p) = VEnvelope env # rest" and "\<forall>q. q \<noteq> p \<longrightarrow> lists (view s) (Ready q) = []"
    and "env_task_id env \<in> members (view s) Cancelled_set"
  shows "fst (claim_script R ow w now ex ps s) = Some None
    \<and> lists (view (snd (claim_script R ow w now ex ps s))) (Ready p) = rest"
proof -
  have R: "redis R view" using assms(1) unfolding queue_server_def .
  from assms(2-) show ?thesis
  proof (induction ps arbitrary: s)
    case (Cons q ps)
    show ?case
    proof (cases "q = p")
      case True
      obtain s1 where s1: "cmd_lpop R (Ready p) s = (Some (VEnvelope env), s1)"
          "view s1 = (view s)\<lparr>lists := (lists (view s))(Ready p := rest)\<rparr>"
        using redis.lpop_head [OF R] Cons.prems(3) by (metis prod.collapse)
      define s2 where "s2 = forget_lease R (env_message_id env) s1"
      have s2: "lists (view s2) = (lists (view s))(Ready p := rest)"
        using s1(2) by (simp add: s2_def queue_server.view_forget_lease [OF assms(1)] drop_lease_def)
      have "\<forall>q \<in> set ps. lists (view s2) (Ready q) = []"
        using s2 Cons.prems(1,4) True by auto
      from claim_empty [OF R this] s1 s2 True Cons.prems(5) show ?thesis
        by (simp add: s2_def redis.read_laws [OF R])
    next
      case False
      then obtain s2 where "cmd_lpop R (Ready q) s = (None, s2)" "view s2 = view s"
        using redis.lpop_empty [OF R] Cons.prems(4) by (metis prod.collapse)
      with False Cons.IH [of s2] Cons.prems show ?thesis by simp
    qed
  qed simp
qed

text \<open>
  A cancelled message at the head of a priority hides the messages behind it: when
  the only non-empty ready list starts with a message of a cancelled task, the claim
  removes that one message and returns nothing, although live messages are waiting.
\<close>

theorem cancelled_head_hides_ready_work:
  assumes "queue_server R view"
    and "lists (view s) (Ready p) = VEnvelope env # rest" and "\<forall>q. q \<noteq> p \<longrightarrow> lists (view s) (Ready q) = []"
    and "env_task_id env \<in> members (view s) Cancelled_set"
  shows "fst (claim R w Answered uid now vis s) = Inr None
    \<and> lists (view (snd (claim R w Answered uid now vis s))) (Ready p) = rest"
proof -
  have "distinct all_priorities \<and> p \<in> set all_priorities"
    by (cases p) (simp_all add: all_priorities_def)
  then have "fst (claim_script R (w @ '':'' @ uid) w now (now + vis) all_priorities s) = Some None
      \<and> lists (view (snd (claim_script R (w @ '':'' @ uid) w now (now + vis) all_priorities s))) (Ready p) = rest"
    using claim_cancelled_head [OF assms(1) _ _ assms(2-)] by blast
  then show ?thesis
    by (cases "claim_script R (w @ '':'' @ uid) w now (now + vis) all_priorities s")
      (simp add: claim_def Let_def through_def)
qed

definition cancel_note :: "string \<Rightarrow> cancellation_record" where
  "cancel_note t = \<lparr>cx_task_id = t, cx_actor = ''a'', cx_reason = ''r'', cx_at = 0, cx_evidence = None\<rparr>"

definition hidden_store :: "(queue_key, queue_value) mini_store" where
  "hidden_store = queue_run mini_redis [sample_enqueue ''m1'' ''t1'', sample_enqueue ''m2'' ''t2'',
     Q_cancel ''t1'' (cancel_note ''t1'')] empty_store"

lemma hidden_store_view:
  "lists (mini_view hidden_store) (Ready q) = (if q = P_NORMAL
     then [VEnvelope (sample_envelope ''m1'' ''t1''), VEnvelope (sample_envelope ''m2'' ''t2'')] else [])
   \<and> ''t1'' \<in> members (mini_view hidden_store) Cancelled_set"
  by (cases q) (simp_all add: hidden_store_def queue_run_def script_defs mini_defs sample_defs Let_def)

theorem cancelled_head_hides_ready_work_witness:
  "fst (claim mini_redis ''w'' Answered ''u'' 1 60 hidden_store) = Inr None
   \<and> lists (mini_view (snd (claim mini_redis ''w'' Answered ''u'' 1 60 hidden_store))) (Ready P_NORMAL)
       = [VEnvelope (sample_envelope ''m2'' ''t2'')]"
  by (rule cancelled_head_hides_ready_work [OF mini_queue.queue_server_axioms,
        where env = "sample_envelope ''m1'' ''t1''"])
    (simp_all add: hidden_store_view sample_envelope_def new_envelope_def sample_task_def new_task_def)

subsection \<open>Cancellation\<close>

lemma cancelled_never_recovered:
  assumes "queue_server R view" and "sound f (view s)" and "fst (f m) \<in> members (view s) Cancelled_set"
  shows "hashes (view (snd (recover_script R m now dt payload due s))) Delayed = hashes (view s) Delayed
    \<and> hashes (view (snd (recover_script R m now dt payload due s))) Dlq = hashes (view s) Dlq"
proof (cases "cmd_zscore R Lease_expiry m s")
  case None
  then show ?thesis by (simp add: recover_script_def)
next
  case (Some score)
  have R: "redis R view" using assms(1) unfolding queue_server_def .
  obtain vl ve where found: "cmd_hget R Leases m s = Some vl" "cmd_hget R Inflight m s = Some ve"
    using queue_server.lease_presence [OF assms(1,2), of m] Some
    by (cases "cmd_hget R Leases m s"; cases "cmd_hget R Inflight m s") auto
  from queue_server.read_lease [OF assms(1,2) found(1)] obtain l where l: "vl = VLease l" by blast
  from queue_server.read_inflight [OF assms(1,2) found(2)] obtain env where env: "ve = VEnvelope env" "env_task_id env = fst (f m)"
    by (auto simp: envelope_ok_def)
  have "cmd_sismember R Cancelled_set (env_task_id env) s" using assms(3) env(2) by (simp add: redis.read_laws [OF R])
  then show ?thesis
    by (simp add: recover_script_def Let_def Some found l env(1) queue_server.view_forget_lease [OF assms(1)] drop_lease_def)
qed

text \<open>
  C38. Cancellation is permanent. Once a task's tombstone is in a well-formed queue, then after any further history
  of steps whose arguments name the task of their message: no claim returns the task, no acknowledgement or
  renewal of a delivery of it succeeds, neither the scheduler nor recovery puts a message of it among the delayed
  retries or, for recovery, the dead letters, and no dead letter of it is replayed.
\<close>

theorem cancellation_is_permanent:
  assumes "queue_server R view" and "sound f (view s)" and "\<forall>e \<in> set es. step_ok f e"
    and "t \<in> members (view s) Cancelled_set" and "task_id (ct_task c) = t" and "fst (f (ct_message_id c)) = t"
  shows "let s' = queue_run R es s in
      (\<forall>w uid now vis d s2. claim R w Answered uid now vis s' = (Inr (Some d), s2) \<longrightarrow> task_id (ct_task d) \<noteq> t)
    \<and> fst (acknowledge R w Answered c s') = Inr False
    \<and> (\<exists>n. fst (renew_script R (ct_message_id c) ow t w ex s') = Some n \<and> n \<noteq> 1)
    \<and> schedule_script R (ct_message_id c) t rec due s' = (Some False, s')
    \<and> (\<forall>now dt payload due2. let s2 = snd (recover_script R (ct_message_id c) now dt payload due2 s') in
         hashes (view s2) Delayed = hashes (view s') Delayed \<and> hashes (view s2) Dlq = hashes (view s') Dlq)
    \<and> fst (replay_script R (ct_message_id c) new upd s') \<noteq> Some RR_REPLAYED"
proof -
  define s' where "s' = queue_run R es s"
  have R: "redis R view" using assms(1) unfolding queue_server_def .
  have dead: "t \<in> members (view s') Cancelled_set"
    using queue_server.run_tombstones [OF assms(1), of s es] assms(4) by (auto simp: s'_def)
  have snd: "sound f (view s')" unfolding s'_def by (rule queue_server.run_sound [OF assms(1-3)])
  have recovery: "let s2 = snd (recover_script R (ct_message_id c) now dt payload due2 s') in
      hashes (view s2) Delayed = hashes (view s') Delayed \<and> hashes (view s2) Dlq = hashes (view s') Dlq" for now dt payload due2
    using cancelled_never_recovered [OF assms(1) snd] dead assms(6) by (simp add: Let_def)
  have "task_id (ct_task d) \<noteq> t" if "claim R w Answered uid now vis s' = (Inr (Some d), s2)" for w uid now vis d s2
  proof -
    from that obtain env where "claim_script R (w @ '':'' @ uid) w now (now + vis) all_priorities s'
        = (Some (Some env), s2)" "ct_task d = env_task env"
      by (auto simp: claim_def Let_def through_def split: prod.splits sum.splits option.splits)
    from claim_script_leases [OF assms(1) snd this(1)] this(2) dead show ?thesis by auto
  qed
  moreover have "fst (acknowledge R w Answered c s') = Inr False"
    using dead assms(6) queue_server.read_lease [OF assms(1) snd, of "ct_message_id c"]
    by (auto simp: acknowledge_def is_one_def through_def ack_script_def redis.read_laws [OF R] split: option.splits)
  moreover have "\<exists>n. fst (renew_script R (ct_message_id c) ow t w ex s') = Some n \<and> n \<noteq> 1"
    using dead by (auto simp: renew_script_def redis.read_laws [OF R] split: option.splits)
  moreover have "schedule_script R (ct_message_id c) t rec due s' = (Some False, s')"
    using dead by (simp add: schedule_script_def redis.read_laws [OF R])
  moreover have "fst (replay_script R (ct_message_id c) new upd s') \<noteq> Some RR_REPLAYED"
    using dead assms(6) queue_server.read_letter [OF assms(1) snd, of "ct_message_id c"]
    by (auto simp: replay_script_def Let_def letter_ok_def redis.read_laws [OF R] split: option.splits if_splits)
  ultimately show ?thesis using recovery unfolding s'_def [symmetric] by (simp only: Let_def) blast
qed

theorem cancellation_is_permanent_witness:
  "fst (acknowledge mini_redis ''w'' Answered (sample_claim ''m'' ''t'' ''o'')
     (queue_run mini_redis [Q_time 5] (queue_run mini_redis [Q_cancel ''t'' (cancel_note ''t'')] leased_store)))
   = Inr False"
proof -
  have "sound (\<lambda>_. (''t'', False)) (mini_view (queue_run mini_redis [Q_cancel ''t'' (cancel_note ''t'')] leased_store))"
    by (rule mini_queue.run_sound [OF leased_store_sound]) simp
  moreover have "''t'' \<in> members (mini_view (queue_run mini_redis [Q_cancel ''t'' (cancel_note ''t'')] leased_store)) Cancelled_set"
    by (simp add: leased_store_def queue_run_def script_defs mini_defs sample_defs all_priorities_def Let_def
        new_lease_def leased_envelope_def)
  ultimately show ?thesis
    using cancellation_is_permanent [OF mini_queue.queue_server_axioms, of "\<lambda>_. (''t'', False)"
        "queue_run mini_redis [Q_cancel ''t'' (cancel_note ''t'')] leased_store" "[Q_time 5]" "''t''"
        "sample_claim ''m'' ''t'' ''o''"]
    by (simp add: Let_def sample_claim_def sample_task_def new_task_def)
qed

subsection \<open>Failed deliveries\<close>



subsection \<open>Replaying dead letters\<close>

text \<open>
  C39. A dead letter is replayed at most once. In any history without a further approval,
  made of replay attempts, finalisations, recoveries and all other steps of
  the queue, the messages whose replay was granted are all different.
\<close>

theorem dead_letter_replayed_once:
  assumes "queue_server R view"
  shows "distinct (granted (replay_use R) replay_key s calls)"
  by (rule queue_server.replays_distinct [OF assms])

definition sample_letter :: "string \<Rightarrow> string \<Rightarrow> dead_letter" where
  "sample_letter m t = (dispatch_letter ''w'' ''d'' 0 (sample_claim m t ''o'') slow_failure)
     \<lparr>approval_status := RA_APPROVED\<rparr>"

definition letter_store :: "(queue_key, queue_value) mini_store" where
  "letter_store = queue_run mini_redis [Q_finalize (sample_letter ''m'' ''t'')] empty_store"

lemmas letter_defs = sample_letter_def dispatch_letter_def sample_claim_def delivery_envelope_def
  slow_failure_def ExecutionFailure_def sample_task_def new_task_def

theorem dead_letter_replayed_once_witness:
  "granted (replay_use mini_redis) replay_key letter_store
     [Replay_call ''m'' ''n1'' 1 (sample_letter ''m'' ''t''), Replay_call ''m'' ''n2'' 2 (sample_letter ''m'' ''t'')]
   = [''m'']"
proof -
  let ?calls = "[Replay_call ''m'' ''n1'' 1 (sample_letter ''m'' ''t''), Replay_call ''m'' ''n2'' 2 (sample_letter ''m'' ''t'')]"
  have "''m'' \<in> set (granted (replay_use mini_redis) replay_key letter_store ?calls)
      \<and> set (granted (replay_use mini_redis) replay_key letter_store ?calls) \<subseteq> {''m''}"
    by (simp add: replay_use_def replay_key_def letter_store_def queue_run_def script_defs mini_defs letter_defs
        mark_replayed_def Let_def)
  moreover have "distinct (granted (replay_use mini_redis) replay_key letter_store ?calls)"
    by (rule dead_letter_replayed_once [OF mini_queue.queue_server_axioms])
  ultimately show ?thesis by (intro distinct_singleton) auto
qed

text \<open>
  An approval that was read before a replay and is written after it undoes the
  replay's mark: the approval is a read and a write, not one script, and writes back the
  record as it was, so the dead letter can be replayed again and two messages of the
  same dead letter are put in the ready list.
\<close>

theorem approval_race_replays_twice:
  assumes "queue_server R view"
    and "hashes (view s) Dlq m = Some (VDead d)" "dl_message_id d = m" "replayed_message_id d = None"
    and "replay_eligible d" "approval_status d = RA_APPROVED" "dl_task_id d \<notin> members (view s) Cancelled_set"
    and "task_state (env_task (dl_envelope d)) \<notin> {COMPLETED, CANCELLED}"
    and "s1 = snd (replay_script R m n1 (mark_replayed n1 t1 d) s)"
    and "s2 = snd (approve_write R d True s1)"
  shows "fst (replay_script R m n1 (mark_replayed n1 t1 d) s) = Some RR_REPLAYED
    \<and> fst (replay_script R m n2 (mark_replayed n2 t2 d) s2) = Some RR_REPLAYED
    \<and> lists (view (snd (replay_script R m n2 (mark_replayed n2 t2 d) s2))) (Ready (env_priority (dl_envelope d)))
      = lists (view s) (Ready (env_priority (dl_envelope d)))
        @ [VEnvelope (replayed_envelope n1 (dl_envelope d)), VEnvelope (replayed_envelope n2 (dl_envelope d))]"
proof -
  have R: "redis R view" using assms(1) unfolding queue_server_def .
  have p: "env_priority (replayed_envelope n (dl_envelope d)) = env_priority (dl_envelope d)" for n
    by (simp add: replayed_envelope_def)
  show ?thesis using assms(2-)
    by (simp add: replay_script_def approve_write_def Let_def p redis.read_laws [OF R] redis.write_laws [OF R])
qed

theorem approval_race_replays_twice_witness:
  "fst (replay_script mini_redis ''m'' ''n2'' (mark_replayed ''n2'' 2 (sample_letter ''m'' ''t''))
     (snd (approve_write mini_redis (sample_letter ''m'' ''t'') True (snd (replay_script mini_redis ''m'' ''n1''
        (mark_replayed ''n1'' 1 (sample_letter ''m'' ''t'')) letter_store))))) = Some RR_REPLAYED"
  using approval_race_replays_twice [OF mini_queue.queue_server_axioms, of letter_store "''m''"
      "sample_letter ''m'' ''t''" _ "''n1''" 1 _ "''n2''" 2, OF _ _ _ _ _ _ _ refl refl]
  by (simp add: letter_store_def queue_run_def script_defs mini_defs letter_defs Let_def)

end
