(* ===== verification/Durable.thy ===== *)
theory Durable
  imports Queue "HOL-Library.Multiset"
begin

text \<open>
  Durable state: the tables (\<open>database/base.py\<close>), the task repository
  (\<open>database/repositories.py\<close>) and the execution gateway of the workers
  (\<open>worker/durable_execution.py\<close>). PostgreSQL is a parameter: reads of the tables, and a
  commit of a transaction's changes that is all or nothing under the tables' constraints.
  Clocks, identifiers and the evidence hash are arguments.
\<close>

subsection \<open>Tables and transactions\<close>

record task_row =
  tr_id :: uuid
  tr_key :: string
  tr_repository :: string
  tr_instruction :: string
  tr_state :: string
  tr_risk :: risk_level
  tr_created :: instant
  tr_updated :: instant

record attempt_row =
  at_task :: uuid
  at_number :: int
  at_state :: string
  at_owner :: "string option"
  at_expires :: "instant option"

record evidence_row =
  row_task :: uuid
  row_kind :: string
  row_summary :: string
  row_hash :: digest
  row_created :: instant

record audit_row =
  au_task :: uuid
  au_action :: string
  au_actor :: string
  au_key :: string
  au_detail :: string
  au_occurred :: instant

record tables =
  task_rows :: "uuid \<Rightarrow> task_row option"
  attempt_rows :: "uuid \<times> int \<Rightarrow> attempt_row option"
  evidence_rows :: "evidence_row list"
  audit_rows :: "audit_row list"

datatype change =
    Insert_task task_row
  | Insert_attempt attempt_row
  | Insert_evidence evidence_row
  | Insert_audit audit_row
  | Update_state uuid string instant

text \<open>One change under the constraints: primary and unique keys, foreign keys, column widths.\<close>

fun apply_change :: "change \<Rightarrow> tables \<Rightarrow> tables option" where
  "apply_change (Insert_task r) t =
     (if task_rows t (tr_id r) \<noteq> None \<or> (\<exists>i r'. task_rows t i = Some r' \<and> tr_key r' = tr_key r)
        \<or> length (tr_key r) > 255 \<or> length (tr_repository r) > 255 then None
      else Some (t\<lparr>task_rows := (task_rows t)(tr_id r := Some r)\<rparr>))"
| "apply_change (Insert_attempt a) t =
     (if attempt_rows t (at_task a, at_number a) \<noteq> None \<or> task_rows t (at_task a) = None
        \<or> length (str_or (at_owner a) []) > 128 then None
      else Some (t\<lparr>attempt_rows := (attempt_rows t)((at_task a, at_number a) := Some a)\<rparr>))"
| "apply_change (Insert_evidence e) t =
     (if (\<exists>e' \<in> set (evidence_rows t). row_hash e' = row_hash e) \<or> task_rows t (row_task e) = None
        \<or> length (row_kind e) > 64 \<or> length (row_hash e) > 64 then None
      else Some (t\<lparr>evidence_rows := evidence_rows t @ [e]\<rparr>))"
| "apply_change (Insert_audit a) t =
     (if (\<exists>a' \<in> set (audit_rows t). au_key a' = au_key a) \<or> task_rows t (au_task a) = None
        \<or> length (au_action a) > 128 \<or> length (au_actor a) > 128 \<or> length (au_key a) > 255 then None
      else Some (t\<lparr>audit_rows := audit_rows t @ [a]\<rparr>))"
| "apply_change (Update_state i st now) t =
     (case task_rows t i of
        None \<Rightarrow> Some t
      | Some r \<Rightarrow> Some (t\<lparr>task_rows := (task_rows t)(i := Some (r\<lparr>tr_state := st, tr_updated := now\<rparr>))\<rparr>))"

fun apply_changes :: "change list \<Rightarrow> tables \<Rightarrow> tables option" where
  "apply_changes [] t = Some t"
| "apply_changes (c # cs) t = Option.bind (apply_change c t) (apply_changes cs)"

record 'd database =
  db_task :: "uuid \<Rightarrow> 'd \<Rightarrow> task_row option"
  db_by_key :: "string \<Rightarrow> 'd \<Rightarrow> task_row option"
  db_attempt :: "uuid \<Rightarrow> int \<Rightarrow> 'd \<Rightarrow> attempt_row option"
  db_evidence :: "uuid \<Rightarrow> 'd \<Rightarrow> evidence_row list"
  db_tasks :: "'d \<Rightarrow> task_row list"
  db_commit :: "change list \<Rightarrow> 'd \<Rightarrow> 'd option"

text \<open>Evidence is read back in the order of its creation time, tasks newest first.\<close>

locale postgres =
  fixes db :: "'d database"
    and rows :: "'d \<Rightarrow> tables"
  assumes task_law: "db_task db i d = task_rows (rows d) i"
    and by_key_law: "db_by_key db k d = Some r \<Longrightarrow> task_rows (rows d) (tr_id r) = Some r \<and> tr_key r = k"
    and by_key_none: "db_by_key db k d = None \<Longrightarrow> task_rows (rows d) i = Some r \<Longrightarrow> tr_key r \<noteq> k"
    and attempt_law: "db_attempt db i n d = attempt_rows (rows d) (i, n)"
    and evidence_law: "mset (db_evidence db i d) = mset (filter (\<lambda>e. row_task e = i) (evidence_rows (rows d)))"
    and evidence_sorted: "sorted (map row_created (db_evidence db i d))"
    and tasks_law: "set (db_tasks db d) = {r. \<exists>i. task_rows (rows d) i = Some r}"
    and tasks_distinct: "distinct (map tr_id (db_tasks db d))"
    and tasks_sorted: "sorted (map (\<lambda>r. - tr_created r) (db_tasks db d))"
    and commit_law: "map_option rows (db_commit db cs d) = apply_changes cs (rows d)"
    and row_ids: "task_rows (rows d) i = Some r \<Longrightarrow> tr_id r = i"
begin

lemma commit_ok: "db_commit db cs d = Some d' \<Longrightarrow> apply_changes cs (rows d) = Some (rows d')"
  using commit_law [of cs d] by simp

lemma commit_fails: "apply_changes cs (rows d) = None \<longleftrightarrow> db_commit db cs d = None"
  by (metis commit_law map_option_is_None)

lemma commit_works: "apply_changes cs (rows d) = Some t \<Longrightarrow> \<exists>d'. db_commit db cs d = Some d' \<and> rows d' = t"
  using commit_law [of cs d] by (cases "db_commit db cs d") auto

end

subsection \<open>A database in memory\<close>

text \<open>Rows in lists; a commit is refused when the tables' constraints refuse it.\<close>

record memory_db =
  md_tasks :: "task_row list"
  md_attempts :: "attempt_row list"
  md_evidence :: "evidence_row list"
  md_audit :: "audit_row list"

definition md_rows :: "memory_db \<Rightarrow> tables" where
  "md_rows d = \<lparr>task_rows = (\<lambda>i. find (\<lambda>r. tr_id r = i) (md_tasks d)),
     attempt_rows = (\<lambda>(i, n). find (\<lambda>a. at_task a = i \<and> at_number a = n) (md_attempts d)),
     evidence_rows = md_evidence d, audit_rows = md_audit d\<rparr>"

definition restate :: "uuid \<Rightarrow> string \<Rightarrow> instant \<Rightarrow> task_row \<Rightarrow> task_row" where
  "restate i st now r = (if tr_id r = i then r\<lparr>tr_state := st, tr_updated := now\<rparr> else r)"

fun md_change :: "change \<Rightarrow> memory_db \<Rightarrow> memory_db option" where
  "md_change (Insert_task r) d =
     (if find (\<lambda>r'. tr_id r' = tr_id r) (md_tasks d) \<noteq> None
        \<or> find (\<lambda>r'. tr_key r' = tr_key r \<and> find (\<lambda>q. tr_id q = tr_id r') (md_tasks d) = Some r') (md_tasks d) \<noteq> None
        \<or> length (tr_key r) > 255 \<or> length (tr_repository r) > 255 then None
      else Some (d\<lparr>md_tasks := md_tasks d @ [r]\<rparr>))"
| "md_change (Insert_attempt a) d =
     (if find (\<lambda>b. at_task b = at_task a \<and> at_number b = at_number a) (md_attempts d) \<noteq> None
        \<or> find (\<lambda>r. tr_id r = at_task a) (md_tasks d) = None
        \<or> length (str_or (at_owner a) []) > 128 then None
      else Some (d\<lparr>md_attempts := md_attempts d @ [a]\<rparr>))"
| "md_change (Insert_evidence e) d =
     (if find (\<lambda>e'. row_hash e' = row_hash e) (md_evidence d) \<noteq> None
        \<or> find (\<lambda>r. tr_id r = row_task e) (md_tasks d) = None
        \<or> length (row_kind e) > 64 \<or> length (row_hash e) > 64 then None
      else Some (d\<lparr>md_evidence := md_evidence d @ [e]\<rparr>))"
| "md_change (Insert_audit a) d =
     (if find (\<lambda>a'. au_key a' = au_key a) (md_audit d) \<noteq> None
        \<or> find (\<lambda>r. tr_id r = au_task a) (md_tasks d) = None
        \<or> length (au_action a) > 128 \<or> length (au_actor a) > 128 \<or> length (au_key a) > 255 then None
      else Some (d\<lparr>md_audit := md_audit d @ [a]\<rparr>))"
| "md_change (Update_state i st now) d =
     Some (d\<lparr>md_tasks := map (restate i st now) (md_tasks d)\<rparr>)"

fun md_changes :: "change list \<Rightarrow> memory_db \<Rightarrow> memory_db option" where
  "md_changes [] d = Some d"
| "md_changes (c # cs) d = Option.bind (md_change c d) (md_changes cs)"

definition md_current :: "memory_db \<Rightarrow> task_row list" where
  "md_current d = remdups (filter (\<lambda>r. find (\<lambda>q. tr_id q = tr_id r) (md_tasks d) = Some r) (md_tasks d))"

definition memory_database :: "memory_db database" where
  "memory_database = \<lparr>db_task = (\<lambda>i d. find (\<lambda>r. tr_id r = i) (md_tasks d)),
     db_by_key = (\<lambda>k d. find (\<lambda>r. tr_key r = k \<and> find (\<lambda>q. tr_id q = tr_id r) (md_tasks d) = Some r) (md_tasks d)),
     db_attempt = (\<lambda>i n d. find (\<lambda>a. at_task a = i \<and> at_number a = n) (md_attempts d)),
     db_evidence = (\<lambda>i d. sort_key row_created (filter (\<lambda>e. row_task e = i) (md_evidence d))),
     db_tasks = (\<lambda>d. sort_key (\<lambda>r. - tr_created r) (md_current d)),
     db_commit = md_changes\<rparr>"

lemma find_snoc: "find P (xs @ [x]) = (case find P xs of None \<Rightarrow> if P x then Some x else None | Some y \<Rightarrow> Some y)"
  by (induction xs) auto

lemma find_restate: "find (\<lambda>r. tr_id r = j) (map (restate i st now) rs)
    = (case find (\<lambda>r. tr_id r = j) rs of None \<Rightarrow> None
       | Some r \<Rightarrow> Some (if j = i then r\<lparr>tr_state := st, tr_updated := now\<rparr> else r))"
  by (induction rs) (auto simp: restate_def split: option.splits)

lemma md_change_rows: "map_option md_rows (md_change c d) = apply_change c (md_rows d)"
proof (cases c)
  case (Insert_task r)
  have "(find (\<lambda>r'. tr_key r' = tr_key r \<and> find (\<lambda>q. tr_id q = tr_id r') (md_tasks d) = Some r') (md_tasks d) \<noteq> None)
      = (\<exists>i r'. find (\<lambda>q. tr_id q = i) (md_tasks d) = Some r' \<and> tr_key r' = tr_key r)"
    by (auto simp: find_None_all dest: find_SomeD)
  then show ?thesis using Insert_task
    by (auto simp: md_rows_def find_snoc fun_eq_iff split: option.splits)
next
  case (Insert_attempt a)
  then show ?thesis by (auto simp: md_rows_def find_snoc fun_eq_iff split: option.splits)
next
  case (Insert_evidence e)
  then show ?thesis by (auto simp: md_rows_def find_None_all dest: find_SomeD)
next
  case (Insert_audit a)
  then show ?thesis by (auto simp: md_rows_def find_None_all dest: find_SomeD)
next
  case (Update_state i st now)
  then show ?thesis
    by (auto simp: md_rows_def find_restate fun_eq_iff split: option.splits)
qed

lemma md_changes_rows: "map_option md_rows (md_changes cs d) = apply_changes cs (md_rows d)"
proof (induction cs arbitrary: d)
  case (Cons c cs)
  then show ?case by (cases "md_change c d") (simp_all add: md_change_rows [symmetric])
qed simp

lemma md_current_ids: "distinct (map tr_id (md_current d))"
proof -
  have "inj_on tr_id {r \<in> set (md_tasks d). find (\<lambda>q. tr_id q = tr_id r) (md_tasks d) = Some r}"
  proof (rule inj_onI)
    fix x y
    assume x: "x \<in> {r \<in> set (md_tasks d). find (\<lambda>q. tr_id q = tr_id r) (md_tasks d) = Some r}"
      and y: "y \<in> {r \<in> set (md_tasks d). find (\<lambda>q. tr_id q = tr_id r) (md_tasks d) = Some r}"
      and same: "tr_id x = tr_id y"
    have "Some x = find (\<lambda>q. tr_id q = tr_id y) (md_tasks d)" using x by (simp add: same)
    also have "\<dots> = Some y" using y by simp
    finally show "x = y" by simp
  qed
  then show ?thesis unfolding md_current_def distinct_map by simp
qed

lemma md_current_rows: "set (md_current d) = {r. \<exists>i. find (\<lambda>q. tr_id q = i) (md_tasks d) = Some r}"
  by (auto simp: md_current_def dest: find_SomeD)

interpretation memory_pg: postgres memory_database md_rows
proof
  show "map_option md_rows (db_commit memory_database cs d) = apply_changes cs (md_rows d)" for cs d
    by (simp add: memory_database_def md_changes_rows)
  show "db_by_key memory_database k d = Some r \<Longrightarrow> task_rows (md_rows d) (tr_id r) = Some r \<and> tr_key r = k" for k d r
    using find_SomeD [of "\<lambda>r. tr_key r = k \<and> find (\<lambda>q. tr_id q = tr_id r) (md_tasks d) = Some r" "md_tasks d" r]
    by (simp add: memory_database_def md_rows_def)
  show "db_by_key memory_database k d = None \<Longrightarrow> task_rows (md_rows d) i = Some r \<Longrightarrow> tr_key r \<noteq> k" for k d i r
    by (auto simp: memory_database_def md_rows_def find_None_all dest: find_SomeD)
  show "set (db_tasks memory_database d) = {r. \<exists>i. task_rows (md_rows d) i = Some r}" for d
    by (simp add: memory_database_def md_current_rows md_rows_def)
  show "distinct (map tr_id (db_tasks memory_database d))" for d
    using md_current_ids [of d] by (simp add: memory_database_def distinct_map inj_on_def)
qed (auto simp: memory_database_def md_rows_def dest: find_SomeD)

subsection \<open>The execution gateway\<close>

definition plain_exception :: "string list \<Rightarrow> exception" where
  "plain_exception names = \<lparr>exn_classes = names @ [''Exception'', ''BaseException'', ''object''], exn_provider = None\<rparr>"

definition terminal_error :: exception where
  "terminal_error = plain_exception [''DurableTaskTerminalError'']"

definition lookup_error :: exception where
  "lookup_error = plain_exception [''LookupError'']"

definition integrity_error :: exception where
  "integrity_error = plain_exception [''IntegrityError'', ''DatabaseError'', ''DBAPIError'', ''StatementError'',
     ''SQLAlchemyError'']"

text \<open>
  A transaction on the task's row: the connection may fail (\<open>fault\<close>), the row may be missing,
  the body may refuse, and the commit may violate a constraint; each raises and leaves
  the tables as they were.
\<close>

definition on_task ::
  "'d database \<Rightarrow> exception option \<Rightarrow> uuid \<Rightarrow> (task_row \<Rightarrow> exception + change list) \<Rightarrow> 'd
   \<Rightarrow> (exception + task_row) \<times> 'd" where
  "on_task db fault i body d = (case fault of
     Some e \<Rightarrow> (Inl e, d)
   | None \<Rightarrow> (case db_task db i d of
       None \<Rightarrow> (Inl lookup_error, d)
     | Some row \<Rightarrow> (case body row of
         Inl e \<Rightarrow> (Inl e, d)
       | Inr changes \<Rightarrow> (case db_commit db changes d of
           None \<Rightarrow> (Inl integrity_error, d)
         | Some d' \<Rightarrow> (Inr row, d')))))"

definition terminal_value :: "string \<Rightarrow> bool" where
  "terminal_value st \<longleftrightarrow> st \<in> {''completed'', ''failed'', ''cancelled''}"

text \<open>\<open>ehash\<close> is the SHA-256 of the canonical JSON of kind, summary and task.\<close>

definition new_evidence ::
  "(string \<Rightarrow> string \<Rightarrow> uuid \<Rightarrow> digest) \<Rightarrow> uuid \<Rightarrow> string \<Rightarrow> string \<Rightarrow> instant \<Rightarrow> change" where
  "new_evidence ehash i kind summary now = Insert_evidence \<lparr>row_task = i, row_kind = kind,
     row_summary = summary, row_hash = ehash kind summary i, row_created = now\<rparr>"

definition claim_summary :: "claimed_task \<Rightarrow> string \<Rightarrow> string" where
  "claim_summary c worker = ''message='' @ ct_message_id c @ '';worker='' @ worker @ '';attempt=''
     @ int_text (ct_attempt c + 1)"

definition record_claim ::
  "'d database \<Rightarrow> (string \<Rightarrow> string \<Rightarrow> uuid \<Rightarrow> digest) \<Rightarrow> exception option \<Rightarrow> instant \<Rightarrow> claimed_task
   \<Rightarrow> string \<Rightarrow> 'd \<Rightarrow> (exception + task_row) \<times> 'd" where
  "record_claim db ehash fault now c worker d =
     (let i = task_id (ct_task c); number = ct_attempt c + 1 in
      on_task db fault i (\<lambda>row.
        if terminal_value (tr_state row) then Inl terminal_error
        else Inr ((if db_attempt db i number d = None
                   then [Insert_attempt \<lparr>at_task = i, at_number = number, at_state = ''executing'',
                           at_owner = Some worker, at_expires = Some (ct_lease_expires c)\<rparr>]
                   else [])
                  @ [Update_state i ''executing'' now,
                     new_evidence ehash i ''queue-claim'' (claim_summary c worker) now])) d)"

definition record_success ::
  "'d database \<Rightarrow> (string \<Rightarrow> string \<Rightarrow> uuid \<Rightarrow> digest) \<Rightarrow> exception option \<Rightarrow> instant \<Rightarrow> claimed_task
   \<Rightarrow> string \<Rightarrow> 'd \<Rightarrow> (exception + task_row) \<times> 'd" where
  "record_success db ehash fault now c output d =
     (let i = task_id (ct_task c) in
      on_task db fault i (\<lambda>row.
        if tr_state row = ''cancelled'' then Inl terminal_error
        else Inr [new_evidence ehash i ''execution-result'' output now, Update_state i ''completed'' now]) d)"

definition failure_summary :: "execution_failure \<Rightarrow> string" where
  "failure_summary failure = failure_class_value (classification failure) @ '':'' @ ef_summary failure"

definition record_failure ::
  "'d database \<Rightarrow> (string \<Rightarrow> string \<Rightarrow> uuid \<Rightarrow> digest) \<Rightarrow> exception option \<Rightarrow> instant \<Rightarrow> claimed_task
   \<Rightarrow> execution_failure \<Rightarrow> 'd \<Rightarrow> (exception + task_row) \<times> 'd" where
  "record_failure db ehash fault now c failure d =
     (let i = task_id (ct_task c) in
      on_task db fault i (\<lambda>row.
        Inr [new_evidence ehash i ''execution-failure'' (failure_summary failure) now,
             Update_state i (if ef_retryable failure then ''queued'' else ''failed'') now]) d)"

definition record_interrupted ::
  "'d database \<Rightarrow> (string \<Rightarrow> string \<Rightarrow> uuid \<Rightarrow> digest) \<Rightarrow> exception option \<Rightarrow> instant \<Rightarrow> claimed_task
   \<Rightarrow> string \<Rightarrow> 'd \<Rightarrow> (exception + task_row) \<times> 'd" where
  "record_interrupted db ehash fault now c reason d =
     (let i = task_id (ct_task c) in
      on_task db fault i (\<lambda>row.
        Inr [new_evidence ehash i ''execution-interrupted'' reason now,
             Update_state i (if terminal_value (tr_state row) then tr_state row else ''queued'') now]) d)"

definition record_recovery ::
  "'d database \<Rightarrow> (string \<Rightarrow> string \<Rightarrow> uuid \<Rightarrow> digest) \<Rightarrow> exception option \<Rightarrow> instant \<Rightarrow> uuid
   \<Rightarrow> string option \<Rightarrow> string \<Rightarrow> 'd \<Rightarrow> (exception + string) \<times> 'd" where
  "record_recovery db ehash fault now i previous reason d =
     (case on_task db fault i (\<lambda>row. Inr [new_evidence ehash i ''lease-recovery''
         (''previous_worker='' @ str_or previous ''unknown'' @ '';reason='' @ reason) now]) d of
        (Inl e, d') \<Rightarrow> (Inl e, d')
      | (Inr row, d') \<Rightarrow> (Inr (tr_state row), d'))"

text \<open>\<open>is_uuid\<close> is the test made by the constructor \<open>UUID(...)\<close>.\<close>

definition durable_state :: "'d database \<Rightarrow> (string \<Rightarrow> bool) \<Rightarrow> string \<Rightarrow> 'd \<Rightarrow> string option" where
  "durable_state db is_uuid i d = (if is_uuid i then map_option tr_state (db_task db i d) else None)"

subsection \<open>The task repository\<close>

fun risk_text :: "risk_level \<Rightarrow> string" where
  "risk_text LOW = ''low''"
| "risk_text MEDIUM = ''medium''"
| "risk_text HIGH = ''high''"
| "risk_text CRITICAL = ''critical''"

definition state_of_value :: "string \<Rightarrow> task_state option" where
  "state_of_value v = find (\<lambda>st. state_value st = v) [RECEIVED, VALIDATED, AWAITING_APPROVAL, QUEUED, PLANNING,
     EXECUTING, TESTING, GUARDING, REVIEWING, FIXING, READY_FOR_PR, PR_OPENED, COMPLETED, FAILED,
     CANCELLED, CONTEXT_READY, PLANNED, APPROVAL_REQUIRED, VERIFYING]"

text \<open>\<open>_to_record\<close>: the request is validated again, the base branch and dry-run flag are the defaults.\<close>

definition to_record :: "task_row \<Rightarrow> task_record option" where
  "to_record row = Option.bind (TaskRequest (tr_repository row) (tr_instruction row) ''main'' True)
     (\<lambda>req. map_option (\<lambda>st. (new_task (tr_id row) req (tr_created row))
        \<lparr>task_state := st, task_risk := tr_risk row, updated_at := tr_updated row\<rparr>)
        (state_of_value (tr_state row)))"

definition row_of :: "task_record \<Rightarrow> string \<Rightarrow> task_row" where
  "row_of task key = \<lparr>tr_id = task_id task, tr_key = key, tr_repository = repository (task_request task),
     tr_instruction = instruction (task_request task), tr_state = state_value (task_state task),
     tr_risk = task_risk task, tr_created = created_at task, tr_updated = updated_at task\<rparr>"

definition validation_error :: exception where
  "validation_error = plain_exception [''ValidationError'', ''ValueError'']"

definition create ::
  "'d database \<Rightarrow> exception option \<Rightarrow> task_record \<Rightarrow> string \<Rightarrow> 'd \<Rightarrow> (exception + task_record) \<times> 'd" where
  "create db fault task key d = (case fault of
     Some e \<Rightarrow> (Inl e, d)
   | None \<Rightarrow> (case db_by_key db key d of
       Some row \<Rightarrow> (case to_record row of None \<Rightarrow> (Inl validation_error, d) | Some r \<Rightarrow> (Inr r, d))
     | None \<Rightarrow> (case db_commit db [Insert_task (row_of task key)] d of
         None \<Rightarrow> (Inl integrity_error, d)
       | Some d' \<Rightarrow> (Inr task, d'))))"

definition get_record :: "'d database \<Rightarrow> uuid \<Rightarrow> 'd \<Rightarrow> exception + task_record option" where
  "get_record db i d = (case db_task db i d of
     None \<Rightarrow> Inr None
   | Some row \<Rightarrow> (case to_record row of None \<Rightarrow> Inl validation_error | Some r \<Rightarrow> Inr (Some r)))"

definition db_transition ::
  "'d database \<Rightarrow> exception option \<Rightarrow> instant \<Rightarrow> uuid \<Rightarrow> task_state \<Rightarrow> 'd
   \<Rightarrow> (exception + task_record) \<times> 'd" where
  "db_transition db fault now i st d =
     (case on_task db fault i (\<lambda>row. Inr [Update_state i (state_value st) now]) d of
        (Inl e, d') \<Rightarrow> (Inl e, d')
      | (Inr _, d') \<Rightarrow> (case get_record db i d' of
           Inl e \<Rightarrow> (Inl e, d')
         | Inr None \<Rightarrow> (Inl lookup_error, d')
         | Inr (Some r) \<Rightarrow> (Inr r, d')))"

definition append_evidence ::
  "'d database \<Rightarrow> exception option \<Rightarrow> uuid \<Rightarrow> evidence_item \<Rightarrow> 'd \<Rightarrow> (exception + unit) \<times> 'd" where
  "append_evidence db fault i item d = (case ev_immutable_hash item of
     None \<Rightarrow> (Inl (plain_exception [''ValueError'']), d)
   | Some h \<Rightarrow> (case fault of
       Some e \<Rightarrow> (Inl e, d)
     | None \<Rightarrow> (case db_commit db [Insert_evidence \<lparr>row_task = i, row_kind = ev_kind item,
           row_summary = ev_summary item, row_hash = h, row_created = ev_created_at item\<rparr>] d of
         None \<Rightarrow> (Inl integrity_error, d)
       | Some d' \<Rightarrow> (Inr (), d'))))"

definition evidence_items_of :: "'d database \<Rightarrow> uuid \<Rightarrow> 'd \<Rightarrow> evidence_item list" where
  "evidence_items_of db i d = map (\<lambda>e. \<lparr>ev_kind = row_kind e, ev_summary = row_summary e,
     ev_created_at = row_created e, ev_immutable_hash = Some (row_hash e)\<rparr>) (db_evidence db i d)"

definition append_audit_event ::
  "'d database \<Rightarrow> exception option \<Rightarrow> uuid \<Rightarrow> audit_event \<Rightarrow> 'd \<Rightarrow> (exception + unit) \<times> 'd" where
  "append_audit_event db fault i event d = (case fault of
     Some e \<Rightarrow> (Inl e, d)
   | None \<Rightarrow> (case db_commit db [Insert_audit \<lparr>au_task = i, au_action = ae_action event,
         au_actor = ae_actor event, au_key = ae_key event, au_detail = ae_detail event,
         au_occurred = ae_occurred_at event\<rparr>] d of
       None \<Rightarrow> (Inl integrity_error, d)
     | Some d' \<Rightarrow> (Inr (), d')))"

definition list_tasks :: "'d database \<Rightarrow> nat \<Rightarrow> nat \<Rightarrow> 'd \<Rightarrow> exception + task_record list \<times> nat" where
  "list_tasks db offset limit d =
     (case those (map to_record (take limit (drop offset (db_tasks db d)))) of
        None \<Rightarrow> Inl validation_error
      | Some items \<Rightarrow> Inr (items, length (db_tasks db d)))"

subsection \<open>What comes back from the repository\<close>

lemma state_of_state_value [simp]: "state_of_value (state_value st) = Some st"
  by (cases st) (simp_all add: state_of_value_def)

text \<open>The record a row stands for: what the tables do not hold has its default.\<close>

definition as_stored :: "task_record \<Rightarrow> task_record" where
  "as_stored task = task\<lparr>task_request := (task_request task)\<lparr>base_branch := ''main'', dry_run := True\<rparr>,
     evidence := [], evidence_items := [], audit_events := [], failure_reason := None\<rparr>"

definition request_ok :: "task_request \<Rightarrow> bool" where
  "request_ok r \<longleftrightarrow> TaskRequest (repository r) (instruction r) (base_branch r) (dry_run r) = Some r"

lemma to_record_of_row:
  "request_ok (task_request task) \<Longrightarrow> to_record (row_of task key) = Some (as_stored task)"
  by (cases task; cases "task_request task")
     (auto simp: request_ok_def TaskRequest_def to_record_def row_of_def as_stored_def new_task_def split: if_splits)

text \<open>
  C33. What the repository gives back: creating a valid task under a fresh key and reading it
  again yields the same identifier, repository, instruction, state, risk
  and times; the base branch and the dry-run flag are not stored and come back as
  their defaults, and a second creation under the same key returns that stored record and writes nothing.
\<close>

theorem created_task_reads_back:
  assumes "postgres db rows" and "request_ok (task_request task)"
    and "db_by_key db key d = None" and "create db None task key d = (Inr r, d')"
  shows "r = task \<and> get_record db (task_id task) d' = Inr (Some (as_stored task))
    \<and> create db None other key d' = (Inr (as_stored task), d')"
proof -
  have r: "r = task" and "db_commit db [Insert_task (row_of task key)] d = Some d'"
    using assms(3,4) by (auto simp: create_def split: option.splits)
  then have rows: "task_rows (rows d') = (task_rows (rows d))(task_id task := Some (row_of task key))"
    using postgres.commit_ok [OF assms(1), symmetric]
    by (fastforce simp: row_of_def split: if_splits)
  have others: "tr_key q \<noteq> key" if "task_rows (rows d) i = Some q" for i q
    using postgres.by_key_none [OF assms(1,3) that] .
  have "db_by_key db key d' = Some (row_of task key)"
  proof (cases "db_by_key db key d'")
    case None
    have "tr_key (row_of task key) \<noteq> key"
      by (rule postgres.by_key_none [OF assms(1) None, of "task_id task"]) (simp add: rows)
    then show ?thesis by (simp add: row_of_def)
  next
    case (Some q)
    from postgres.by_key_law [OF assms(1) Some] show ?thesis
      using Some others by (auto simp: rows split: if_splits)
  qed
  then show ?thesis
    using r rows to_record_of_row [OF assms(2)]
    by (simp add: get_record_def create_def postgres.task_law [OF assms(1)])
qed

definition branch_task :: task_record where
  "branch_task = new_task ''t'' \<lparr>repository = ''o/r'', instruction = ''fix'', base_branch = ''dev'', dry_run = False\<rparr> 7"

theorem created_task_reads_back_witness:
  "get_record memory_database ''t''
     (snd (create memory_database None branch_task ''key'' \<lparr>md_tasks = [], md_attempts = [], md_evidence = [], md_audit = []\<rparr>))
   = Inr (Some (branch_task\<lparr>task_request := \<lparr>repository = ''o/r'', instruction = ''fix'', base_branch = ''main'', dry_run = True\<rparr>\<rparr>))"
proof -
  let ?d = "\<lparr>md_tasks = [], md_attempts = [], md_evidence = [], md_audit = []\<rparr> :: memory_db"
  have ok: "request_ok (task_request branch_task)"
    by (simp add: request_ok_def branch_task_def new_task_def TaskRequest_def repo_name_ok_def repo_char_def)
  have none: "db_by_key memory_database ''key'' ?d = None" by (simp add: memory_database_def)
  have run: "create memory_database None branch_task ''key'' ?d
      = (Inr branch_task, snd (create memory_database None branch_task ''key'' ?d))"
    by (simp add: create_def memory_database_def row_of_def branch_task_def new_task_def)
  from created_task_reads_back [OF memory_pg.postgres_axioms ok none run] show ?thesis
    by (simp add: as_stored_def branch_task_def new_task_def)
qed

end
