(* ===== verification/Worker.thy ===== *)
theory Worker
  imports Durable Queue_Samples
begin

text \<open>
  A worker's execution of one delivery (\<open>worker/runtime.py\<close>), between the durable gateway and
  the queue: the order of the durable decisions and the changes of Redis, with every call
  allowed to fail. The handler, the renewal loop and the shutdown are seen through what they
  do to the execution: how the handler ends, and which of the two events are set when it has.
\<close>

subsection \<open>The execution\<close>

datatype handler_end =
    Output string | Raised exception | Ownership_lost | Timed_out | Task_cancelled

record execution =
  handler_end :: handler_end
  lost_at_end :: bool
  cancelled_at_end :: bool
  claim_fault :: "exception option"
  success_fault :: "exception option"
  failure_fault :: "exception option"
  interrupt_fault :: "exception option"
  ack_reply :: reply
  dispatch_replies :: "reply \<times> reply \<times> reply"
  letter_id :: uuid
  retry_draw :: real
  moment :: instant

datatype execution_outcome = Finished | Interrupted | Crashed exception

record ('s, 'd) worker =
  wk_redis :: "'s queue_redis"
  wk_db :: "'d database"
  wk_hash :: "string \<Rightarrow> string \<Rightarrow> uuid \<Rightarrow> digest"
  wk_policy :: retry_policy
  wk_id :: string

definition queue_exception :: exception where
  "queue_exception = plain_exception [''QueueInfrastructureError'']"

definition runtime_error :: exception where
  "runtime_error = plain_exception [''RuntimeError'']"

definition timeout_error :: exception where
  "timeout_error = plain_exception [''TimeoutError'', ''OSError'']"

definition lost_failure :: execution_failure where
  "lost_failure = ExecutionFailure OWNERSHIP_LOST ''lease ownership lost'' True"

definition on_interrupt ::
  "('s, 'd) worker \<Rightarrow> execution \<Rightarrow> claimed_task \<Rightarrow> 's \<Rightarrow> 'd \<Rightarrow> execution_outcome \<times> 's \<times> 'd" where
  "on_interrupt W x c s d =
     (case record_interrupted (wk_db W) (wk_hash W) (interrupt_fault x) (moment x) c
            ''cancelled-or-ownership-lost'' d of
        (Inl e, d') \<Rightarrow> (Crashed e, s, d')
      | (Inr _, d') \<Rightarrow> (Interrupted, s, d'))"

definition on_error ::
  "('s, 'd) worker \<Rightarrow> execution \<Rightarrow> claimed_task \<Rightarrow> exception \<Rightarrow> 's \<Rightarrow> 'd
   \<Rightarrow> execution_outcome \<times> 's \<times> 'd" where
  "on_error W x c error s d =
     (let lost = lost_at_end x \<or> handler_end x = Ownership_lost;
          failure = (if lost then lost_failure else classify_failure error)
      in case record_failure (wk_db W) (wk_hash W) (failure_fault x) (moment x) c failure d of
           (Inl e, d') \<Rightarrow> (Crashed e, s, d')
         | (Inr _, d') \<Rightarrow>
             (case dispatch_failure (wk_redis W) (wk_policy W) (wk_id W) (dispatch_replies x)
                     (letter_id x) (retry_draw x) (moment x) c failure s of
                (Inl _, s') \<Rightarrow> (Crashed queue_exception, s', d')
              | (Inr _, s') \<Rightarrow> (Finished, s', d')))"

text \<open>The two handlers of the \<open>try\<close>: a cancellation, wherever it is raised, is an interruption.\<close>

definition on_raise ::
  "('s, 'd) worker \<Rightarrow> execution \<Rightarrow> claimed_task \<Rightarrow> exception \<Rightarrow> 's \<Rightarrow> 'd
   \<Rightarrow> execution_outcome \<times> 's \<times> 'd" where
  "on_raise W x c e s d =
     (if is_instance e ''CancelledError'' then on_interrupt W x c s d else on_error W x c e s d)"

definition on_output ::
  "('s, 'd) worker \<Rightarrow> execution \<Rightarrow> claimed_task \<Rightarrow> string \<Rightarrow> 's \<Rightarrow> 'd
   \<Rightarrow> execution_outcome \<times> 's \<times> 'd" where
  "on_output W x c output s d =
     (if lost_at_end x \<or> cancelled_at_end x then on_interrupt W x c s d
      else case record_success (wk_db W) (wk_hash W) (success_fault x) (moment x) c output d of
        (Inl e, d1) \<Rightarrow> on_raise W x c e s d1
      | (Inr _, d1) \<Rightarrow>
          (case acknowledge (wk_redis W) (wk_id W) (ack_reply x) c s of
             (Inl _, s1) \<Rightarrow> on_error W x c queue_exception s1 d1
           | (Inr True, s1) \<Rightarrow> (Finished, s1, d1)
           | (Inr False, s1) \<Rightarrow>
               (case record_interrupted (wk_db W) (wk_hash W) (interrupt_fault x) (moment x) c
                       ''redis-acknowledgement-failed'' d1 of
                  (Inl e, d2) \<Rightarrow> on_raise W x c e s1 d2
                | (Inr _, d2) \<Rightarrow> (Finished, s1, d2))))"

text \<open>The handler runs only when the claim has been recorded; the first component says whether it did.\<close>

definition execute ::
  "('s, 'd) worker \<Rightarrow> execution \<Rightarrow> claimed_task \<Rightarrow> 's \<Rightarrow> 'd
   \<Rightarrow> bool \<times> execution_outcome \<times> 's \<times> 'd" where
  "execute W x c s d =
     (case record_claim (wk_db W) (wk_hash W) (claim_fault x) (moment x) c (wk_id W) d of
        (Inl e, d1) \<Rightarrow> (False, on_raise W x c e s d1)
      | (Inr _, d1) \<Rightarrow> (True,
          (case handler_end x of
             Output output \<Rightarrow> on_output W x c output s d1
           | Raised e \<Rightarrow> on_raise W x c e s d1
           | Ownership_lost \<Rightarrow> on_error W x c runtime_error s d1
           | Timed_out \<Rightarrow> on_error W x c timeout_error s d1
           | Task_cancelled \<Rightarrow> on_interrupt W x c s d1)))"

subsection \<open>Evidence is append-only\<close>

definition evidence_ok :: "tables \<Rightarrow> bool" where
  "evidence_ok t \<longleftrightarrow> distinct (map row_hash (evidence_rows t))"

lemma change_evidence:
  "apply_change c t = Some t' \<Longrightarrow> prefix (evidence_rows t) (evidence_rows t') \<and> (evidence_ok t \<longrightarrow> evidence_ok t')"
  by (cases c) (fastforce simp: evidence_ok_def split: if_splits option.splits)+

lemma changes_evidence:
  "apply_changes cs t = Some t' \<Longrightarrow> prefix (evidence_rows t) (evidence_rows t') \<and> (evidence_ok t \<longrightarrow> evidence_ok t')"
proof (induction cs arbitrary: t)
  case (Cons c cs)
  then obtain t1 where "apply_change c t = Some t1" "apply_changes cs t1 = Some t'"
    by (auto simp: Option.bind_eq_Some_conv)
  with Cons.IH [of t1] change_evidence [of c t t1] show ?case by (auto intro: prefix_order.trans)
qed simp

definition grows :: "('d \<Rightarrow> tables) \<Rightarrow> 'd \<Rightarrow> 'd \<Rightarrow> bool" where
  "grows rows d d' \<longleftrightarrow> prefix (evidence_rows (rows d)) (evidence_rows (rows d'))
     \<and> (evidence_ok (rows d) \<longrightarrow> evidence_ok (rows d'))"

lemma grows_refl [simp]: "grows rows d d"
  by (simp add: grows_def)

lemma grows_trans: "\<lbrakk>grows rows a b; grows rows b c\<rbrakk> \<Longrightarrow> grows rows a c"
  by (auto simp: grows_def intro: prefix_order.trans)

text \<open>A durable decision on a task: a new row that records a result or a failure.\<close>

definition decided :: "('d \<Rightarrow> tables) \<Rightarrow> uuid \<Rightarrow> 'd \<Rightarrow> 'd \<Rightarrow> bool" where
  "decided rows i d d' \<longleftrightarrow> (\<exists>e \<in> set (evidence_rows (rows d')) - set (evidence_rows (rows d)).
     row_task e = i \<and> row_kind e \<in> {''execution-result'', ''execution-failure''})"

context postgres
begin

lemma on_task_grows: "on_task db fault i body d = (r, d') \<Longrightarrow> grows rows d d'"
  using changes_evidence
  by (auto simp: on_task_def grows_def dest!: commit_ok split: option.splits sum.splits)

lemma on_task_error: "on_task db fault i body d = (Inl e, d') \<Longrightarrow> d' = d"
  by (auto simp: on_task_def split: option.splits sum.splits)

lemma gateway_grows:
  "record_claim db h flt now c w d = (r, d') \<Longrightarrow> grows rows d d'"
  "record_success db h flt now c out d = (r, d') \<Longrightarrow> grows rows d d'"
  "record_failure db h flt now c failure d = (r, d') \<Longrightarrow> grows rows d d'"
  "record_interrupted db h flt now c reason d = (r, d') \<Longrightarrow> grows rows d d'"
  by (auto simp: record_claim_def record_success_def record_failure_def record_interrupted_def Let_def
      intro: on_task_grows)

text \<open>The effect of each durable record that succeeds.\<close>

lemma on_task_ok:
  "on_task db fault i body d = (Inr row, d') \<Longrightarrow> fault = None \<and> task_rows (rows d) i = Some row
     \<and> (\<exists>cs. body row = Inr cs \<and> Some (rows d') = apply_changes cs (rows d))"
  by (auto simp: on_task_def task_law dest!: commit_ok split: option.splits sum.splits)

lemma on_task_commits:
  assumes "task_rows (rows d) i = Some row" "body row = Inr cs" "apply_changes cs (rows d) = Some t"
  shows "\<exists>d'. on_task db None i body d = (Inr row, d') \<and> rows d' = t"
  using commit_works [OF assms(3)] assms by (auto simp: on_task_def task_law)

lemma record_success_ok:
  assumes "record_success db h flt now c out d = (Inr row, d')"
  shows "tr_state row \<noteq> ''cancelled''
    \<and> task_rows (rows d') (task_id (ct_task c)) = Some (row\<lparr>tr_state := ''completed'', tr_updated := now\<rparr>)
    \<and> (\<exists>e. evidence_rows (rows d') = evidence_rows (rows d) @ [e] \<and> row_task e = task_id (ct_task c)
         \<and> row_kind e = ''execution-result'' \<and> row_summary e = out
         \<and> row_hash e = h ''execution-result'' out (task_id (ct_task c))
         \<and> (\<forall>e' \<in> set (evidence_rows (rows d)). row_hash e' \<noteq> row_hash e))"
  using on_task_ok [OF assms [unfolded record_success_def Let_def]]
  by (auto simp: new_evidence_def split: if_splits)

lemma record_failure_ok:
  assumes "record_failure db h flt now c failure d = (Inr row, d')"
  shows "task_rows (rows d') (task_id (ct_task c))
      = Some (row\<lparr>tr_state := if ef_retryable failure then ''queued'' else ''failed'', tr_updated := now\<rparr>)
    \<and> (\<exists>e. evidence_rows (rows d') = evidence_rows (rows d) @ [e] \<and> row_task e = task_id (ct_task c)
         \<and> row_kind e = ''execution-failure'' \<and> row_summary e = failure_summary failure
         \<and> (\<forall>e' \<in> set (evidence_rows (rows d)). row_hash e' \<noteq> row_hash e))"
  using on_task_ok [OF assms [unfolded record_failure_def Let_def]]
  by (auto simp: new_evidence_def split: if_splits)

lemma record_claim_ok:
  assumes "record_claim db h flt now c w d = (Inr row, d')"
  shows "\<not> terminal_value (tr_state row) \<and> task_rows (rows d) (task_id (ct_task c)) = Some row
    \<and> task_rows (rows d') (task_id (ct_task c)) = Some (row\<lparr>tr_state := ''executing'', tr_updated := now\<rparr>)
    \<and> attempt_rows (rows d') (task_id (ct_task c), ct_attempt c + 1) \<noteq> None
    \<and> (\<exists>e. evidence_rows (rows d') = evidence_rows (rows d) @ [e] \<and> row_task e = task_id (ct_task c)
         \<and> row_kind e = ''queue-claim'' \<and> row_summary e = claim_summary c w
         \<and> row_hash e = h ''queue-claim'' (claim_summary c w) (task_id (ct_task c)))"
  using on_task_ok [OF assms [unfolded record_claim_def Let_def]]
  by (auto simp: new_evidence_def attempt_law split: if_splits option.splits)

lemma decided_grows: "\<lbrakk>grows rows a b; decided rows i b c; grows rows c e\<rbrakk> \<Longrightarrow> decided rows i a e"
  by (auto simp: decided_def grows_def dest: set_mono_prefix)

lemma decided_by:
  "evidence_rows (rows d') = evidence_rows (rows d) @ [e] \<Longrightarrow> row_task e = i
   \<Longrightarrow> row_kind e = ''execution-result'' \<or> row_kind e = ''execution-failure''
   \<Longrightarrow> (\<forall>e' \<in> set (evidence_rows (rows d)). row_hash e' \<noteq> row_hash e) \<Longrightarrow> decided rows i d d'"
  by (auto simp: decided_def)

lemma record_success_decides:
  "record_success db h flt now c out d = (Inr row, d') \<Longrightarrow> decided rows (task_id (ct_task c)) d d'"
  by (drule record_success_ok) (auto intro: decided_by)

lemma record_failure_decides:
  "record_failure db h flt now c failure d = (Inr row, d') \<Longrightarrow> decided rows (task_id (ct_task c)) d d'"
  by (drule record_failure_ok) (auto intro: decided_by)

lemma on_error_order:
  assumes "wk_db W = db" "on_error W x c e s d = (out, s', d')"
  shows "grows rows d d' \<and> (s' \<noteq> s \<longrightarrow> decided rows (task_id (ct_task c)) d d')"
  using assms gateway_grows(3) record_failure_decides
  by (auto simp: on_error_def Let_def split: prod.splits sum.splits)

lemma on_interrupt_order:
  assumes "wk_db W = db" "on_interrupt W x c s d = (out, s', d')"
  shows "grows rows d d' \<and> s' = s"
  using assms gateway_grows(4) by (auto simp: on_interrupt_def split: prod.splits sum.splits)

lemma on_raise_order:
  assumes "wk_db W = db" "on_raise W x c e s d = (out, s', d')"
  shows "grows rows d d' \<and> (s' \<noteq> s \<longrightarrow> decided rows (task_id (ct_task c)) d d')"
  using on_error_order [OF assms(1)] on_interrupt_order [OF assms(1)] assms(2)
  by (auto simp: on_raise_def split: if_splits)

lemma on_output_order:
  assumes "wk_db W = db" "on_output W x c output s d = (out, s', d')"
  shows "grows rows d d' \<and> (s' \<noteq> s \<longrightarrow> decided rows (task_id (ct_task c)) d d')"
proof (cases "lost_at_end x \<or> cancelled_at_end x")
  case True
  then show ?thesis using assms on_interrupt_order [OF assms(1)] by (auto simp: on_output_def)
next
  case False
  obtain r d1 where r: "record_success db (wk_hash W) (success_fault x) (moment x) c output d = (r, d1)"
    by fastforce
  then have g1: "grows rows d d1" by (rule gateway_grows)
  show ?thesis
  proof (cases r)
    case (Inl e)
    then show ?thesis using assms False r g1 on_raise_order [OF assms(1), of x c e s d1]
      by (auto simp: on_output_def intro: grows_trans decided_grows)
  next
    case (Inr row)
    have dec: "decided rows (task_id (ct_task c)) d d1" using record_success_decides r Inr by blast
    have err: "grows rows d2 d'" if "on_error W x c e s2 d2 = (out, s', d')" for e s2 d2
      using on_error_order [OF assms(1) that] by simp
    have err2: "grows rows d2 d'" if "on_raise W x c e s2 d2 = (out, s', d')" for e s2 d2
      using on_raise_order [OF assms(1) that] by simp
    have int: "grows rows d1 d2" if "record_interrupted (wk_db W) (wk_hash W) (interrupt_fault x) (moment x) c
        ''redis-acknowledgement-failed'' d1 = (q, d2)" for q d2
      using that assms(1) by (simp add: gateway_grows)
    obtain a s1 where ack: "acknowledge (wk_redis W) (wk_id W) (ack_reply x) c s = (a, s1)" by fastforce
    obtain q d2 where q: "record_interrupted (wk_db W) (wk_hash W) (interrupt_fault x) (moment x) c
        ''redis-acknowledgement-failed'' d1 = (q, d2)" by fastforce
    have out: "on_output W x c output s d = (case a of
        Inl _ \<Rightarrow> on_error W x c queue_exception s1 d1
      | Inr b \<Rightarrow> if b then (Finished, s1, d1)
          else (case q of Inl e \<Rightarrow> on_raise W x c e s1 d2 | Inr _ \<Rightarrow> (Finished, s1, d2)))"
      using r Inr False assms(1) ack q by (simp add: on_output_def split: sum.splits bool.splits)
    have "grows rows d1 d'"
    proof (cases a)
      case (Inl y)
      then have "on_error W x c queue_exception s1 d1 = (out, s', d')" using assms(2) out by simp
      then show ?thesis by (rule err)
    next
      case (Inr b)
      consider "d' = d1" | "d' = d2" | e where "on_raise W x c e s1 d2 = (out, s', d')"
        using assms(2) out Inr by (cases b; cases q) simp_all
      then show ?thesis
      proof cases
        case 3
        show ?thesis by (rule grows_trans [OF int [OF q] err2 [OF 3]])
      qed (simp_all add: int [OF q])
    qed
    then show ?thesis using decided_grows [OF g1 _] dec grows_trans [OF g1]
        decided_grows [OF grows_refl dec] by metis
  qed
qed

lemma execute_order:
  assumes "wk_db W = db" "execute W x c s d = (began, out, s', d')"
  shows "grows rows d d' \<and> (s' \<noteq> s \<longrightarrow> decided rows (task_id (ct_task c)) d d')
    \<and> (began \<longrightarrow> (\<exists>row. task_rows (rows d) (task_id (ct_task c)) = Some row \<and> \<not> terminal_value (tr_state row)))"
proof -
  obtain r d1 where r: "record_claim db (wk_hash W) (claim_fault x) (moment x) c (wk_id W) d = (r, d1)"
    by fastforce
  have g1: "grows rows d d1" using r by (rule gateway_grows)
  have from_error: "grows rows d d' \<and> (s' \<noteq> s \<longrightarrow> decided rows (task_id (ct_task c)) d d')"
    if "on_error W x c e s d1 = (out, s', d')" for e
    using on_error_order [OF assms(1) that]
    by (simp add: grows_trans [OF g1] decided_grows [OF g1 _ grows_refl])
  have from_raise: "grows rows d d' \<and> (s' \<noteq> s \<longrightarrow> decided rows (task_id (ct_task c)) d d')"
    if "on_raise W x c e s d1 = (out, s', d')" for e
    using on_raise_order [OF assms(1) that]
    by (simp add: grows_trans [OF g1] decided_grows [OF g1 _ grows_refl])
  have from_interrupt: "grows rows d d' \<and> s' = s" if "on_interrupt W x c s d1 = (out, s', d')"
    using on_interrupt_order [OF assms(1) that] by (simp add: grows_trans [OF g1])
  have from_output: "grows rows d d' \<and> (s' \<noteq> s \<longrightarrow> decided rows (task_id (ct_task c)) d d')"
    if "on_output W x c res s d1 = (out, s', d')" for res
    using on_output_order [OF assms(1) that]
    by (simp add: grows_trans [OF g1] decided_grows [OF g1 _ grows_refl])
  show ?thesis
  proof (cases r)
    case (Inl e)
    then show ?thesis using assms r from_raise [of e] by (simp add: execute_def)
  next
    case (Inr row)
    have "grows rows d d' \<and> (s' \<noteq> s \<longrightarrow> decided rows (task_id (ct_task c)) d d')"
    proof -
      have "(began, out, s', d') = (True,
          (case handler_end x of
             Output output \<Rightarrow> on_output W x c output s d1
           | Raised e \<Rightarrow> on_raise W x c e s d1
           | Ownership_lost \<Rightarrow> on_error W x c runtime_error s d1
           | Timed_out \<Rightarrow> on_error W x c timeout_error s d1
           | Task_cancelled \<Rightarrow> on_interrupt W x c s d1))"
        using assms r Inr by (simp add: execute_def)
      then show ?thesis
        using from_error from_interrupt from_output from_raise
        by (cases "handler_end x"; simp split: if_splits; metis)
    qed
    moreover have "task_rows (rows d) (task_id (ct_task c)) = Some row \<and> \<not> terminal_value (tr_state row)"
      using record_claim_ok [OF r [unfolded Inr]] by simp
    ultimately show ?thesis by blast
  qed
qed

end

subsection \<open>What the order guarantees\<close>

text \<open>
  C31. Durable decisions come first. However an execution ends and whatever fails on
  the way, evidence rows are only added, never changed, with distinct hashes; the
  handler runs only for a task that was durably not finished; and if the execution changed anything in Redis
  (an acknowledgement, a retry, a dead letter), then a row recording the task's
  result or failure was committed.
\<close>

theorem queue_changes_follow_decisions:
  assumes "postgres (wk_db W) rows" and "execute W x c s d = (began, out, s', d')"
    and "evidence_ok (rows d)"
  shows "prefix (evidence_rows (rows d)) (evidence_rows (rows d')) \<and> evidence_ok (rows d')
    \<and> (s' \<noteq> s \<longrightarrow> decided rows (task_id (ct_task c)) d d')
    \<and> (began \<longrightarrow> (\<exists>row. task_rows (rows d) (task_id (ct_task c)) = Some row \<and> \<not> terminal_value (tr_state row)))"
  using postgres.execute_order [OF assms(1) refl assms(2)] assms(3) by (simp add: grows_def)

definition sample_row :: "string \<Rightarrow> string \<Rightarrow> task_row" where
  "sample_row i st = \<lparr>tr_id = i, tr_key = i, tr_repository = ''o/r'', tr_instruction = ''fix'', tr_state = st,
     tr_risk = MEDIUM, tr_created = 0, tr_updated = 0\<rparr>"

definition sample_db :: "string \<Rightarrow> memory_db" where
  "sample_db st = \<lparr>md_tasks = [sample_row ''t'' st], md_attempts = [], md_evidence = [], md_audit = []\<rparr>"

definition sample_worker :: "((queue_key, queue_value) mini_store, memory_db) worker" where
  "sample_worker = \<lparr>wk_redis = mini_redis, wk_db = memory_database,
     wk_hash = (\<lambda>kind summary i. take 64 (kind @ summary)), wk_policy = default_policy, wk_id = ''w''\<rparr>"

definition smooth :: "handler_end \<Rightarrow> reply \<Rightarrow> execution" where
  "smooth ending ack = \<lparr>handler_end = ending, lost_at_end = False, cancelled_at_end = False,
     claim_fault = None, success_fault = None, failure_fault = None, interrupt_fault = None,
     ack_reply = ack, dispatch_replies = (Answered, Answered, Answered), letter_id = ''d'',
     retry_draw = 0, moment = 10\<rparr>"

theorem queue_changes_follow_decisions_witness:
  "prefix (md_evidence (sample_db ''queued''))
     (md_evidence (snd (snd (snd (execute sample_worker (smooth (Output ''ok'') Answered)
        (sample_claim ''m'' ''t'' ''o'') leased_store (sample_db ''queued''))))))"
proof -
  define X where "X = execute sample_worker (smooth (Output ''ok'') Answered)
    (sample_claim ''m'' ''t'' ''o'') leased_store (sample_db ''queued'')"
  have run: "execute sample_worker (smooth (Output ''ok'') Answered) (sample_claim ''m'' ''t'' ''o'') leased_store
      (sample_db ''queued'') = (fst X, fst (snd X), fst (snd (snd X)), snd (snd (snd X)))"
    by (simp add: X_def [symmetric])
  have "postgres (wk_db sample_worker) md_rows" "evidence_ok (md_rows (sample_db ''queued''))"
    using memory_pg.postgres_axioms by (simp_all add: sample_worker_def evidence_ok_def md_rows_def sample_db_def)
  note ok = queue_changes_follow_decisions [where rows = md_rows, OF this(1) run this(2)]
  from conjunct1 [OF ok] show ?thesis
    unfolding X_def [symmetric] by (simp add: md_rows_def)
qed

lemma on_task_run:
  assumes "postgres db rows" "task_rows (rows d) i = Some row" "body row = Inr cs"
    and "apply_changes cs (rows d) = Some t"
  shows "\<exists>d'. on_task db None i body d = (Inr row, d') \<and> rows d' = t"
  using postgres.on_task_commits [OF assms(1), of d i row body cs t] assms(2-) by blast

lemma record_claim_works:
  assumes "postgres db rows" and "task_rows (rows d) (task_id (ct_task c)) = Some row" "\<not> terminal_value (tr_state row)"
    and "hc = h ''queue-claim'' (claim_summary c w) (task_id (ct_task c))"
    and "length hc \<le> 64" "\<forall>e \<in> set (evidence_rows (rows d)). row_hash e \<noteq> hc" "length w \<le> 128"
  shows "\<exists>d1. record_claim db h None now c w d = (Inr row, d1)"
proof -
  let ?i = "task_id (ct_task c)" and ?n = "ct_attempt c + 1"
  define cs where "cs = (if db_attempt db ?i ?n d = None
      then [Insert_attempt \<lparr>at_task = ?i, at_number = ?n, at_state = ''executing'',
              at_owner = Some w, at_expires = Some (ct_lease_expires c)\<rparr>] else [])
    @ [Update_state ?i ''executing'' now, new_evidence h ?i ''queue-claim'' (claim_summary c w) now]"
  have "\<exists>t. apply_changes cs (rows d) = Some t"
    using assms by (cases w) (simp_all add: cs_def new_evidence_def str_or_def postgres.attempt_law [OF assms(1)])
  then obtain t where "apply_changes cs (rows d) = Some t" by blast
  from on_task_run [OF assms(1,2) _ this, of "\<lambda>row. if terminal_value (tr_state row) then Inl terminal_error else Inr cs"]
  show ?thesis using assms(3) unfolding record_claim_def Let_def cs_def [symmetric] by auto
qed

lemma record_success_works:
  assumes "postgres db rows" and "task_rows (rows d) (task_id (ct_task c)) = Some row" "tr_state row \<noteq> ''cancelled''"
    and "ho = h ''execution-result'' out (task_id (ct_task c))"
    and "length ho \<le> 64" "\<forall>e \<in> set (evidence_rows (rows d)). row_hash e \<noteq> ho"
  shows "\<exists>d1. record_success db h None now c out d = (Inr row, d1)"
proof -
  let ?i = "task_id (ct_task c)"
  define cs where "cs = [new_evidence h ?i ''execution-result'' out now, Update_state ?i ''completed'' now]"
  have "\<exists>t. apply_changes cs (rows d) = Some t" using assms by (simp add: cs_def new_evidence_def)
  then obtain t where "apply_changes cs (rows d) = Some t" by blast
  from on_task_run [OF assms(1,2) _ this, of "\<lambda>row. if tr_state row = ''cancelled'' then Inl terminal_error else Inr cs"]
  show ?thesis using assms(3) unfolding record_success_def Let_def cs_def [symmetric] by auto
qed

lemma record_failure_works:
  assumes "postgres db rows" and "task_rows (rows d) (task_id (ct_task c)) = Some row"
    and "hf = h ''execution-failure'' (failure_summary failure) (task_id (ct_task c))"
    and "length hf \<le> 64" "\<forall>e \<in> set (evidence_rows (rows d)). row_hash e \<noteq> hf"
  shows "\<exists>d1. record_failure db h None now c failure d = (Inr row, d1)"
proof -
  let ?i = "task_id (ct_task c)"
  define cs where "cs = [new_evidence h ?i ''execution-failure'' (failure_summary failure) now,
    Update_state ?i (if ef_retryable failure then ''queued'' else ''failed'') now]"
  have "\<exists>t. apply_changes cs (rows d) = Some t" using assms by (simp add: cs_def new_evidence_def)
  then obtain t where "apply_changes cs (rows d) = Some t" by blast
  from on_task_run [OF assms(1,2) _ this, of "\<lambda>row. Inr cs"]
  show ?thesis unfolding record_failure_def Let_def cs_def [symmetric] by auto
qed

text \<open>
  A smooth execution completes the task and settles the delivery: when the task is
  durably not finished, the handler returns, its claim and result are new
  evidence, nothing fails and the worker still owns the lease, then the execution finishes, the task is
  completed with the output as its last evidence, and the lease is gone from Redis.
\<close>

theorem smooth_execution_completes:
  assumes "queue_server (wk_redis W) view" and "postgres (wk_db W) rows"
    and "task_rows (rows d) (task_id (ct_task c)) = Some row" "\<not> terminal_value (tr_state row)"
    and "handler_end x = Output output" "\<not> lost_at_end x" "\<not> cancelled_at_end x"
    and "claim_fault x = None" "success_fault x = None" "ack_reply x = Answered"
    and "hc = wk_hash W ''queue-claim'' (claim_summary c (wk_id W)) (task_id (ct_task c))"
    and "ho = wk_hash W ''execution-result'' output (task_id (ct_task c))"
    and "hc \<noteq> ho" "length hc \<le> 64" "length ho \<le> 64"
    and "hc \<notin> row_hash ` set (evidence_rows (rows d))" "ho \<notin> row_hash ` set (evidence_rows (rows d))"
    and "hashes (view s) Leases (ct_message_id c) = Some (VLease l)" "l_owner l = ct_owner c"
    and "l_worker l = wk_id W" "l_task_id l \<notin> members (view s) Cancelled_set" "length (wk_id W) \<le> 128"
  shows "\<exists>s' d' e. execute W x c s d = (True, Finished, s', d')
    \<and> map_option tr_state (task_rows (rows d') (task_id (ct_task c))) = Some ''completed''
    \<and> evidence_rows (rows d') \<noteq> [] \<and> last (evidence_rows (rows d')) = e \<and> row_summary e = output
    \<and> hashes (view s') Leases (ct_message_id c) = None"
proof -
  let ?i = "task_id (ct_task c)"
  have fresh: "\<forall>e \<in> set (evidence_rows (rows d)). row_hash e \<noteq> hc" "\<forall>e \<in> set (evidence_rows (rows d)). row_hash e \<noteq> ho"
    using assms(16,17) by auto
  obtain d1 where d1: "record_claim (wk_db W) (wk_hash W) (claim_fault x) (moment x) c (wk_id W) d = (Inr row, d1)"
    using record_claim_works [where rows = rows and h = "wk_hash W" and w = "wk_id W", OF assms(2-4,11,14) fresh(1) assms(22)] assms(8) by auto
  then have rows1: "task_rows (rows d1) ?i = Some (row\<lparr>tr_state := ''executing'', tr_updated := moment x\<rparr>)"
      "\<exists>e. evidence_rows (rows d1) = evidence_rows (rows d) @ [e] \<and> row_hash e = hc"
    using postgres.record_claim_ok [OF assms(2) d1] assms(3,11) by auto
  have "\<forall>e \<in> set (evidence_rows (rows d1)). row_hash e \<noteq> ho" using rows1(2) fresh(2) assms(13) by auto
  from this obtain d2 where d2: "record_success (wk_db W) (wk_hash W) (success_fault x) (moment x) c output d1
      = (Inr (row\<lparr>tr_state := ''executing'', tr_updated := moment x\<rparr>), d2)"
    using record_success_works [where rows = rows and h = "wk_hash W", OF assms(2) rows1(1) _ assms(12,15)] assms(9) by auto
  have R: "redis (wk_redis W) view" using assms(1) unfolding queue_server_def .
  have ack: "acknowledge (wk_redis W) (wk_id W) (ack_reply x) c s
      = (Inr True, cmd_hincrby (wk_redis W) Counters ''acknowledgements'' 1 (forget_lease (wk_redis W) (ct_message_id c) s))"
    unfolding assms(10) by (rule acknowledge_outcome [OF R assms(18-21)])
  have gone: "hashes (view (cmd_hincrby (wk_redis W) Counters ''acknowledgements'' 1
      (forget_lease (wk_redis W) (ct_message_id c) s))) Leases (ct_message_id c) = None"
    by (simp add: forget_lease_def redis.write_laws [OF R])
  show ?thesis
    using d1 d2 ack gone postgres.record_success_ok [OF assms(2) d2] assms(5-7)
    by (auto simp: execute_def on_output_def)
qed

theorem smooth_execution_completes_witness:
  "\<exists>s' d'. execute sample_worker (smooth (Output ''ok'') Answered) (sample_claim ''m'' ''t'' ''o'') leased_store
       (sample_db ''queued'') = (True, Finished, s', d')
     \<and> map_option tr_state (task_rows (md_rows d') ''t'') = Some ''completed''"
proof -
  let ?c = "sample_claim ''m'' ''t'' ''o''"
  have pg: "postgres (wk_db sample_worker) md_rows" and qs: "queue_server (wk_redis sample_worker) mini_view"
    using memory_pg.postgres_axioms mini_queue.queue_server_axioms by (simp_all add: sample_worker_def)
  have i: "task_id (ct_task ?c) = ''t''" by (simp add: sample_claim_def sample_task_def new_task_def)
  have row: "task_rows (md_rows (sample_db ''queued'')) (task_id (ct_task ?c)) = Some (sample_row ''t'' ''queued'')"
    by (simp add: i md_rows_def sample_db_def sample_row_def)
  have ev: "evidence_rows (md_rows (sample_db ''queued'')) = []" by (simp add: md_rows_def sample_db_def)
  have "\<exists>s' d' e. execute sample_worker (smooth (Output ''ok'') Answered) ?c leased_store (sample_db ''queued'')
      = (True, Finished, s', d')
    \<and> map_option tr_state (task_rows (md_rows d') (task_id (ct_task ?c))) = Some ''completed''
    \<and> evidence_rows (md_rows d') \<noteq> [] \<and> last (evidence_rows (md_rows d')) = e \<and> row_summary e = ''ok''
    \<and> hashes (mini_view s') Leases (ct_message_id ?c) = None"
    by (rule smooth_execution_completes [where W = sample_worker and view = mini_view and rows = md_rows
          and c = ?c and d = "sample_db ''queued''" and s = leased_store
          and x = "smooth (Output ''ok'') Answered" and row = "sample_row ''t'' ''queued''"
          and l = "new_lease ''o'' ''w'' 1 61 61 (sample_envelope ''m'' ''t'')",
        OF qs pg row _ _ _ _ _ _ _ refl refl])
      (simp_all add: smooth_def ev sample_worker_def sample_claim_def leased_store_lease new_lease_def sample_row_def
        terminal_value_def claim_summary_def int_text_def nat_text.simps)
  then show ?thesis unfolding i by blast
qed

subsection \<open>When a failure is recorded after the fact\<close>

text \<open>
  What \<open>on_error\<close> does when it can record a retryable failure and Redis answers: the task is
  durably queued again and a retry of the message is scheduled.
\<close>

lemma on_error_retries:
  assumes "queue_server (wk_redis W) view" and "postgres (wk_db W) rows"
    and "task_rows (rows d) (task_id (ct_task c)) = Some row"
    and "\<not> lost_at_end x" "handler_end x \<noteq> Ownership_lost" "failure_fault x = None"
    and "dispatch_replies x = (Answered, Answered, Answered)"
    and "failure = classify_failure e" "ef_retryable failure" "length (ef_summary failure) \<le> 1000"
    and "hf = wk_hash W ''execution-failure'' (failure_summary failure) (task_id (ct_task c))"
    and "length hf \<le> 64" "\<forall>e \<in> set (evidence_rows (rows d)). row_hash e \<noteq> hf"
    and "0 \<le> ct_attempt c" "task_id (ct_task c) \<notin> members (view s) Cancelled_set"
    and "hashes (view s) Delayed (ct_message_id c) = None"
    and "rd_retry (retry_decide (wk_policy W) (retry_draw x) (ct_attempt c + 1) True (ef_retry_after failure) 0)"
    and "\<forall>v. hashes (view s) Leases (ct_message_id c) = Some v \<longrightarrow> (\<exists>l. v = VLease l)"
  shows "\<exists>s' d' r. on_error W x c e s d = (Finished, s', d')
    \<and> map_option tr_state (task_rows (rows d') (task_id (ct_task c))) = Some ''queued''
    \<and> hashes (view s') Delayed (ct_message_id c) = Some (VRetry r) \<and> rr_attempt r = ct_attempt c + 1"
proof -
  have R: "redis (wk_redis W) view" using assms(1) unfolding queue_server_def .
  obtain d' where d': "record_failure (wk_db W) (wk_hash W) (failure_fault x) (moment x) c failure d = (Inr row, d')"
    using record_failure_works [where rows = rows and h = "wk_hash W", OF assms(2,3,11,12,13)] assms(6) by auto
  define q where "q = \<lparr>sq_envelope = delivery_envelope c, sq_failure = failure, sq_now = moment x,
    sq_first_failed = None, sq_history = [], sq_evidence = None, sq_draw = retry_draw x\<rparr>"
  define decision where "decision = retry_decide (wk_policy W) (retry_draw x) (ct_attempt c + 1) True (ef_retry_after failure) 0"
  define entry where "entry = retry_record_of q (ct_attempt c + 1) decision (moment x)"
  have entry: "rr_message_id entry = ct_message_id c" "rr_attempt entry = ct_attempt c + 1"
    by (simp_all add: entry_def q_def retry_record_of_def delivery_envelope_def Let_def)
  have "schedule_failure (wk_redis W) (wk_policy W) Answered q s
     = (Inr \<lparr>sc_scheduled = True, sc_exhausted = False, sc_record = Some entry\<rparr>,
        cmd_zadd (wk_redis W) Delayed_due (rr_due_at entry) (ct_message_id c)
          (cmd_hset (wk_redis W) Delayed (ct_message_id c) (VRetry entry) s))"
    using schedule_failure_outcome [OF R, of q s decision "wk_policy W" entry] assms(9,10,14-17) entry
    by (simp add: q_def entry_def decision_def delivery_envelope_def)
  then have disp: "dispatch_failure (wk_redis W) (wk_policy W) (wk_id W) (dispatch_replies x) (letter_id x)
      (retry_draw x) (moment x) c failure s
    = acknowledge (wk_redis W) (wk_id W) Answered c (cmd_zadd (wk_redis W) Delayed_due (rr_due_at entry) (ct_message_id c)
          (cmd_hset (wk_redis W) Delayed (ct_message_id c) (VRetry entry) s))"
    by (simp add: dispatch_failure_def assms(7) q_def)
  define s2 where "s2 = cmd_zadd (wk_redis W) Delayed_due (rr_due_at entry) (ct_message_id c)
          (cmd_hset (wk_redis W) Delayed (ct_message_id c) (VRetry entry) s)"
  have s2: "hashes (view s2) Delayed (ct_message_id c) = Some (VRetry entry)"
      "hashes (view s2) Leases = hashes (view s) Leases"
    by (simp_all add: s2_def redis.write_laws [OF R])
  obtain b s3 where s3: "acknowledge (wk_redis W) (wk_id W) Answered c s2 = (Inr b, s3)"
      "hashes (view s3) Delayed = hashes (view s2) Delayed"
  proof (cases "hashes (view s2) Leases (ct_message_id c)")
    case None
    then show ?thesis
      by (intro that [of False s2]) (simp_all add: acknowledge_def is_one_def through_def ack_script_def redis.read_laws [OF R])
  next
    case (Some v)
    then obtain l where "hashes (view s2) Leases (ct_message_id c) = Some (VLease l)" using assms(18) s2 by auto
    then have "\<exists>b s3. acknowledge (wk_redis W) (wk_id W) Answered c s2 = (Inr b, s3)
        \<and> hashes (view s3) Delayed = hashes (view s2) Delayed"
      by (auto simp: acknowledge_def is_one_def through_def ack_script_def forget_lease_def redis.read_laws [OF R]
          redis.write_laws [OF R])
    then show ?thesis using that by blast
  qed
  have "on_error W x c e s d = (Finished, s3, d')"
    using d' disp s3(1) assms(4,5,8) by (simp add: on_error_def s2_def)
  then show ?thesis
    using postgres.record_failure_ok [OF assms(2) d'] s2 s3(2) entry(2) assms(9) by simp
qed


lemma ack_unanswered:
  assumes "redis R view" "reply \<noteq> Answered" "\<forall>v. hashes (view s) Leases (ct_message_id c) = Some v \<longrightarrow> (\<exists>l. v = VLease l)"
  shows "\<exists>s1. acknowledge R w reply c s = (Inl Infrastructure_error, s1)
    \<and> members (view s1) Cancelled_set = members (view s) Cancelled_set
    \<and> hashes (view s1) Delayed = hashes (view s) Delayed
    \<and> (\<forall>v. hashes (view s1) Leases (ct_message_id c) = Some v \<longrightarrow> (\<exists>l. v = VLease l))"
  using assms
  by (cases reply; cases "hashes (view s) Leases (ct_message_id c)")
     (auto simp: acknowledge_def is_one_def through_def ack_script_def forget_lease_def redis.read_laws [OF assms(1)]
        redis.write_laws [OF assms(1)] split: if_splits)

text \<open>
  An unanswered acknowledgement undoes a completed task. When the result has been committed
  and Redis then does not answer the acknowledgement, the worker treats it as a failure
  of the execution: although the evidence of the result is durable, the task is put back to queued and, when the policy
  grants it, a retry of the message is scheduled, so the work is done again. The
  consistency document promises the opposite (recovery finds the completed state).
\<close>

theorem lost_ack_requeues_completed_task:
  assumes "queue_server (wk_redis W) view" and "postgres (wk_db W) rows"
    and "record_claim (wk_db W) (wk_hash W) (claim_fault x) (moment x) c (wk_id W) d = (Inr row, d1)"
    and "handler_end x = Output result" "\<not> lost_at_end x" "\<not> cancelled_at_end x"
    and "record_success (wk_db W) (wk_hash W) (success_fault x) (moment x) c result d1 = (Inr row1, d2)"
    and "ack_reply x \<noteq> Answered" "failure_fault x = None" "dispatch_replies x = (Answered, Answered, Answered)"
    and "hf = wk_hash W ''execution-failure'' ''retryable_infrastructure:QueueInfrastructureError'' (task_id (ct_task c))"
    and "length hf \<le> 64" "\<forall>e \<in> set (evidence_rows (rows d2)). row_hash e \<noteq> hf"
    and "0 \<le> ct_attempt c" "task_id (ct_task c) \<notin> members (view s) Cancelled_set"
    and "hashes (view s) Delayed (ct_message_id c) = None"
    and "rd_retry (retry_decide (wk_policy W) (retry_draw x) (ct_attempt c + 1) True None 0)"
    and "\<forall>v. hashes (view s) Leases (ct_message_id c) = Some v \<longrightarrow> (\<exists>l. v = VLease l)"
  shows "\<exists>s' d' r. execute W x c s d = (True, Finished, s', d')
    \<and> (\<exists>e \<in> set (evidence_rows (rows d')). row_task e = task_id (ct_task c) \<and> row_kind e = ''execution-result''
         \<and> row_summary e = result)
    \<and> map_option tr_state (task_rows (rows d') (task_id (ct_task c))) = Some ''queued''
    \<and> hashes (view s') Delayed (ct_message_id c) = Some (VRetry r) \<and> rr_attempt r = ct_attempt c + 1"
proof -
  have R: "redis (wk_redis W) view" using assms(1) unfolding queue_server_def .
  obtain s1 where ack: "acknowledge (wk_redis W) (wk_id W) (ack_reply x) c s = (Inl Infrastructure_error, s1)"
      and s1: "members (view s1) Cancelled_set = members (view s) Cancelled_set"
        "hashes (view s1) Delayed = hashes (view s) Delayed"
        "\<forall>v. hashes (view s1) Leases (ct_message_id c) = Some v \<longrightarrow> (\<exists>l. v = VLease l)"
    using ack_unanswered [OF R assms(8,18), of "wk_id W"] by blast
  define failure where "failure = classify_failure queue_exception"
  have f: "failure = ExecutionFailure RETRYABLE_INFRASTRUCTURE ''QueueInfrastructureError'' True"
    by (simp add: failure_def classify_failure_def queue_exception_def plain_exception_def is_instance_def type_name_def)
  note committed = postgres.record_success_ok [OF assms(2,7)]
  have on_err: "\<exists>s' d' r. on_error W x c queue_exception s1 d2 = (Finished, s', d')
    \<and> map_option tr_state (task_rows (rows d') (task_id (ct_task c))) = Some ''queued''
    \<and> hashes (view s') Delayed (ct_message_id c) = Some (VRetry r) \<and> rr_attempt r = ct_attempt c + 1"
    by (rule on_error_retries [where rows = rows and view = view and hf = hf and failure = failure,
          OF assms(1,2) conjunct1 [OF conjunct2 [OF committed]] assms(5) _ assms(9,10) failure_def])
      (use assms s1 in \<open>simp_all add: f ExecutionFailure_def failure_summary_def\<close>)
  then obtain s' d' r where res: "on_error W x c queue_exception s1 d2 = (Finished, s', d')"
      "map_option tr_state (task_rows (rows d') (task_id (ct_task c))) = Some ''queued''"
      "hashes (view s') Delayed (ct_message_id c) = Some (VRetry r)" "rr_attempt r = ct_attempt c + 1"
    by blast
  have "grows rows d2 d'" using postgres.on_error_order [OF assms(2) refl res(1)] by simp
  then have "set (evidence_rows (rows d2)) \<subseteq> set (evidence_rows (rows d'))"
    by (simp add: grows_def set_mono_prefix)
  moreover have "execute W x c s d = (True, Finished, s', d')"
    using assms(3-7) ack res(1) by (simp add: execute_def on_output_def)
  ultimately show ?thesis using res committed by auto
qed

lemmas sample_run_defs = record_claim_def record_success_def on_task_def memory_database_def sample_worker_def
  sample_db_def sample_row_def smooth_def sample_claim_def sample_task_def new_task_def Let_def terminal_value_def
  new_evidence_def claim_summary_def int_text_def nat_text.simps restate_def str_or_def

theorem lost_ack_requeues_completed_task_witness:
  "\<exists>s' d'. execute sample_worker (smooth (Output ''ok'') Not_sent) (sample_claim ''m'' ''t'' ''o'') leased_store
       (sample_db ''queued'') = (True, Finished, s', d')
     \<and> map_option tr_state (task_rows (md_rows d') ''t'') = Some ''queued''"
proof -
  let ?c = "sample_claim ''m'' ''t'' ''o''" and ?x = "smooth (Output ''ok'') Not_sent" and ?W = sample_worker
  let ?row = "sample_row ''t'' ''queued''" and ?row1 = "(sample_row ''t'' ''queued'')\<lparr>tr_state := ''executing'', tr_updated := 10\<rparr>"
  define d1 where "d1 = snd (record_claim (wk_db ?W) (wk_hash ?W) (claim_fault ?x) (moment ?x) ?c (wk_id ?W) (sample_db ''queued''))"
  define d2 where "d2 = snd (record_success (wk_db ?W) (wk_hash ?W) (success_fault ?x) (moment ?x) ?c ''ok'' d1)"
  have claim: "record_claim (wk_db ?W) (wk_hash ?W) (claim_fault ?x) (moment ?x) ?c (wk_id ?W) (sample_db ''queued'') = (Inr ?row, d1)"
    by (simp add: d1_def sample_run_defs)
  have success: "record_success (wk_db ?W) (wk_hash ?W) (success_fault ?x) (moment ?x) ?c ''ok'' d1 = (Inr ?row1, d2)"
    by (simp add: d1_def d2_def sample_run_defs)
  have fresh: "\<forall>e \<in> set (evidence_rows (md_rows d2)). row_hash e
      \<noteq> wk_hash ?W ''execution-failure'' ''retryable_infrastructure:QueueInfrastructureError'' (task_id (ct_task ?c))"
    by (simp add: d1_def d2_def sample_run_defs md_rows_def)
  have pg: "postgres (wk_db ?W) md_rows" and qs: "queue_server (wk_redis ?W) mini_view"
    using memory_pg.postgres_axioms mini_queue.queue_server_axioms by (simp_all add: sample_worker_def)
  have i: "task_id (ct_task ?c) = ''t''" "ct_message_id ?c = ''m''" "ct_attempt ?c = 0"
    by (simp_all add: sample_claim_def sample_task_def new_task_def)
  have "\<exists>s' d' r. execute ?W ?x ?c leased_store (sample_db ''queued'') = (True, Finished, s', d')
    \<and> (\<exists>e \<in> set (evidence_rows (md_rows d')). row_task e = task_id (ct_task ?c) \<and> row_kind e = ''execution-result''
         \<and> row_summary e = ''ok'')
    \<and> map_option tr_state (task_rows (md_rows d') (task_id (ct_task ?c))) = Some ''queued''
    \<and> hashes (mini_view s') Delayed (ct_message_id ?c) = Some (VRetry r) \<and> rr_attempt r = ct_attempt ?c + 1"
    by (rule lost_ack_requeues_completed_task [where W = sample_worker and view = mini_view and rows = md_rows
          and c = ?c and x = ?x, OF qs pg claim _ _ _ success _ _ _ refl _ fresh])
      (simp_all add: i smooth_def leased_store_lease sample_worker_def retry_decide_def default_policy_def
        calculated_delay_def uniform_def)
  then show ?thesis unfolding i by blast
qed

text \<open>
  A task that is already finished is revived. When a delivery of a durably completed or
  failed task is claimed, the durable claim refuses it and the handler
  does not run, but the refusal is handled as a retryable failure of the execution: the
  finished task is set back to queued and a retry of the message is scheduled.
\<close>

theorem refused_claim_revives_task:
  assumes "queue_server (wk_redis W) view" and "postgres (wk_db W) rows"
    and "task_rows (rows d) (task_id (ct_task c)) = Some row" "terminal_value (tr_state row)"
    and "claim_fault x = None" "\<not> lost_at_end x" "handler_end x \<noteq> Ownership_lost"
    and "failure_fault x = None" "dispatch_replies x = (Answered, Answered, Answered)"
    and "hf = wk_hash W ''execution-failure'' ''retryable_infrastructure:DurableTaskTerminalError'' (task_id (ct_task c))"
    and "length hf \<le> 64" "\<forall>e \<in> set (evidence_rows (rows d)). row_hash e \<noteq> hf"
    and "0 \<le> ct_attempt c" "task_id (ct_task c) \<notin> members (view s) Cancelled_set"
    and "hashes (view s) Delayed (ct_message_id c) = None"
    and "rd_retry (retry_decide (wk_policy W) (retry_draw x) (ct_attempt c + 1) True None 0)"
    and "\<forall>v. hashes (view s) Leases (ct_message_id c) = Some v \<longrightarrow> (\<exists>l. v = VLease l)"
  shows "\<exists>s' d' r. execute W x c s d = (False, Finished, s', d')
    \<and> map_option tr_state (task_rows (rows d') (task_id (ct_task c))) = Some ''queued''
    \<and> hashes (view s') Delayed (ct_message_id c) = Some (VRetry r) \<and> rr_attempt r = ct_attempt c + 1"
proof -
  have refused: "record_claim (wk_db W) (wk_hash W) (claim_fault x) (moment x) c (wk_id W) d = (Inl terminal_error, d)"
    using assms(3-5) by (simp add: record_claim_def on_task_def postgres.task_law [OF assms(2)])
  define failure where "failure = classify_failure terminal_error"
  have f: "failure = ExecutionFailure RETRYABLE_INFRASTRUCTURE ''DurableTaskTerminalError'' True"
    by (simp add: failure_def classify_failure_def terminal_error_def plain_exception_def is_instance_def type_name_def)
  have "\<exists>s' d' r. on_error W x c terminal_error s d = (Finished, s', d')
    \<and> map_option tr_state (task_rows (rows d') (task_id (ct_task c))) = Some ''queued''
    \<and> hashes (view s') Delayed (ct_message_id c) = Some (VRetry r) \<and> rr_attempt r = ct_attempt c + 1"
    by (rule on_error_retries [where rows = rows and view = view and hf = hf and failure = failure,
          OF assms(1-3,6,7,8,9) failure_def])
      (use assms in \<open>simp_all add: f ExecutionFailure_def failure_summary_def\<close>)
  moreover have "on_raise W x c terminal_error s d = on_error W x c terminal_error s d"
    by (simp add: on_raise_def terminal_error_def plain_exception_def is_instance_def)
  ultimately show ?thesis using refused by (auto simp: execute_def)
qed

theorem refused_claim_revives_task_witness:
  "\<exists>s' d'. execute sample_worker (smooth (Output ''ok'') Answered) (sample_claim ''m'' ''t'' ''o'') leased_store
       (sample_db ''completed'') = (False, Finished, s', d')
     \<and> map_option tr_state (task_rows (md_rows d') ''t'') = Some ''queued''"
proof -
  let ?c = "sample_claim ''m'' ''t'' ''o''" and ?x = "smooth (Output ''ok'') Answered" and ?W = sample_worker
  have pg: "postgres (wk_db ?W) md_rows" and qs: "queue_server (wk_redis ?W) mini_view"
    using memory_pg.postgres_axioms mini_queue.queue_server_axioms by (simp_all add: sample_worker_def)
  have i: "task_id (ct_task ?c) = ''t''" "ct_message_id ?c = ''m''" "ct_attempt ?c = 0"
    by (simp_all add: sample_claim_def sample_task_def new_task_def)
  have row: "task_rows (md_rows (sample_db ''completed'')) (task_id (ct_task ?c)) = Some (sample_row ''t'' ''completed'')"
    by (simp add: i md_rows_def sample_db_def sample_row_def)
  have fresh: "\<forall>e \<in> set (evidence_rows (md_rows (sample_db ''completed''))). row_hash e
      \<noteq> wk_hash ?W ''execution-failure'' ''retryable_infrastructure:DurableTaskTerminalError'' (task_id (ct_task ?c))"
    by (simp add: md_rows_def sample_db_def)
  have "\<exists>s' d' r. execute ?W ?x ?c leased_store (sample_db ''completed'') = (False, Finished, s', d')
    \<and> map_option tr_state (task_rows (md_rows d') (task_id (ct_task ?c))) = Some ''queued''
    \<and> hashes (mini_view s') Delayed (ct_message_id ?c) = Some (VRetry r) \<and> rr_attempt r = ct_attempt ?c + 1"
    by (rule refused_claim_revives_task [where W = sample_worker and view = mini_view and rows = md_rows
          and c = ?c and x = ?x, OF qs pg row _ _ _ _ _ _ refl _ fresh])
      (simp_all add: i smooth_def leased_store_lease sample_worker_def sample_row_def terminal_value_def
        retry_decide_def default_policy_def calculated_delay_def uniform_def)
  then show ?thesis unfolding i by blast
qed

end
