(* ===== verification/Sandbox.thy ===== *)
theory Sandbox
  imports Py_Path
begin

text \<open>
  The workspace of a sandbox: a POSIX file system with symbolic and hard links, as far as the
  tools use it, and the policies of \<open>sandbox/policies.py\<close>. A file system is a list of
  entries, one per absolute location; the root always exists. Strings stand for their UTF-8 bytes.
\<close>

subsection \<open>Files\<close>

type_synonym location = "string list"

text \<open>A regular file has its bytes and its number of hard links; a symbolic link is absolute or relative.\<close>

datatype node = Regular string nat | Directory | Symlink bool "string list"

type_synonym filesystem = "(location \<times> node) list"

definition node_at :: "filesystem \<Rightarrow> location \<Rightarrow> node option" where
  "node_at fs p = (if p = [] then Some Directory else map_of fs p)"

definition put_node :: "location \<Rightarrow> node \<Rightarrow> filesystem \<Rightarrow> filesystem" where
  "put_node p n fs = (p, n) # filter (\<lambda>e. fst e \<noteq> p) fs"

definition del_node :: "location \<Rightarrow> filesystem \<Rightarrow> filesystem" where
  "del_node p fs = filter (\<lambda>e. fst e \<noteq> p) fs"

lemma map_of_filter_other: "map_of (filter (\<lambda>e. fst e \<noteq> p) fs) q = (if q = p then None else map_of fs q)"
  by (induction fs) auto

lemma node_at_root [simp]: "node_at fs [] = Some Directory"
  by (simp add: node_at_def)

lemma node_at_put [simp]: "p \<noteq> [] \<Longrightarrow> node_at (put_node p n fs) q = (if q = p then Some n else node_at fs q)"
  by (simp add: node_at_def put_node_def map_of_filter_other)

lemma node_at_del [simp]: "p \<noteq> [] \<Longrightarrow> node_at (del_node p fs) q = (if q = p then None else node_at fs q)"
  by (simp add: node_at_def del_node_def map_of_filter_other)

definition is_link :: "filesystem \<Rightarrow> location \<Rightarrow> bool" where
  "is_link fs p = (case node_at fs p of Some (Symlink a t) \<Rightarrow> True | _ \<Rightarrow> False)"

text \<open>
  \<open>os.path.realpath\<close>: components are read from left to right, links are replaced by their
  targets, missing components are kept. More than \<open>n\<close> links count as the loop for which
  \<open>Path.resolve\<close> raises.
\<close>

function real_from :: "nat \<Rightarrow> filesystem \<Rightarrow> location \<Rightarrow> string list \<Rightarrow> location option" where
  "real_from n fs cur [] = Some cur"
| "real_from n fs cur (c # cs) =
     (if c = ''..'' then real_from n fs (butlast cur) cs
      else case node_at fs (cur @ [c]) of
        Some (Symlink absolute t) \<Rightarrow>
          (case n of 0 \<Rightarrow> None | Suc m \<Rightarrow> real_from m fs (if absolute then [] else cur) (t @ cs))
      | _ \<Rightarrow> real_from n fs (cur @ [c]) cs)"
  by pat_completeness auto
termination by (relation "measures [\<lambda>(n, fs, cur, cs). n, \<lambda>(n, fs, cur, cs). length cs]") auto

definition real_path :: "nat \<Rightarrow> filesystem \<Rightarrow> location \<Rightarrow> location option" where
  "real_path n fs p = real_from n fs [] p"

text \<open>A location no part of which is a link is what the operating system finds there.\<close>

definition canonical :: "filesystem \<Rightarrow> location \<Rightarrow> bool" where
  "canonical fs p \<longleftrightarrow> (\<forall>q. prefix q p \<longrightarrow> \<not> is_link fs q)"

lemma canonical_Nil [simp]: "canonical fs []"
  by (simp add: canonical_def is_link_def)

lemma canonical_snoc: "canonical fs (p @ [c]) \<longleftrightarrow> canonical fs p \<and> \<not> is_link fs (p @ [c])"
  by (auto simp: canonical_def)

lemma canonical_butlast: "canonical fs p \<Longrightarrow> canonical fs (butlast p)"
  by (cases p rule: rev_cases) (auto simp: canonical_snoc)

lemma real_from_canonical: "real_from n fs cur cs = Some p \<Longrightarrow> canonical fs cur \<Longrightarrow> canonical fs p"
proof (induction n fs cur cs rule: real_from.induct)
  case (2 n fs cur c cs)
  show ?case
  proof (cases "c = ''..''")
    case True
    then show ?thesis using 2 canonical_butlast by simp
  next
    case False
    then show ?thesis using 2
      by (auto simp: canonical_snoc is_link_def split: option.splits node.splits nat.splits if_splits)
  qed
qed simp

lemma real_path_canonical: "real_path n fs q = Some p \<Longrightarrow> canonical fs p"
  using real_from_canonical [of n fs "[]" q p] by (simp add: real_path_def)

text \<open>\<open>exists\<close> follows links, \<open>is_symlink\<close> looks at the last component itself.\<close>

definition found :: "nat \<Rightarrow> filesystem \<Rightarrow> location \<Rightarrow> bool" where
  "found n fs p = (case real_path n fs p of None \<Rightarrow> False | Some q \<Rightarrow> node_at fs q \<noteq> None)"

definition link_itself :: "nat \<Rightarrow> filesystem \<Rightarrow> location \<Rightarrow> bool" where
  "link_itself n fs p = (p \<noteq> [] \<and> (case real_path n fs (butlast p) of None \<Rightarrow> False
     | Some d \<Rightarrow> is_link fs (d @ [last p])))"

subsection \<open>The file system policy\<close>

datatype sandbox_error =
    Outside_workspace | Escapes_by_link | Protected_path | Hard_linked | Link_loop
  | Destination_denied | Private_address | Not_an_address | Executable_denied | Environment_denied
  | Network_denied | Image_denied

record filesystem_policy =
  workspace :: location
  protected_paths :: "string list"

definition default_protected :: "string list" where
  "default_protected = [''.git'', ''.github/workflows'']"

definition forward_slashes :: "string \<Rightarrow> string" where
  "forward_slashes s = map (\<lambda>c. if c = CHR 0x5C then CHR ''/'' else c) s"

definition protected_by :: "string \<Rightarrow> string \<Rightarrow> bool" where
  "protected_by lowered item \<longleftrightarrow> lowered = lower item \<or> starts_with lowered (lower item @ ''/'')"

text \<open>A component on the way that is a link and leads outside.\<close>

definition link_escape :: "nat \<Rightarrow> filesystem \<Rightarrow> location \<Rightarrow> string list \<Rightarrow> bool" where
  "link_escape n fs home parts = list_ex (\<lambda>k.
     let current = home @ take k parts in
     found n fs current \<and> link_itself n fs current
     \<and> (case real_path n fs current of None \<Rightarrow> False | Some q \<Rightarrow> \<not> prefix home q))
     [1..<Suc (length parts)]"

definition resolve ::
  "nat \<Rightarrow> filesystem_policy \<Rightarrow> filesystem \<Rightarrow> string \<Rightarrow> bool \<Rightarrow> bool \<Rightarrow> sandbox_error + location" where
  "resolve n P fs candidate writing approved =
     (let normalized = forward_slashes candidate; parts = path_parts normalized in
      if path_is_absolute normalized \<or> path_is_absolute candidate
         \<or> (2 \<le> length normalized \<and> normalized ! 1 = CHR '':'') \<or> ''..'' \<in> set parts
        then Inl Outside_workspace
      else case real_path n fs (workspace P) of
        None \<Rightarrow> Inl Link_loop
      | Some home \<Rightarrow>
        if normalized = [] \<or> normalized = ''.'' then Inr home
        else case real_path n fs (home @ parts) of
          None \<Rightarrow> Inl Link_loop
        | Some target \<Rightarrow>
          if \<not> prefix home target then Inl Escapes_by_link
          else if link_escape n fs home parts
            then Inl Escapes_by_link
          else if writing \<and> \<not> approved \<and> list_ex (protected_by (lower normalized)) (protected_paths P)
            then Inl Protected_path
          else (case node_at fs target of
              Some (Regular bytes links) \<Rightarrow> if links > 1 then Inl Hard_linked else Inr target
            | _ \<Rightarrow> Inr target))"

text \<open>
  C3. A resolved path stays in the workspace: when the policy accepts a candidate, the
  location it returns lies under the resolved workspace and no part of it is a symbolic
  link, so that opening it reaches that very location; it is not an absolute or
  parent path, and below the workspace it is never a file with a second hard link.
\<close>

theorem resolved_path_inside:
  assumes "resolve n P fs candidate writing approved = Inr target"
  shows "\<exists>home. real_path n fs (workspace P) = Some home \<and> prefix home target \<and> canonical fs target
    \<and> (forward_slashes candidate \<notin> {[], ''.''} \<longrightarrow> (\<forall>bytes k. node_at fs target = Some (Regular bytes k) \<longrightarrow> k \<le> 1))
    \<and> \<not> path_is_absolute candidate \<and> ''..'' \<notin> set (path_parts (forward_slashes candidate))"
  using assms
  by (auto simp: resolve_def Let_def split: if_splits option.splits node.splits dest: real_path_canonical)

lemma real_from_plain:
  "\<lbrakk>''..'' \<notin> set cs; \<forall>k. \<not> is_link fs (cur @ take k cs) \<or> k = 0\<rbrakk> \<Longrightarrow> real_from n fs cur cs = Some (cur @ cs)"
proof (induction cs arbitrary: cur)
  case (Cons c cs)
  from Cons.prems(2) have "\<not> is_link fs (cur @ [c])" by (auto dest: spec [of _ 1])
  moreover have "real_from n fs (cur @ [c]) cs = Some ((cur @ [c]) @ cs)"
  proof (rule Cons.IH)
    show "\<forall>k. \<not> is_link fs ((cur @ [c]) @ take k cs) \<or> k = 0"
      using Cons.prems(2) by (auto dest: spec [of _ "Suc _"])
  qed (use Cons.prems in simp)
  ultimately show ?case using Cons.prems(1)
    by (auto simp: is_link_def split: option.splits node.splits)
qed simp

lemma real_path_fixed: "\<lbrakk>canonical fs p; ''..'' \<notin> set p\<rbrakk> \<Longrightarrow> real_path n fs p = Some p"
  unfolding real_path_def
  using real_from_plain [of p fs "[]" n] by (simp add: canonical_def take_is_prefix)

theorem resolved_path_inside_witness:
  "\<exists>target. resolve 40 \<lparr>workspace = [''srv''], protected_paths = default_protected\<rparr>
       [([''srv''], Directory), ([''srv'', ''a''], Symlink False [''b'']), ([''srv'', ''b''], Directory)] ''a/x'' True False
     = Inr target \<and> prefix [''srv''] target"
proof -
  let ?P = "\<lparr>workspace = [''srv''], protected_paths = default_protected\<rparr>"
  let ?fs = "[([''srv''], Directory), ([''srv'', ''a''], Symlink False [''b'']), ([''srv'', ''b''], Directory)]"
  have run: "resolve 40 ?P ?fs ''a/x'' True False = Inr [''srv'', ''b'', ''x'']"
    by (simp add: resolve_def Let_def forward_slashes_def path_is_absolute_def path_parts_def pure_path_def
        real_path_def node_at_def found_def link_itself_def is_link_def link_escape_def default_protected_def protected_by_def
        starts_with_def lower_def lower_char_def numeral_nat)
  from resolved_path_inside [OF run] have "prefix [''srv''] [''srv'', ''b'', ''x'']"
    by (simp add: real_path_def node_at_def)
  with run show ?thesis by blast
qed

lemma path_parts_dot:
  "leading_slashes q = 0 \<Longrightarrow> path_parts (''./'' @ q) = path_parts q"
  by (simp add: path_parts_def pure_path_def)

lemma absolute_slashes: "path_is_absolute q \<longleftrightarrow> leading_slashes q \<noteq> 0"
  by (simp add: path_is_absolute_def pure_path_def)

text \<open>
  A leading dot hides a protected path: what the policy accepts for an approved write
  it also accepts for an unapproved one when the same path is written with a dot and a slash in
  front, because protection compares the text of the path and not the
  location it resolves to; with the default protected paths, the repository's own
  .git and workflow files can be changed this way.
\<close>

theorem dotted_write_reaches_protected:
  assumes "resolve n P fs path True True = Inr target" and "protected_paths P = default_protected"
    and "forward_slashes path \<notin> {[], ''.''}"
  shows "resolve n P fs (''./'' @ path) True False = Inr target"
proof -
  have slashes: "forward_slashes (''./'' @ path) = ''./'' @ forward_slashes path"
    by (simp add: forward_slashes_def)
  have rel: "leading_slashes (forward_slashes path) = 0"
    using assms(1) absolute_slashes by (auto simp: resolve_def Let_def split: if_splits)
  have plain: "\<not> path_is_absolute (''./'' @ q)" for q by (simp add: absolute_slashes)
  have parts: "path_parts (''./'' @ forward_slashes path) = path_parts (forward_slashes path)"
    by (rule path_parts_dot [OF rel])
  have open_path: "\<not> list_ex (protected_by (lower (''./'' @ q))) default_protected" for q
    by (simp add: default_protected_def protected_by_def starts_with_def lower_def lower_char_def)
  show ?thesis
    using assms(1,3) unfolding resolve_def Let_def slashes parts assms(2)
    by (auto simp: plain [simplified] open_path [simplified] split: if_splits option.splits)
qed

theorem dotted_write_reaches_protected_witness:
  "resolve 40 \<lparr>workspace = [''srv''], protected_paths = default_protected\<rparr>
       [([''srv''], Directory)] ''.git/config'' True False = Inl Protected_path
   \<and> resolve 40 \<lparr>workspace = [''srv''], protected_paths = default_protected\<rparr>
       [([''srv''], Directory)] ''./.git/config'' True False = Inr [''srv'', ''.git'', ''config'']"
proof -
  let ?P = "\<lparr>workspace = [''srv''], protected_paths = default_protected\<rparr>"
  note run_defs = resolve_def Let_def forward_slashes_def path_is_absolute_def path_parts_def pure_path_def
    real_path_def node_at_def found_def link_itself_def is_link_def link_escape_def default_protected_def protected_by_def
    starts_with_def lower_def lower_char_def numeral_nat
  have "resolve 40 ?P [([''srv''], Directory)] ''.git/config'' True True = Inr [''srv'', ''.git'', ''config'']"
    by (simp add: run_defs)
  note dotted_write_reaches_protected [OF this]
  moreover have "resolve 40 ?P [([''srv''], Directory)] ''.git/config'' True False = Inl Protected_path"
    by (simp add: run_defs)
  ultimately show ?thesis by (simp add: forward_slashes_def)
qed

subsection \<open>The network policy\<close>

text \<open>What \<open>ipaddress.ip_address\<close> says of an address; \<open>None\<close> is its \<open>ValueError\<close>.\<close>

record ip_facts =
  is_private :: bool
  is_loopback :: bool
  is_link_local :: bool
  is_reserved :: bool
  is_multicast :: bool

record network_policy =
  allowed_hosts :: "string list"
  allowed_ports :: "int list"

definition default_ports :: "int list" where
  "default_ports = [443]"

definition internal :: "string \<Rightarrow> ip_facts \<Rightarrow> bool" where
  "internal address ip \<longleftrightarrow> is_private ip \<or> is_loopback ip \<or> is_link_local ip \<or> is_reserved ip
     \<or> is_multicast ip \<or> address = ''169.254.169.254''"

fun check_addresses :: "(string \<Rightarrow> ip_facts option) \<Rightarrow> string list \<Rightarrow> sandbox_error option" where
  "check_addresses ip [] = None"
| "check_addresses ip (a # as) = (case ip a of
     None \<Rightarrow> Some Not_an_address
   | Some facts \<Rightarrow> if internal a facts then Some Private_address else check_addresses ip as)"

definition authorize ::
  "(string \<Rightarrow> ip_facts option) \<Rightarrow> network_policy \<Rightarrow> string \<Rightarrow> int \<Rightarrow> string list \<Rightarrow> sandbox_error option" where
  "authorize ip P host port addresses =
     (if host \<notin> set (allowed_hosts P) \<or> port \<notin> set (allowed_ports P) then Some Destination_denied
      else check_addresses ip addresses)"

definition resolve_and_authorize ::
  "(string \<Rightarrow> ip_facts option) \<Rightarrow> (string \<Rightarrow> int \<Rightarrow> string list) \<Rightarrow> network_policy \<Rightarrow> string \<Rightarrow> int
   \<Rightarrow> sandbox_error + string list" where
  "resolve_and_authorize ip getaddrinfo P host port =
     (let addresses = sorted_set (getaddrinfo host port)
      in case authorize ip P host port addresses of Some e \<Rightarrow> Inl e | None \<Rightarrow> Inr addresses)"

end
