(* ===== verification/Tools.thy ===== *)
theory Tools
  imports Sandbox "HOL-Library.AList"
begin

text \<open>
  The tools an agent works on the workspace with: system calls on the model file system, and
  the reading, listing and patching tools of \<open>tools/filesystem.py\<close> with their rollback, every system call
  allowed to fail.
\<close>

subsection \<open>System calls\<close>

text \<open>The entry a path names, its last component not followed.\<close>

definition entry_of :: "nat \<Rightarrow> filesystem \<Rightarrow> location \<Rightarrow> location option" where
  "entry_of n fs p = (if p = [] then None else map_option (\<lambda>d. d @ [last p]) (real_path n fs (butlast p)))"

definition os_read :: "nat \<Rightarrow> filesystem \<Rightarrow> location \<Rightarrow> string option" where
  "os_read n fs p = (case real_path n fs p of None \<Rightarrow> None
     | Some q \<Rightarrow> (case node_at fs q of Some (Regular bytes k) \<Rightarrow> Some bytes | _ \<Rightarrow> None))"

definition os_unlink :: "nat \<Rightarrow> filesystem \<Rightarrow> location \<Rightarrow> filesystem option" where
  "os_unlink n fs p = (case entry_of n fs p of None \<Rightarrow> None
     | Some q \<Rightarrow> (case node_at fs q of
         None \<Rightarrow> None
       | Some Directory \<Rightarrow> None
       | Some _ \<Rightarrow> Some (del_node q fs)))"

text \<open>Opening for writing truncates or creates; the number of links stays.\<close>

definition os_write :: "nat \<Rightarrow> filesystem \<Rightarrow> location \<Rightarrow> string \<Rightarrow> filesystem option" where
  "os_write n fs p bytes = (case real_path n fs p of None \<Rightarrow> None
     | Some q \<Rightarrow> (case node_at fs q of
         Some (Regular _ k) \<Rightarrow> Some (put_node q (Regular bytes k) fs)
       | None \<Rightarrow> if node_at fs (butlast q) = Some Directory then Some (put_node q (Regular bytes 1) fs) else None
       | Some _ \<Rightarrow> None))"

text \<open>\<open>mkdir(parents=True, exist_ok=True)\<close>: the missing prefixes become directories.\<close>

fun os_mkdirs :: "nat \<Rightarrow> location list \<Rightarrow> filesystem \<Rightarrow> filesystem option" where
  "os_mkdirs n [] fs = Some fs"
| "os_mkdirs n (p # ps) fs = (case real_path n fs p of None \<Rightarrow> None
     | Some q \<Rightarrow> (case node_at fs q of
         Some Directory \<Rightarrow> os_mkdirs n ps fs
       | Some _ \<Rightarrow> None
       | None \<Rightarrow> if link_itself n fs p then None else os_mkdirs n ps (put_node q Directory fs)))"

text \<open>\<open>os.replace\<close>: the entry itself moves, over anything but a directory.\<close>

definition os_replace :: "nat \<Rightarrow> filesystem \<Rightarrow> location \<Rightarrow> location \<Rightarrow> filesystem option" where
  "os_replace n fs source target = (case (entry_of n fs source, entry_of n fs target) of
     (Some a, Some b) \<Rightarrow> (case node_at fs a of
         None \<Rightarrow> None
       | Some x \<Rightarrow> if node_at fs b = Some Directory \<or> node_at fs (butlast b) \<noteq> Some Directory then None
                   else Some (put_node b x (del_node a fs)))
   | _ \<Rightarrow> None)"

text \<open>On a plain location (no links, no parent components) a system call acts on that entry.\<close>

definition plain :: "filesystem \<Rightarrow> location \<Rightarrow> bool" where
  "plain fs p \<longleftrightarrow> canonical fs p \<and> ''..'' \<notin> set p"

lemma plain_real [simp]: "plain fs p \<Longrightarrow> real_path n fs p = Some p"
  by (simp add: plain_def real_path_fixed)

lemma plain_butlast [simp]: "plain fs p \<Longrightarrow> plain fs (butlast p)"
  by (auto simp: plain_def canonical_butlast dest: in_set_butlastD)

lemma plain_entry: "\<lbrakk>plain fs p; p \<noteq> []\<rbrakk> \<Longrightarrow> entry_of n fs p = Some p"
  by (simp add: entry_of_def)

lemma plain_found: "plain fs p \<Longrightarrow> found n fs p \<longleftrightarrow> node_at fs p \<noteq> None"
  by (simp add: found_def)

lemma plain_link: "plain fs p \<Longrightarrow> node_at fs p \<noteq> Some (Symlink a t)"
  by (auto simp: plain_def canonical_def is_link_def)

lemma plain_prefix: "\<lbrakk>plain fs p; prefix q p\<rbrakk> \<Longrightarrow> plain fs q"
  by (auto simp: plain_def canonical_def dest: set_mono_prefix intro: prefix_order.trans)

lemma plain_link_itself: "plain fs p \<Longrightarrow> \<not> link_itself n fs p"
  using plain_link by (cases "p = []") (auto simp: link_itself_def is_link_def split: option.splits node.splits)

lemma plain_fewer_links:
  "\<lbrakk>plain fs p; \<And>q. is_link fs' q \<Longrightarrow> is_link fs q\<rbrakk> \<Longrightarrow> plain fs' p"
  by (auto simp: plain_def canonical_def)

lemma real_from_no_parent: "real_from n fs cur cs = Some p \<Longrightarrow> ''..'' \<notin> set cur \<Longrightarrow> ''..'' \<notin> set p"
proof (induction n fs cur cs rule: real_from.induct)
  case (2 n fs cur c cs)
  then show ?case
    by (auto split: option.splits node.splits nat.splits if_splits dest: in_set_butlastD)
qed simp

lemma real_path_plain: "real_path n fs q = Some p \<Longrightarrow> plain fs p"
  using real_path_canonical [of n fs q p] real_from_no_parent [of n fs "[]" q p]
  by (simp add: plain_def real_path_def)

lemma resolve_plain: "resolve n P fs candidate writing approved = Inr target \<Longrightarrow> plain fs target"
  by (auto simp: resolve_def Let_def real_path_plain split: if_splits option.splits node.splits)

subsection \<open>Reading and listing\<close>

datatype tool_error =
    Sandbox_refused sandbox_error | File_too_large | Binary_file | Decode_failed | Os_failed
  | Patch_too_large | Context_mismatch | Binary_patch | No_content | Not_below_workspace

record file_content =
  fc_path :: string
  fc_content :: string
  fc_sha256 :: digest

text \<open>\<open>decode\<close> is \<open>bytes.decode()\<close>, \<open>None\<close> its \<open>UnicodeDecodeError\<close>.\<close>

definition read_file ::
  "nat \<Rightarrow> filesystem_policy \<Rightarrow> (string \<Rightarrow> string option) \<Rightarrow> (string \<Rightarrow> digest) \<Rightarrow> filesystem \<Rightarrow> string
   \<Rightarrow> nat \<Rightarrow> tool_error + file_content" where
  "read_file n P decode hash fs path max_bytes = (case resolve n P fs path False False of
     Inl e \<Rightarrow> Inl (Sandbox_refused e)
   | Inr target \<Rightarrow> (case os_read n fs target of
       None \<Rightarrow> Inl Os_failed
     | Some bytes \<Rightarrow>
         if length bytes > max_bytes then Inl File_too_large
         else if CHR 0x00 \<in> set bytes then Inl Binary_file
         else case decode bytes of None \<Rightarrow> Inl Decode_failed
           | Some content \<Rightarrow> Inr \<lparr>fc_path = path, fc_content = content, fc_sha256 = hash bytes\<rparr>))"

text \<open>The names in a directory.\<close>

definition names_in :: "filesystem \<Rightarrow> location \<Rightarrow> string list" where
  "names_in fs d = map last (filter (\<lambda>p. p \<noteq> [] \<and> butlast p = d) (map fst fs))"

definition list_directory ::
  "nat \<Rightarrow> filesystem_policy \<Rightarrow> filesystem \<Rightarrow> string \<Rightarrow> nat \<Rightarrow> tool_error + string list" where
  "list_directory n P fs path limit = (case resolve n P fs path False False of
     Inl e \<Rightarrow> Inl (Sandbox_refused e)
   | Inr target \<Rightarrow>
       if node_at fs target \<noteq> Some Directory then Inl Os_failed
       else Inr (take limit (sorted_set (names_in fs target))))"

subsection \<open>Searching\<close>

text \<open>\<open>str.splitlines\<close>, with all its line boundaries.\<close>

definition line_end :: "char \<Rightarrow> bool" where
  "line_end c = (let k = (of_char c :: nat) in 10 \<le> k \<and> k \<le> 13 \<or> 28 \<le> k \<and> k \<le> 30 \<or> k = 133)"

fun splitlines :: "string \<Rightarrow> string list" where
  "splitlines [] = []"
| "splitlines (c # cs) =
     (if line_end c then
        [] # (case cs of d # ds \<Rightarrow> if c = CHR 0x0D \<and> d = CHR 0x0A then splitlines ds else splitlines cs
              | [] \<Rightarrow> [])
      else case splitlines cs of
        [] \<Rightarrow> [[c]]
      | l # ls \<Rightarrow> (c # l) # ls)"

text \<open>\<open>re.search(re.escape(query), line, re.I)\<close>.\<close>

definition contains_ignoring_case :: "string \<Rightarrow> string \<Rightarrow> bool" where
  "contains_ignoring_case query line = sublist (lower query) (lower line)"

record code_match =
  cm_path :: location
  cm_line :: nat
  cm_text :: string

definition matches_in :: "string \<Rightarrow> location \<Rightarrow> string \<Rightarrow> code_match list" where
  "matches_in query relative text0 = map (\<lambda>(k, l). \<lparr>cm_path = relative, cm_line = k, cm_text = take 500 l\<rparr>)
     (filter (\<lambda>(k, l). contains_ignoring_case query l) (zip [1..<Suc (length (splitlines text0))] (splitlines text0)))"

text \<open>The regular files below a directory, in the order of their paths; links are not followed.\<close>

definition files_below :: "filesystem \<Rightarrow> location \<Rightarrow> (location \<times> string) list" where
  "files_below fs d = concat (map (\<lambda>p. case node_at fs p of Some (Regular bytes k) \<Rightarrow> [(p, bytes)] | _ \<Rightarrow> [])
     (sorted_set (filter (strict_prefix d) (map fst fs))))"

text \<open>A match outside the unresolved workspace path cannot be made relative to it and raises.\<close>

fun search_files ::
  "(string \<Rightarrow> string option) \<Rightarrow> location \<Rightarrow> string \<Rightarrow> nat \<Rightarrow> (location \<times> string) list \<Rightarrow> code_match list
   \<Rightarrow> tool_error + code_match list" where
  "search_files decode base query limit [] found_so_far = Inr found_so_far"
| "search_files decode base query limit ((p, bytes) # rest) found_so_far =
     (case decode bytes of
        None \<Rightarrow> search_files decode base query limit rest found_so_far
      | Some text0 \<Rightarrow>
          let here = matches_in query (drop (length base) p) text0 in
          if here = [] then search_files decode base query limit rest found_so_far
          else if \<not> prefix base p then Inl Not_below_workspace
          else if limit \<le> length (found_so_far @ here) then Inr (take limit (found_so_far @ here))
          else search_files decode base query limit rest (found_so_far @ here))"

definition search_code ::
  "nat \<Rightarrow> filesystem_policy \<Rightarrow> (string \<Rightarrow> string option) \<Rightarrow> filesystem \<Rightarrow> string \<Rightarrow> string \<Rightarrow> nat
   \<Rightarrow> tool_error + code_match list" where
  "search_code n P decode fs query path limit = (case resolve n P fs path False False of
     Inl e \<Rightarrow> Inl (Sandbox_refused e)
   | Inr target \<Rightarrow> search_files decode (workspace P) query limit (files_below fs target) [])"

subsection \<open>Patching\<close>

record patch_file =
  pf_path :: string
  pf_base_hash :: "digest option"
  pf_content :: "string option"
  pf_delete :: bool

record patch_input =
  pi_files :: "patch_file list"
  pi_approved :: bool

text \<open>
  A system call may be refused (full disk, permissions) whatever the tree looks like:
  \<open>fault i op\<close> says so for the \<open>i\<close>-th file, a refused write having left that many bytes behind.
\<close>

datatype os_op = Op_unlink | Op_mkdir | Op_write | Op_replace

type_synonym os_faults = "nat \<Rightarrow> os_op \<Rightarrow> nat option"

definition temporary :: "location \<Rightarrow> location" where
  "temporary p = butlast p @ [''.'' @ last p @ ''.mezo-tmp'']"

fun resolve_all ::
  "nat \<Rightarrow> filesystem_policy \<Rightarrow> filesystem \<Rightarrow> bool \<Rightarrow> patch_file list
   \<Rightarrow> sandbox_error + (patch_file \<times> location) list" where
  "resolve_all n P fs approved [] = Inr []"
| "resolve_all n P fs approved (f # files) = (case resolve n P fs (pf_path f) True approved of
     Inl e \<Rightarrow> Inl e
   | Inr p \<Rightarrow> (case resolve_all n P fs approved files of Inl e \<Rightarrow> Inl e | Inr rest \<Rightarrow> Inr ((f, p) # rest)))"

fun read_originals ::
  "nat \<Rightarrow> (string \<Rightarrow> digest) \<Rightarrow> filesystem \<Rightarrow> (patch_file \<times> location) list
   \<Rightarrow> (location \<times> string option) list \<Rightarrow> tool_error + (location \<times> string option) list" where
  "read_originals n hash fs [] originals = Inr originals"
| "read_originals n hash fs ((f, p) # rest) originals =
     (if found n fs p \<and> os_read n fs p = None then Inl Os_failed
      else
        let original = (if found n fs p then os_read n fs p else None) in
        if pf_base_hash f \<noteq> None \<and> hash (case original of None \<Rightarrow> [] | Some b \<Rightarrow> b) \<noteq> the (pf_base_hash f)
          then Inl Context_mismatch
        else if pf_content f \<noteq> None \<and> CHR 0x00 \<in> set (the (pf_content f)) then Inl Binary_patch
        else read_originals n hash fs rest (AList.update p original originals))"

definition write_file ::
  "nat \<Rightarrow> os_faults \<Rightarrow> nat \<Rightarrow> location \<Rightarrow> string \<Rightarrow> filesystem \<Rightarrow> tool_error option \<times> filesystem" where
  "write_file n fault i p content fs =
     (if fault i Op_mkdir \<noteq> None then (Some Os_failed, fs)
      else case os_mkdirs n (tl (prefixes (butlast p))) fs of
        None \<Rightarrow> (Some Os_failed, fs)
      | Some fs1 \<Rightarrow> (case fault i Op_write of
          Some k \<Rightarrow> (Some Os_failed, case os_write n fs1 (temporary p) (take k content) of None \<Rightarrow> fs1 | Some fs2 \<Rightarrow> fs2)
        | None \<Rightarrow> (case os_write n fs1 (temporary p) content of
            None \<Rightarrow> (Some Os_failed, fs1)
          | Some fs2 \<Rightarrow>
              if fault i Op_replace \<noteq> None then (Some Os_failed, fs2)
              else case os_replace n fs2 (temporary p) p of
                None \<Rightarrow> (Some Os_failed, fs2)
              | Some fs3 \<Rightarrow> (None, fs3))))"

definition apply_file ::
  "nat \<Rightarrow> os_faults \<Rightarrow> nat \<Rightarrow> patch_file \<Rightarrow> location \<Rightarrow> filesystem \<Rightarrow> tool_error option \<times> filesystem" where
  "apply_file n fault i f p fs =
     (if pf_delete f then
        (if found n fs p then
           (if fault i Op_unlink \<noteq> None then (Some Os_failed, fs)
            else case os_unlink n fs p of None \<Rightarrow> (Some Os_failed, fs) | Some fs' \<Rightarrow> (None, fs'))
         else (None, fs))
      else case pf_content f of
        None \<Rightarrow> (Some No_content, fs)
      | Some content \<Rightarrow> write_file n fault i p content fs)"

fun apply_files ::
  "nat \<Rightarrow> os_faults \<Rightarrow> nat \<Rightarrow> (patch_file \<times> location) list \<Rightarrow> filesystem \<Rightarrow> tool_error option \<times> filesystem" where
  "apply_files n fault i [] fs = (None, fs)"
| "apply_files n fault i ((f, p) # rest) fs = (case apply_file n fault i f p fs of
     (Some e, fs') \<Rightarrow> (Some e, fs')
   | (None, fs') \<Rightarrow> apply_files n fault (Suc i) rest fs')"

text \<open>The rollback of the exception handler; an error in it ends it.\<close>

fun undo ::
  "nat \<Rightarrow> (nat \<Rightarrow> bool) \<Rightarrow> nat \<Rightarrow> (location \<times> string option) list \<Rightarrow> filesystem \<Rightarrow> filesystem" where
  "undo n fault i [] fs = fs"
| "undo n fault i ((p, None) # rest) fs =
     (if found n fs p then
        (if fault i then fs
         else case os_unlink n fs p of None \<Rightarrow> fs | Some fs' \<Rightarrow> undo n fault (Suc i) rest fs')
      else undo n fault (Suc i) rest fs)"
| "undo n fault i ((p, Some bytes) # rest) fs =
     (if fault i then fs
      else case os_write n fs p bytes of None \<Rightarrow> fs | Some fs' \<Rightarrow> undo n fault (Suc i) rest fs')"

definition patch_bytes :: "patch_input \<Rightarrow> nat" where
  "patch_bytes v = sum_list (map (\<lambda>f. case pf_content f of None \<Rightarrow> 0 | Some c \<Rightarrow> length c) (pi_files v))"

definition apply_patch ::
  "nat \<Rightarrow> filesystem_policy \<Rightarrow> (string \<Rightarrow> digest) \<Rightarrow> os_faults \<Rightarrow> (nat \<Rightarrow> bool) \<Rightarrow> patch_input \<Rightarrow> filesystem
   \<Rightarrow> (tool_error + string list \<times> nat) \<times> filesystem" where
  "apply_patch n P hash fault undo_fault v fs =
     (if patch_bytes v > 5000000 then (Inl Patch_too_large, fs)
      else case resolve_all n P fs (pi_approved v) (pi_files v) of
        Inl e \<Rightarrow> (Inl (Sandbox_refused e), fs)
      | Inr resolved \<Rightarrow> (case read_originals n hash fs resolved [] of
          Inl e \<Rightarrow> (Inl e, fs)
        | Inr originals \<Rightarrow> (case apply_files n fault 0 resolved fs of
            (Some e, fs') \<Rightarrow> (Inl e, undo n undo_fault 0 originals fs')
          | (None, fs') \<Rightarrow> (Inr (map pf_path (pi_files v), patch_bytes v), fs'))))"

subsection \<open>What a patch touches\<close>

definition bytes_at :: "filesystem \<Rightarrow> location \<Rightarrow> string option" where
  "bytes_at fs p = (case node_at fs p of Some (Regular bytes k) \<Rightarrow> Some bytes | _ \<Rightarrow> None)"

text \<open>
  The tree before the patch: entries lie in directories; the targets are distinct places, none
  above another, no directories, and no temporary name is a target or a link.
\<close>

definition tree_ok :: "filesystem \<Rightarrow> bool" where
  "tree_ok fs \<longleftrightarrow> (\<forall>p. node_at fs p \<noteq> None \<longrightarrow> node_at fs (butlast p) = Some Directory)"

definition apart :: "filesystem \<Rightarrow> location set \<Rightarrow> bool" where
  "apart fs T \<longleftrightarrow> (\<forall>p \<in> T. \<not> is_link fs (temporary p) \<and> temporary p \<notin> T \<and> (\<forall>q \<in> T. \<not> strict_prefix q p))"

definition targets_ok :: "filesystem \<Rightarrow> location set \<Rightarrow> bool" where
  "targets_ok fs T \<longleftrightarrow> (\<forall>p \<in> T. plain fs p \<and> p \<noteq> [] \<and> node_at fs p \<noteq> Some Directory
     \<and> \<not> is_link fs (temporary p) \<and> temporary p \<notin> T \<and> (\<forall>q \<in> T. \<not> strict_prefix q p))"

text \<open>What a patch of \<open>T\<close>, or part of one, leaves of the tree.\<close>

definition patched :: "filesystem \<Rightarrow> location set \<Rightarrow> filesystem \<Rightarrow> bool" where
  "patched fs0 T fs \<longleftrightarrow>
     (\<forall>q. q \<notin> T \<longrightarrow> q \<notin> temporary ` T \<longrightarrow> node_at fs q = node_at fs0 q
        \<or> node_at fs0 q = None \<and> node_at fs q = Some Directory)
     \<and> (\<forall>q. is_link fs q \<longrightarrow> is_link fs0 q)
     \<and> (\<forall>q. node_at fs0 q = Some Directory \<longrightarrow> node_at fs q = Some Directory)
     \<and> (\<forall>p \<in> T. node_at fs p \<noteq> Some Directory)"

lemma patched_refl: "targets_ok fs T \<Longrightarrow> patched fs T fs"
  by (simp add: patched_def targets_ok_def)

lemma patched_plain: "\<lbrakk>patched fs0 T fs; plain fs0 p\<rbrakk> \<Longrightarrow> plain fs p"
  using plain_fewer_links [of fs0 p fs] unfolding patched_def by blast

lemma patched_target:
  assumes "patched fs0 T fs" "targets_ok fs0 T" "p \<in> T"
  shows "plain fs p" "p \<noteq> []" "node_at fs p = None \<or> (\<exists>b k. node_at fs p = Some (Regular b k))"
    "plain fs (temporary p)" "temporary p \<noteq> []" "temporary p \<notin> T" "temporary p \<noteq> p"
proof -
  have p: "plain fs0 p" "p \<noteq> []" "\<not> is_link fs0 (temporary p)" "temporary p \<notin> T"
    using assms(2,3) by (auto simp: targets_ok_def)
  show pl: "plain fs p" by (rule patched_plain [OF assms(1) p(1)])
  show "p \<noteq> []" "temporary p \<notin> T" by (fact p)+
  show "temporary p \<noteq> []" by (simp add: temporary_def)
  show "temporary p \<noteq> p" using p(4) assms(3) by auto
  have "\<not> is_link fs (temporary p)" using assms(1) p(3) by (auto simp: patched_def)
  moreover have "''..'' \<notin> set (temporary p)"
    using p(1) by (auto simp: temporary_def plain_def dest: in_set_butlastD)
  ultimately show "plain fs (temporary p)"
    using plain_butlast [OF pl] by (simp add: temporary_def plain_def canonical_snoc)
  show "node_at fs p = None \<or> (\<exists>b k. node_at fs p = Some (Regular b k))"
    using assms(1,3) plain_link [OF pl]
    by (cases "node_at fs p") (auto simp: patched_def, metis node.exhaust)
qed

text \<open>One entry changes at a target or at a temporary name, to a file or to nothing.\<close>

lemma patched_put:
  assumes "patched fs0 T fs" "q \<in> T \<or> q \<in> temporary ` T" "q \<noteq> []" "node_at fs q \<noteq> Some Directory"
  shows "patched fs0 T (put_node q (Regular b k) fs)"
  using assms by (auto simp: patched_def is_link_def split: if_splits)

lemma patched_del:
  assumes "patched fs0 T fs" "q \<in> T \<or> q \<in> temporary ` T" "q \<noteq> []" "node_at fs q \<noteq> Some Directory"
  shows "patched fs0 T (del_node q fs)"
  using assms by (auto simp: patched_def is_link_def split: if_splits)

lemma os_write_plain:
  assumes "plain fs p" "os_write n fs p b = Some fs'" "p \<noteq> []"
  shows "\<exists>k. fs' = put_node p (Regular b k) fs \<and> node_at fs p \<noteq> Some Directory"
  using assms by (auto simp: os_write_def split: option.splits node.splits if_splits)

lemma os_mkdirs_plain:
  assumes "os_mkdirs n ps fs = Some fs'" "\<forall>p \<in> set ps. plain fs p \<and> p \<noteq> []"
  shows "node_at fs' q = (if node_at fs q = None \<and> q \<in> set ps then Some Directory else node_at fs q)"
  using assms
proof (induction ps arbitrary: fs)
  case (Cons p ps)
  have p: "plain fs p" "p \<noteq> []" using Cons.prems by simp_all
  show ?case
  proof (cases "node_at fs p")
    case None
    have "plain (put_node p Directory fs) r" if "r \<in> set ps" for r
      by (rule plain_fewer_links [of fs]) (use Cons.prems that p in \<open>auto simp: is_link_def split: if_splits\<close>)
    then show ?thesis
      using Cons.IH [of "put_node p Directory fs"] Cons.prems None p by (auto split: if_splits)
  next
    case (Some x)
    then show ?thesis using Cons.IH [of fs] Cons.prems p by (auto split: node.splits)
  qed
qed simp

lemma parents_of: "set (tl (prefixes xs)) = {q. prefix q xs \<and> q \<noteq> []}"
  by (cases xs) (auto simp: prefix_Cons)

lemma patched_mkdirs:
  assumes "patched fs0 T fs" "targets_ok fs0 T" "p \<in> T" "os_mkdirs n (tl (prefixes (butlast p))) fs = Some fs1"
  shows "patched fs0 T fs1 \<and> (\<forall>q \<in> T. node_at fs1 q = node_at fs q)"
proof -
  have pre: "\<forall>q \<in> set (tl (prefixes (butlast p))). plain fs q \<and> q \<noteq> []"
    using plain_prefix [OF plain_butlast [OF patched_target(1) [OF assms(1-3)]]] by (simp add: parents_of)
  have eff: "node_at fs1 q = (if node_at fs q = None \<and> prefix q (butlast p) \<and> q \<noteq> [] then Some Directory else node_at fs q)" for q
    using os_mkdirs_plain [OF assms(4) pre] by (simp add: parents_of)
  have above: "\<not> prefix q (butlast p)" if "q \<in> T" for q
  proof
    assume "prefix q (butlast p)"
    then have "strict_prefix q p" using patched_target(2) [OF assms(1-3)]
      by (cases p rule: rev_cases) (auto simp: strict_prefix_def dest: prefix_length_le)
    then show False using assms(2,3) that by (auto simp: targets_ok_def)
  qed
  then have same: "node_at fs1 q = node_at fs q" if "q \<in> T" for q using eff that by simp
  have links: "is_link fs1 q \<Longrightarrow> is_link fs q" for q by (auto simp: is_link_def eff split: if_splits)
  have other: "node_at fs1 q = node_at fs q \<or> node_at fs q = None \<and> node_at fs1 q = Some Directory" for q
    by (simp add: eff)
  have dirs: "node_at fs q = Some Directory \<Longrightarrow> node_at fs1 q = Some Directory" for q by (simp add: eff)
  show ?thesis
    unfolding patched_def
  proof (intro conjI allI ballI impI)
    show "node_at fs1 q = node_at fs0 q \<or> node_at fs0 q = None \<and> node_at fs1 q = Some Directory"
      if "q \<notin> T" "q \<notin> temporary ` T" for q
      using that assms(1) other [of q] unfolding patched_def by (metis option.distinct(1))
  qed (use assms(1) links dirs same in \<open>auto simp: patched_def\<close>)
qed

lemma patched_write:
  assumes "patched fs0 T fs" "targets_ok fs0 T" "p \<in> T" "os_write n fs (temporary p) b = Some fs'"
  shows "patched fs0 T fs' \<and> (\<forall>q \<in> T. node_at fs' q = node_at fs q)
    \<and> (\<exists>k. node_at fs' (temporary p) = Some (Regular b k))"
proof -
  note t = patched_target [OF assms(1-3)]
  obtain k where k: "fs' = put_node (temporary p) (Regular b k) fs" "node_at fs (temporary p) \<noteq> Some Directory"
    using os_write_plain [OF t(4) assms(4) t(5)] by blast
  have "patched fs0 T fs'"
    unfolding k(1) by (rule patched_put [OF assms(1) _ t(5) k(2)]) (use assms(3) in simp)
  then show ?thesis using k(1) t(5,6) by auto
qed

lemma patched_replace:
  assumes "patched fs0 T fs" "targets_ok fs0 T" "p \<in> T" "os_replace n fs (temporary p) p = Some fs'"
    and "node_at fs (temporary p) = Some (Regular b k)"
  shows "patched fs0 T fs' \<and> (\<forall>q \<in> T. node_at fs' q = (if q = p then Some (Regular b k) else node_at fs q))"
proof -
  note t = patched_target [OF assms(1-3)]
  have fs': "fs' = put_node p (Regular b k) (del_node (temporary p) fs)"
    using assms(4,5) t by (simp add: os_replace_def plain_entry split: if_splits)
  have "patched fs0 T (del_node (temporary p) fs)"
    by (rule patched_del [OF assms(1) _ t(5)]) (use assms(3,5) in auto)
  then have "patched fs0 T fs'"
    unfolding fs' by (rule patched_put) (use assms(1,3) t in \<open>auto simp: patched_def\<close>)
  then show ?thesis using t by (auto simp: fs')
qed

lemma write_file_patched:
  assumes "patched fs0 T fs" "targets_ok fs0 T" "p \<in> T" "write_file n fault i p content fs = (r, fs')"
  shows "patched fs0 T fs' \<and> (\<forall>q \<in> T. q \<noteq> p \<longrightarrow> node_at fs' q = node_at fs q)
    \<and> (r = None \<longrightarrow> bytes_at fs' p = Some content)"
proof (cases "fault i Op_mkdir \<noteq> None \<or> os_mkdirs n (tl (prefixes (butlast p))) fs = None")
  case True
  then show ?thesis using assms by (auto simp: write_file_def split: if_splits)
next
  case False
  then obtain fs1 where fs1: "os_mkdirs n (tl (prefixes (butlast p))) fs = Some fs1" by blast
  note m = patched_mkdirs [OF assms(1-3) fs1]
  show ?thesis
  proof (cases "fault i Op_write")
    case (Some k)
    then show ?thesis using assms(4) False fs1 m patched_write [OF conjunct1 [OF m] assms(2,3)]
      by (auto simp: write_file_def split: option.splits)
  next
    case None
    show ?thesis
    proof (cases "os_write n fs1 (temporary p) content")
      case None
      then show ?thesis using assms(4) False fs1 m \<open>fault i Op_write = None\<close> by (auto simp: write_file_def)
    next
      case (Some fs2)
      from patched_write [OF conjunct1 [OF m] assms(2,3) Some] obtain k where
        w: "patched fs0 T fs2" "\<forall>q \<in> T. node_at fs2 q = node_at fs1 q" "node_at fs2 (temporary p) = Some (Regular content k)"
        by blast
      show ?thesis
        using assms(3,4) False fs1 m Some w \<open>fault i Op_write = None\<close> patched_replace [OF w(1) assms(2,3) _ w(3)]
        by (auto simp: write_file_def bytes_at_def split: option.splits if_splits)
    qed
  qed
qed

lemma apply_file_patched:
  assumes "patched fs0 T fs" "targets_ok fs0 T" "p \<in> T" "apply_file n fault i f p fs = (r, fs')"
  shows "patched fs0 T fs' \<and> (\<forall>q \<in> T. q \<noteq> p \<longrightarrow> node_at fs' q = node_at fs q)
    \<and> (r = None \<longrightarrow> bytes_at fs' p = (if pf_delete f then None else pf_content f))"
proof -
  note t = patched_target [OF assms(1-3)]
  show ?thesis
  proof (cases "pf_delete f")
    case True
    have "node_at fs p \<noteq> Some Directory" using t(3) by auto
    from patched_del [OF assms(1) disjI1 [OF assms(3)] t(2) this]
    show ?thesis using assms(1,4) True t
      by (auto simp: apply_file_def os_unlink_def plain_entry plain_found bytes_at_def split: if_splits option.splits)
  next
    case False
    then show ?thesis using assms(1,4) write_file_patched [OF assms(1-3)]
      by (auto simp: apply_file_def split: option.splits)
  qed
qed

lemma apply_files_patched:
  assumes "patched fs0 T fs" "targets_ok fs0 T" "snd ` set items \<subseteq> T" "apply_files n fault i items fs = (r, fs')"
  shows "patched fs0 T fs'"
  using assms
proof (induction items arbitrary: i fs)
  case (Cons fp items)
  obtain f p where fp: "fp = (f, p)" by fastforce
  obtain r1 fs1 where step: "apply_file n fault i f p fs = (r1, fs1)" by fastforce
  have "patched fs0 T fs1"
    using apply_file_patched [OF Cons.prems(1,2) _ step] Cons.prems(3) fp by simp
  then show ?case using Cons.IH [of fs1 "Suc i"] Cons.prems step fp
    by (auto split: option.splits)
qed simp

lemma apply_files_done:
  assumes "patched fs0 T fs" "targets_ok fs0 T" "snd ` set items \<subseteq> T" "distinct (map snd items)"
    and "apply_files n fault i items fs = (None, fs')"
  shows "(\<forall>(f, p) \<in> set items. bytes_at fs' p = (if pf_delete f then None else pf_content f))
    \<and> (\<forall>q \<in> T - snd ` set items. node_at fs' q = node_at fs q)"
  using assms
proof (induction items arbitrary: i fs)
  case (Cons fp items)
  obtain f p where fp: "fp = (f, p)" by fastforce
  obtain r1 fs1 where step: "apply_file n fault i f p fs = (r1, fs1)" by fastforce
  then have r1: "r1 = None" "apply_files n fault (Suc i) items fs1 = (None, fs')"
    using Cons.prems(5) fp by (auto split: option.splits)
  have p: "p \<in> T" "p \<notin> snd ` set items" using Cons.prems(3,4) fp by auto
  note a = apply_file_patched [OF Cons.prems(1,2) p(1) step]
  have "(\<forall>(f, p) \<in> set items. bytes_at fs' p = (if pf_delete f then None else pf_content f))
    \<and> (\<forall>q \<in> T - snd ` set items. node_at fs' q = node_at fs1 q)"
    by (rule Cons.IH [OF conjunct1 [OF a] Cons.prems(2) _ _ r1(2)]) (use Cons.prems(3,4) in auto)
  moreover from this have "bytes_at fs' p = bytes_at fs1 p" using p by (simp add: bytes_at_def)
  ultimately show ?case using a r1(1) fp by auto
qed simp

lemma undo_restores:
  assumes "patched fs0 T fs" "targets_ok fs0 T" "tree_ok fs0" "fst ` set originals \<subseteq> T"
    and "distinct (map fst originals)" "\<forall>(p, b) \<in> set originals. bytes_at fs0 p = b" "\<forall>j. \<not> fault j"
  shows "patched fs0 T (undo n fault i originals fs)
    \<and> (\<forall>(p, b) \<in> set originals. bytes_at (undo n fault i originals fs) p = b)
    \<and> (\<forall>q \<in> T - fst ` set originals. node_at (undo n fault i originals fs) q = node_at fs q)"
  using assms
proof (induction originals arbitrary: i fs)
  case (Cons pb originals)
  obtain p b where pb: "pb = (p, b)" by fastforce
  have p: "p \<in> T" "p \<notin> fst ` set originals" using Cons.prems(4,5) pb by auto
  note t = patched_target [OF Cons.prems(1,2) p(1)]
  have "\<exists>fs1 j. undo n fault i (pb # originals) fs = undo n fault j originals fs1 \<and> patched fs0 T fs1
    \<and> bytes_at fs1 p = b \<and> (\<forall>q \<in> T - {p}. node_at fs1 q = node_at fs q)"
  proof (cases b)
    case None
    show ?thesis
    proof (cases "found n fs p")
      case True
      have "undo n fault i (pb # originals) fs = undo n fault (Suc i) originals (del_node p fs)"
        using True t Cons.prems(7) None pb by (auto simp: os_unlink_def plain_entry plain_found)
      moreover have "patched fs0 T (del_node p fs)"
        by (rule patched_del [OF Cons.prems(1) disjI1 [OF p(1)] t(2)]) (use t(3) in auto)
      ultimately show ?thesis using None t(2)
        by (intro exI [of _ "del_node p fs"] exI [of _ "Suc i"]) (simp add: bytes_at_def)
    next
      case False
      then have "undo n fault i (pb # originals) fs = undo n fault (Suc i) originals fs \<and> bytes_at fs p = b"
        using t None pb by (simp add: plain_found bytes_at_def)
      then show ?thesis using Cons.prems(1) by blast
    qed
  next
    case (Some c)
    have "node_at fs0 p \<noteq> None" using Cons.prems(6) pb Some by (auto simp: bytes_at_def split: option.splits)
    then have "node_at fs (butlast p) = Some Directory"
      using Cons.prems(1,3) by (simp add: tree_ok_def patched_def)
    then obtain k where w: "os_write n fs p c = Some (put_node p (Regular c k) fs)"
      using t by (auto simp: os_write_def)
    have "patched fs0 T (put_node p (Regular c k) fs)"
      by (rule patched_put [OF Cons.prems(1) disjI1 [OF p(1)] t(2)]) (use t(3) in auto)
    moreover have "undo n fault i (pb # originals) fs = undo n fault (Suc i) originals (put_node p (Regular c k) fs)"
      using w Cons.prems(7) Some pb by simp
    ultimately show ?thesis using Some t(2)
      by (intro exI [of _ "put_node p (Regular c k) fs"] exI [of _ "Suc i"]) (simp add: bytes_at_def)
  qed
  then obtain fs1 j where s: "undo n fault i (pb # originals) fs = undo n fault j originals fs1" "patched fs0 T fs1"
      "bytes_at fs1 p = b" "\<forall>q \<in> T - {p}. node_at fs1 q = node_at fs q" by blast
  have rest: "patched fs0 T (undo n fault j originals fs1)
    \<and> (\<forall>(p, b) \<in> set originals. bytes_at (undo n fault j originals fs1) p = b)
    \<and> (\<forall>q \<in> T - fst ` set originals. node_at (undo n fault j originals fs1) q = node_at fs1 q)"
    by (rule Cons.IH [OF s(2) Cons.prems(2,3)]) (use Cons.prems(4-7) in auto)
  moreover from rest have "bytes_at (undo n fault j originals fs1) p = bytes_at fs1 p"
    using p by (simp add: bytes_at_def)
  ultimately show ?case unfolding s(1) using s(3,4) pb by auto
qed simp

subsection \<open>All or nothing\<close>

definition patch_targets :: "nat \<Rightarrow> filesystem_policy \<Rightarrow> filesystem \<Rightarrow> patch_input \<Rightarrow> location set" where
  "patch_targets n P fs v = {p. \<exists>f \<in> set (pi_files v). resolve n P fs (pf_path f) True (pi_approved v) = Inr p}"

lemma resolve_all_pairs:
  "resolve_all n P fs ap files = Inr resolved \<Longrightarrow> map fst resolved = files
     \<and> (\<forall>(f, p) \<in> set resolved. resolve n P fs (pf_path f) True ap = Inr p)"
  by (induction files arbitrary: resolved) (auto split: sum.splits)

lemma resolve_all_targets:
  assumes "resolve_all n P fs ap files = Inr resolved"
  shows "map fst resolved = files
     \<and> (\<forall>(f, p) \<in> set resolved. resolve n P fs (pf_path f) True ap = Inr p)
     \<and> snd ` set resolved = {p. \<exists>f \<in> set files. resolve n P fs (pf_path f) True ap = Inr p}"
proof -
  note r = resolve_all_pairs [OF assms]
  then have "set files = fst ` set resolved" by (metis list.set_map)
  then show ?thesis using r by force
qed

lemma read_originals_ok:
  assumes "read_originals n hash fs items acc = Inr originals" "\<forall>p \<in> snd ` set items. plain fs p"
    and "distinct (map fst acc)" "\<forall>p b. map_of acc p = Some b \<longrightarrow> bytes_at fs p = b"
  shows "distinct (map fst originals) \<and> fst ` set originals = fst ` set acc \<union> snd ` set items
    \<and> (\<forall>p b. map_of originals p = Some b \<longrightarrow> bytes_at fs p = b)
    \<and> (\<forall>p \<in> snd ` set items. node_at fs p \<noteq> Some Directory)"
  using assms
proof (induction items arbitrary: acc)
  case (Cons fp items)
  obtain f p where fp: "fp = (f, p)" by fastforce
  define original where "original = (if found n fs p then os_read n fs p else None)"
  have pl: "plain fs p" using Cons.prems(2) fp by simp
  then have b: "bytes_at fs p = original"
    by (simp add: original_def plain_found bytes_at_def os_read_def)
  have rest: "read_originals n hash fs items (AList.update p original acc) = Inr originals"
    and dir: "node_at fs p \<noteq> Some Directory"
    using Cons.prems(1) pl by (auto simp: fp original_def Let_def plain_found os_read_def split: if_splits)
  have "distinct (map fst originals) \<and> fst ` set originals = fst ` set (AList.update p original acc) \<union> snd ` set items
    \<and> (\<forall>p b. map_of originals p = Some b \<longrightarrow> bytes_at fs p = b)
    \<and> (\<forall>p \<in> snd ` set items. node_at fs p \<noteq> Some Directory)"
    by (rule Cons.IH [OF rest]) (use Cons.prems b in \<open>auto simp: distinct_update update_conv\<close>)
  then show ?case using dir fp by (auto simp: dom_update)
qed auto

text \<open>How a patch runs once its files are resolved and their originals read.\<close>

lemma apply_patch_runs:
  assumes "resolve_all n P fs (pi_approved v) (pi_files v) = Inr resolved" "read_originals n hash fs resolved [] = Inr originals"
    and "apart fs (patch_targets n P fs v)"
  shows "targets_ok fs (patch_targets n P fs v) \<and> snd ` set resolved = patch_targets n P fs v
    \<and> distinct (map fst originals) \<and> fst ` set originals = patch_targets n P fs v
    \<and> (\<forall>(p, b) \<in> set originals. bytes_at fs p = b)"
proof -
  note r = resolve_all_targets [OF assms(1)]
  have T: "snd ` set resolved = patch_targets n P fs v" using r by (simp add: patch_targets_def)
  have pl: "\<forall>p \<in> snd ` set resolved. plain fs p" using r resolve_plain by fastforce
  note o = read_originals_ok [OF assms(2) pl]
  have "targets_ok fs (patch_targets n P fs v)"
    using o pl T assms(3) unfolding targets_ok_def apart_def by auto
  then show ?thesis using o T by (auto simp: map_of_eq_Some_iff)
qed

text \<open>
  C4. A patch that fails leaves no trace in its files. Whichever system call is refused
  and whichever file it stops at, a failed patch gives every file it names the bytes it had
  (or its absence) back, as long as the calls of the rollback itself are not refused, no named file lies
  below another and no temporary name is one of the files or a link; nothing
  else changes except temporary names and newly created directories.
\<close>

theorem failed_patch_restores:
  assumes "apply_patch n P hash fault undo_fault v fs = (Inl e, fs')"
    and "tree_ok fs" "apart fs (patch_targets n P fs v)" "\<forall>j. \<not> undo_fault j"
  shows "(\<forall>p \<in> patch_targets n P fs v. bytes_at fs' p = bytes_at fs p)
    \<and> (\<forall>q. q \<notin> patch_targets n P fs v \<longrightarrow> q \<notin> temporary ` patch_targets n P fs v \<longrightarrow>
         node_at fs' q = node_at fs q \<or> node_at fs q = None \<and> node_at fs' q = Some Directory)"
proof (cases "fs' = fs")
  case False
  then obtain resolved originals fs1 where run: "resolve_all n P fs (pi_approved v) (pi_files v) = Inr resolved"
      "read_originals n hash fs resolved [] = Inr originals" "apply_files n fault 0 resolved fs = (Some e, fs1)"
      "fs' = undo n undo_fault 0 originals fs1"
    using assms(1) by (auto simp: apply_patch_def split: if_splits sum.splits option.splits prod.splits)
  note k = apply_patch_runs [OF run(1,2) assms(3)]
  have "patched fs (patch_targets n P fs v) fs1"
    by (rule apply_files_patched [OF patched_refl _ _ run(3)]) (use k in auto)
  from undo_restores [OF this _ assms(2) _ _ _ assms(4), of originals n 0]
  have "patched fs (patch_targets n P fs v) fs' \<and> (\<forall>(p, b) \<in> set originals. bytes_at fs' p = b)"
    using k by (simp add: run(4))
  then show ?thesis using k by (fastforce simp: patched_def)
qed simp

text \<open>
  C5. A patch that succeeds did exactly what it says, provided that no named file lies below another, no temporary name is one
  of the files or a link, and no two entries resolve to the same file: every named file was accepted by the policy and
  has the given content, or is gone if it was to be deleted; the reported paths are the named ones, and nothing else
  changes except temporary names and newly created directories.
\<close>

theorem successful_patch_applies:
  assumes "apply_patch n P hash fault undo_fault v fs = (Inr (changed, amount), fs')"
    and "apart fs (patch_targets n P fs v)"
    and "distinct (map (\<lambda>f. resolve n P fs (pf_path f) True (pi_approved v)) (pi_files v))"
  shows "changed = map pf_path (pi_files v) \<and> amount \<le> 5000000
    \<and> (\<forall>f \<in> set (pi_files v). \<exists>p. resolve n P fs (pf_path f) True (pi_approved v) = Inr p
         \<and> bytes_at fs' p = (if pf_delete f then None else pf_content f))
    \<and> (\<forall>q. q \<notin> patch_targets n P fs v \<longrightarrow> q \<notin> temporary ` patch_targets n P fs v \<longrightarrow>
         node_at fs' q = node_at fs q \<or> node_at fs q = None \<and> node_at fs' q = Some Directory)"
proof -
  obtain resolved originals where run: "resolve_all n P fs (pi_approved v) (pi_files v) = Inr resolved"
      "read_originals n hash fs resolved [] = Inr originals" "apply_files n fault 0 resolved fs = (None, fs')"
    and out: "changed = map pf_path (pi_files v)" "amount = patch_bytes v" "amount \<le> 5000000"
    using assms(1) by (auto simp: apply_patch_def split: if_splits sum.splits option.splits prod.splits)
  note k = apply_patch_runs [OF run(1,2) assms(2)] and r = resolve_all_targets [OF run(1)]
  have "map (\<lambda>f. resolve n P fs (pf_path f) True (pi_approved v)) (pi_files v) = map (Inr \<circ> snd) resolved"
    using r by (auto simp: r [THEN conjunct1, symmetric] intro!: map_cong)
  then have dist: "distinct (map snd resolved)" using assms(3) by (simp add: distinct_map comp_def inj_on_def)
  have "patched fs (patch_targets n P fs v) fs'"
    by (rule apply_files_patched [OF patched_refl _ _ run(3)]) (use k in auto)
  moreover have "\<forall>(f, p) \<in> set resolved. bytes_at fs' p = (if pf_delete f then None else pf_content f)"
    using apply_files_done [OF patched_refl _ _ dist run(3), of "patch_targets n P fs v"] k by auto
  moreover have "\<exists>p. resolve n P fs (pf_path f) True (pi_approved v) = Inr p
      \<and> bytes_at fs' p = (if pf_delete f then None else pf_content f)" if "f \<in> set (pi_files v)" for f
  proof -
    have "f \<in> fst ` set resolved" using that r by (metis list.set_map)
    then obtain p where "(f, p) \<in> set resolved" by force
    then show ?thesis using r calculation(2) by blast
  qed
  ultimately show ?thesis using out by (simp add: patched_def)
qed

definition sample_policy :: filesystem_policy where
  "sample_policy = \<lparr>workspace = [''srv''], protected_paths = default_protected\<rparr>"

definition sample_tree :: filesystem where
  "sample_tree = [([''srv''], Directory), ([''srv'', ''a''], Regular ''old'' 1)]"

definition sample_patch :: "string option \<Rightarrow> patch_input" where
  "sample_patch second = \<lparr>pi_files =
     [\<lparr>pf_path = ''a'', pf_base_hash = None, pf_content = Some ''new'', pf_delete = False\<rparr>,
      \<lparr>pf_path = ''b'', pf_base_hash = None, pf_content = second, pf_delete = False\<rparr>], pi_approved = False\<rparr>"

lemmas resolve_run_defs = resolve_def Let_def forward_slashes_def path_is_absolute_def path_parts_def pure_path_def
  real_path_def node_at_def found_def link_itself_def is_link_def link_escape_def default_protected_def
  protected_by_def starts_with_def lower_def lower_char_def numeral_nat

lemma sample_resolve:
  "resolve 40 sample_policy sample_tree ''a'' True False = Inr [''srv'', ''a'']"
  "resolve 40 sample_policy sample_tree ''b'' True False = Inr [''srv'', ''b'']"
  by (simp_all add: sample_policy_def sample_tree_def resolve_run_defs)

lemma sample_targets: "patch_targets 40 sample_policy sample_tree (sample_patch second) = {[''srv'', ''a''], [''srv'', ''b'']}"
  by (auto simp: patch_targets_def sample_patch_def sample_resolve)

lemma sample_tree_ok:
  "tree_ok sample_tree" "apart sample_tree (patch_targets 40 sample_policy sample_tree (sample_patch second))"
  unfolding apart_def sample_targets
  by (auto simp: tree_ok_def sample_tree_def node_at_def temporary_def is_link_def split: if_splits)

lemmas patch_run_defs = apply_patch_def patch_bytes_def sample_patch_def os_read_def apply_file_def write_file_def
  os_write_def os_replace_def entry_of_def temporary_def os_unlink_def put_node_def del_node_def

theorem failed_patch_restores_witness:
  "\<exists>fs'. apply_patch 40 sample_policy id (\<lambda>i op. None) (\<lambda>j. False) (sample_patch None) sample_tree = (Inl No_content, fs')
     \<and> bytes_at fs' [''srv'', ''a''] = Some ''old'' \<and> bytes_at fs' [''srv'', ''b''] = None"
proof -
  define fs' where "fs' = snd (apply_patch 40 sample_policy id (\<lambda>i op. None) (\<lambda>j. False) (sample_patch None) sample_tree)"
  have "fst (apply_patch 40 sample_policy id (\<lambda>i op. None) (\<lambda>j. False) (sample_patch None) sample_tree) = Inl No_content"
    by (simp add: apply_patch_def sample_patch_def sample_resolve)
      (simp add: sample_tree_def real_path_def node_at_def found_def patch_run_defs)
  then have run: "apply_patch 40 sample_policy id (\<lambda>i op. None) (\<lambda>j. False) (sample_patch None) sample_tree = (Inl No_content, fs')"
    by (simp add: fs'_def prod_eq_iff)
  from failed_patch_restores [OF run sample_tree_ok] run show ?thesis
    by (simp add: sample_targets) (simp add: bytes_at_def sample_tree_def node_at_def)
qed

theorem successful_patch_applies_witness:
  "\<exists>fs'. apply_patch 40 sample_policy id (\<lambda>i op. None) (\<lambda>j. False) (sample_patch (Some ''x'')) sample_tree = (Inr ([''a'', ''b''], 4), fs')
     \<and> bytes_at fs' [''srv'', ''a''] = Some ''new'' \<and> bytes_at fs' [''srv'', ''b''] = Some ''x''"
proof -
  define fs' where "fs' = snd (apply_patch 40 sample_policy id (\<lambda>i op. None) (\<lambda>j. False) (sample_patch (Some ''x'')) sample_tree)"
  have "fst (apply_patch 40 sample_policy id (\<lambda>i op. None) (\<lambda>j. False) (sample_patch (Some ''x'')) sample_tree) = Inr ([''a'', ''b''], 4)"
    by (simp add: apply_patch_def sample_patch_def sample_resolve)
      (simp add: sample_tree_def real_path_def node_at_def found_def patch_run_defs)
  then have run: "apply_patch 40 sample_policy id (\<lambda>i op. None) (\<lambda>j. False) (sample_patch (Some ''x'')) sample_tree = (Inr ([''a'', ''b''], 4), fs')"
    by (simp add: fs'_def prod_eq_iff)
  have "distinct (map (\<lambda>f. resolve 40 sample_policy sample_tree (pf_path f) True (pi_approved (sample_patch (Some ''x''))))
      (pi_files (sample_patch (Some ''x''))))"
    by (simp add: sample_patch_def sample_resolve)
  from successful_patch_applies [OF run sample_tree_ok(2) this] run show ?thesis
    by (simp add: sample_patch_def sample_resolve)
qed

subsection \<open>A planted temporary name\<close>

lemma os_mkdirs_present:
  "\<forall>p \<in> set ps. plain fs p \<and> node_at fs p = Some Directory \<Longrightarrow> os_mkdirs n ps fs = Some fs"
  by (induction ps) auto

lemma tree_directories: "\<lbrakk>tree_ok fs; node_at fs p = Some Directory; prefix q p\<rbrakk> \<Longrightarrow> node_at fs q = Some Directory"
proof (induction p rule: rev_induct)
  case (snoc c p)
  then show ?case using snoc.prems(1) [unfolded tree_ok_def, rule_format, of "p @ [c]"]
    by (auto simp: prefix_snoc)
qed (simp add: node_at_def)

text \<open>
  A planted link takes the write elsewhere. The temporary file of a patch is opened
  through its name, which the policy never checks: when the repository already holds a link of that
  name, the patch reports success, the content is written to the file the link
  leads to, wherever that is, and the patched path itself becomes the link.
\<close>

theorem planted_link_redirects_patch:
  assumes "resolve n P fs path True ap = Inr target" and "tree_ok fs" "target \<noteq> []"
    and "node_at fs target = None" "node_at fs (butlast target) = Some Directory"
    and "is_link fs (temporary target)" "real_path n fs (temporary target) = Some out"
    and "node_at fs out = Some (Regular old k)" and "length content \<le> 5000000" "CHR 0x00 \<notin> set content"
    and "v = \<lparr>pi_files = [\<lparr>pf_path = path, pf_base_hash = None, pf_content = Some content, pf_delete = False\<rparr>],
      pi_approved = ap\<rparr>"
  shows "\<exists>fs'. apply_patch n P hash (\<lambda>i op. None) undo_fault v fs = (Inr ([path], length content), fs')
    \<and> bytes_at fs' out = Some content \<and> is_link fs' target"
proof -
  have pl: "plain fs target" by (rule resolve_plain [OF assms(1)])
  obtain a t where link: "node_at fs (temporary target) = Some (Symlink a t)"
    using assms(6) by (auto simp: is_link_def split: option.splits node.splits)
  have tmp: "temporary target \<noteq> []" "temporary target \<noteq> target" "butlast (temporary target) = butlast target"
      "last (temporary target) = ''.'' @ last target @ ''.mezo-tmp''"
    using link assms(4) by (auto simp: temporary_def)
  have out: "out \<noteq> temporary target" "out \<noteq> target" "out \<noteq> []" using assms(4,8) link by auto
  have "os_mkdirs n (tl (prefixes (butlast target))) fs = Some fs"
    by (rule os_mkdirs_present) (auto simp: parents_of intro: plain_prefix [OF plain_butlast [OF pl]]
        tree_directories [OF assms(2,5)])
  moreover have w: "os_write n fs (temporary target) content = Some (put_node out (Regular content k) fs)"
    using assms(7,8) by (simp add: os_write_def)
  moreover define fs2 where "fs2 = put_node out (Regular content k) fs"
  have pl2: "plain fs2 target"
    by (rule plain_fewer_links [OF pl]) (use out assms(8) in \<open>auto simp: fs2_def is_link_def split: if_splits\<close>)
  have e: "entry_of n fs2 (temporary target) = Some (temporary target)" "entry_of n fs2 target = Some target"
    using pl2 tmp assms(3) plain_butlast [OF pl2]
    by (simp_all add: entry_of_def) (simp_all add: temporary_def)
  have n2: "node_at fs2 (temporary target) = Some (Symlink a t)" "node_at fs2 target = None"
      "node_at fs2 (butlast target) = Some Directory"
    using link assms(4,5,8) out by (auto simp: fs2_def)
  have "os_replace n fs2 (temporary target) target
      = Some (put_node target (Symlink a t) (del_node (temporary target) fs2))"
    using e n2 by (simp add: os_replace_def)
  ultimately have wf: "write_file n (\<lambda>i op. None) 0 target content fs
      = (None, put_node target (Symlink a t) (del_node (temporary target) fs2))"
    by (simp add: write_file_def fs2_def)
  have "apply_patch n P hash (\<lambda>i op. None) undo_fault v fs
      = (Inr ([path], length content), put_node target (Symlink a t) (del_node (temporary target) fs2))"
    using assms(1,4,9,10) pl wf by (simp add: assms(11) apply_patch_def patch_bytes_def plain_found apply_file_def)
  then show ?thesis using assms(3) tmp out by (simp add: bytes_at_def is_link_def fs2_def)
qed

theorem planted_link_redirects_patch_witness:
  "\<exists>fs'. apply_patch 40 sample_policy id (\<lambda>i op. None) (\<lambda>j. False)
       \<lparr>pi_files = [\<lparr>pf_path = ''a'', pf_base_hash = None, pf_content = Some ''new'', pf_delete = False\<rparr>], pi_approved = False\<rparr>
       [([''srv''], Directory), ([''etc''], Directory), ([''etc'', ''hosts''], Regular ''old'' 1),
        ([''srv'', ''.a.mezo-tmp''], Symlink True [''etc'', ''hosts''])] = (Inr ([''a''], 3), fs')
     \<and> bytes_at fs' [''etc'', ''hosts''] = Some ''new''"
proof -
  let ?fs = "[([''srv''], Directory), ([''etc''], Directory), ([''etc'', ''hosts''], Regular ''old'' 1),
        ([''srv'', ''.a.mezo-tmp''], Symlink True [''etc'', ''hosts''])]"
  have r: "resolve 40 sample_policy ?fs ''a'' True False = Inr [''srv'', ''a'']"
    by (simp add: sample_policy_def resolve_run_defs)
  have ok: "tree_ok ?fs" by (auto simp: tree_ok_def node_at_def split: if_splits)
  have node: "node_at ?fs [''etc'', ''hosts''] = Some (Regular ''old'' 1)" by (simp add: node_at_def)
  have "\<exists>fs'. apply_patch 40 sample_policy id (\<lambda>i op. None) (\<lambda>j. False)
       \<lparr>pi_files = [\<lparr>pf_path = ''a'', pf_base_hash = None, pf_content = Some ''new'', pf_delete = False\<rparr>], pi_approved = False\<rparr>
       ?fs = (Inr ([''a''], length ''new''), fs') \<and> bytes_at fs' [''etc'', ''hosts''] = Some ''new'' \<and> is_link fs' [''srv'', ''a'']"
    by (rule planted_link_redirects_patch [OF r ok _ _ _ _ _ node _ _ refl])
      (simp_all add: node_at_def temporary_def is_link_def real_path_def)
  then show ?thesis by auto
qed

end
