(* ===== verification/Commands.thy ===== *)
theory Commands
  imports Tools
begin

text \<open>
  Commands in a sandbox (\<open>sandbox/manager.py\<close>) with the redaction of their output, the registry
  that guards every tool call (\<open>tools/registry.py\<close>), and the built-in tools
  (\<open>tools/builtins.py\<close>). Starting a process is a parameter that says how it ended.
\<close>

subsection \<open>Sandboxes\<close>

datatype sandbox_state = SB_CREATED | SB_RUNNING | SB_STOPPED | SB_DESTROYED | SB_CLEANUP_FAILED

record resource_policy =
  cpu_count :: string
  memory_mb :: nat
  pid_limit :: nat
  disk_mb :: nat
  output_bytes :: nat

definition default_resources :: resource_policy where
  "default_resources = \<lparr>cpu_count = ''1'', memory_mb = 1024, pid_limit = 128, disk_mb = 2048, output_bytes = 1000000\<rparr>"

record sandbox_record =
  sandbox_id :: string
  sb_task_id :: string
  repository_id :: string
  sb_base_sha :: string
  sb_workspace :: location
  evidence_directory :: location
  resources :: resource_policy
  sb_created_at :: instant
  sb_expires_at :: instant
  sb_state :: sandbox_state
  cleanup_status :: string

definition new_sandbox :: "string \<Rightarrow> string \<Rightarrow> string \<Rightarrow> string \<Rightarrow> location \<Rightarrow> instant \<Rightarrow> sandbox_record" where
  "new_sandbox i task repo sha ws now = \<lparr>sandbox_id = i, sb_task_id = task, repository_id = repo, sb_base_sha = sha,
     sb_workspace = ws, evidence_directory = ws @ [''.mezo-evidence''], resources = default_resources,
     sb_created_at = now, sb_expires_at = now + 3600, sb_state = SB_CREATED, cleanup_status = ''pending''\<rparr>"

record structured_command =
  sc_executable :: string
  sc_arguments :: "string list"
  working_directory :: string
  sc_environment :: "(string \<times> string) list"
  timeout_seconds :: seconds
  sc_stdin :: "string option"
  output_limit :: nat
  network_required :: bool

record process_result =
  exit_code :: int
  pr_stdout :: string
  pr_stderr :: string
  truncated :: bool
  duration_seconds :: seconds

definition location_text :: "location \<Rightarrow> string" where
  "location_text p = ''/'' @ join_with ''/'' p"

definition docker_command :: "string \<Rightarrow> sandbox_record \<Rightarrow> structured_command \<Rightarrow> string list" where
  "docker_command img r c =
     [''docker'', ''run'', ''--rm'', ''--network=none'', ''--read-only'', ''--user=10001:10001'', ''--cap-drop=ALL'',
      ''--security-opt=no-new-privileges'', ''--cpus='' @ cpu_count (resources r),
      ''--memory='' @ nat_text (memory_mb (resources r)) @ ''m'', ''--pids-limit='' @ nat_text (pid_limit (resources r)),
      ''--mount'', ''type=bind,src='' @ location_text (sb_workspace r) @ '',dst=/workspace'', ''--workdir=/workspace'',
      img, sc_executable c] @ sc_arguments c"

record fly_machine =
  fm_image :: string
  fm_memory_mb :: nat
  fm_cpu :: string
  fm_network :: string
  fm_task_id :: string

definition fly_create ::
  "(fly_machine \<Rightarrow> 's \<Rightarrow> string \<times> 's) \<Rightarrow> string list \<Rightarrow> string \<Rightarrow> sandbox_record \<Rightarrow> 's
   \<Rightarrow> (sandbox_error + string) \<times> 's" where
  "fly_create transport images img r s =
     (if img \<notin> set images then (Inl Image_denied, s)
      else case transport \<lparr>fm_image = img, fm_memory_mb = memory_mb (resources r), fm_cpu = cpu_count (resources r),
             fm_network = ''deny'', fm_task_id = sb_task_id r\<rparr> s of (m, s') \<Rightarrow> (Inr m, s'))"

subsection \<open>Redaction\<close>

definition secret_keywords :: "string list" where
  "secret_keywords = [''token'', ''secret'', ''password'']"

text \<open>A match of the keyword, an equals sign and one character that is not white space.\<close>

definition keyword_here :: "string \<Rightarrow> string \<Rightarrow> bool" where
  "keyword_here s kw \<longleftrightarrow> lower (take (length kw) s) = kw
     \<and> (case drop (length kw) s of e # v # _ \<Rightarrow> e = CHR ''='' \<and> \<not> py_space v | _ \<Rightarrow> False)"

definition secret_at :: "string \<Rightarrow> nat option" where
  "secret_at s = map_option (\<lambda>kw. Suc (length kw)) (find (keyword_here s) secret_keywords)"

function redact :: "string \<Rightarrow> string" where
  "redact s = (case s of [] \<Rightarrow> []
     | c # cs \<Rightarrow> (case secret_at s of
         None \<Rightarrow> c # redact cs
       | Some k \<Rightarrow> take k s @ ''[REDACTED]'' @ redact (dropWhile (\<lambda>x. \<not> py_space x) (drop k s))))"
  by pat_completeness auto
termination
proof (relation "measure length")
  fix s c cs k
  assume "s = c # cs" "secret_at s = Some k"
  then have "length (drop k s) < length s" by (auto simp: secret_at_def)
  moreover have "length (dropWhile (\<lambda>x. \<not> py_space x) (drop k s)) \<le> length (drop k s)"
    by (rule length_dropWhile_le)
  ultimately show "(dropWhile (\<lambda>x. \<not> py_space x) (drop k s), s) \<in> measure length" by simp
qed auto

declare redact.simps [simp del]

lemma redact_Nil [simp]: "redact [] = []"
  by (simp add: redact.simps)

lemma redact_Cons: "redact (c # cs) = (case secret_at (c # cs) of None \<Rightarrow> c # redact cs
    | Some k \<Rightarrow> take k (c # cs) @ ''[REDACTED]'' @ redact (dropWhile (\<lambda>x. \<not> py_space x) (drop k (c # cs))))"
  by (subst redact.simps) simp

lemma secret_at_split:
  assumes "secret_at s = Some k"
  shows "\<exists>kw w v rest. kw \<in> set secret_keywords \<and> lower w = kw \<and> k = Suc (length w) \<and> s = w @ CHR ''='' # v # rest
    \<and> \<not> py_space v"
proof -
  obtain kw where kw: "find (keyword_here s) secret_keywords = Some kw" "k = Suc (length kw)"
    using assms by (auto simp: secret_at_def)
  then have k: "keyword_here s kw" "kw \<in> set secret_keywords" using find_SomeD by fastforce+
  then obtain v rest where d: "drop (length kw) s = CHR ''='' # v # rest" "\<not> py_space v"
    by (auto simp: keyword_here_def split: list.splits)
  have "length (take (length kw) s) = length kw"
    using k(1) by (metis keyword_here_def length_lower)
  then show ?thesis
    using k d kw(2) append_take_drop_id [of "length kw" s] unfolding keyword_here_def by metis
qed

lemma secret_atI:
  assumes "lower w \<in> set secret_keywords" "\<not> py_space v"
  shows "secret_at (w @ CHR ''='' # v # rest) \<noteq> None"
proof -
  have "keyword_here (w @ CHR ''='' # v # rest) (lower w)" using assms by (simp add: keyword_here_def)
  then show ?thesis using assms(1) by (auto simp: secret_at_def find_None_iff)
qed

lemma lower_no_equals: "lower w \<in> set secret_keywords \<Longrightarrow> CHR ''='' \<notin> set w"
proof
  assume "lower w \<in> set secret_keywords" "CHR ''='' \<in> set w"
  then have "lower_char CHR ''='' \<in> set (lower w)" by (simp add: lower_def)
  with \<open>lower w \<in> set secret_keywords\<close> show False by (auto simp: secret_keywords_def lower_char_def)
qed

text \<open>Redaction keeps the text up to the first equals sign, and what follows it stays a value.\<close>

lemma redact_hd: "redact s = y # ys \<Longrightarrow> \<exists>cs. s = y # cs"
  by (cases s) (auto simp: redact_Cons dest!: secret_at_split split: option.splits list.splits
      simp: append_eq_Cons_conv)

lemma same_before: "\<lbrakk>x @ a # u = y @ a # v; a \<notin> set x; a \<notin> set y\<rbrakk> \<Longrightarrow> x = y"
proof (induction x arbitrary: y)
  case Nil
  then show ?case by (cases y) auto
next
  case (Cons b x)
  then show ?case by (cases y) auto
qed

lemma redact_before_equals:
  "\<lbrakk>redact s = x @ CHR ''='' # y # ys; CHR ''='' \<notin> set x; \<not> py_space y\<rbrakk>
   \<Longrightarrow> \<exists>z zs. s = x @ CHR ''='' # z # zs \<and> \<not> py_space z"
proof (induction s arbitrary: x)
  case (Cons c cs)
  show ?case
  proof (cases "secret_at (c # cs)")
    case None
    show ?thesis
    proof (cases x)
      case Nil
      then show ?thesis using Cons.prems None redact_hd [of cs y ys] by (auto simp: redact_Cons)
    next
      case (Cons d x')
      then show ?thesis using Cons.prems Cons.IH [of x'] None by (auto simp: redact_Cons)
    qed
  next
    case (Some k)
    then obtain w v rest where s: "lower w \<in> set secret_keywords" "k = Suc (length w)"
        "c # cs = w @ CHR ''='' # v # rest" "\<not> py_space v"
      using secret_at_split by blast
    have "w @ CHR ''='' # ''[REDACTED]'' @ redact (dropWhile (\<lambda>x. \<not> py_space x) (v # rest)) = x @ CHR ''='' # y # ys"
      using redact_Cons [of c cs] Cons.prems(1) unfolding Some by (simp add: s(2-4))
    moreover have "CHR ''='' \<notin> set w" by (rule lower_no_equals [OF s(1)])
    ultimately have "w = x" using Cons.prems(2) same_before by metis
    then show ?thesis using s by blast
  qed
qed simp

text \<open>No keyword is followed by a value other than the mark.\<close>

fun sealed :: "string \<Rightarrow> bool" where
  "sealed [] = True"
| "sealed (c # cs) = ((case secret_at (c # cs) of None \<Rightarrow> True
     | Some k \<Rightarrow> takeWhile (\<lambda>x. \<not> py_space x) (drop k (c # cs)) = ''[REDACTED]'') \<and> sealed cs)"

lemma secret_at_first:
  "secret_at (c # cs) \<noteq> None \<Longrightarrow> lower_char c \<in> {CHR ''t'', CHR ''s'', CHR ''p''}"
  by (auto dest!: secret_at_split simp: secret_keywords_def lower_def Cons_eq_append_conv lower_char_def)

lemma secret_at_second:
  "secret_at (c # d # cs) \<noteq> None \<Longrightarrow> (lower_char c, lower_char d) \<in> {(CHR ''t'', CHR ''o''), (CHR ''s'', CHR ''e''), (CHR ''p'', CHR ''a'')}"
  by (auto dest!: secret_at_split simp: secret_keywords_def lower_def Cons_eq_append_conv lower_char_def)

lemma mark_letters:
  "lower_char CHR ''['' = CHR ''[''" "lower_char CHR ''R'' = CHR ''r''" "lower_char CHR ''E'' = CHR ''e''"
  "lower_char CHR ''D'' = CHR ''d''" "lower_char CHR ''A'' = CHR ''a''" "lower_char CHR ''C'' = CHR ''c''"
  "lower_char CHR ''T'' = CHR ''t''" "lower_char CHR '']'' = CHR '']''" "lower_char CHR ''='' = CHR ''=''"
  by code_simp+

lemma no_secret:
  "lower_char c \<notin> {CHR ''t'', CHR ''s'', CHR ''p''} \<Longrightarrow> secret_at (c # cs) = None"
  "(lower_char c, lower_char d) \<notin> {(CHR ''t'', CHR ''o''), (CHR ''s'', CHR ''e''), (CHR ''p'', CHR ''a'')}
   \<Longrightarrow> secret_at (c # d # cs) = None"
  using secret_at_first secret_at_second by blast+

lemma sealed_mark: "sealed r \<Longrightarrow> sealed (''[REDACTED]'' @ r)"
  by (simp add: no_secret mark_letters)

lemma sealed_keyword:
  assumes "lower w \<in> set secret_keywords" "sealed (''[REDACTED]'' @ r)" "\<forall>x xs. r = x # xs \<longrightarrow> py_space x"
  shows "sealed (w @ CHR ''='' # ''[REDACTED]'' @ r)"
proof -
  have val: "takeWhile (\<lambda>x. \<not> py_space x) (''[REDACTED]'' @ r) = ''[REDACTED]''"
    using assms(3) by (cases r) (simp_all add: py_space_def)
  have head: "secret_at (w @ CHR ''='' # CHR ''['' # rest) = Some (Suc (length w))" for rest
    using assms(1) by (auto simp: secret_at_def secret_keywords_def keyword_here_def lower_def py_space_def)
  have tail: "sealed (CHR ''='' # ''[REDACTED]'' @ r)"
    using assms(2) by (simp add: no_secret mark_letters)
  obtain a b where w: "w = a # b" using assms(1) by (cases w) (auto simp: secret_keywords_def lower_def)
  have "sealed (b @ CHR ''='' # ''[REDACTED]'' @ r)"
    using assms(1) tail unfolding w
    by (auto simp: secret_keywords_def lower_def no_secret mark_letters map_eq_Cons_conv)
  then show ?thesis using head val unfolding w by simp
qed

lemma redact_space_first: "\<lbrakk>redact s = x # xs; \<forall>c cs. s = c # cs \<longrightarrow> py_space c\<rbrakk> \<Longrightarrow> py_space x"
  using redact_hd by blast

lemma sealed_redact: "sealed (redact s)"
proof (induction s rule: redact.induct)
  case (1 s)
  show ?case
  proof (cases s)
    case (Cons c cs)
    show ?thesis
    proof (cases "secret_at s")
      case None
      have "secret_at (c # redact cs) = None"
      proof (rule ccontr)
        assume "secret_at (c # redact cs) \<noteq> None"
        then obtain w v rest where w: "lower w \<in> set secret_keywords" "c # redact cs = w @ CHR ''='' # v # rest" "\<not> py_space v"
          using secret_at_split by blast
        then obtain b where b: "w = c # b" "redact cs = b @ CHR ''='' # v # rest"
          by (cases w) (auto simp: secret_keywords_def lower_def)
        from redact_before_equals [OF b(2) _ w(3)] lower_no_equals [OF w(1)] b(1)
        obtain z zs where "s = w @ CHR ''='' # z # zs" "\<not> py_space z" by (auto simp: Cons)
        then show False using None secret_atI [OF w(1)] by simp
      qed
      then show ?thesis using 1 None by (simp add: Cons redact_Cons)
    next
      case (Some k)
      then obtain w v rest where w: "lower w \<in> set secret_keywords" "k = Suc (length w)" "s = w @ CHR ''='' # v # rest"
        using secret_at_split by blast
      define r where "r = redact (dropWhile (\<lambda>x. \<not> py_space x) (drop k s))"
      have sealed_r: "sealed r" unfolding r_def using 1 Some Cons by simp
      have "\<forall>x xs. r = x # xs \<longrightarrow> py_space x"
        unfolding r_def using redact_space_first by (metis hd_dropWhile list.distinct(1) list.sel(1))
      from sealed_keyword [OF w(1) sealed_mark [OF sealed_r] this]
      have "sealed (w @ CHR ''='' # ''[REDACTED]'' @ r)" .
      moreover have "redact s = take k s @ ''[REDACTED]'' @ r"
        using Some redact_Cons [of c cs] by (simp add: Cons r_def)
      ultimately show ?thesis using w(2,3) by simp
    qed
  qed simp
qed

text \<open>The promise in terms of the output alone: a word, an equals sign, and what follows up to the next white space.\<close>

definition hides_secrets :: "string \<Rightarrow> bool" where
  "hides_secrets out \<longleftrightarrow> (\<forall>before word value. out = before @ word @ ''='' @ value \<longrightarrow>
     lower word \<in> {''token'', ''secret'', ''password''} \<longrightarrow> takeWhile (\<lambda>x. \<not> py_space x) value \<in> {[], ''[REDACTED]''})"

lemma secret_at_here:
  assumes "lower w \<in> set secret_keywords" "\<not> py_space v"
  shows "secret_at (w @ CHR ''='' # v # rest) = Some (Suc (length w))"
proof -
  obtain k where k: "secret_at (w @ CHR ''='' # v # rest) = Some k" using secret_atI [OF assms] by blast
  then obtain x u t where x: "lower x \<in> set secret_keywords" "k = Suc (length x)" "w @ CHR ''='' # v # rest = x @ CHR ''='' # u # t"
    using secret_at_split by blast
  from same_before [OF x(3) lower_no_equals [OF assms(1)] lower_no_equals [OF x(1)]] show ?thesis using k x(2) by simp
qed

lemma sealed_suffix: "sealed (before @ s) \<Longrightarrow> sealed s"
  by (induction before) simp_all

lemma sealed_hides: "sealed out \<Longrightarrow> hides_secrets out"
  unfolding hides_secrets_def
proof (intro allI impI)
  fix before word val
  assume s: "sealed out" "out = before @ word @ ''='' @ val" "lower word \<in> {''token'', ''secret'', ''password''}"
  then have w: "lower word \<in> set secret_keywords" by (simp add: secret_keywords_def)
  show "takeWhile (\<lambda>x. \<not> py_space x) val \<in> {[], ''[REDACTED]''}"
  proof (cases "\<exists>v rest. val = v # rest \<and> \<not> py_space v")
    case True
    then obtain v rest where v: "val = v # rest" "\<not> py_space v" by blast
    have "sealed (word @ CHR ''='' # v # rest)" using s sealed_suffix [of before] v(1) by simp
    moreover obtain c cs where c: "word @ CHR ''='' # v # rest = c # cs" by (cases word) auto
    moreover note secret_at_here [OF w v(2), of rest]
    ultimately have "takeWhile (\<lambda>x. \<not> py_space x) (drop (Suc (length word)) (c # cs)) = ''[REDACTED]''"
      by (simp only: sealed.simps option.case)
    then show ?thesis unfolding c [symmetric] v(1) by simp
  next
    case False
    then show ?thesis by (cases val) auto
  qed
qed

lemma redact_hides: "hides_secrets (redact s)"
  by (rule sealed_hides [OF sealed_redact])

lemma redact_keeps:
  "\<forall>before word val. s = before @ word @ ''='' @ val \<longrightarrow> lower word \<in> {''token'', ''secret'', ''password''} \<longrightarrow>
     takeWhile (\<lambda>x. \<not> py_space x) val = [] \<Longrightarrow> redact s = s"
proof (induction s)
  case (Cons c cs)
  have "secret_at (c # cs) = None"
  proof (rule ccontr)
    assume "secret_at (c # cs) \<noteq> None"
    then obtain w v rest where w: "lower w \<in> set secret_keywords" "c # cs = w @ CHR ''='' # v # rest" "\<not> py_space v"
      using secret_at_split by blast
    then have "c # cs = [] @ w @ ''='' @ (v # rest)" "lower w \<in> {''token'', ''secret'', ''password''}"
      by (simp_all add: secret_keywords_def)
    then have "takeWhile (\<lambda>x. \<not> py_space x) (v # rest) = []" using Cons.prems by blast
    then show False using w(3) by simp
  qed
  moreover have "redact cs = cs"
    by (rule Cons.IH) (metis Cons.prems append_Cons)
  ultimately show ?case by (simp add: redact_Cons)
qed simp

text \<open>
  C6. Redaction leaves no secret value: in the redacted output, wherever one of the words token, secret or password, in
  any case, and an equals sign stand before a value, that value up to the next white space is exactly the mark,
  whatever the command printed; and an output with no such value comes back unchanged.
\<close>

theorem redact_hides_secrets:
  "(\<forall>before word val. redact s = before @ word @ ''='' @ val \<longrightarrow> lower word \<in> {''token'', ''secret'', ''password''} \<longrightarrow>
      takeWhile (\<lambda>x. \<not> py_space x) val \<in> {[], ''[REDACTED]''})
   \<and> ((\<forall>before word val. s = before @ word @ ''='' @ val \<longrightarrow> lower word \<in> {''token'', ''secret'', ''password''} \<longrightarrow>
      takeWhile (\<lambda>x. \<not> py_space x) val = []) \<longrightarrow> redact s = s)"
  using redact_hides [of s] redact_keeps [of s] unfolding hides_secrets_def by blast

theorem redact_hides_secrets_witness:
  "redact ''Token=abc x'' = ''Token=[REDACTED] x'' \<and> takeWhile (\<lambda>x. \<not> py_space x) ''[REDACTED] x'' = ''[REDACTED]''"
proof -
  have run: "redact ''Token=abc x'' = [] @ ''Token'' @ ''='' @ ''[REDACTED] x''" by code_simp
  have word: "lower ''Token'' \<in> {''token'', ''secret'', ''password''}" by code_simp
  have "takeWhile (\<lambda>x. \<not> py_space x) ''[REDACTED] x'' \<in> {[], ''[REDACTED]''}"
    using conjunct1 [OF redact_hides_secrets [of "''Token=abc x''"]] run word by blast
  moreover have "takeWhile (\<lambda>x. \<not> py_space x) ''[REDACTED] x'' \<noteq> []" by code_simp
  ultimately show ?thesis using run by simp
qed

subsection \<open>Running a command\<close>

text \<open>\<open>re.search\<close> of the secret words in a variable's name, in any case.\<close>

definition looks_secret :: "string \<Rightarrow> bool" where
  "looks_secret key \<longleftrightarrow> list_ex (\<lambda>w. sublist (lower w) (lower key))
     [''TOKEN'', ''SECRET'', ''PASSWORD'', ''PRIVATE_KEY'', ''CREDENTIAL'']"

lemma looks_secret_words:
  "\<not> looks_secret k \<Longrightarrow> w \<in> {''token'', ''secret'', ''password'', ''private_key'', ''credential''} \<Longrightarrow> \<not> sublist w (lower k)"
proof -
  have words: "lower ''TOKEN'' = ''token''" "lower ''SECRET'' = ''secret''" "lower ''PASSWORD'' = ''password''"
    "lower ''PRIVATE_KEY'' = ''private_key''" "lower ''CREDENTIAL'' = ''credential''" by code_simp+
  show "\<not> looks_secret k \<Longrightarrow> w \<in> {''token'', ''secret'', ''password'', ''private_key'', ''credential''} \<Longrightarrow> ?thesis"
    by (auto simp: looks_secret_def words)
qed

record command_runner =
  cr_filesystem :: filesystem_policy
  allowed_executables :: "string list"
  allowed_environment :: "string list"

text \<open>How the process group ended: its output, the timeout, or the cancellation event first.\<close>

datatype process_end =
    Exited "int option" string string seconds | Timed_out_after | Cancelled_first | Spawn_failed

datatype command_error = Command_refused sandbox_error | Command_timeout | Command_cancelled | Command_os_error

fun build_environment ::
  "command_runner \<Rightarrow> (string \<times> string) list \<Rightarrow> (string \<times> string) list \<Rightarrow> (string \<times> string) list option" where
  "build_environment r [] env = Some env"
| "build_environment r ((k, v) # rest) env =
     (if k \<notin> set (allowed_environment r) \<or> looks_secret k then None
      else build_environment r rest (AList.update k v env))"

definition process_result_of ::
  "(string \<Rightarrow> string) \<Rightarrow> structured_command \<Rightarrow> int option \<Rightarrow> string \<Rightarrow> string \<Rightarrow> seconds \<Rightarrow> process_result" where
  "process_result_of decode c code out err elapsed =
     (let limit = min (output_limit c) 10000000 in
      \<lparr>exit_code = (case code of None \<Rightarrow> 0 | Some k \<Rightarrow> k),
       pr_stdout = redact (decode (take limit out)), pr_stderr = redact (decode (take limit err)),
       truncated = (length out > limit \<or> length err > limit), duration_seconds = elapsed\<rparr>)"

definition finish_command ::
  "(string \<Rightarrow> string) \<Rightarrow> structured_command \<Rightarrow> process_end \<times> filesystem
   \<Rightarrow> (command_error + process_result) \<times> filesystem" where
  "finish_command decode c ended = (case ended of
     (Exited code out err elapsed, fs') \<Rightarrow> (Inr (process_result_of decode c code out err elapsed), fs')
   | (Timed_out_after, fs') \<Rightarrow> (Inl Command_timeout, fs')
   | (Cancelled_first, fs') \<Rightarrow> (Inl Command_cancelled, fs')
   | (Spawn_failed, fs') \<Rightarrow> (Inl Command_os_error, fs'))"

definition run_command ::
  "nat \<Rightarrow> command_runner \<Rightarrow> string \<Rightarrow> (string \<Rightarrow> string)
   \<Rightarrow> (string \<Rightarrow> string list \<Rightarrow> location \<Rightarrow> (string \<times> string) list \<Rightarrow> filesystem \<Rightarrow> process_end \<times> filesystem)
   \<Rightarrow> structured_command \<Rightarrow> filesystem \<Rightarrow> (command_error + process_result) \<times> filesystem" where
  "run_command n r path decode spawn c fs =
     (if path_name (sc_executable c) \<notin> set (allowed_executables r)
        then (Inl (Command_refused Executable_denied), fs)
      else case resolve n (cr_filesystem r) fs (working_directory c) False False of
        Inl e \<Rightarrow> (Inl (Command_refused e), fs)
      | Inr working \<Rightarrow> (case build_environment r (sc_environment c) [(''PATH'', path)] of
          None \<Rightarrow> (Inl (Command_refused Environment_denied), fs)
        | Some env \<Rightarrow>
            if network_required c then (Inl (Command_refused Network_denied), fs)
            else finish_command decode c (spawn (sc_executable c) (sc_arguments c) working env fs)))"

lemma build_environment_keys:
  "build_environment r vars env = Some env' \<Longrightarrow>
     fst ` set env' \<subseteq> fst ` set env \<union> {k \<in> set (allowed_environment r). \<not> looks_secret k}"
proof (induction vars arbitrary: env)
  case (Cons kv vars)
  obtain k v where kv: "kv = (k, v)" by fastforce
  then have step: "k \<in> set (allowed_environment r)" "\<not> looks_secret k"
      "build_environment r vars (AList.update k v env) = Some env'"
    using Cons.prems by (simp_all split: if_splits)
  from Cons.IH [OF step(3)] step(1,2) show ?case by (auto simp: dom_update)
qed simp

text \<open>A refused command changes nothing; any other one is a single process.\<close>

lemma command_refused_keeps:
  "run_command n r path decode spawn c fs = (Inl (Command_refused e), fs') \<Longrightarrow> fs' = fs"
  by (auto simp: run_command_def finish_command_def split: if_splits sum.splits option.splits process_end.splits prod.splits)

lemma run_command_started:
  assumes "run_command n r path decode spawn c fs = (result, fs')" "\<forall>e. result \<noteq> Inl (Command_refused e)"
  shows "\<exists>working env home. path_name (sc_executable c) \<in> set (allowed_executables r) \<and> \<not> network_required c
    \<and> resolve n (cr_filesystem r) fs (working_directory c) False False = Inr working
    \<and> build_environment r (sc_environment c) [(''PATH'', path)] = Some env
    \<and> (result, fs') = finish_command decode c (spawn (sc_executable c) (sc_arguments c) working env fs)
    \<and> plain fs working \<and> real_path n fs (workspace (cr_filesystem r)) = Some home \<and> prefix home working"
proof -
  obtain working env where run: "path_name (sc_executable c) \<in> set (allowed_executables r)"
      "resolve n (cr_filesystem r) fs (working_directory c) False False = Inr working"
      "build_environment r (sc_environment c) [(''PATH'', path)] = Some env" "\<not> network_required c"
    using assms by (auto simp: run_command_def split: if_splits sum.splits option.splits)
  moreover have "(result, fs') = finish_command decode c (spawn (sc_executable c) (sc_arguments c) working env fs)"
    using assms run by (simp add: run_command_def)
  moreover obtain home where "real_path n fs (workspace (cr_filesystem r)) = Some home" "prefix home working"
    using run(2) by (auto simp: resolve_def Let_def split: if_splits option.splits node.splits)
  ultimately show ?thesis using resolve_plain [OF run(2)] by blast
qed


definition sample_command :: structured_command where
  "sample_command = \<lparr>sc_executable = ''/bin/git'', sc_arguments = [''status''], working_directory = ''.'',
     sc_environment = [], timeout_seconds = 300, sc_stdin = None, output_limit = 1000000, network_required = False\<rparr>"

definition sample_runner :: command_runner where
  "sample_runner = \<lparr>cr_filesystem = sample_policy, allowed_executables = [''git''], allowed_environment = []\<rparr>"


subsection \<open>The tool registry\<close>

datatype tool_risk = TR_READ | TR_WRITE | TR_EXECUTE | TR_DELIVERY

record 'e registered_tool =
  tool_name :: string
  tool_version :: string
  tool_risk :: tool_risk
  required_permission :: string
  approval_required :: bool
  tool_network :: bool
  tool_executor :: 'e

type_synonym 'e tool_registry = "'e registered_tool list"

definition same_key :: "'e registered_tool \<Rightarrow> string \<Rightarrow> string \<Rightarrow> bool" where
  "same_key t name version \<longleftrightarrow> tool_name t = name \<and> tool_version t = version"

definition register :: "'e registered_tool \<Rightarrow> 'e tool_registry \<Rightarrow> 'e tool_registry option" where
  "register tool tools = (if list_ex (\<lambda>t. same_key t (tool_name tool) (tool_version tool)) tools then None
     else Some (tools @ [tool]))"

definition registered :: "'e tool_registry \<Rightarrow> (string \<times> string) list" where
  "registered tools = sorted_set (map (\<lambda>t. (tool_name t, tool_version t)) tools)"

record 'a tool_request =
  rq_name :: string
  rq_version :: string
  rq_arguments :: 'a
  rq_approval :: "string option"

record tool_evidence =
  te_tool :: string
  te_version :: string
  te_input_hash :: digest
  te_output_hash :: digest
  te_summary :: string
  te_success :: bool

datatype 'x call_error =
    Unknown_tool | Permission_denied | Needs_approval | Network_requirement_denied | Invalid_arguments
  | Tool_failed 'x

text \<open>
  What a registry is used with: the validation of the arguments, the run of an executor, the
  serialisations of input and output, the name of the result's type, and the hash.
\<close>

record ('e, 'a, 'v, 'r, 'x, 's) tool_world =
  tw_validate :: "'e \<Rightarrow> 'a \<Rightarrow> 'v option"
  tw_run :: "'e \<Rightarrow> 'v \<Rightarrow> 's \<Rightarrow> ('x + 'r) \<times> 's"
  tw_input_json :: "'v \<Rightarrow> string"
  tw_output_json :: "'r \<Rightarrow> string"
  tw_type_name :: "'r \<Rightarrow> string"
  tw_hash :: "string \<Rightarrow> digest"

definition execute_tool ::
  "('e, 'a, 'v, 'r, 'x, 's) tool_world \<Rightarrow> 'e tool_registry \<Rightarrow> 'a tool_request \<Rightarrow> string list \<Rightarrow> bool \<Rightarrow> 's
   \<Rightarrow> ('x call_error + 'r \<times> tool_evidence) \<times> 's" where
  "execute_tool W tools rq permissions network_allowed s =
     (case find (\<lambda>t. same_key t (rq_name rq) (rq_version rq)) tools of
        None \<Rightarrow> (Inl Unknown_tool, s)
      | Some tool \<Rightarrow>
          if required_permission tool \<notin> set permissions then (Inl Permission_denied, s)
          else if approval_required tool \<and> str_or (rq_approval rq) [] = [] then (Inl Needs_approval, s)
          else if tool_network tool \<and> \<not> network_allowed then (Inl Network_requirement_denied, s)
          else case tw_validate W (tool_executor tool) (rq_arguments rq) of
            None \<Rightarrow> (Inl Invalid_arguments, s)
          | Some v \<Rightarrow> (case tw_run W (tool_executor tool) v s of
              (Inl x, s') \<Rightarrow> (Inl (Tool_failed x), s')
            | (Inr r, s') \<Rightarrow> (Inr (r, \<lparr>te_tool = tool_name tool, te_version = tool_version tool,
                te_input_hash = tw_hash W (tw_input_json W v), te_output_hash = tw_hash W (tw_output_json W r),
                te_summary = tool_name tool @ '' returned '' @ tw_type_name W r, te_success = True\<rparr>), s')))"

subsection \<open>The built-in tools\<close>

datatype builtin =
    B_read_file | B_list_directory | B_search_code | B_apply_patch | B_run_command | B_git_status | B_git_diff
  | B_prepare_pull_request

definition builtin_tool ::
  "string \<Rightarrow> tool_risk \<Rightarrow> string \<Rightarrow> bool \<Rightarrow> builtin \<Rightarrow> builtin registered_tool" where
  "builtin_tool name risk permission approval b = \<lparr>tool_name = name, tool_version = ''1'', tool_risk = risk,
     required_permission = permission, approval_required = approval, tool_network = False, tool_executor = b\<rparr>"

definition builtin_list :: "builtin registered_tool list" where
  "builtin_list =
     [builtin_tool ''read_file'' TR_READ ''workspace:read'' False B_read_file,
      builtin_tool ''list_directory'' TR_READ ''workspace:read'' False B_list_directory,
      builtin_tool ''search_code'' TR_READ ''workspace:read'' False B_search_code,
      builtin_tool ''apply_patch'' TR_WRITE ''workspace:write'' True B_apply_patch,
      builtin_tool ''run_command'' TR_EXECUTE ''command:execute'' True B_run_command,
      builtin_tool ''run_tests'' TR_EXECUTE ''tests:execute'' False B_run_command,
      builtin_tool ''git_status'' TR_READ ''workspace:read'' False B_git_status,
      builtin_tool ''git_diff'' TR_READ ''workspace:read'' False B_git_diff,
      builtin_tool ''prepare_pull_request'' TR_DELIVERY ''pull_request:prepare'' True B_prepare_pull_request]"

fun register_all :: "'e registered_tool list \<Rightarrow> 'e tool_registry \<Rightarrow> 'e tool_registry option" where
  "register_all [] tools = Some tools"
| "register_all (t # ts) tools = Option.bind (register t tools) (register_all ts)"

definition builtin_registry :: "builtin tool_registry option" where
  "builtin_registry = register_all builtin_list []"

definition git_command :: "string list \<Rightarrow> string \<Rightarrow> structured_command" where
  "git_command args dir = \<lparr>sc_executable = ''git'', sc_arguments = args, working_directory = dir, sc_environment = [],
     timeout_seconds = 300, sc_stdin = None, output_limit = 1000000, network_required = False\<rparr>"

definition git_status :: "string \<Rightarrow> structured_command" where
  "git_status dir = git_command [''status'', ''--short''] dir"

definition git_diff :: "string \<Rightarrow> structured_command" where
  "git_diff dir = git_command [''diff'', ''--no-ext-diff'', ''--''] dir"

lemma builtin_registry_list: "builtin_registry = Some builtin_list"
  by (simp add: builtin_registry_def builtin_list_def builtin_tool_def register_def same_key_def)

lemma execute_tool_granted:
  assumes "execute_tool W tools rq permissions network s = (result, s')"
    and "s' \<noteq> s \<or> (\<exists>out. result = Inr out)"
  shows "\<exists>tool \<in> set tools. same_key tool (rq_name rq) (rq_version rq) \<and> required_permission tool \<in> set permissions
    \<and> (approval_required tool \<longrightarrow> str_or (rq_approval rq) [] \<noteq> []) \<and> (tool_network tool \<longrightarrow> network)"
  using assms
  by (auto simp: execute_tool_def split: option.splits if_splits dest: find_SomeD)

text \<open>
  Effects need a permission. A call of a built-in tool that changes anything or returns a
  result is for one of the registered tools and carries its permission; a caller who may
  only read the workspace can only run tools of the reading kind; and writing a patch, running a command or preparing a pull
  request happens only with a non-empty approval identifier.
\<close>

theorem builtin_effects_need_permission:
  assumes "builtin_registry = Some tools" and "execute_tool W tools rq permissions network s = (result, s')"
    and "s' \<noteq> s \<or> (\<exists>out. result = Inr out)"
  shows "\<exists>tool \<in> set tools. same_key tool (rq_name rq) (rq_version rq) \<and> required_permission tool \<in> set permissions
    \<and> (set permissions \<subseteq> {''workspace:read''} \<longrightarrow> tool_risk tool = TR_READ)
    \<and> (tool_executor tool = B_apply_patch \<or> tool_executor tool = B_prepare_pull_request
        \<or> (tool_executor tool = B_run_command \<and> ''tests:execute'' \<notin> set permissions)
        \<longrightarrow> str_or (rq_approval rq) [] \<noteq> [])"
proof -
  have tools: "tools = builtin_list" using assms(1) builtin_registry_list by (metis option.inject)
  obtain tool where t: "tool \<in> set tools" "same_key tool (rq_name rq) (rq_version rq)"
      "required_permission tool \<in> set permissions" "approval_required tool \<longrightarrow> str_or (rq_approval rq) [] \<noteq> []"
    using execute_tool_granted [OF assms(2,3)] by blast
  have "(set permissions \<subseteq> {''workspace:read''} \<longrightarrow> tool_risk tool = TR_READ)
    \<and> (tool_executor tool = B_apply_patch \<or> tool_executor tool = B_prepare_pull_request
        \<or> (tool_executor tool = B_run_command \<and> ''tests:execute'' \<notin> set permissions)
        \<longrightarrow> str_or (rq_approval rq) [] \<noteq> [])"
    using t(1,3,4) unfolding tools by (auto simp: builtin_list_def builtin_tool_def)
  then show ?thesis using t(1-3) by blast
qed

definition read_request :: "unit tool_request" where
  "read_request = \<lparr>rq_name = ''read_file'', rq_version = ''1'', rq_arguments = (), rq_approval = None\<rparr>"

definition unit_world :: "(builtin, unit, unit, unit, unit, nat) tool_world" where
  "unit_world = \<lparr>tw_validate = (\<lambda>e a. Some ()), tw_run = (\<lambda>e v s. (Inr (), s)), tw_input_json = (\<lambda>v. ''{}''),
     tw_output_json = (\<lambda>r. ''null''), tw_type_name = (\<lambda>r. ''NoneType''), tw_hash = id\<rparr>"

theorem builtin_effects_need_permission_witness:
  "\<exists>out. execute_tool unit_world builtin_list read_request [''workspace:read''] False 0 = (Inr out, 0)
   \<and> (\<exists>tool \<in> set builtin_list. same_key tool ''read_file'' ''1'' \<and> tool_risk tool = TR_READ)"
proof -
  have run: "execute_tool unit_world builtin_list read_request [''workspace:read''] False 0
     = (Inr ((), \<lparr>te_tool = ''read_file'', te_version = ''1'', te_input_hash = ''{}'', te_output_hash = ''null'',
          te_summary = ''read_file returned NoneType'', te_success = True\<rparr>), 0)"
    by (simp add: execute_tool_def builtin_list_def builtin_tool_def same_key_def read_request_def unit_world_def)
  from builtin_effects_need_permission [OF builtin_registry_list run] run show ?thesis
    by (auto simp: read_request_def)
qed

text \<open>
  The approval is only a text: whether any approval was given to this identifier is never asked,
  so every non-empty identifier opens the same tools.
\<close>

lemma any_text_is_an_approval:
  assumes "x \<noteq> []" "y \<noteq> []"
  shows "execute_tool W tools (rq\<lparr>rq_approval := Some x\<rparr>) permissions network s
    = execute_tool W tools (rq\<lparr>rq_approval := Some y\<rparr>) permissions network s"
  using assms by (simp add: execute_tool_def split: option.split)

end
