(* ===== verification/Py_Json.thy ===== *)
theory Py_Json
  imports Prelude "HOL-Library.Sublist"
begin

text \<open>
  Decoded JSON and Python's ways of reading it, whole numbers in text, and the constant-time comparison
  of two texts: what the provider, webhook and gateway code uses of the standard library.
\<close>

subsection \<open>Decoded JSON\<close>

datatype json = JNull | JBool bool | JInt int | JReal real | JStr string | JList "json list" | JObj "(string \<times> json) list"

text \<open>
  Reading a value of the wrong shape raises: \<open>Shape_error\<close> for a \<open>KeyError\<close>, \<open>IndexError\<close>,
  \<open>TypeError\<close> or \<open>ValueError\<close>, \<open>Attribute_error\<close> for a method the value does not have.
\<close>

datatype py_error = Shape_error | Attribute_error

fun item_key :: "json \<Rightarrow> string \<Rightarrow> py_error + json" where
  "item_key (JObj kvs) k = (case map_of kvs k of None \<Rightarrow> Inl Shape_error | Some v \<Rightarrow> Inr v)"
| "item_key _ k = Inl Shape_error"

fun item_first :: "json \<Rightarrow> py_error + json" where
  "item_first (JList (x # xs)) = Inr x"
| "item_first (JStr (c # cs)) = Inr (JStr [c])"
| "item_first _ = Inl Shape_error"

text \<open>\<open>x.get(k, d)\<close> exists on objects only.\<close>

fun get_key :: "json \<Rightarrow> string \<Rightarrow> json \<Rightarrow> py_error + json" where
  "get_key (JObj kvs) k d = Inr (case map_of kvs k of None \<Rightarrow> d | Some v \<Rightarrow> v)"
| "get_key _ k d = Inl Attribute_error"

text \<open>\<open>k in x\<close>, and iteration.\<close>

fun contains_key :: "json \<Rightarrow> string \<Rightarrow> py_error + bool" where
  "contains_key (JObj kvs) k = Inr (map_of kvs k \<noteq> None)"
| "contains_key (JList xs) k = Inr (JStr k \<in> set xs)"
| "contains_key (JStr s) k = Inr (sublist k s)"
| "contains_key _ k = Inl Shape_error"

fun iterate_json :: "json \<Rightarrow> py_error + json list" where
  "iterate_json (JList xs) = Inr xs"
| "iterate_json (JObj kvs) = Inr (map (\<lambda>(k, v). JStr k) kvs)"
| "iterate_json (JStr s) = Inr (map (\<lambda>c. JStr [c]) s)"
| "iterate_json _ = Inl Shape_error"

text \<open>Truth of a value; whether it can be a member of a set.\<close>

fun truthy :: "json \<Rightarrow> bool" where
  "truthy JNull = False"
| "truthy (JBool b) = b"
| "truthy (JInt n) = (n \<noteq> 0)"
| "truthy (JReal r) = (r \<noteq> 0)"
| "truthy (JStr s) = (s \<noteq> [])"
| "truthy (JList xs) = (xs \<noteq> [])"
| "truthy (JObj kvs) = (kvs \<noteq> [])"

fun hashable :: "json \<Rightarrow> bool" where
  "hashable (JList xs) = False"
| "hashable (JObj kvs) = False"
| "hashable _ = True"

text \<open>\<open>int(x)\<close>; a text of decimal digits, single underscores between them, with an optional sign, white space around dropped.\<close>

definition digit :: "char \<Rightarrow> bool" where
  "digit c \<longleftrightarrow> CHR ''0'' \<le> c \<and> c \<le> CHR ''9''"

definition digits_value :: "string \<Rightarrow> int" where
  "digits_value s = foldl (\<lambda>n c. 10 * n + (int (of_char c) - 48)) 0 s"

fun digit_groups :: "string \<Rightarrow> bool" where
  "digit_groups [c] \<longleftrightarrow> digit c"
| "digit_groups (c # d # cs) \<longleftrightarrow> digit c \<and> (if d = CHR ''_'' then digit_groups cs else digit_groups (d # cs))"
| "digit_groups [] \<longleftrightarrow> False"

definition int_of_text :: "string \<Rightarrow> py_error + int" where
  "int_of_text s = (let t = strip s; body = (if take 1 t = ''-'' \<or> take 1 t = ''+'' then tl t else t) in
     if digit_groups body
       then Inr ((if take 1 t = ''-'' then -1 else 1) * digits_value (filter digit body))
     else Inl Shape_error)"

fun int_of_json :: "json \<Rightarrow> py_error + int" where
  "int_of_json (JInt n) = Inr n"
| "int_of_json (JBool b) = Inr (if b then 1 else 0)"
| "int_of_json (JReal r) = Inr (if r < 0 then \<lceil>r\<rceil> else \<lfloor>r\<rfloor>)"
| "int_of_json (JStr s) = int_of_text s"
| "int_of_json _ = Inl Shape_error"

definition after :: "'e + 'a \<Rightarrow> ('a \<Rightarrow> 'e + 'b) \<Rightarrow> 'e + 'b" where
  "after x f = (case x of Inl e \<Rightarrow> Inl e | Inr a \<Rightarrow> f a)"

lemma after_simps [simp]: "after (Inl e) f = Inl e" "after (Inr a) f = f a"
  by (simp_all add: after_def)

text \<open>
  \<open>float(s)\<close>: digits with an optional point and exponent, or the names of the infinities and of no number. The
  value is exact: the rounding to 53 bits is not modelled.
\<close>

datatype py_float = Finite real | Infinite bool | Not_a_number

definition number_char :: "char \<Rightarrow> bool" where
  "number_char c \<longleftrightarrow> digit c \<or> c = CHR ''_''"

definition digits_or_none :: "string \<Rightarrow> bool" where
  "digits_or_none s \<longleftrightarrow> s = [] \<or> digit_groups s"

definition exponent_of :: "string \<Rightarrow> int option" where
  "exponent_of s = (case s of
     [] \<Rightarrow> Some 0
   | e # rest \<Rightarrow> (let neg = (take 1 rest = ''-''); body = (if neg \<or> take 1 rest = ''+'' then tl rest else rest) in
       if lower [e] = ''e'' \<and> digit_groups body
       then Some ((if neg then -1 else 1) * digits_value (filter digit body)) else None))"

definition scaled :: "int \<Rightarrow> int \<Rightarrow> real" where
  "scaled n e = (if 0 \<le> e then of_int n * 10 ^ nat e else of_int n / 10 ^ nat (- e))"

definition float_of_text :: "string \<Rightarrow> py_error + py_float" where
  "float_of_text s =
     (let t = strip s; neg = (take 1 t = ''-''); body = (if neg \<or> take 1 t = ''+'' then tl t else t) in
      if lower body \<in> {''inf'', ''infinity''} then Inr (Infinite neg)
      else if lower body = ''nan'' then Inr Not_a_number
      else let whole = takeWhile number_char body; rest = dropWhile number_char body;
               point = (take 1 rest = ''.'');
               part = (if point then takeWhile number_char (tl rest) else []);
               tail = (if point then dropWhile number_char (tl rest) else rest) in
        (case exponent_of tail of
           Some e \<Rightarrow>
             if digits_or_none whole \<and> digits_or_none part \<and> (whole \<noteq> [] \<or> part \<noteq> [])
             then Inr (Finite ((if neg then -1 else 1)
               * scaled (digits_value (filter digit (whole @ part))) (e - int (length (filter digit part)))))
             else Inl Shape_error
         | None \<Rightarrow> Inl Shape_error))"

text \<open>
  \<open>str(x)\<close> of a decoded value; numbers with a fraction and containers are shown by \<open>repr\<close>, which is a parameter.
\<close>

fun json_text :: "(json \<Rightarrow> string) \<Rightarrow> json \<Rightarrow> string" where
  "json_text rep JNull = ''None''"
| "json_text rep (JBool b) = (if b then ''True'' else ''False'')"
| "json_text rep (JInt n) = int_text n"
| "json_text rep (JStr s) = s"
| "json_text rep j = rep j"

subsection \<open>Encoding\<close>

text \<open>The number of bytes of \<open>s.encode()\<close>.\<close>

definition utf8_size :: "string \<Rightarrow> nat" where
  "utf8_size s = sum_list (map (\<lambda>c. if c < CHR 0x80 then 1 else 2) s)"

lemma utf8_size_bounds: "length s \<le> utf8_size s \<and> utf8_size s \<le> 2 * length s"
  by (induction s) (auto simp: utf8_size_def)

text \<open>\<open>json.dumps\<close> of a text, with its default of writing everything outside printable ASCII as an escape.\<close>

definition hex_digit :: "nat \<Rightarrow> char" where
  "hex_digit n = char_of (if n < 10 then 48 + n else 87 + n)"

definition json_escape :: "char \<Rightarrow> string" where
  "json_escape c = (let n = (of_char c :: nat) in
     if n = 34 then [CHR 0x5C, CHR 0x22]
     else if n = 92 then [CHR 0x5C, CHR 0x5C]
     else if n = 8 then [CHR 0x5C, CHR ''b'']
     else if n = 9 then [CHR 0x5C, CHR ''t'']
     else if n = 10 then [CHR 0x5C, CHR ''n'']
     else if n = 12 then [CHR 0x5C, CHR ''f'']
     else if n = 13 then [CHR 0x5C, CHR ''r'']
     else if 32 \<le> n \<and> n \<le> 126 then [c]
     else CHR 0x5C # ''u00'' @ [hex_digit (n div 16), hex_digit (n mod 16)])"

definition json_quoted :: "string \<Rightarrow> string" where
  "json_quoted s = CHR 0x22 # concat (map json_escape s) @ [CHR 0x22]"

text \<open>\<open>base64.urlsafe_b64encode\<close> with the padding taken off.\<close>

fun sextets :: "nat list \<Rightarrow> nat list" where
  "sextets (a # b # c # rest) =
     a div 4 # (a mod 4 * 16 + b div 16) # (b mod 16 * 4 + c div 64) # c mod 64 # sextets rest"
| "sextets [a, b] = [a div 4, a mod 4 * 16 + b div 16, b mod 16 * 4]"
| "sextets [a] = [a div 4, a mod 4 * 16]"
| "sextets [] = []"

definition b64url_char :: "nat \<Rightarrow> char" where
  "b64url_char n = (if n < 26 then char_of (65 + n) else if n < 52 then char_of (71 + n)
     else if n < 62 then char_of (n - 4) else if n = 62 then CHR ''-'' else CHR ''_'')"

definition b64url :: "string \<Rightarrow> string" where
  "b64url s = map b64url_char (sextets (map of_char s))"

lemma b64url_char_no_dot: "n < 64 \<Longrightarrow> b64url_char n \<noteq> CHR ''.''"
proof -
  assume "n < 64"
  then consider "n < 26" | "26 \<le> n" "n < 52" | "52 \<le> n" "n < 62" | "n = 62" | "n = 63" by linarith
  then have "(of_char (b64url_char n) :: nat) \<noteq> 46"
    by cases (simp_all add: b64url_char_def)
  then show ?thesis by auto
qed

lemma sextets_bound: "\<forall>a \<in> set xs. a < 256 \<Longrightarrow> n \<in> set (sextets xs) \<Longrightarrow> n < 64"
  by (induction xs rule: sextets.induct) (auto simp: less_mult_imp_div_less)

lemma of_char_bound: "(of_char c :: nat) < 256"
  using of_char_mod_256 [of c, where 'a = nat] mod_less_divisor [of 256 "of_char c :: nat"] by simp

lemma b64url_no_dot: "CHR ''.'' \<notin> set (b64url s)"
proof
  assume "CHR ''.'' \<in> set (b64url s)"
  then obtain n where n: "n \<in> set (sextets (map of_char s))" "CHR ''.'' = b64url_char n"
    by (auto simp: b64url_def)
  have "\<forall>a \<in> set (map of_char s). (a :: nat) < 256"
    by (auto intro: of_char_bound)
  then have "n < 64" using n(1) by (rule sextets_bound)
  then show False using n(2) b64url_char_no_dot [of n] by simp
qed

subsection \<open>Comparing secrets\<close>

text \<open>\<open>compare_digest\<close> of two texts raises when one of them is not ASCII.\<close>

definition compare_digest :: "string \<Rightarrow> string \<Rightarrow> bool option" where
  "compare_digest a b = (if list_all (\<lambda>c. c < CHR 0x80) a \<and> list_all (\<lambda>c. c < CHR 0x80) b then Some (a = b) else None)"

end
