(* ===== verification/Providers.thy ===== *)
theory Providers
  imports Retry Py_Json
begin

text \<open>
  Model providers: the circuit breaker
  (\<open>providers/resilience.py\<close>), and the two HTTP providers (\<open>providers/gemini.py\<close>,
  \<open>providers/qwen.py\<close>). The HTTP client is a parameter: what a request ended with.
\<close>

subsection \<open>Requests and responses\<close>

record model_message =
  mm_role :: string
  mm_content :: string

record model_request =
  mq_messages :: "model_message list"
  mq_system :: "string option"
  mq_temperature :: real
  mq_max_output :: int

record model_response =
  mr_provider :: string
  mr_model :: string
  mr_text :: string
  mr_request_id :: "string option"
  mr_input_tokens :: int
  mr_output_tokens :: int
  mr_tool_calls :: json
  mr_structured :: "json option"

definition ProviderError :: "provider_failure \<Rightarrow> string \<Rightarrow> bool \<Rightarrow> provider_error" where
  "ProviderError t m r = \<lparr>failure_type = t, pe_message = m, pe_retryable = r, pe_retry_after = None\<rparr>"

subsection \<open>The circuit breaker\<close>

datatype circuit_state = C_CLOSED | C_OPEN | C_HALF_OPEN

record circuit_breaker =
  failure_threshold :: int
  recovery_seconds :: seconds
  cb_state :: circuit_state
  cb_failures :: int
  opened_at :: "instant option"

definition CircuitBreaker :: "int \<Rightarrow> seconds \<Rightarrow> circuit_breaker" where
  "CircuitBreaker threshold recovery = \<lparr>failure_threshold = threshold, recovery_seconds = recovery,
     cb_state = C_CLOSED, cb_failures = 0, opened_at = None\<rparr>"

definition cb_allow :: "instant \<Rightarrow> circuit_breaker \<Rightarrow> bool \<times> circuit_breaker" where
  "cb_allow now b =
     (if cb_state b = C_OPEN then
        (if opened_at b \<noteq> None \<and> now - the (opened_at b) \<ge> recovery_seconds b
           then (True, b\<lparr>cb_state := C_HALF_OPEN\<rparr>) else (False, b))
      else (True, b))"

definition cb_success :: "circuit_breaker \<Rightarrow> circuit_breaker" where
  "cb_success b = b\<lparr>cb_state := C_CLOSED, cb_failures := 0, opened_at := None\<rparr>"

definition cb_failure :: "instant \<Rightarrow> circuit_breaker \<Rightarrow> circuit_breaker" where
  "cb_failure now b = (let n = cb_failures b + 1 in
     if n \<ge> failure_threshold b then b\<lparr>cb_failures := n, cb_state := C_OPEN, opened_at := Some now\<rparr>
     else b\<lparr>cb_failures := n\<rparr>)"

datatype cb_event = CB_allow instant | CB_success | CB_failure instant

fun cb_step :: "cb_event \<Rightarrow> circuit_breaker \<Rightarrow> circuit_breaker" where
  "cb_step (CB_allow now) b = snd (cb_allow now b)"
| "cb_step CB_success b = cb_success b"
| "cb_step (CB_failure now) b = cb_failure now b"

text \<open>A closed breaker is below its threshold, an open or half-open one is not and knows when it opened.\<close>

definition cb_ok :: "circuit_breaker \<Rightarrow> bool" where
  "cb_ok b \<longleftrightarrow> 0 \<le> cb_failures b
     \<and> (cb_state b = C_CLOSED \<longrightarrow> cb_failures b < failure_threshold b)
     \<and> (cb_state b \<noteq> C_CLOSED \<longrightarrow> failure_threshold b \<le> cb_failures b \<and> opened_at b \<noteq> None)"

interpretation breaker: kept_by cb_step "\<lambda>b. cb_ok b \<and> failure_threshold b = n \<and> 0 < n"
proof
  fix b e
  assume "cb_ok b \<and> failure_threshold b = n \<and> 0 < n"
  then show "cb_ok (cb_step e b) \<and> failure_threshold (cb_step e b) = n \<and> 0 < n"
    by (cases e) (auto simp: cb_ok_def cb_allow_def cb_success_def cb_failure_def Let_def)
qed

lemma cb_failures_since: "cb_failures (fold cb_step (map CB_failure ts) b) = cb_failures b + int (length ts)"
  by (induction ts arbitrary: b) (simp_all add: cb_failure_def Let_def)

lemma cb_opened_last: "cb_failure now b = b' \<Longrightarrow> cb_state b' = C_OPEN \<Longrightarrow> cb_state b \<noteq> C_OPEN \<Longrightarrow> opened_at b' = Some now"
  by (auto simp: cb_failure_def Let_def split: if_splits)

text \<open>
  The circuit breaker opens and stays open long enough: whatever happened before, when
  as many failures as the threshold follow one another the breaker refuses every
  call until the recovery time since the last of them has passed; and from half-open a
  single failure opens it again.
\<close>

theorem breaker_opens_and_recovers:
  assumes "0 < n" and "b = fold cb_step es (CircuitBreaker n recovery)"
    and "n \<le> int (length ts) \<or> (cb_state b = C_HALF_OPEN \<and> ts \<noteq> [])"
  shows "\<forall>now. fst (cb_allow now (fold cb_step (map CB_failure ts) b)) \<longleftrightarrow> now - last ts \<ge> recovery"
proof -
  let ?b = "fold cb_step (map CB_failure ts) b"
  have "cb_ok (CircuitBreaker n recovery) \<and> failure_threshold (CircuitBreaker n recovery) = n \<and> 0 < n"
    using assms(1) by (simp add: CircuitBreaker_def cb_ok_def)
  then have ok: "cb_ok b \<and> failure_threshold b = n \<and> 0 < n"
    unfolding assms(2) by (rule breaker.run_keeps)
  have step: "recovery_seconds (cb_step e c) = recovery_seconds c" for e c
    by (cases e) (simp_all add: cb_allow_def cb_success_def cb_failure_def Let_def)
  have rec: "recovery_seconds (fold cb_step es c) = recovery_seconds c" for es c
    by (induction es arbitrary: c) (simp_all add: step)
  have "ts \<noteq> []" using assms(1,3) by auto
  then obtain us t where ts: "ts = us @ [t]" by (metis append_butlast_last_id)
  let ?c = "fold cb_step (map CB_failure us) b"
  have c: "?b = cb_failure t ?c" by (simp add: ts)
  have cok: "cb_ok ?c \<and> failure_threshold ?c = n"
    using breaker.run_keeps [OF ok] by simp
  have "n \<le> cb_failures ?c + 1"
    using assms(3) ok cb_failures_since [of us b] by (auto simp: ts cb_ok_def)
  then have "cb_state ?b = C_OPEN \<and> opened_at ?b = Some t" using cok by (simp add: c cb_failure_def Let_def)
  moreover have "recovery_seconds ?b = recovery" using rec assms(2) by (simp add: CircuitBreaker_def)
  ultimately show ?thesis by (simp add: cb_allow_def ts)
qed

theorem breaker_opens_and_recovers_witness:
  "\<not> fst (cb_allow 40 (fold cb_step (map CB_failure [1, 2, 20]) (CircuitBreaker 3 30)))
   \<and> fst (cb_allow 50 (fold cb_step (map CB_failure [1, 2, 20]) (CircuitBreaker 3 30)))"
  using breaker_opens_and_recovers [of 3 "CircuitBreaker 3 30" "[]" 30 "[1, 2, 20]"] by simp

subsection \<open>The HTTP providers\<close>

record http_reply =
  hr_status :: int
  hr_retry_after :: "string option"
  hr_request_id :: "string option"
  hr_text :: string
  hr_json :: "json option"

datatype http_end = Http_timeout | Http_failed | Http_reply http_reply

text \<open>
  The surroundings of a provider: a post to a path with a body under a timeout, the cancellation
  event, the monotonic clock, and sleeping.
\<close>

record 's net =
  net_post :: "string \<Rightarrow> json \<Rightarrow> seconds \<Rightarrow> 's \<Rightarrow> http_end \<times> 's"
  net_cancelled :: "'s \<Rightarrow> bool"
  net_clock :: "'s \<Rightarrow> instant"
  net_sleep :: "seconds \<Rightarrow> 's \<Rightarrow> 's"

definition classify_status :: "http_reply \<Rightarrow> provider_error" where
  "classify_status r =
     (let retry_seconds = (case hr_retry_after r of
            Some t \<Rightarrow> if t \<noteq> [] \<and> list_all digit t then Some (real_of_int (digits_value t)) else None
          | None \<Rightarrow> None) in
      if hr_status r = 401 then ProviderError PF_AUTHENTICATION ''Provider authentication failed'' False
      else if hr_status r = 403 then ProviderError PF_PERMISSION ''Provider permission denied'' False
      else if hr_status r = 429 then
        (ProviderError (if sublist ''quota'' (lower (hr_text r)) then PF_QUOTA else PF_RATE_LIMIT)
           ''Provider capacity limit exceeded'' True)\<lparr>pe_retry_after := retry_seconds\<rparr>
      else if hr_status r \<ge> 500 then ProviderError PF_SERVER ''Provider service unavailable'' True
      else ProviderError PF_SERVER ''Provider request rejected'' False)"

text \<open>What a call raises: a provider error, or an error of the code itself (a missing method).\<close>

datatype call_failure = Provider_failure provider_error | Code_failure

definition effective_timeout :: "seconds option \<Rightarrow> seconds \<Rightarrow> seconds" where
  "effective_timeout deadline limit =
     (case deadline of Some d \<Rightarrow> if d = 0 then limit else min d limit | None \<Rightarrow> limit)"

record gemini =
  g_name :: string
  g_models :: "string list"
  g_key :: string
  g_project :: string
  g_timeout :: seconds
  g_retries :: int
  g_circuit :: circuit_breaker
  g_active :: int
  g_requests :: int
  g_failures :: int
  g_latency :: seconds
  g_input :: int
  g_output :: int

definition gemini_payload :: "model_request \<Rightarrow> json" where
  "gemini_payload q = JObj
     ([(''contents'', JList (map (\<lambda>m. JObj [(''role'', JStr (mm_role m)),
          (''parts'', JList [JObj [(''text'', JStr (mm_content m))]])]) (mq_messages q))),
       (''generationConfig'', JObj [(''temperature'', JReal (mq_temperature q)), (''maxOutputTokens'', JInt (mq_max_output q))])]
      @ (if str_or (mq_system q) [] \<noteq> [] then
           [(''systemInstruction'', JObj [(''parts'', JList [JObj [(''text'', JStr (str_or (mq_system q) []))]])])] else []))"

text \<open>The texts of the parts, joined; a part that is not a text raises.\<close>

fun joined_text :: "json list \<Rightarrow> py_error + string" where
  "joined_text [] = Inr []"
| "joined_text (p # ps) = after (contains_key p ''text'') (\<lambda>has.
     if has then after (item_key p ''text'') (\<lambda>v. case v of
         JStr t \<Rightarrow> after (joined_text ps) (\<lambda>rest. Inr (t @ rest))
       | _ \<Rightarrow> Inl Shape_error)
     else joined_text ps)"

datatype body_reading = Read_text string int int | Rejected_content

definition read_gemini :: "json \<Rightarrow> py_error + body_reading" where
  "read_gemini body =
     after (item_key body ''candidates'') (\<lambda>cs. after (item_first cs) (\<lambda>candidate.
     after (get_key candidate ''finishReason'' JNull) (\<lambda>reason.
       if \<not> hashable reason then Inl Shape_error
       else if reason = JStr ''SAFETY'' \<or> reason = JStr ''PROHIBITED_CONTENT'' then Inr Rejected_content
       else after (item_key candidate ''content'') (\<lambda>content. after (item_key content ''parts'') (\<lambda>parts.
         after (iterate_json parts) (\<lambda>ps. after (joined_text ps) (\<lambda>t.
           if t = [] then Inl Shape_error
           else after (get_key body ''usageMetadata'' (JObj [])) (\<lambda>usage.
             after (get_key usage ''promptTokenCount'' (JInt 0)) (\<lambda>i. after (int_of_json i) (\<lambda>inp.
             after (get_key usage ''candidatesTokenCount'' (JInt 0)) (\<lambda>o1. after (int_of_json o1) (\<lambda>out.
               Inr (Read_text t inp out)))))))))))))"

definition gemini_answer ::
  "'s net \<Rightarrow> instant \<Rightarrow> string \<Rightarrow> http_reply \<Rightarrow> gemini \<Rightarrow> 's \<Rightarrow> (call_failure + model_response) \<times> gemini" where
  "gemini_answer N started model r g s =
     (if hr_status r \<ge> 400 then (Inl (Provider_failure (classify_status r)), g)
      else case (case hr_json r of None \<Rightarrow> Inl Shape_error | Some body \<Rightarrow> read_gemini body) of
        Inl Shape_error \<Rightarrow> (Inl (Provider_failure (ProviderError PF_MALFORMED_OUTPUT ''Gemini returned malformed output'' False)), g)
      | Inl Attribute_error \<Rightarrow> (Inl Code_failure, g)
      | Inr Rejected_content \<Rightarrow>
          (Inl (Provider_failure (ProviderError PF_CONTENT_POLICY ''Gemini content policy rejected the request'' False)), g)
      | Inr (Read_text t inp out) \<Rightarrow>
          if inp < 0 \<or> out < 0 then
            (Inl Code_failure, g\<lparr>g_requests := g_requests g + 1, g_input := g_input g + inp, g_output := g_output g + out,
               g_latency := g_latency g + (net_clock N s - started), g_circuit := cb_success (g_circuit g)\<rparr>)
          else (Inr \<lparr>mr_provider = g_name g, mr_model = model, mr_text = t, mr_request_id = hr_request_id r,
             mr_input_tokens = inp, mr_output_tokens = out, mr_tool_calls = JList [], mr_structured = None\<rparr>,
           g\<lparr>g_requests := g_requests g + 1, g_input := g_input g + inp, g_output := g_output g + out,
             g_latency := g_latency g + (net_clock N s - started), g_circuit := cb_success (g_circuit g)\<rparr>))"

definition gemini_try ::
  "'s net \<Rightarrow> model_request \<Rightarrow> string \<Rightarrow> seconds \<Rightarrow> gemini \<Rightarrow> 's \<Rightarrow> (call_failure + model_response) \<times> gemini \<times> 's" where
  "gemini_try N q model timeout g s =
     (case net_post N (''/models/'' @ model @ '':generateContent'') (gemini_payload q) timeout s of
        (Http_timeout, s1) \<Rightarrow> (Inl (Provider_failure (ProviderError PF_TIMEOUT ''Gemini request timed out'' True)), g, s1)
      | (Http_failed, s1) \<Rightarrow> (Inl (Provider_failure (ProviderError PF_CONNECTION ''Gemini connection failed'' True)), g, s1)
      | (Http_reply r, s1) \<Rightarrow> (case gemini_answer N (net_clock N s) model r g s1 of (result, g1) \<Rightarrow> (result, g1, s1)))"

text \<open>The attempts of one call; \<open>left\<close> counts the retries that remain.\<close>

fun gemini_attempts ::
  "'s net \<Rightarrow> model_request \<Rightarrow> string \<Rightarrow> seconds \<Rightarrow> nat \<Rightarrow> gemini \<Rightarrow> 's
   \<Rightarrow> (call_failure + model_response) \<times> gemini \<times> 's" where
  "gemini_attempts N q model timeout left g s =
     (if net_cancelled N s then (Inl (Provider_failure (ProviderError PF_CANCELLATION ''Request cancelled'' False)), g, s)
      else
        case gemini_try N q model timeout g s of (result, g1, s1) \<Rightarrow>
          (case result of
             Inr response \<Rightarrow> (Inr response, g1, s1)
           | Inl Code_failure \<Rightarrow> (Inl Code_failure, g1, s1)
           | Inl (Provider_failure e) \<Rightarrow>
               let g2 = g1\<lparr>g_failures := g_failures g1 + 1\<rparr> in
               if pe_retryable e then (case left of
                   0 \<Rightarrow> (Inl (Provider_failure e), g2\<lparr>g_circuit := cb_failure (net_clock N s1) (g_circuit g2)\<rparr>, s1)
                 | Suc k \<Rightarrow> gemini_attempts N q model timeout k g2
                     (net_sleep N (case pe_retry_after e of None \<Rightarrow> 0 | Some t \<Rightarrow> t) s1))
               else (Inl (Provider_failure e), g2\<lparr>g_circuit := cb_failure (net_clock N s1) (g_circuit g2)\<rparr>, s1)))"

declare gemini_attempts.simps [simp del]

definition gemini_generate ::
  "'s net \<Rightarrow> model_request \<Rightarrow> string \<Rightarrow> seconds option \<Rightarrow> gemini \<Rightarrow> 's
   \<Rightarrow> (call_failure + model_response) \<times> gemini \<times> 's" where
  "gemini_generate N q model deadline g s =
     (if g_key g = [] then (Inl (Provider_failure (ProviderError PF_AUTHENTICATION ''Gemini key is not configured'' False)), g, s)
      else if model \<notin> set (g_models g)
        then (Inl (Provider_failure (ProviderError PF_UNKNOWN_MODEL ''Gemini model is not pinned'' False)), g, s)
      else case cb_allow (net_clock N s) (g_circuit g) of (allowed, circuit) \<Rightarrow>
        let g1 = g\<lparr>g_circuit := circuit\<rparr> in
        if \<not> allowed then (Inl (Provider_failure (ProviderError PF_SERVER ''Gemini circuit is open'' True)), g1, s)
        else if g_retries g < 0 then (Inl (Provider_failure (ProviderError PF_SERVER ''Gemini failed'' True)), g1, s)
        else gemini_attempts N q model (effective_timeout deadline (g_timeout g)) (nat (g_retries g)) g1 s)"

definition cancellation :: provider_error where
  "cancellation = ProviderError PF_CANCELLATION ''Request cancelled'' False"

lemma gemini_answer_effect:
  "gemini_answer N t model r g s = (result, g') \<Longrightarrow>
     g_failures g' = g_failures g \<and> g_retries g' = g_retries g
     \<and> (\<forall>resp. result = Inr resp \<longrightarrow> mr_model resp = model \<and> mr_provider resp = g_name g \<and> mr_text resp \<noteq> []
          \<and> 0 \<le> mr_input_tokens resp \<and> 0 \<le> mr_output_tokens resp
          \<and> g_circuit g' = cb_success (g_circuit g) \<and> g_requests g' = g_requests g + 1
          \<and> g_input g' = g_input g + mr_input_tokens resp \<and> g_output g' = g_output g + mr_output_tokens resp)
     \<and> (\<forall>e. result = Inl (Provider_failure e) \<longrightarrow> g' = g \<and> e \<noteq> cancellation)"
  by (auto simp: gemini_answer_def read_gemini_def after_def cancellation_def ProviderError_def classify_status_def Let_def
      split: if_splits option.splits sum.splits py_error.splits body_reading.splits)

lemma gemini_try_effect:
  assumes "gemini_try N q model timeout g s = (result, g1, s1)"
  shows "g_failures g1 = g_failures g \<and> g_retries g1 = g_retries g
     \<and> (\<forall>resp. result = Inr resp \<longrightarrow> mr_model resp = model \<and> mr_provider resp = g_name g \<and> mr_text resp \<noteq> []
          \<and> 0 \<le> mr_input_tokens resp \<and> 0 \<le> mr_output_tokens resp
          \<and> g_circuit g1 = cb_success (g_circuit g) \<and> g_requests g1 = g_requests g + 1
          \<and> g_input g1 = g_input g + mr_input_tokens resp \<and> g_output g1 = g_output g + mr_output_tokens resp)
     \<and> (\<forall>e. result = Inl (Provider_failure e) \<longrightarrow> g1 = g \<and> e \<noteq> cancellation)"
proof -
  obtain ended t1 where ended: "net_post N (''/models/'' @ model @ '':generateContent'') (gemini_payload q) timeout s = (ended, t1)"
    by fastforce
  show ?thesis
  proof (cases ended)
    case (Http_reply r)
    then have "gemini_answer N (net_clock N s) model r g t1 = (result, g1)"
      using assms ended by (simp add: gemini_try_def split: prod.splits)
    then show ?thesis by (rule gemini_answer_effect)
  qed (use assms ended in \<open>auto simp: gemini_try_def cancellation_def ProviderError_def\<close>)
qed

text \<open>What the attempts of one call leave behind, whatever the server does.\<close>

definition answered_well :: "string \<Rightarrow> nat \<Rightarrow> gemini \<Rightarrow> gemini \<Rightarrow> model_response \<Rightarrow> bool" where
  "answered_well model k g g' resp \<longleftrightarrow> mr_model resp = model \<and> mr_text resp \<noteq> []
     \<and> cb_state (g_circuit g') = C_CLOSED \<and> cb_failures (g_circuit g') = 0
     \<and> g_requests g' = g_requests g + 1 \<and> g_input g' = g_input g + mr_input_tokens resp
     \<and> g_output g' = g_output g + mr_output_tokens resp
     \<and> g_failures g \<le> g_failures g' \<and> g_failures g' \<le> g_failures g + int k"

definition failed_well :: "nat \<Rightarrow> gemini \<Rightarrow> gemini \<Rightarrow> provider_error \<Rightarrow> bool" where
  "failed_well k g g' e \<longleftrightarrow> g_requests g' = g_requests g \<and> g_input g' = g_input g \<and> g_output g' = g_output g
     \<and> g_failures g \<le> g_failures g' \<and> g_failures g' \<le> g_failures g + int k + 1
     \<and> (if e = cancellation then g_circuit g' = g_circuit g else \<exists>now. g_circuit g' = cb_failure now (g_circuit g))"

lemma gemini_attempts_effect:
  assumes "gemini_attempts N q model timeout left g s = (result, g', s')"
  shows "(\<forall>resp. result = Inr resp \<longrightarrow> answered_well model left g g' resp)
    \<and> (\<forall>e. result = Inl (Provider_failure e) \<longrightarrow> failed_well left g g' e)"
  using assms
proof (induction left arbitrary: g s)
  case (0 g s)
  obtain r1 g1 s1 where try1: "gemini_try N q model timeout g s = (r1, g1, s1)" by (metis prod_cases3)
  note eff = gemini_try_effect [OF try1]
  show ?case
    using 0 try1 eff
    by (cases r1; cases "net_cancelled N s")
      (auto simp: gemini_attempts.simps [where left = 0] answered_well_def failed_well_def cb_success_def cancellation_def
        Let_def split: if_splits call_failure.splits)
next
  case (Suc k)
  obtain r1 g1 s1 where try1: "gemini_try N q model timeout g s = (r1, g1, s1)" by (metis prod_cases3)
  note eff = gemini_try_effect [OF try1]
  show ?case
  proof (cases "net_cancelled N s \<or> r1 = Inl Code_failure \<or> (\<exists>resp. r1 = Inr resp)
      \<or> (\<exists>e. r1 = Inl (Provider_failure e) \<and> \<not> pe_retryable e)")
    case True
    then show ?thesis using Suc.prems try1 eff
      by (cases r1; cases "net_cancelled N s")
        (auto simp: gemini_attempts.simps [where left = "Suc k"] answered_well_def failed_well_def cb_success_def
          cancellation_def Let_def split: if_splits call_failure.splits)
  next
    case False
    then obtain e where e: "r1 = Inl (Provider_failure e)" "pe_retryable e" "\<not> net_cancelled N s"
      by (cases r1) (metis call_failure.exhaust, blast)
    define g2 where "g2 = g1\<lparr>g_failures := g_failures g1 + 1\<rparr>"
    have "gemini_attempts N q model timeout k g2 (net_sleep N (case pe_retry_after e of None \<Rightarrow> 0 | Some t \<Rightarrow> t) s1)
        = (result, g', s')"
      using Suc.prems try1 e by (simp add: gemini_attempts.simps [where left = "Suc k"] g2_def Let_def)
    from Suc.IH [OF this] eff e show ?thesis
      by (auto simp: g2_def answered_well_def failed_well_def split: if_splits)
  qed
qed

text \<open>
  A call of the Gemini provider keeps its books: a response has text, is for the asked
  model, adds its tokens and one request, and closes the circuit; a provider error adds no tokens
  and no request, at most one failure per attempt, and unless the call was
  cancelled it counts against the circuit exactly once, whatever the number of retries.
\<close>

theorem gemini_call_accounting:
  assumes "gemini_generate N q model deadline g s = (result, g', s')"
    and "g_key g \<noteq> []" "model \<in> set (g_models g)" "cb_allow (net_clock N s) (g_circuit g) = (True, circuit)" "0 \<le> g_retries g"
  shows "(\<forall>resp. result = Inr resp \<longrightarrow> answered_well model (nat (g_retries g)) g g' resp)
    \<and> (\<forall>e. result = Inl (Provider_failure e) \<longrightarrow> failed_well (nat (g_retries g)) (g\<lparr>g_circuit := circuit\<rparr>) g' e)"
proof -
  have "gemini_attempts N q model (effective_timeout deadline (g_timeout g)) (nat (g_retries g)) (g\<lparr>g_circuit := circuit\<rparr>) s
      = (result, g', s')"
    using assms by (simp add: gemini_generate_def Let_def)
  from gemini_attempts_effect [OF this] show ?thesis by (auto simp: answered_well_def)
qed

definition busy_net :: "unit net" where
  "busy_net = \<lparr>net_post = (\<lambda>path body t s. (Http_reply \<lparr>hr_status = 503, hr_retry_after = None, hr_request_id = None,
       hr_text = [], hr_json = None\<rparr>, s)),
     net_cancelled = (\<lambda>s. False), net_clock = (\<lambda>s. 5), net_sleep = (\<lambda>t s. s)\<rparr>"

definition sample_gemini :: gemini where
  "sample_gemini = \<lparr>g_name = ''gemini-a'', g_models = [''gemini-pro''], g_key = ''k'', g_project = ''p'', g_timeout = 120,
     g_retries = 2, g_circuit = CircuitBreaker 3 30, g_active = 0, g_requests = 0, g_failures = 0, g_latency = 0,
     g_input = 0, g_output = 0\<rparr>"

definition sample_query :: model_request where
  "sample_query = \<lparr>mq_messages = [\<lparr>mm_role = ''user'', mm_content = ''hi''\<rparr>], mq_system = None, mq_temperature = 0,
     mq_max_output = 8192\<rparr>"

theorem gemini_call_accounting_witness:
  "\<exists>e g'. gemini_generate busy_net sample_query ''gemini-pro'' None sample_gemini () = (Inl (Provider_failure e), g', ())
     \<and> g_failures g' = 3 \<and> cb_failures (g_circuit g') = 1"
proof -
  define g' where "g' = fst (snd (gemini_generate busy_net sample_query ''gemini-pro'' None sample_gemini ()))"
  let ?e = "ProviderError PF_SERVER ''Provider service unavailable'' True"
  note run_defs = gemini_generate_def sample_gemini_def CircuitBreaker_def cb_allow_def busy_net_def Let_def
    gemini_attempts.simps gemini_try_def gemini_answer_def classify_status_def ProviderError_def numeral_nat
  have run: "gemini_generate busy_net sample_query ''gemini-pro'' None sample_gemini () = (Inl (Provider_failure ?e), g', ())"
    by (simp add: g'_def run_defs)
  have "g_failures g' = 3" by (simp add: g'_def run_defs)
  moreover have "failed_well 2 (sample_gemini\<lparr>g_circuit := CircuitBreaker 3 30\<rparr>) g' ?e"
    using gemini_call_accounting [OF run, of "CircuitBreaker 3 30"]
    by (simp add: sample_gemini_def cb_allow_def CircuitBreaker_def)
  ultimately show ?thesis using run
    by (auto simp: failed_well_def cancellation_def ProviderError_def cb_failure_def CircuitBreaker_def Let_def split: if_splits)
qed

text \<open>
  A request whose content the policy rejects counts as a failure of the service, so a few of
  them close the provider to everybody.
\<close>

lemma rejected_content_counts_as_failure:
  assumes "net_post N (''/models/'' @ model @ '':generateContent'') (gemini_payload q) timeout s = (Http_reply r, s1)"
    and "\<not> net_cancelled N s" "hr_status r < 400" "hr_json r = Some body" "read_gemini body = Inr Rejected_content"
  shows "\<exists>g' e. gemini_attempts N q model timeout left g s = (Inl (Provider_failure e), g', s1)
    \<and> failure_type e = PF_CONTENT_POLICY \<and> g_circuit g' = cb_failure (net_clock N s1) (g_circuit g)"
  using assms
  by (auto simp: gemini_attempts.simps [where left = left] gemini_try_def gemini_answer_def ProviderError_def Let_def)

subsection \<open>The Qwen provider\<close>

record qwen =
  q_models :: "string list"
  q_base_url :: string
  q_key :: string
  q_timeout :: seconds
  q_circuit :: circuit_breaker

definition qwen_payload :: "model_request \<Rightarrow> string \<Rightarrow> json" where
  "qwen_payload q model = JObj
     [(''model'', JStr model),
      (''messages'', JList ((if str_or (mq_system q) [] \<noteq> []
           then [JObj [(''role'', JStr ''system''), (''content'', JStr (str_or (mq_system q) []))]] else [])
         @ map (\<lambda>m. JObj [(''role'', JStr (mm_role m)), (''content'', JStr (mm_content m))]) (mq_messages q))),
      (''temperature'', JReal (mq_temperature q)), (''max_tokens'', JInt (mq_max_output q)), (''stream'', JBool False)]"

text \<open>The message's text, its tool calls and the usage object.\<close>

definition read_qwen :: "json \<Rightarrow> py_error + json \<times> json \<times> json" where
  "read_qwen body =
     after (item_key body ''choices'') (\<lambda>cs. after (item_first cs) (\<lambda>choice. after (item_key choice ''message'') (\<lambda>message.
     after (get_key message ''content'' JNull) (\<lambda>c. after (get_key message ''tool_calls'' JNull) (\<lambda>tc.
       let t = (if truthy c then c else JStr []); calls = (if truthy tc then tc else JList []) in
       if \<not> truthy t \<and> \<not> truthy calls then Inl Shape_error
       else after (get_key body ''usage'' (JObj [])) (\<lambda>usage. Inr (t, calls, usage)))))))"

text \<open>The response is built outside the guarded block, with its own validation.\<close>

definition qwen_response :: "string \<Rightarrow> http_reply \<Rightarrow> json \<times> json \<times> json \<Rightarrow> model_response option" where
  "qwen_response model r parts = (case parts of (t, calls, usage) \<Rightarrow>
     (case (t, after (get_key usage ''prompt_tokens'' (JInt 0)) int_of_json,
            after (get_key usage ''completion_tokens'' (JInt 0)) int_of_json, calls) of
        (JStr txt, Inr inp, Inr out, JList cs) \<Rightarrow>
          if inp < 0 \<or> out < 0 \<or> \<not> list_all (\<lambda>c. case c of JObj kvs \<Rightarrow> True | _ \<Rightarrow> False) cs then None
          else Some \<lparr>mr_provider = ''qwen'', mr_model = model, mr_text = txt, mr_request_id = hr_request_id r,
            mr_input_tokens = inp, mr_output_tokens = out, mr_tool_calls = JList cs, mr_structured = None\<rparr>
      | _ \<Rightarrow> None))"

definition qwen_answer :: "string \<Rightarrow> http_reply \<Rightarrow> instant \<Rightarrow> qwen \<Rightarrow> (call_failure + model_response) \<times> qwen" where
  "qwen_answer model r now p =
     (if hr_status r \<ge> 400 then
        (let e = classify_status r in
         (Inl (Provider_failure e), if pe_retryable e then p\<lparr>q_circuit := cb_failure now (q_circuit p)\<rparr> else p))
      else case (case hr_json r of None \<Rightarrow> Inl Shape_error | Some body \<Rightarrow> read_qwen body) of
        Inl Shape_error \<Rightarrow> (Inl (Provider_failure (ProviderError PF_MALFORMED_OUTPUT ''Qwen returned invalid model output'' False)), p)
      | Inl Attribute_error \<Rightarrow> (Inl Code_failure, p)
      | Inr parts \<Rightarrow> (case qwen_response model r parts of
            None \<Rightarrow> (Inl Code_failure, p\<lparr>q_circuit := cb_success (q_circuit p)\<rparr>)
          | Some resp \<Rightarrow> (Inr resp, p\<lparr>q_circuit := cb_success (q_circuit p)\<rparr>)))"

definition qwen_generate ::
  "'s net \<Rightarrow> model_request \<Rightarrow> string \<Rightarrow> seconds option \<Rightarrow> qwen \<Rightarrow> 's
   \<Rightarrow> (call_failure + model_response) \<times> qwen \<times> 's" where
  "qwen_generate N q model deadline p s =
     (if q_base_url p = [] \<or> q_key p = []
        then (Inl (Provider_failure (ProviderError PF_AUTHENTICATION ''Qwen is not configured'' False)), p, s)
      else if model \<notin> set (q_models p)
        then (Inl (Provider_failure (ProviderError PF_UNKNOWN_MODEL ''Qwen model is not pinned'' False)), p, s)
      else if net_cancelled N s then (Inl (Provider_failure cancellation), p, s)
      else case cb_allow (net_clock N s) (q_circuit p) of (allowed, circuit) \<Rightarrow>
        let p1 = p\<lparr>q_circuit := circuit\<rparr> in
        if \<not> allowed then (Inl (Provider_failure (ProviderError PF_SERVER ''Qwen circuit is open'' True)), p1, s)
        else case net_post N (q_base_url p @ ''/chat/completions'') (qwen_payload q model)
                    (effective_timeout deadline (q_timeout p)) s of
          (Http_timeout, s1) \<Rightarrow> (Inl (Provider_failure (ProviderError PF_TIMEOUT ''Qwen request timed out'' True)),
             p1\<lparr>q_circuit := cb_failure (net_clock N s1) circuit\<rparr>, s1)
        | (Http_failed, s1) \<Rightarrow> (Inl (Provider_failure (ProviderError PF_CONNECTION ''Qwen connection failed'' True)),
             p1\<lparr>q_circuit := cb_failure (net_clock N s1) circuit\<rparr>, s1)
        | (Http_reply r, s1) \<Rightarrow> (case qwen_answer model r (net_clock N s1) p1 of (result, p2) \<Rightarrow> (result, p2, s1)))"

end
