(* ===== verification/Routing.thy ===== *)
theory Routing
  imports Providers
begin

text \<open>
  The model router (\<open>model_router/router.py\<close>) and its configuration
  (\<open>model_router/configuration.py\<close>). A provider is a name, its pinned models and what a call of it
  ends with in the surroundings at hand; clocks and cancellation are read there too.
\<close>

subsection \<open>Data\<close>

datatype model_role = FAST | PLANNER | EXECUTOR | BLIND_REVIEWER | SECURITY_REVIEWER | FINAL_VERIFIER | FALLBACK

definition all_roles :: "model_role list" where
  "all_roles = [FAST, PLANNER, EXECUTOR, BLIND_REVIEWER, SECURITY_REVIEWER, FINAL_VERIFIER, FALLBACK]"

fun role_value :: "model_role \<Rightarrow> string" where
  "role_value FAST = ''fast''"
| "role_value PLANNER = ''planner''"
| "role_value EXECUTOR = ''executor''"
| "role_value BLIND_REVIEWER = ''blind_reviewer''"
| "role_value SECURITY_REVIEWER = ''security_reviewer''"
| "role_value FINAL_VERIFIER = ''final_verifier''"
| "role_value FALLBACK = ''fallback''"

datatype provider_end = Answered_with model_response | Failed_with provider_error | Unavailable | Broke_down

record 's provider =
  pv_name :: string
  pv_models :: "string list option"
  pv_call :: "model_request \<Rightarrow> string \<Rightarrow> seconds option \<Rightarrow> 's \<Rightarrow> provider_end \<times> 's"

record 's route =
  rt_provider :: "'s provider"
  rt_model :: string
  input_cost :: real
  output_cost :: real
  token_budget :: int

record attempt_evidence =
  ar_role :: model_role
  ar_provider :: string
  ar_model :: string
  ar_started :: instant
  ar_latency :: seconds
  ar_outcome :: string
  ar_failure :: "string option"
  ar_input :: int
  ar_output :: int
  ar_cost :: real

record 's router =
  routes :: "(model_role \<times> 's route list) list"
  max_retries :: int
  attempts :: "attempt_evidence list"
  total_cost :: real

text \<open>The constructor with its validation.\<close>

definition route_known :: "'s route \<Rightarrow> bool" where
  "route_known r = (case pv_models (rt_provider r) of None \<Rightarrow> True | Some ms \<Rightarrow> rt_model r \<in> set ms)"

definition ModelRouter :: "(model_role \<times> 's route list) list \<Rightarrow> int \<Rightarrow> 's router option" where
  "ModelRouter rs retries =
     (if list_all (\<lambda>(role, candidates). candidates \<noteq> [] \<and> list_all route_known candidates) rs
      then Some \<lparr>routes = rs, max_retries = retries, attempts = [], total_cost = 0\<rparr> else None)"

subsection \<open>Routing a request\<close>

record 's surroundings =
  clock :: "'s \<Rightarrow> instant"
  cancelled :: "'s \<Rightarrow> bool"

datatype routing_error = Routing_failure provider_failure string bool | Routing_broke_down

definition call_cost :: "'s route \<Rightarrow> model_response \<Rightarrow> real" where
  "call_cost r resp = (real_of_int (mr_input_tokens resp) * input_cost r
     + real_of_int (mr_output_tokens resp) * output_cost r) / 1000000"

definition note_attempt ::
  "model_role \<Rightarrow> 's route \<Rightarrow> instant \<Rightarrow> instant \<Rightarrow> string \<Rightarrow> string option \<Rightarrow> int \<Rightarrow> int \<Rightarrow> real \<Rightarrow> 's router \<Rightarrow> 's router" where
  "note_attempt role r started ended outcome failure inp out cost R =
     R\<lparr>attempts := attempts R @ [\<lparr>ar_role = role, ar_provider = pv_name (rt_provider r), ar_model = rt_model r,
         ar_started = started, ar_latency = ended - started, ar_outcome = outcome, ar_failure = failure,
         ar_input = inp, ar_output = out, ar_cost = cost\<rparr>], total_cost := total_cost R + cost\<rparr>"

text \<open>A response checked against the response model, when there is one.\<close>

definition structured_result ::
  "(string \<Rightarrow> json option) option \<Rightarrow> model_response \<Rightarrow> provider_error + model_response" where
  "structured_result validate resp = (case validate of
     None \<Rightarrow> Inr resp
   | Some v \<Rightarrow> (case v (mr_text resp) of
       None \<Rightarrow> Inl (ProviderError PF_MALFORMED_OUTPUT ''Structured provider output failed validation'' False)
     | Some x \<Rightarrow> Inr (resp\<lparr>mr_structured := Some x\<rparr>)))"

datatype attempt_end = Got model_response | Stop routing_error | Retry_route string | Next_route string

definition route_label :: "'s route \<Rightarrow> string" where
  "route_label r = pv_name (rt_provider r) @ ''/'' @ rt_model r"

text \<open>One attempt; \<open>last\<close> says that no retry of this route remains.\<close>

definition attempt ::
  "'s surroundings \<Rightarrow> model_role \<Rightarrow> model_request \<Rightarrow> seconds option \<Rightarrow> (string \<Rightarrow> json option) option \<Rightarrow> instant
   \<Rightarrow> 's route \<Rightarrow> bool \<Rightarrow> 's router \<Rightarrow> 's \<Rightarrow> attempt_end \<times> 's router \<times> 's" where
  "attempt E role q deadline validate started_route r final R s =
     (if cancelled E s then (Stop (Routing_failure PF_CANCELLATION ''Routing cancelled'' False), R, s)
      else
        let remaining = map_option (\<lambda>d. d - (clock E s - started_route)) deadline in
        if (case remaining of Some t \<Rightarrow> t \<le> 0 | None \<Rightarrow> False)
          then (Stop (Routing_failure PF_TIMEOUT ''Routing deadline exceeded'' True), R, s)
        else (case pv_call (rt_provider r) q (rt_model r) remaining s of (ended, s1) \<Rightarrow>
          (case (case ended of Answered_with resp \<Rightarrow> (case structured_result validate resp of
                     Inl e \<Rightarrow> Failed_with e | Inr resp' \<Rightarrow> Answered_with resp')
                 | other \<Rightarrow> other) of
             Answered_with resp \<Rightarrow> (Got resp,
               note_attempt role r (clock E s) (clock E s1) ''success'' None (mr_input_tokens resp) (mr_output_tokens resp)
                 (call_cost r resp) R, s1)
           | Failed_with e \<Rightarrow>
               ((if \<not> pe_retryable e \<or> final then Next_route else Retry_route)
                  (route_label r @ '': '' @ provider_failure_value (failure_type e)),
                note_attempt role r (clock E s) (clock E s1) ''failure'' (Some (provider_failure_value (failure_type e))) 0 0 0 R,
                s1)
           | Unavailable \<Rightarrow> ((if final then Next_route else Retry_route) (route_label r @ '': unavailable''), R, s1)
           | Broke_down \<Rightarrow> (Stop Routing_broke_down, R, s1))))"

text \<open>The attempts on one route: \<open>left\<close> retries remain; then the routes in order.\<close>

fun route_attempts ::
  "'s surroundings \<Rightarrow> model_role \<Rightarrow> model_request \<Rightarrow> seconds option \<Rightarrow> (string \<Rightarrow> json option) option \<Rightarrow> instant
   \<Rightarrow> 's route \<Rightarrow> nat \<Rightarrow> string list \<Rightarrow> 's router \<Rightarrow> 's
   \<Rightarrow> (routing_error + model_response) option \<times> string list \<times> 's router \<times> 's" where
  "route_attempts E role q dl val t0 r left failures R s =
     (case attempt E role q dl val t0 r (left = 0) R s of
        (Got resp, R1, s1) \<Rightarrow> (Some (Inr resp), failures, R1, s1)
      | (Stop e, R1, s1) \<Rightarrow> (Some (Inl e), failures, R1, s1)
      | (Next_route m, R1, s1) \<Rightarrow> (None, failures @ [m], R1, s1)
      | (Retry_route m, R1, s1) \<Rightarrow> (case left of
            0 \<Rightarrow> (None, failures @ [m], R1, s1)
          | Suc k \<Rightarrow> route_attempts E role q dl val t0 r k (failures @ [m]) R1 s1))"

declare route_attempts.simps [simp del]

fun try_routes ::
  "'s surroundings \<Rightarrow> model_role \<Rightarrow> model_request \<Rightarrow> seconds option \<Rightarrow> (string \<Rightarrow> json option) option \<Rightarrow> instant
   \<Rightarrow> int \<Rightarrow> 's route list \<Rightarrow> bool \<Rightarrow> string list \<Rightarrow> 's router \<Rightarrow> 's
   \<Rightarrow> (routing_error + model_response) \<times> 's router \<times> 's" where
  "try_routes E role q dl val t0 retries [] exhausted failures R s =
     (Inl (Routing_failure (if exhausted then PF_BUDGET_EXHAUSTED else PF_SERVER)
        (if join_with ''; '' failures \<noteq> [] then join_with ''; '' failures
         else ''No route available for '' @ role_value role) True), R, s)"
| "try_routes E role q dl val t0 retries (r # rs) exhausted failures R s =
     (if mq_max_output q > token_budget r
        then try_routes E role q dl val t0 retries rs True (failures @ [route_label r @ '': token budget exceeded'']) R s
      else if retries < 0 then try_routes E role q dl val t0 retries rs exhausted failures R s
      else (case route_attempts E role q dl val t0 r (nat retries) failures R s of
          (Some result, fs, R1, s1) \<Rightarrow> (result, R1, s1)
        | (None, fs, R1, s1) \<Rightarrow> try_routes E role q dl val t0 retries rs exhausted fs R1 s1))"

definition route_candidates :: "'s router \<Rightarrow> model_role \<Rightarrow> 's route list" where
  "route_candidates R role = (case map_of (routes R) role of None \<Rightarrow> [] | Some rs \<Rightarrow> rs)"

definition router_generate ::
  "'s surroundings \<Rightarrow> model_role \<Rightarrow> model_request \<Rightarrow> seconds option \<Rightarrow> (string \<Rightarrow> json option) option
   \<Rightarrow> 's router \<Rightarrow> 's \<Rightarrow> (routing_error + model_response) \<times> 's router \<times> 's" where
  "router_generate E role q deadline validate R s =
     try_routes E role q deadline validate (clock E s) (max_retries R) (route_candidates R role) False [] R s"

subsection \<open>What a routed request leaves behind\<close>

text \<open>The evidence a run adds: failures on eligible routes, then perhaps the success.\<close>

definition spent :: "attempt_evidence list \<Rightarrow> real" where
  "spent as = sum_list (map ar_cost as)"

definition evidence_of :: "model_role \<Rightarrow> 's route list \<Rightarrow> attempt_evidence \<Rightarrow> bool" where
  "evidence_of role rs a \<longleftrightarrow> ar_role a = role
     \<and> (\<exists>r \<in> set rs. ar_provider a = pv_name (rt_provider r) \<and> ar_model a = rt_model r)"

definition failed_attempt :: "attempt_evidence \<Rightarrow> bool" where
  "failed_attempt a \<longleftrightarrow> ar_outcome a = ''failure'' \<and> ar_cost a = 0"

definition succeeded_with :: "'s route list \<Rightarrow> model_response \<Rightarrow> attempt_evidence \<Rightarrow> bool" where
  "succeeded_with rs resp a \<longleftrightarrow> ar_outcome a = ''success'' \<and> ar_input a = mr_input_tokens resp
     \<and> ar_output a = mr_output_tokens resp \<and> (\<exists>r \<in> set rs. ar_cost a = call_cost r resp \<and> ar_model a = rt_model r)"

text \<open>\<open>added\<close>: what a step appends, how much it spends, and that the rest of the router stays.\<close>

definition appended :: "'s router \<Rightarrow> attempt_evidence list \<Rightarrow> 's router \<Rightarrow> bool" where
  "appended R new R' \<longleftrightarrow> attempts R' = attempts R @ new \<and> total_cost R' = total_cost R + spent new
     \<and> routes R' = routes R \<and> max_retries R' = max_retries R"

lemma appended_refl [simp]: "appended R [] R"
  by (simp add: appended_def spent_def)

lemma appended_trans: "\<lbrakk>appended R a R1; appended R1 b R2\<rbrakk> \<Longrightarrow> appended R (a @ b) R2"
  by (simp add: appended_def spent_def)

text \<open>The shape of the evidence for each way a step can end.\<close>

definition ends_well :: "'s route list \<Rightarrow> attempt_evidence list \<Rightarrow> model_response option \<Rightarrow> bool" where
  "ends_well rs new answer \<longleftrightarrow> (case answer of
     None \<Rightarrow> \<forall>a \<in> set new. failed_attempt a
   | Some resp \<Rightarrow> \<exists>pre a. new = pre @ [a] \<and> (\<forall>b \<in> set pre. failed_attempt b) \<and> succeeded_with rs resp a)"

definition got :: "attempt_end \<Rightarrow> model_response option" where
  "got e = (case e of Got resp \<Rightarrow> Some resp | _ \<Rightarrow> None)"

definition answer_of :: "(routing_error + model_response) option \<Rightarrow> model_response option" where
  "answer_of x = (case x of Some (Inr resp) \<Rightarrow> Some resp | _ \<Rightarrow> None)"

lemma attempt_effect:
  assumes "attempt E role q dl val t0 r final R s = (out, R1, s1)"
  shows "(\<exists>new. appended R new R1 \<and> length new \<le> 1 \<and> (\<forall>a \<in> set new. evidence_of role [r] a) \<and> ends_well [r] new (got out))
    \<and> (final \<longrightarrow> (\<forall>m. out \<noteq> Retry_route m))"
proof -
  have none: "\<exists>new. appended R new R \<and> length new \<le> 1 \<and> (\<forall>a \<in> set new. evidence_of role [r] a) \<and> ends_well [r] new None"
    by (rule exI [of _ "[]"]) (simp add: ends_well_def)
  have success: "\<exists>new. appended R new (note_attempt role r t1 t2 ''success'' None (mr_input_tokens resp) (mr_output_tokens resp)
        (call_cost r resp) R) \<and> length new \<le> 1 \<and> (\<forall>a \<in> set new. evidence_of role [r] a) \<and> ends_well [r] new (Some resp)"
    for t1 t2 resp
    by (intro exI conjI) (auto simp: note_attempt_def appended_def spent_def evidence_of_def ends_well_def succeeded_with_def)
  have failure: "\<exists>new. appended R new (note_attempt role r t1 t2 ''failure'' f 0 0 0 R)
      \<and> length new \<le> 1 \<and> (\<forall>a \<in> set new. evidence_of role [r] a) \<and> ends_well [r] new None" for t1 t2 f
    by (intro exI conjI) (auto simp: note_attempt_def appended_def spent_def evidence_of_def ends_well_def failed_attempt_def)
  obtain ended s2 where call: "pv_call (rt_provider r) q (rt_model r) (map_option (\<lambda>d. d - (clock E s - t0)) dl) s = (ended, s2)"
    by fastforce
  show ?thesis
    using assms call none success failure
    by (cases ended)
      (auto simp: attempt_def Let_def got_def split: if_splits option.splits sum.splits)
qed

lemma ends_well_after:
  "\<lbrakk>\<forall>a \<in> set xs. failed_attempt a; ends_well rs ys ans\<rbrakk> \<Longrightarrow> ends_well rs (xs @ ys) ans"
proof (cases ans)
  case (Some resp)
  assume xs: "\<forall>a \<in> set xs. failed_attempt a" and "ends_well rs ys ans"
  then obtain pre a where "ys = pre @ [a]" "\<forall>b \<in> set pre. failed_attempt b" "succeeded_with rs resp a"
    by (auto simp: ends_well_def Some)
  then show ?thesis using xs
    by (auto simp: ends_well_def Some intro!: exI [of _ "xs @ pre"])
qed (auto simp: ends_well_def)

lemma ends_well_more: "\<lbrakk>ends_well rs ys ans; set rs \<subseteq> set rs'\<rbrakk> \<Longrightarrow> ends_well rs' ys ans"
  unfolding ends_well_def succeeded_with_def by (cases ans) (simp, fastforce)

lemma evidence_more: "\<lbrakk>evidence_of role rs a; set rs \<subseteq> set rs'\<rbrakk> \<Longrightarrow> evidence_of role rs' a"
  by (auto simp: evidence_of_def)

lemma route_attempts_effect:
  assumes "route_attempts E role q dl val t0 r left fs R s = (res, fs', R1, s1)"
  shows "\<exists>new. appended R new R1 \<and> length new \<le> Suc left \<and> (\<forall>a \<in> set new. evidence_of role [r] a)
    \<and> ends_well [r] new (answer_of res)"
  using assms
proof (induction left arbitrary: fs R s)
  case (0 fs R s)
  obtain out R2 s2 where at: "attempt E role q dl val t0 r True R s = (out, R2, s2)" by (metis prod_cases3)
  from attempt_effect [OF at] 0 at show ?case
    by (cases out) (auto simp: route_attempts.simps [where left = 0] got_def answer_of_def)
next
  case (Suc k)
  obtain out R2 s2 where at: "attempt E role q dl val t0 r False R s = (out, R2, s2)" by (metis prod_cases3)
  from attempt_effect [OF at] obtain new where new: "appended R new R2" "length new \<le> 1"
      "\<forall>a \<in> set new. evidence_of role [r] a" "ends_well [r] new (got out)" by blast
  show ?case
  proof (cases "\<exists>m. out = Retry_route m")
    case True
    then obtain m where m: "out = Retry_route m" by blast
    then have "route_attempts E role q dl val t0 r k (fs @ [m]) R2 s2 = (res, fs', R1, s1)"
      using Suc.prems at by (simp add: route_attempts.simps [where left = "Suc k"])
    from Suc.IH [OF this] obtain more where more: "appended R2 more R1" "length more \<le> Suc k"
        "\<forall>a \<in> set more. evidence_of role [r] a" "ends_well [r] more (answer_of res)" by blast
    have "ends_well [r] (new @ more) (answer_of res)"
      by (rule ends_well_after [OF _ more(4)]) (use new(4) m in \<open>simp add: ends_well_def got_def\<close>)
    then show ?thesis using new more appended_trans [OF new(1) more(1)]
      by (intro exI [of _ "new @ more"]) auto
  next
    case False
    then have "R1 = R2 \<and> answer_of res = got out" using Suc.prems at
      by (cases out) (auto simp: route_attempts.simps [where left = "Suc k"] got_def answer_of_def)
    then show ?thesis using new by auto
  qed
qed

lemma try_routes_effect:
  assumes "try_routes E role q dl val t0 retries rs ex fs R s = (res, R', s')"
  shows "\<exists>new. appended R new R' \<and> length new \<le> nat (retries + 1) * length (filter (\<lambda>r. mq_max_output q \<le> token_budget r) rs)
    \<and> (\<forall>a \<in> set new. evidence_of role (filter (\<lambda>r. mq_max_output q \<le> token_budget r) rs) a)
    \<and> ends_well (filter (\<lambda>r. mq_max_output q \<le> token_budget r) rs) new (answer_of (Some res))"
  using assms
proof (induction rs arbitrary: ex fs R s)
  case (Nil ex fs R s)
  then show ?case by (intro exI [of _ "[]"]) (auto simp: ends_well_def answer_of_def)
next
  case (Cons r rs)
  let ?ok = "\<lambda>r. mq_max_output q \<le> token_budget r"
  show ?case
  proof (cases "?ok r \<and> 0 \<le> retries")
    case False
    then obtain ex' fs' where "try_routes E role q dl val t0 retries rs ex' fs' R s = (res, R', s')"
      using Cons.prems by (cases "?ok r") auto
    from Cons.IH [OF this] obtain new where new: "appended R new R'" "length new \<le> nat (retries + 1) * length (filter ?ok rs)"
        "\<forall>a \<in> set new. evidence_of role (filter ?ok rs) a" "ends_well (filter ?ok rs) new (answer_of (Some res))" by blast
    have sub: "set (filter ?ok rs) \<subseteq> set (filter ?ok (r # rs))" by auto
    show ?thesis
      using new ends_well_more [OF new(4) sub] evidence_more [OF _ sub] by (intro exI [of _ new]) auto
  next
    case True
    obtain r1 fs1 R1 s1 where at: "route_attempts E role q dl val t0 r (nat retries) fs R s = (r1, fs1, R1, s1)"
      by (metis prod_cases4)
    from route_attempts_effect [OF at] obtain new where new: "appended R new R1" "length new \<le> Suc (nat retries)"
        "\<forall>a \<in> set new. evidence_of role [r] a" "ends_well [r] new (answer_of r1)" by blast
    have sub: "set [r] \<subseteq> set (filter ?ok (r # rs))" "set (filter ?ok rs) \<subseteq> set (filter ?ok (r # rs))"
      using True by auto
    show ?thesis
    proof (cases r1)
      case None
      then have "try_routes E role q dl val t0 retries rs ex fs1 R1 s1 = (res, R', s')" using Cons.prems True at by simp
      from Cons.IH [OF this] obtain more where more: "appended R1 more R'"
          "length more \<le> nat (retries + 1) * length (filter ?ok rs)" "\<forall>a \<in> set more. evidence_of role (filter ?ok rs) a"
          "ends_well (filter ?ok rs) more (answer_of (Some res))" by blast
      have "ends_well (filter ?ok (r # rs)) (new @ more) (answer_of (Some res))"
        by (rule ends_well_after [OF _ ends_well_more [OF more(4) sub(2)]])
          (use new(4) None in \<open>simp add: ends_well_def answer_of_def\<close>)
      moreover have "length (new @ more) \<le> nat (retries + 1) * length (filter ?ok (r # rs))"
        using new(2) more(2) True by (simp add: nat_add_distrib)
      ultimately show ?thesis
        using appended_trans [OF new(1) more(1)] new(3) more(3) evidence_more [OF _ sub(1)] evidence_more [OF _ sub(2)]
        by (intro exI [of _ "new @ more"]) auto
    next
      case (Some x)
      then have "res = x \<and> R' = R1" using Cons.prems True at by simp
      moreover have "length new \<le> nat (retries + 1) * length (filter ?ok (r # rs))"
        using new(2) True by (simp add: nat_add_distrib)
      ultimately show ?thesis
        using new ends_well_more [OF new(4) sub(1)] evidence_more [OF _ sub(1)] Some by (intro exI [of _ new]) auto
    qed
  qed
qed

text \<open>
  Routing is accounted for: a request only ever reaches routes configured for its role
  whose token budget it fits, at most once plus the retries each; every provider error on the
  way and the final success are recorded in order, the success is the last entry and names the
  route whose prices give its cost, and the router's total grows by exactly the
  recorded costs.
\<close>

theorem routed_request_accounted:
  assumes "router_generate E role q deadline validate R s = (result, R', s')"
  shows "\<exists>new. attempts R' = attempts R @ new \<and> total_cost R' = total_cost R + spent new
    \<and> length new \<le> nat (max_retries R + 1) * length (filter (\<lambda>r. mq_max_output q \<le> token_budget r) (route_candidates R role))
    \<and> (\<forall>a \<in> set new. evidence_of role (filter (\<lambda>r. mq_max_output q \<le> token_budget r) (route_candidates R role)) a)
    \<and> (case result of
         Inl _ \<Rightarrow> \<forall>a \<in> set new. failed_attempt a
       | Inr resp \<Rightarrow> \<exists>pre a. new = pre @ [a] \<and> (\<forall>b \<in> set pre. failed_attempt b)
           \<and> succeeded_with (filter (\<lambda>r. mq_max_output q \<le> token_budget r) (route_candidates R role)) resp a)"
  using try_routes_effect [OF assms [unfolded router_generate_def]]
  by (cases result) (auto simp: appended_def ends_well_def answer_of_def)

text \<open>A route that is out of capacity, then one that answers.\<close>

definition still :: "unit surroundings" where
  "still = \<lparr>clock = (\<lambda>s. 0), cancelled = (\<lambda>s. False)\<rparr>"

definition full_route :: "unit route" where
  "full_route = \<lparr>rt_provider = \<lparr>pv_name = ''qwen'', pv_models = None,
       pv_call = (\<lambda>q m d s. (Failed_with (ProviderError PF_RATE_LIMIT ''full'' True), s))\<rparr>,
     rt_model = ''qwen-max'', input_cost = 1, output_cost = 1, token_budget = 65536\<rparr>"

definition sample_answer :: model_response where
  "sample_answer = \<lparr>mr_provider = ''gemini-a'', mr_model = ''gemini-pro'', mr_text = ''ok'', mr_request_id = None,
     mr_input_tokens = 1000, mr_output_tokens = 500, mr_tool_calls = JList [], mr_structured = None\<rparr>"

definition good_route :: "unit route" where
  "good_route = \<lparr>rt_provider = \<lparr>pv_name = ''gemini-a'', pv_models = Some [''gemini-pro''],
       pv_call = (\<lambda>q m d s. (Answered_with sample_answer, s))\<rparr>,
     rt_model = ''gemini-pro'', input_cost = 2, output_cost = 4, token_budget = 65536\<rparr>"

definition sample_router :: "unit router" where
  "sample_router = \<lparr>routes = [(PLANNER, [full_route, good_route])], max_retries = 1, attempts = [], total_cost = 0\<rparr>"

theorem routed_request_accounted_witness:
  "\<exists>R'. router_generate still PLANNER sample_query None None sample_router () = (Inr sample_answer, R', ())
     \<and> length (attempts R') \<le> 4 \<and> total_cost R' = spent (attempts R') \<and> attempts R' \<noteq> []"
proof -
  define R' where "R' = fst (snd (router_generate still PLANNER sample_query None None sample_router ()))"
  have run: "router_generate still PLANNER sample_query None None sample_router () = (Inr sample_answer, R', ())"
    by (simp add: R'_def router_generate_def sample_router_def route_candidates_def full_route_def good_route_def
        sample_query_def still_def attempt_def route_attempts.simps structured_result_def ProviderError_def Let_def)
  from routed_request_accounted [OF run] obtain new where new: "attempts R' = attempts sample_router @ new"
      "total_cost R' = total_cost sample_router + spent new"
      "length new \<le> nat (max_retries sample_router + 1)
         * length (filter (\<lambda>r. mq_max_output sample_query \<le> token_budget r) (route_candidates sample_router PLANNER))"
      "new \<noteq> []" by auto
  then have "attempts R' = new" "total_cost R' = spent new" "length new \<le> 4"
    by (simp_all add: sample_router_def route_candidates_def full_route_def good_route_def sample_query_def)
  then show ?thesis using run new(4) by auto
qed

text \<open>
  An answer that fails the structured validation is recorded with no tokens and no cost, though the
  provider has already produced (and charged) it.
\<close>

lemma invalid_answer_costs_nothing:
  assumes "\<not> cancelled E s" "dl = None" "pv_call (rt_provider r) q (rt_model r) None s = (Answered_with resp, s1)"
    and "v (mr_text resp) = None"
  shows "\<exists>R1 m. attempt E role q dl (Some v) t0 r final R s = (Next_route m, R1, s1) \<and> total_cost R1 = total_cost R
    \<and> ar_input (last (attempts R1)) = 0 \<and> ar_cost (last (attempts R1)) = 0"
  using assms by (auto simp: attempt_def structured_result_def ProviderError_def note_attempt_def Let_def)

subsection \<open>Configuration\<close>

record candidate_config =
  cc_provider :: string
  cc_model :: string
  cc_input_cost :: real
  cc_output_cost :: real
  cc_token_budget :: int

record routing_config =
  rc_version :: int
  rc_routes :: "(model_role \<times> candidate_config list) list"

text \<open>The field limits of the two configuration models.\<close>

definition valid_config :: "routing_config \<Rightarrow> bool" where
  "valid_config c \<longleftrightarrow> 1 \<le> rc_version c \<and> list_all (\<lambda>(role, cs).
     list_all (\<lambda>k. 0 \<le> cc_input_cost k \<and> 0 \<le> cc_output_cost k \<and> 0 < cc_token_budget k) cs) (rc_routes c)"

definition route_of :: "'s provider \<Rightarrow> candidate_config \<Rightarrow> 's route" where
  "route_of p k = \<lparr>rt_provider = p, rt_model = cc_model k, input_cost = cc_input_cost k,
     output_cost = cc_output_cost k, token_budget = cc_token_budget k\<rparr>"

fun routes_of :: "(string \<times> 's provider) list \<Rightarrow> candidate_config list \<Rightarrow> 's route list option" where
  "routes_of providers [] = Some []"
| "routes_of providers (k # ks) = (case map_of providers (cc_provider k) of None \<Rightarrow> None
     | Some p \<Rightarrow> map_option ((#) (route_of p k)) (routes_of providers ks))"

fun all_routes_of ::
  "(string \<times> 's provider) list \<Rightarrow> (model_role \<times> candidate_config list) list \<Rightarrow> (model_role \<times> 's route list) list option" where
  "all_routes_of providers [] = Some []"
| "all_routes_of providers ((role, ks) # others) = (case routes_of providers ks of None \<Rightarrow> None
     | Some rs \<Rightarrow> map_option ((#) (role, rs)) (all_routes_of providers others))"

definition router_from_config :: "routing_config \<Rightarrow> (string \<times> 's provider) list \<Rightarrow> 's router option" where
  "router_from_config c providers = (case all_routes_of providers (rc_routes c) of
     None \<Rightarrow> None
   | Some rs \<Rightarrow> if set all_roles \<subseteq> set (map fst rs) then ModelRouter rs 0 else None)"

lemma all_routes_of_roles: "all_routes_of ps cs = Some rs \<Longrightarrow> map fst rs = map fst cs"
  by (induction ps cs arbitrary: rs rule: all_routes_of.induct) (auto split: option.splits)

lemma routes_of_parts: "\<lbrakk>routes_of ps ks = Some rs; r \<in> set rs\<rbrakk> \<Longrightarrow>
    \<exists>p k. k \<in> set ks \<and> map_of ps (cc_provider k) = Some p \<and> r = route_of p k"
  by (induction ks arbitrary: rs) (simp, fastforce split: option.splits)

lemma all_routes_of_parts:
  "\<lbrakk>all_routes_of ps cs = Some rs; (role, qs) \<in> set rs\<rbrakk> \<Longrightarrow> \<exists>ks. (role, ks) \<in> set cs \<and> routes_of ps ks = Some qs"
  by (induction cs arbitrary: rs) (simp, fastforce split: option.splits)

lemma every_role: "role \<in> set all_roles"
  by (cases role) (simp_all add: all_roles_def)

text \<open>
  A router built from a configuration serves every role: for each there is at least one
  candidate, each candidate is the configured provider under its configured name with a model this
  provider pins, and a valid configuration gives only positive budgets and no negative price.
\<close>

theorem configured_router_serves_every_role:
  assumes "router_from_config c providers = Some R" and "valid_config c"
  shows "route_candidates R role \<noteq> [] \<and> attempts R = [] \<and> total_cost R = 0
    \<and> (\<forall>r \<in> set (route_candidates R role). route_known r \<and> 0 < token_budget r \<and> 0 \<le> input_cost r \<and> 0 \<le> output_cost r
         \<and> (\<exists>ks k. (role, ks) \<in> set (rc_routes c) \<and> k \<in> set ks \<and> map_of providers (cc_provider k) = Some (rt_provider r)
              \<and> rt_model r = cc_model k))"
proof -
  obtain rs where rs: "all_routes_of providers (rc_routes c) = Some rs" "set all_roles \<subseteq> set (map fst rs)" "ModelRouter rs 0 = Some R"
    using assms(1) by (auto simp: router_from_config_def split: option.splits if_splits)
  then have R: "routes R = rs" "attempts R = []" "total_cost R = 0"
    and good: "list_all (\<lambda>(role, candidates). candidates \<noteq> [] \<and> list_all route_known candidates) rs"
    by (auto simp: ModelRouter_def split: if_splits)
  from rs(2) every_role obtain qs where qs: "map_of rs role = Some qs"
    by (metis map_of_eq_None_iff not_Some_eq set_map subsetD)
  then have mem: "(role, qs) \<in> set rs" by (rule map_of_SomeD)
  from all_routes_of_parts [OF rs(1) mem] obtain ks where ks: "(role, ks) \<in> set (rc_routes c)" "routes_of providers ks = Some qs" by blast
  have "\<forall>r \<in> set qs. 0 < token_budget r \<and> 0 \<le> input_cost r \<and> 0 \<le> output_cost r
      \<and> (\<exists>k. k \<in> set ks \<and> map_of providers (cc_provider k) = Some (rt_provider r) \<and> rt_model r = cc_model k)"
    using routes_of_parts [OF ks(2)] assms(2) ks(1) by (fastforce simp: valid_config_def list_all_iff route_of_def)
  moreover have "qs \<noteq> [] \<and> list_all route_known qs" using good mem by (auto simp: list_all_iff)
  ultimately show ?thesis using ks(1) qs R by (auto simp: route_candidates_def list_all_iff)
qed

definition sample_config :: routing_config where
  "sample_config = \<lparr>rc_version = 1, rc_routes = map (\<lambda>role. (role, [\<lparr>cc_provider = ''gemini-a'', cc_model = ''gemini-pro'',
     cc_input_cost = 2, cc_output_cost = 4, cc_token_budget = 65536\<rparr>])) all_roles\<rparr>"

theorem configured_router_serves_every_role_witness:
  "\<exists>R. router_from_config sample_config [(''gemini-a'', rt_provider good_route)] = Some R
     \<and> route_candidates R SECURITY_REVIEWER \<noteq> []"
proof -
  define R where "R = the (router_from_config sample_config [(''gemini-a'', rt_provider good_route)])"
  have run: "router_from_config sample_config [(''gemini-a'', rt_provider good_route)] = Some R"
    by (simp add: R_def router_from_config_def sample_config_def all_roles_def ModelRouter_def route_known_def route_of_def
        good_route_def)
  have ok: "valid_config sample_config" by (simp add: valid_config_def sample_config_def all_roles_def)
  from configured_router_serves_every_role [OF run ok, of SECURITY_REVIEWER] run show ?thesis by blast
qed

end
