(* ===== verification/Application.thy ===== *)
theory Application
  imports Durable Queue_Samples
begin

text \<open>
  The use-case layer (\<open>application/tasks.py\<close>): what the HTTP routes and the Telegram bot
  do to a task, over the task repository, the queue's producer and the cancellation service.
  Clocks, fresh identifiers and the failures of the two services are arguments of a call.
\<close>

subsection \<open>The service\<close>

record ('d, 's) app_state =
  app_db :: 'd
  app_queue :: 's
  app_signals :: local_signals

datatype app_error = App_raised exception | App_queue_error queue_error | Not_found | Conflict string

text \<open>What one call meets: the time, fresh identifiers, and how its reads, writes and its script end.\<close>

record app_io =
  io_now :: instant
  io_task_id :: uuid
  io_message_id :: uuid
  io_create :: "exception option"
  io_transition :: "exception option"
  io_reply :: reply

definition create_task ::
  "'d database \<Rightarrow> 's queue_redis \<Rightarrow> (string \<Rightarrow> digest) \<Rightarrow> app_io \<Rightarrow> task_request \<Rightarrow> string
   \<Rightarrow> ('d, 's) app_state \<Rightarrow> (app_error + task_record \<times> enqueue_result) \<times> ('d, 's) app_state" where
  "create_task db R sha256 io request key A =
     (case create db (io_create io) (new_task (io_task_id io) request (io_now io)) key (app_db A) of
        (Inl e, d') \<Rightarrow> (Inl (App_raised e), A\<lparr>app_db := d'\<rparr>)
      | (Inr task, d') \<Rightarrow>
          (case enqueue R sha256 (io_reply io) (io_message_id io) task key P_NORMAL (app_queue A) of
             (Inl e, s') \<Rightarrow> (Inl (App_queue_error e), A\<lparr>app_db := d', app_queue := s'\<rparr>)
           | (Inr result, s') \<Rightarrow>
               if \<not> er_accepted result then (Inr (task, result), A\<lparr>app_db := d', app_queue := s'\<rparr>)
               else (case db_transition db (io_transition io) (io_now io) (task_id task) QUEUED d' of
                   (Inl e, d'') \<Rightarrow> (Inl (App_raised e), A\<lparr>app_db := d'', app_queue := s'\<rparr>)
                 | (Inr task', d'') \<Rightarrow> (Inr (task', result), A\<lparr>app_db := d'', app_queue := s'\<rparr>))))"

definition get_task :: "'d database \<Rightarrow> uuid \<Rightarrow> ('d, 's) app_state \<Rightarrow> app_error + task_record" where
  "get_task db i A = (case get_record db i (app_db A) of
     Inl e \<Rightarrow> Inl (App_raised e) | Inr None \<Rightarrow> Inl Not_found | Inr (Some task) \<Rightarrow> Inr task)"

record page =
  page_items :: "task_record list"
  page_total :: nat
  page_offset :: nat
  page_limit :: nat

definition list_page :: "'d database \<Rightarrow> nat \<Rightarrow> nat \<Rightarrow> ('d, 's) app_state \<Rightarrow> app_error + page" where
  "list_page db offset limit A = (case list_tasks db offset limit (app_db A) of
     Inl e \<Rightarrow> Inl (App_raised e)
   | Inr (items, n) \<Rightarrow> Inr \<lparr>page_items = items, page_total = n, page_offset = offset, page_limit = limit\<rparr>)"

definition app_transition ::
  "'d database \<Rightarrow> app_io \<Rightarrow> uuid \<Rightarrow> task_state \<Rightarrow> ('d, 's) app_state
   \<Rightarrow> (app_error + task_record) \<times> ('d, 's) app_state" where
  "app_transition db io i st A = (case db_transition db (io_transition io) (io_now io) i st (app_db A) of
     (Inl e, d') \<Rightarrow> (Inl (App_raised e), A\<lparr>app_db := d'\<rparr>)
   | (Inr task, d') \<Rightarrow> (Inr task, A\<lparr>app_db := d'\<rparr>))"

text \<open>The service is built with no durable cancellation of its own.\<close>

definition cancel_task ::
  "'d database \<Rightarrow> 's queue_redis \<Rightarrow> app_io \<Rightarrow> uuid \<Rightarrow> string \<Rightarrow> string \<Rightarrow> ('d, 's) app_state
   \<Rightarrow> (app_error + cancellation_result) \<times> ('d, 's) app_state" where
  "cancel_task db R io i actor reason A = (case get_task db i A of
     Inl e \<Rightarrow> (Inl e, A)
   | Inr task \<Rightarrow>
       if task_state task = COMPLETED \<or> task_state task = FAILED then (Inr CX_ALREADY_TERMINAL, A)
       else (case app_transition db io i CANCELLED A of
           (Inl e, A1) \<Rightarrow> (Inl e, A1)
         | (Inr _, A1) \<Rightarrow> (case cancel R None (io_reply io) \<lparr>cx_task_id = i, cx_actor = actor, cx_reason = reason,
               cx_at = io_now io, cx_evidence = None\<rparr> () (app_signals A1) (app_queue A1) of
             (Inl e, _, sg, s') \<Rightarrow> (Inl (App_queue_error e), A1\<lparr>app_signals := sg, app_queue := s'\<rparr>)
           | (Inr verdict, _, sg, s') \<Rightarrow> (Inr verdict, A1\<lparr>app_signals := sg, app_queue := s'\<rparr>))))"

definition retry_task ::
  "'d database \<Rightarrow> app_io \<Rightarrow> uuid \<Rightarrow> ('d, 's) app_state \<Rightarrow> (app_error + task_record) \<times> ('d, 's) app_state" where
  "retry_task db io i A = (case get_task db i A of
     Inl e \<Rightarrow> (Inl e, A)
   | Inr task \<Rightarrow> if task_state task \<noteq> FAILED \<and> task_state task \<noteq> CANCELLED
       then (Inl (Conflict ''Only failed or cancelled tasks can be retried''), A)
       else app_transition db io i QUEUED A)"

definition task_evidence :: "'d database \<Rightarrow> uuid \<Rightarrow> ('d, 's) app_state \<Rightarrow> app_error + evidence_item list" where
  "task_evidence db i A = (case get_task db i A of
     Inl e \<Rightarrow> Inl e | Inr _ \<Rightarrow> Inr (evidence_items_of db i (app_db A)))"

definition decide_task ::
  "'d database \<Rightarrow> app_io \<Rightarrow> uuid \<Rightarrow> bool \<Rightarrow> ('d, 's) app_state
   \<Rightarrow> (app_error + task_record) \<times> ('d, 's) app_state" where
  "decide_task db io i approved A = (case get_task db i A of
     Inl e \<Rightarrow> (Inl e, A)
   | Inr task \<Rightarrow> if task_state task \<noteq> AWAITING_APPROVAL \<and> task_state task \<noteq> APPROVAL_REQUIRED
       then (Inl (Conflict ''Task is not awaiting approval''), A)
       else app_transition db io i (if approved then QUEUED else CANCELLED) A)"

subsection \<open>Calls of the service\<close>

datatype service_call =
    S_create app_io task_request string
  | S_cancel app_io uuid string string
  | S_retry app_io uuid
  | S_decide app_io uuid bool

fun serve :: "'d database \<Rightarrow> 's queue_redis \<Rightarrow> (string \<Rightarrow> digest) \<Rightarrow> service_call \<Rightarrow> ('d, 's) app_state \<Rightarrow> ('d, 's) app_state" where
  "serve db R sha256 (S_create io request key) A = snd (create_task db R sha256 io request key A)"
| "serve db R sha256 (S_cancel io i actor reason) A = snd (cancel_task db R io i actor reason A)"
| "serve db R sha256 (S_retry io i) A = snd (retry_task db io i A)"
| "serve db R sha256 (S_decide io i approved) A = snd (decide_task db io i approved A)"

text \<open>
  The moves a call may make of a task: \<open>task_move\<close> relates the row before and after. Only the
  state and the time of the last update ever change.
\<close>

definition same_task :: "task_row \<Rightarrow> task_row \<Rightarrow> bool" where
  "same_task r r' \<longleftrightarrow> (\<exists>st now. r' = r\<lparr>tr_state := st, tr_updated := now\<rparr>)"

fun task_move :: "service_call \<Rightarrow> task_row \<Rightarrow> task_row \<Rightarrow> bool" where
  "task_move (S_create io request key) r r' \<longleftrightarrow> tr_key r = key \<and> tr_state r' = ''queued''"
| "task_move (S_cancel io i actor reason) r r' \<longleftrightarrow>
     tr_id r = i \<and> tr_state r \<notin> {''completed'', ''failed''} \<and> tr_state r' = ''cancelled''"
| "task_move (S_retry io i) r r' \<longleftrightarrow>
     tr_id r = i \<and> tr_state r \<in> {''failed'', ''cancelled''} \<and> tr_state r' = ''queued''"
| "task_move (S_decide io i approved) r r' \<longleftrightarrow>
     tr_id r = i \<and> tr_state r \<in> {''awaiting_approval'', ''approval_required''}
     \<and> tr_state r' = (if approved then ''queued'' else ''cancelled'')"


text \<open>\<open>keeps_rows\<close>: what a repository call may change in the tables, \<open>rel\<close> of the rows it rewrites.\<close>

definition keeps_rows :: "tables \<Rightarrow> (task_row \<Rightarrow> task_row \<Rightarrow> bool) \<Rightarrow> tables \<Rightarrow> bool" where
  "keeps_rows t rel t' \<longleftrightarrow> evidence_rows t' = evidence_rows t \<and> audit_rows t' = audit_rows t \<and> attempt_rows t' = attempt_rows t
     \<and> (\<forall>j r. task_rows t j = Some r \<longrightarrow> (\<exists>r'. task_rows t' j = Some r' \<and> (r' = r \<or> same_task r r' \<and> rel r r')))"

lemma keeps_rows_refl [simp]: "keeps_rows t rel t"
  by (simp add: keeps_rows_def)

lemma keeps_rows_weaken: "\<lbrakk>keeps_rows t rel t'; \<And>r r'. rel r r' \<Longrightarrow> rel' r r'\<rbrakk> \<Longrightarrow> keeps_rows t rel' t'"
  unfolding keeps_rows_def by meson

lemma same_task_update [simp]: "same_task r (r\<lparr>tr_state := st, tr_updated := now\<rparr>)"
  unfolding same_task_def by blast

lemma state_of_value_inverse: "state_of_value v = Some st \<Longrightarrow> state_value st = v"
  unfolding state_of_value_def by (drule find_SomeD) simp

lemma same_task_later: "same_task r0 r \<Longrightarrow> same_task r0 (r\<lparr>tr_state := st, tr_updated := now\<rparr>) \<and> tr_key r = tr_key r0"
  unfolding same_task_def by (elim exE) (auto intro!: exI)

text \<open>A row rewritten again, to a state the relation allows.\<close>

lemma keeps_rows_update:
  assumes "keeps_rows t (\<lambda>r r'. tr_key r = key \<and> tr_state r' = v) t1" and "task_rows t1 i = Some r" "tr_key r = key"
  shows "keeps_rows t (\<lambda>r r'. tr_key r = key \<and> tr_state r' = v)
    (t1\<lparr>task_rows := (task_rows t1)(i := Some (r\<lparr>tr_state := v, tr_updated := now\<rparr>))\<rparr>)"
  unfolding keeps_rows_def
proof (intro conjI allI impI)
  fix j r0
  assume j: "task_rows t j = Some r0"
  then obtain r1 where r1: "task_rows t1 j = Some r1" "r1 = r0 \<or> same_task r0 r1 \<and> tr_key r0 = key \<and> tr_state r1 = v"
    using assms(1) by (auto simp: keeps_rows_def)
  show "\<exists>r'. task_rows (t1\<lparr>task_rows := (task_rows t1)(i := Some (r\<lparr>tr_state := v, tr_updated := now\<rparr>))\<rparr>) j = Some r'
      \<and> (r' = r0 \<or> same_task r0 r' \<and> tr_key r0 = key \<and> tr_state r' = v)"
    using r1 assms(2,3) same_task_later [where ?r0.0 = r0 and r = r1 and st = v and now = now] by (cases "j = i") auto
qed (use assms(1) in \<open>auto simp: keeps_rows_def\<close>)

lemma row_of_ids [simp]: "tr_id (row_of task key) = task_id task" "tr_key (row_of task key) = key"
  by (simp_all add: row_of_def)

context postgres begin

lemma db_transition_rows:
  assumes "db_transition db f now i st d = (res, d')"
  shows "rows d' = rows d \<or> (\<exists>r. task_rows (rows d) i = Some r
     \<and> rows d' = (rows d)\<lparr>task_rows := (task_rows (rows d))(i := Some (r\<lparr>tr_state := state_value st, tr_updated := now\<rparr>))\<rparr>)"
proof (cases "d' = d")
  case False
  then obtain row where "db_task db i d = Some row" and "db_commit db [Update_state i (state_value st) now] d = Some d'"
    using assms by (auto simp: db_transition_def on_task_def split: option.splits sum.splits prod.splits)
  then show ?thesis using commit_ok by (fastforce simp: task_law)
qed simp

lemma transition_keeps:
  assumes "db_transition db f now i st d = (res, d')"
  shows "keeps_rows (rows d) (\<lambda>r r'. tr_id r = i \<and> task_rows (rows d) i = Some r \<and> tr_state r' = state_value st) (rows d')
    \<and> (\<forall>j. (task_rows (rows d') j = None) = (task_rows (rows d) j = None))"
  using db_transition_rows [OF assms] row_ids
  by (auto simp: keeps_rows_def split: if_splits)

lemma create_rows:
  assumes "create db f task key d = (res, d')"
  shows "(rows d' = rows d \<or> task_rows (rows d) (task_id task) = None
       \<and> rows d' = (rows d)\<lparr>task_rows := (task_rows (rows d))(task_id task := Some (row_of task key))\<rparr>)
     \<and> (\<forall>t. res = Inr t \<longrightarrow> (\<exists>r. task_rows (rows d') (task_id t) = Some r \<and> tr_key r = key))"
proof (cases "db_by_key db key d")
  case None
  show ?thesis
  proof (cases "db_commit db [Insert_task (row_of task key)] d")
    case (Some d1)
    have "rows d1 = (rows d)\<lparr>task_rows := (task_rows (rows d))(task_id task := Some (row_of task key))\<rparr>"
        "task_rows (rows d) (task_id task) = None"
      using commit_ok [OF Some] by (simp_all split: if_splits)
    then show ?thesis using assms None Some by (auto simp: create_def split: option.splits)
  qed (use assms None in \<open>auto simp: create_def split: option.splits\<close>)
next
  case (Some q)
  have "task_id t = tr_id q" if "to_record q = Some t" for t
    using that by (auto simp: to_record_def new_task_def bind_eq_Some_conv)
  then show ?thesis using assms Some by_key_law [OF Some]
    by (auto simp: create_def split: option.splits)
qed

lemma get_task_row:
  assumes "get_task db i A = Inr task"
  shows "\<exists>r. task_rows (rows (app_db A)) i = Some r \<and> tr_state r = state_value (task_state task) \<and> tr_id r = i"
proof -
  obtain r where r: "db_task db i (app_db A) = Some r" "to_record r = Some task"
    using assms by (auto simp: get_task_def get_record_def split: option.splits sum.splits)
  then obtain st where "state_of_value (tr_state r) = Some st" "task_state task = st"
    by (auto simp: to_record_def bind_eq_Some_conv)
  then have "tr_state r = state_value (task_state task)" by (auto dest: state_of_value_inverse)
  then show ?thesis using r row_ids by (auto simp: task_law)
qed

lemma app_transition_keeps:
  assumes "app_transition db io i st A = (res, A1)"
  shows "keeps_rows (rows (app_db A)) (\<lambda>r r'. tr_id r = i \<and> task_rows (rows (app_db A)) i = Some r
       \<and> tr_state r' = state_value st) (rows (app_db A1))
     \<and> (\<forall>j. (task_rows (rows (app_db A1)) j = None) = (task_rows (rows (app_db A)) j = None))
     \<and> app_queue A1 = app_queue A"
proof -
  obtain r d' where "db_transition db (io_transition io) (io_now io) i st (app_db A) = (r, d')" by fastforce
  from transition_keeps [OF this] this show ?thesis using assms
    by (auto simp: app_transition_def split: sum.splits)
qed

lemma create_task_keeps:
  assumes "create_task db R sha io request key A = (res, A1)"
  shows "keeps_rows (rows (app_db A)) (\<lambda>r r'. tr_key r = key \<and> tr_state r' = ''queued'') (rows (app_db A1))
    \<and> (\<forall>j r'. task_rows (rows (app_db A)) j = None \<longrightarrow> task_rows (rows (app_db A1)) j = Some r' \<longrightarrow>
         j = io_task_id io \<and> tr_key r' = key \<and> tr_state r' \<in> {''received'', ''queued''})"
proof -
  let ?new = "new_task (io_task_id io) request (io_now io)"
  obtain made d1 where made: "create db (io_create io) ?new key (app_db A) = (made, d1)" by fastforce
  note rows1 = create_rows [OF made]
  have first: "keeps_rows (rows (app_db A)) (\<lambda>r r'. tr_key r = key \<and> tr_state r' = ''queued'') (rows d1)
    \<and> (\<forall>j r'. task_rows (rows (app_db A)) j = None \<longrightarrow> task_rows (rows d1) j = Some r' \<longrightarrow>
         j = io_task_id io \<and> tr_key r' = key \<and> tr_state r' = ''received'')"
    using rows1 by (auto simp: keeps_rows_def new_task_def row_of_def split: if_splits)
  show ?thesis
  proof (cases "app_db A1 = d1")
    case False
    then obtain t moved where t: "made = Inr t"
        and moved: "db_transition db (io_transition io) (io_now io) (task_id t) QUEUED d1 = (moved, app_db A1)"
      using assms made by (auto simp: create_task_def split: sum.splits prod.splits if_splits)
    from rows1 t obtain r where r: "task_rows (rows d1) (task_id t) = Some r" "tr_key r = key" by auto
    from db_transition_rows [OF moved] r have "rows (app_db A1) = rows d1 \<or> rows (app_db A1) =
        (rows d1)\<lparr>task_rows := (task_rows (rows d1))(task_id t := Some (r\<lparr>tr_state := ''queued'', tr_updated := io_now io\<rparr>))\<rparr>"
      by auto
    then show ?thesis
    proof
      assume "rows (app_db A1) = rows d1"
      then show ?thesis using first by auto
    next
      assume upd: "rows (app_db A1) =
        (rows d1)\<lparr>task_rows := (task_rows (rows d1))(task_id t := Some (r\<lparr>tr_state := ''queued'', tr_updated := io_now io\<rparr>))\<rparr>"
      have "j = io_task_id io \<and> tr_key r' = key \<and> tr_state r' \<in> {''received'', ''queued''}"
        if "task_rows (rows (app_db A)) j = None" "task_rows (rows (app_db A1)) j = Some r'" for j r'
      proof (cases "j = task_id t")
        case True
        then have "r' = r\<lparr>tr_state := ''queued'', tr_updated := io_now io\<rparr>" using that(2) upd by simp
        moreover have "task_rows (rows d1) j = Some r" using r True by simp
        note conjunct2 [OF first, rule_format, OF that(1) this]
        ultimately show ?thesis by simp
      next
        case False
        then have "task_rows (rows d1) j = Some r'" using that(2) upd by simp
        from conjunct2 [OF first, rule_format, OF that(1) this] show ?thesis by simp
      qed
      moreover have "keeps_rows (rows (app_db A)) (\<lambda>r r'. tr_key r = key \<and> tr_state r' = ''queued'') (rows (app_db A1))"
        unfolding upd by (rule keeps_rows_update [OF conjunct1 [OF first] r])
      ultimately show ?thesis by blast
    qed
  qed (use first in blast)
qed

end

text \<open>
  What a call of the service does to the database: it rewrites at most the state
  and the time of the one task it names (a creation: of the task stored under its key), and
  only by the move of the call: cancelling a task that is neither completed nor failed, retrying a
  failed or cancelled one, deciding one that awaits approval. No row is lost, evidence, attempts
  and audit events are untouched, only a creation adds a task, under its key and
  identifier, and neither a retry nor a decision reaches the queue.
\<close>

lemma service_call_moves_one_task:
  assumes "postgres db rows"
  shows "keeps_rows (rows (app_db A)) (task_move c) (rows (app_db (serve db R sha c A)))
    \<and> (\<forall>j r'. task_rows (rows (app_db A)) j = None \<longrightarrow> task_rows (rows (app_db (serve db R sha c A))) j = Some r' \<longrightarrow>
         (\<exists>io request key. c = S_create io request key \<and> j = io_task_id io \<and> tr_key r' = key
            \<and> tr_state r' \<in> {''received'', ''queued''}))
    \<and> ((\<exists>io i. c = S_retry io i) \<or> (\<exists>io i b. c = S_decide io i b) \<longrightarrow> app_queue (serve db R sha c A) = app_queue A)"
proof (cases c)
  case (S_create io request key)
  obtain res A1 where "create_task db R sha io request key A = (res, A1)" by fastforce
  from postgres.create_task_keeps [OF assms this] this show ?thesis using S_create
    by (auto elim: keeps_rows_weaken)
next
  case (S_cancel io i actor reason)
  show ?thesis
  proof (cases "app_db (serve db R sha c A) = app_db A")
    case False
    then obtain task moved A1 where task: "get_task db i A = Inr task" "task_state task \<noteq> COMPLETED" "task_state task \<noteq> FAILED"
        and moved: "app_transition db io i CANCELLED A = (moved, A1)" "app_db (serve db R sha c A) = app_db A1"
      using S_cancel by (auto simp: cancel_task_def split: sum.splits prod.splits if_splits)
    from postgres.get_task_row [OF assms task(1)] task obtain r where r: "task_rows (rows (app_db A)) i = Some r"
        "tr_state r = state_value (task_state task)" "tr_id r = i" by auto
    have "tr_state r \<notin> {''completed'', ''failed''}" using r(2) task by (cases "task_state task") auto
    then show ?thesis using postgres.app_transition_keeps [OF assms moved(1)] r moved(2) S_cancel
      by (auto intro: keeps_rows_weaken)
  qed (simp add: S_cancel)
next
  case (S_retry io i)
  show ?thesis
  proof (cases "serve db R sha c A = A")
    case False
    then obtain task where task: "get_task db i A = Inr task" "task_state task = FAILED \<or> task_state task = CANCELLED"
        and moved: "app_transition db io i QUEUED A = (fst (app_transition db io i QUEUED A), serve db R sha c A)"
      using S_retry by (auto simp: retry_task_def split: sum.splits if_splits)
    from postgres.get_task_row [OF assms task(1)] task(2) postgres.app_transition_keeps [OF assms moved] S_retry
    show ?thesis by (auto intro: keeps_rows_weaken)
  qed (simp add: S_retry)
next
  case (S_decide io i approved)
  show ?thesis
  proof (cases "serve db R sha c A = A")
    case False
    then obtain task where task: "get_task db i A = Inr task"
        "task_state task = AWAITING_APPROVAL \<or> task_state task = APPROVAL_REQUIRED"
        and moved: "app_transition db io i (if approved then QUEUED else CANCELLED) A
          = (fst (app_transition db io i (if approved then QUEUED else CANCELLED) A), serve db R sha c A)"
      using S_decide by (auto simp: decide_task_def split: sum.splits if_splits)
    from postgres.get_task_row [OF assms task(1)] task(2) postgres.app_transition_keeps [OF assms moved] S_decide
    show ?thesis by (auto intro: keeps_rows_weaken)
  qed (simp add: S_decide)
qed

subsection \<open>Submitting twice\<close>

context queue_server begin

lemma accepted_enqueue:
  assumes "enqueue R sha reply uid task key p s = (Inr result, s')" and "er_accepted result"
  shows "\<exists>d. task_deduplication_key sha key = Some d
    \<and> strings (view s') (Dedupe d) = Some (VText (er_message_id result), server_time (view s) + 86400)"
proof -
  obtain d where d: "task_deduplication_key sha key = Some d"
    using assms(1) by (auto simp: enqueue_def split: option.splits)
  have none: "cmd_get R (Dedupe d) s = None" and answered: "reply = Answered"
    using assms d by (cases reply; auto simp: enqueue_def through_def enqueue_script_def Let_def
        split: option.splits queue_value.splits)+
  then show ?thesis using assms d
    by (auto simp: enqueue_def through_def enqueue_script_def dedupe_ttl_def Let_def write_laws get_law)
qed

lemma enqueue_again:
  assumes "task_deduplication_key sha key = Some d" and "strings (view s) (Dedupe d) = Some (VText m, expiry)"
    and "server_time (view s) < expiry"
  shows "fst (enqueue R sha Answered uid task key p s) = Inr \<lparr>er_message_id = m, er_accepted = False\<rparr>
    \<and> quiet (view s) (view (snd (enqueue R sha Answered uid task key p s)))"
  using assms by (simp add: enqueue_def through_def enqueue_script_def get_law live_def hincrby_law quiet_def)

end

lemma create_known:
  "\<lbrakk>db_by_key db key d = Some row; to_record row = Some task\<rbrakk> \<Longrightarrow> create db None other key d = (Inr task, d)"
  by (simp add: create_def)

context postgres begin

lemma transition_done:
  assumes "db_transition db g now i st d = (Inr t2, d2)"
  shows "\<exists>r. task_rows (rows d) i = Some r
    \<and> rows d2 = (rows d)\<lparr>task_rows := (task_rows (rows d))(i := Some (r\<lparr>tr_state := state_value st, tr_updated := now\<rparr>))\<rparr>"
proof -
  obtain r where "db_task db i d = Some r" "db_commit db [Update_state i (state_value st) now] d = Some d2"
    using assms by (auto simp: db_transition_def on_task_def split: prod.splits sum.splits option.splits)
  then show ?thesis using commit_ok by (fastforce simp: task_law)
qed

text \<open>After a first creation under a fresh key, the key leads to the row of the new task and to nothing else.\<close>

lemma fresh_key_row:
  assumes "db_by_key db key d = None" and "create db f task key d = (Inr t, d1)"
    and "db_transition db g now (task_id t) st d1 = (Inr t2, d2)"
  shows "\<exists>row. db_by_key db key d2 = Some row \<and> to_record row = Some t2 \<and> tr_state row = state_value st"
proof -
  have t: "t = task" and commit: "db_commit db [Insert_task (row_of task key)] d = Some d1"
    using assms(1,2) by (auto simp: create_def split: option.splits)
  have rows1: "task_rows (rows d1) = (task_rows (rows d))(task_id task := Some (row_of task key))"
    using commit_ok [OF commit, symmetric] by (auto split: if_splits)
  have fresh: "tr_key q \<noteq> key" if "task_rows (rows d) i = Some q" for i q
    using by_key_none [OF assms(1) that] .
  let ?row = "(row_of task key)\<lparr>tr_state := state_value st, tr_updated := now\<rparr>"
  have row2: "task_rows (rows d2) = (task_rows (rows d))(task_id task := Some r) \<Longrightarrow> tr_key r = key \<Longrightarrow> tr_id r = task_id task \<Longrightarrow>
      db_by_key db key d2 = Some r" for r
  proof (cases "db_by_key db key d2")
    case None
    assume "task_rows (rows d2) = (task_rows (rows d))(task_id task := Some r)" "tr_key r = key"
    then show ?thesis using by_key_none [OF None, of "task_id task" r] by simp
  next
    case (Some q)
    assume "task_rows (rows d2) = (task_rows (rows d))(task_id task := Some r)" "tr_key r = key"
    then show ?thesis using by_key_law [OF Some] fresh Some by (auto split: if_splits)
  qed
  from transition_done [OF assms(3)] obtain r where r: "task_rows (rows d2) = (task_rows (rows d))(task_id task := Some r)"
      "tr_key r = key" "tr_id r = task_id task" "tr_state r = state_value st"
    using rows1 t by auto
  have "get_record db (task_id task) d2 = Inr (Some t2)"
    using assms(3) t by (auto simp: db_transition_def split: prod.splits sum.splits option.splits)
  then have "to_record r = Some t2" using r by (auto simp: get_record_def task_law split: option.splits)
  then show ?thesis using row2 [OF r(1-3)] r(4) by blast
qed

end

text \<open>
  Submitting again changes nothing. When a submission under a new key was accepted,
  any later submission under the same key, of whatever request, made within a day on the
  queue's server and after whatever happened in the queue, is answered with the first
  task and the first message as not accepted; the database is as it was, and
  every list, hash and score of the queue.
\<close>

theorem resubmission_changes_nothing:
  assumes "postgres db rows" and "queue_server R view" and "db_by_key db key (app_db A) = None"
    and "create_task db R sha io request key A = (Inr (task, result), A1)" and "er_accepted result"
    and "A2 = A1\<lparr>app_queue := queue_run R es (app_queue A1)\<rparr>"
    and "server_time (view (app_queue A2)) < server_time (view (app_queue A)) + 86400"
    and "io_create io2 = None" and "io_reply io2 = Answered"
  shows "\<exists>s'. create_task db R sha io2 request2 key A2
      = (Inr (task, \<lparr>er_message_id = er_message_id result, er_accepted = False\<rparr>), A2\<lparr>app_queue := s'\<rparr>)
    \<and> quiet (view (app_queue A2)) (view s') \<and> task_state task = QUEUED"
proof -
  obtain t d1 d2 s1 where first: "create db (io_create io) (new_task (io_task_id io) request (io_now io)) key (app_db A) = (Inr t, d1)"
      "enqueue R sha (io_reply io) (io_message_id io) t key P_NORMAL (app_queue A) = (Inr result, s1)"
      "db_transition db (io_transition io) (io_now io) (task_id t) QUEUED d1 = (Inr task, d2)"
      "A1 = A\<lparr>app_db := d2, app_queue := s1\<rparr>"
    using assms(4,5) by (auto simp: create_task_def split: sum.splits prod.splits if_splits)
  from postgres.fresh_key_row [OF assms(1,3) first(1,3)] obtain row where row: "db_by_key db key d2 = Some row" "to_record row = Some task"
      and queued: "tr_state row = state_value QUEUED" by blast
  from queue_server.accepted_enqueue [OF assms(2) first(2) assms(5)] obtain d where d: "task_deduplication_key sha key = Some d"
      "strings (view s1) (Dedupe d) = Some (VText (er_message_id result), server_time (view (app_queue A)) + 86400)" by blast
  have time: "server_time (view (queue_run R es s1)) < server_time (view (app_queue A)) + 86400"
    using assms(6,7) first(4) by simp
  from queue_server.run_dedupe [OF assms(2) d(2) time]
  have later: "strings (view (queue_run R es s1)) (Dedupe d)
    = Some (VText (er_message_id result), server_time (view (app_queue A)) + 86400)" .
  from queue_server.enqueue_again [OF assms(2) d(1) later time] obtain s' where
      "enqueue R sha Answered (io_message_id io2) task key P_NORMAL (queue_run R es s1)
        = (Inr \<lparr>er_message_id = er_message_id result, er_accepted = False\<rparr>, s')"
      "quiet (view (queue_run R es s1)) (view s')"
    by (metis prod.collapse)
  moreover have "task_state task = QUEUED"
    using row(2) unfolding to_record_def queued by (auto simp: bind_eq_Some_conv simp del: state_value.simps)
  ultimately show ?thesis
    using create_known [OF row] assms(6,8,9) first(4)
    by (intro exI [of _ s']) (simp add: create_task_def)
qed

definition first_io :: app_io where
  "first_io = \<lparr>io_now = 3, io_task_id = ''t1'', io_message_id = ''m1'', io_create = None, io_transition = None, io_reply = Answered\<rparr>"

definition second_io :: app_io where
  "second_io = first_io\<lparr>io_now := 5, io_task_id := ''t2'', io_message_id := ''m2''\<rparr>"

definition empty_app :: "(memory_db, (queue_key, queue_value) mini_store) app_state" where
  "empty_app = \<lparr>app_db = \<lparr>md_tasks = [], md_attempts = [], md_evidence = [], md_audit = []\<rparr>, app_queue = empty_store,
     app_signals = \<lparr>registered = {}, signalled = {}\<rparr>\<rparr>"

definition fix_request :: task_request where
  "fix_request = \<lparr>repository = ''o/r'', instruction = ''fix'', base_branch = ''main'', dry_run = True\<rparr>"

theorem resubmission_changes_nothing_witness:
  "\<exists>task A1 s'. create_task memory_database mini_redis id first_io fix_request ''k'' empty_app
       = (Inr (task, \<lparr>er_message_id = ''m1'', er_accepted = True\<rparr>), A1)
     \<and> create_task memory_database mini_redis id second_io fix_request ''k'' A1
       = (Inr (task, \<lparr>er_message_id = ''m1'', er_accepted = False\<rparr>), A1\<lparr>app_queue := s'\<rparr>)"
proof -
  let ?run = "create_task memory_database mini_redis id first_io fix_request ''k'' empty_app"
  define task where "task = fst (projr (fst ?run))"
  define A1 where "A1 = snd ?run"
  note evaluate = create_task_def create_def db_transition_def on_task_def get_record_def memory_database_def first_io_def
    empty_app_def fix_request_def new_task_def row_of_def to_record_def TaskRequest_def repo_name_ok_def repo_char_def
    enqueue_def through_def task_deduplication_key_def normalize_idempotency_key_def strip_def py_space_def
    script_defs mini_defs restate_def state_of_value_def
  have run: "?run = (Inr (task, \<lparr>er_message_id = ''m1'', er_accepted = True\<rparr>), A1)"
    unfolding task_def A1_def by (simp add: evaluate)
  have time: "server_time (mini_view (app_queue (A1\<lparr>app_queue := queue_run mini_redis [] (app_queue A1)\<rparr>)))
      < server_time (mini_view (app_queue empty_app)) + 86400"
    unfolding A1_def by (simp add: evaluate queue_run_def)
  have "db_by_key memory_database ''k'' (app_db empty_app) = None"
    by (simp add: memory_database_def empty_app_def)
  from resubmission_changes_nothing [OF memory_pg.postgres_axioms mini_queue.queue_server_axioms this run _ refl time,
      of second_io fix_request]
  show ?thesis using run by (auto simp: second_io_def first_io_def queue_run_def)
qed

text \<open>
  When the mapping has expired, the same key queues the task again, whatever became of it: a
  finished task is set back to queued.
\<close>

lemma expired_key_requeues_finished_task:
  assumes "db_by_key db key (app_db A) = Some row" "to_record row = Some old"
    and "task_deduplication_key sha key = Some d" "cmd_get R (Dedupe d) (app_queue A) = None"
    and "io_create io = None" "io_reply io = Answered" "io_transition io = None"
    and "create_task db R sha io request key A = (Inr (task, result), A1)"
  shows "er_accepted result \<and> get_record db (task_id old) (app_db A1) = Inr (Some task)"
proof -
  have create: "create db (io_create io) new key (app_db A) = (Inr old, app_db A)" for new
    using assms by (simp add: create_def)
  obtain s' where "enqueue R sha (io_reply io) (io_message_id io) old key P_NORMAL (app_queue A)
      = (Inr \<lparr>er_message_id = io_message_id io, er_accepted = True\<rparr>, s')"
    using assms by (simp add: enqueue_def through_def enqueue_script_def Let_def)
  then show ?thesis using assms create
    by (auto simp: create_task_def db_transition_def split: prod.splits sum.splits option.splits)
qed

end
