(* ===== verification/Rate_Window.thy ===== *)
theory Rate_Window
  imports Prelude
begin

text \<open>
  The sliding window both ingress adapters limit their callers with (\<open>api/middleware.py\<close>,
  \<open>telegram/bot.py\<close>): a queue of the admitted times, from which those older than the window
  are dropped when the next request comes. The specification keeps every admitted time for ever.
\<close>

definition fresh_part :: "seconds \<Rightarrow> instant \<Rightarrow> instant list \<Rightarrow> instant list" where
  "fresh_part window now bucket = dropWhile (\<lambda>t. t \<le> now - window) bucket"

definition admit :: "int \<Rightarrow> seconds \<Rightarrow> instant \<Rightarrow> instant list \<Rightarrow> bool \<times> instant list" where
  "admit limit window now bucket = (let b = fresh_part window now bucket in
     if int (length b) \<ge> limit then (False, b) else (True, b @ [now]))"

text \<open>The specification: admit while fewer than \<open>limit\<close> admitted requests are younger than the window.\<close>

definition recent :: "seconds \<Rightarrow> instant \<Rightarrow> instant list \<Rightarrow> instant list" where
  "recent window now history = filter (\<lambda>t. now - window < t) history"

definition admit_spec :: "int \<Rightarrow> seconds \<Rightarrow> instant \<Rightarrow> instant list \<Rightarrow> bool \<times> instant list" where
  "admit_spec limit window now history =
     (if int (length (recent window now history)) \<ge> limit then (False, history) else (True, history @ [now]))"

text \<open>The queue is a suffix of the history; what is missing is older than the window at time \<open>now\<close>.\<close>

definition window_of :: "seconds \<Rightarrow> instant \<Rightarrow> instant list \<Rightarrow> instant list \<Rightarrow> bool" where
  "window_of window now history bucket \<longleftrightarrow> sorted history \<and> (\<forall>t \<in> set history. t \<le> now)
     \<and> (\<exists>old. history = old @ bucket \<and> (\<forall>t \<in> set old. t \<le> now - window))"

lemma window_of_empty [simp]: "window_of window now [] []"
  by (simp add: window_of_def)

lemma sorted_fresh: "sorted xs \<Longrightarrow> dropWhile (\<lambda>t. t \<le> c) xs = filter (\<lambda>t. c < t) xs" for c :: real
proof (induction xs)
  case (Cons x xs)
  then have "\<forall>t \<in> set xs. x \<le> t" by simp
  then show ?case using Cons by (auto intro!: filter_True [symmetric])
qed simp

lemma window_of_recent:
  assumes "window_of window prev history bucket" and "prev \<le> now"
  shows "fresh_part window now bucket = recent window now history"
proof -
  obtain old where old: "history = old @ bucket" "\<forall>t \<in> set old. t \<le> prev - window"
    using assms(1) by (auto simp: window_of_def)
  have "sorted bucket" using assms(1) old(1) by (simp add: window_of_def sorted_append)
  moreover have "filter (\<lambda>t. now - window < t) old = []" using old(2) assms(2) by (auto simp: filter_empty_conv)
  ultimately show ?thesis using old(1) by (simp add: fresh_part_def recent_def sorted_fresh)
qed

lemma window_of_later:
  assumes "window_of window prev history bucket" and "prev \<le> now"
  shows "window_of window now history (fresh_part window now bucket)"
proof -
  obtain old where old: "history = old @ bucket" "\<forall>t \<in> set old. t \<le> prev - window"
    using assms(1) by (auto simp: window_of_def)
  have "history = (old @ takeWhile (\<lambda>t. t \<le> now - window) bucket) @ fresh_part window now bucket"
    by (simp add: old(1) fresh_part_def)
  moreover have "\<forall>t \<in> set (old @ takeWhile (\<lambda>t. t \<le> now - window) bucket). t \<le> now - window"
    using old(2) assms(2) by (auto dest: set_takeWhileD)
  ultimately show ?thesis using assms unfolding window_of_def by (metis order_trans)
qed

text \<open>One request: the queue answers as the history does and stays its window.\<close>

lemma admit_refines:
  assumes "window_of window prev history bucket" and "prev \<le> now" and "0 \<le> window"
  shows "fst (admit limit window now bucket) = fst (admit_spec limit window now history)
    \<and> window_of window now (snd (admit_spec limit window now history)) (snd (admit limit window now bucket))"
proof -
  have b: "fresh_part window now bucket = recent window now history"
    using window_of_recent [OF assms(1,2)] .
  have w: "window_of window now history (recent window now history)"
    using window_of_later [OF assms(1,2)] b by simp
  have "window_of window now (history @ [now]) (recent window now history @ [now])"
    using w by (auto simp: window_of_def sorted_append)
  then show ?thesis using w by (simp add: admit_def admit_spec_def b Let_def)
qed

text \<open>What the specification never exceeds.\<close>

definition within_limit :: "int \<Rightarrow> seconds \<Rightarrow> instant list \<Rightarrow> bool" where
  "within_limit limit window history \<longleftrightarrow>
     (\<forall>t. length (filter (\<lambda>u. t - window < u \<and> u \<le> t) history) \<le> nat limit)"

lemma admit_spec_within:
  assumes "within_limit limit window history" and "\<forall>t \<in> set history. t \<le> now"
  shows "within_limit limit window (snd (admit_spec limit window now history))"
proof (cases "int (length (recent window now history)) \<ge> limit")
  case False
  have "length (filter (\<lambda>u. t - window < u \<and> u \<le> t) (history @ [now])) \<le> nat limit" for t
  proof (cases "t - window < now \<and> now \<le> t")
    case True
    then have "length (filter (\<lambda>u. t - window < u \<and> u \<le> t) history) \<le> length (recent window now history)"
    proof -
      have "\<forall>u \<in> set history. t - window < u \<and> u \<le> t \<longrightarrow> now - window < u" using True by auto
      then show ?thesis unfolding recent_def
        by (induction history) auto
    qed
    then show ?thesis using False True by simp
  qed (use assms(1) in \<open>auto simp: within_limit_def\<close>)
  then show ?thesis using False by (simp add: admit_spec_def within_limit_def)
qed (use assms in \<open>simp add: admit_spec_def\<close>)

end
