(* ===== verification/Http_Api.thy ===== *)
theory Http_Api
  imports Application Py_Json Rate_Window
begin

text \<open>
  The HTTP gateway: its middleware (\<open>api/middleware.py\<close>) in the order \<open>api/main.py\<close> stacks it,
  the error handlers, and the task and control routes (\<open>api/routes\<close>) over the use-case layer.
  Routing, parsing of the request's models and the server are parameters.
\<close>

subsection \<open>Requests and responses\<close>

record http_request =
  hq_method :: string
  hq_path :: string
  hq_header :: "string \<Rightarrow> string option"
  hq_client :: "string option"
  hq_body :: string

datatype 'p http_body = Error_body string string string | Content 'p

record 'p http_response =
  hs_status :: int
  hs_headers :: "(string \<times> string) list"
  hs_body :: "'p http_body"

text \<open>What a handler ends with: a response, the deadline, or an exception nobody handles.\<close>

datatype 'p outcome = Responded "'p http_response" | Deadline_passed | Crashed

record log_entry =
  le_method :: string
  le_path :: string
  le_status :: int
  le_request_id :: string

record 's api_state =
  api_buckets :: "string \<Rightarrow> instant list"
  api_log :: "log_entry list"
  api_app :: 's

type_synonym ('p, 's) handler = "string \<Rightarrow> http_request \<Rightarrow> 's api_state \<Rightarrow> 'p outcome \<times> 's api_state"

definition error_response :: "string \<Rightarrow> string \<Rightarrow> string \<Rightarrow> int \<Rightarrow> 'p http_response" where
  "error_response rid code message status =
     \<lparr>hs_status = status, hs_headers = [], hs_body = Error_body code message rid\<rparr>"

subsection \<open>The middleware\<close>

text \<open>The first argument of a handler is the request identifier set on the request's state.\<close>

definition with_request_id :: "uuid \<Rightarrow> ('p, 's) handler \<Rightarrow> http_request \<Rightarrow> 's api_state \<Rightarrow> 'p outcome \<times> 's api_state" where
  "with_request_id fresh inner q s =
     (let supplied = str_or (hq_header q ''x-request-id'') [];
          rid = (if supplied \<noteq> [] then take 128 supplied else fresh)
      in case inner rid q s of
        (Responded r, s') \<Rightarrow> (Responded (r\<lparr>hs_headers := AList.update ''x-request-id'' rid (hs_headers r)\<rparr>), s')
      | (other, s') \<Rightarrow> (other, s'))"

definition exempt_paths :: "string list" where
  "exempt_paths = [''/health/live'', ''/health/ready'', ''/v1/webhooks/github'']"

definition authenticated :: "string \<Rightarrow> ('p, 's) handler \<Rightarrow> ('p, 's) handler" where
  "authenticated api_key inner rid q s =
     (if hq_path q \<in> set exempt_paths then inner rid q s
      else if api_key = [] then (Responded (error_response rid ''authentication_failed'' ''Invalid API key'' 401), s)
      else case compare_digest (str_or (hq_header q ''x-api-key'') []) api_key of
        None \<Rightarrow> (Crashed, s)
      | Some False \<Rightarrow> (Responded (error_response rid ''authentication_failed'' ''Invalid API key'' 401), s)
      | Some True \<Rightarrow> inner rid q s)"

definition body_limited :: "int \<Rightarrow> ('p, 's) handler \<Rightarrow> ('p, 's) handler" where
  "body_limited maximum inner rid q s =
     (let content_length = str_or (hq_header q ''content-length'') [];
          refused = (\<lambda>code message status. (Responded (error_response rid code message status), s));
          read = (if int (length (hq_body q)) > maximum
            then refused ''body_too_large'' ''Request body exceeds limit'' 413 else inner rid q s)
      in if content_length = [] then read
         else case int_of_text content_length of
           Inl _ \<Rightarrow> refused ''invalid_content_length'' ''Invalid body length'' 400
         | Inr declared \<Rightarrow>
             if declared < 0 then refused ''invalid_content_length'' ''Invalid body length'' 400
             else if declared > maximum then refused ''body_too_large'' ''Request body exceeds limit'' 413
             else read)"

definition timed :: "('p, 's) handler \<Rightarrow> ('p, 's) handler" where
  "timed inner rid q s = (case inner rid q s of
     (Deadline_passed, s') \<Rightarrow> (Responded (error_response rid ''request_timeout'' ''Request deadline exceeded'' 504), s')
   | other \<Rightarrow> other)"

definition rate_identity :: "http_request \<Rightarrow> string" where
  "rate_identity q = (let k = str_or (hq_header q ''x-api-key'') [] in
     if k \<noteq> [] then k else case hq_client q of Some host \<Rightarrow> host | None \<Rightarrow> ''unknown'')"

text \<open>\<open>adm\<close> decides for one bucket: \<^const>\<open>admit\<close> in the code, \<^const>\<open>admit_spec\<close> in the specification.\<close>

type_synonym admission = "int \<Rightarrow> seconds \<Rightarrow> instant \<Rightarrow> instant list \<Rightarrow> bool \<times> instant list"

definition rate_limited ::
  "admission \<Rightarrow> int \<Rightarrow> int \<Rightarrow> instant \<Rightarrow> ('p, 's) handler \<Rightarrow> ('p, 's) handler" where
  "rate_limited adm limit window now inner rid q s =
     (let i = rate_identity q in
      case adm limit (real_of_int window) now (api_buckets s i) of (admitted, bucket) \<Rightarrow>
        let s1 = s\<lparr>api_buckets := (api_buckets s)(i := bucket)\<rparr> in
        if admitted then inner rid q s1
        else (Responded ((error_response rid ''rate_limited'' ''Rate limit exceeded'' 429)
                \<lparr>hs_headers := [(''retry-after'', int_text window)]\<rparr>), s1))"

definition audited :: "('p, 's) handler \<Rightarrow> ('p, 's) handler" where
  "audited inner rid q s = (case inner rid q s of
     (Responded r, s') \<Rightarrow> (Responded r,
        if hq_method q \<notin> {''GET'', ''HEAD'', ''OPTIONS''}
          then s'\<lparr>api_log := api_log s' @ [\<lparr>le_method = hq_method q, le_path = hq_path q, le_status = hs_status r,
                 le_request_id = rid\<rparr>]\<rparr> else s')
   | other \<Rightarrow> other)"

text \<open>The application behind the gateway sees the request and the use-case layer's state only.\<close>

type_synonym ('p, 's) application = "string \<Rightarrow> http_request \<Rightarrow> 's \<Rightarrow> 'p outcome \<times> 's"

definition application_handler :: "('p, 's) application \<Rightarrow> ('p, 's) handler" where
  "application_handler app rid q s = (case app rid q (api_app s) of (out, a) \<Rightarrow> (out, s\<lparr>api_app := a\<rparr>))"

record api_config =
  cfg_key :: string
  cfg_body :: int
  cfg_limit :: int
  cfg_window :: int

definition gateway ::
  "admission \<Rightarrow> api_config \<Rightarrow> ('p, 's) application \<Rightarrow> instant \<Rightarrow> uuid \<Rightarrow> http_request \<Rightarrow> 's api_state
   \<Rightarrow> 'p outcome \<times> 's api_state" where
  "gateway adm cfg app now fresh =
     with_request_id fresh (authenticated (cfg_key cfg) (body_limited (cfg_body cfg) (timed
       (rate_limited adm (cfg_limit cfg) (cfg_window cfg) now (audited (application_handler app))))))"

subsection \<open>What reaches the application\<close>

text \<open>\<open>inert\<close>: the handler left the application alone and answered with an error.\<close>

definition untouched :: "'s api_state \<Rightarrow> 'p outcome \<times> 's api_state \<Rightarrow> bool" where
  "untouched s x \<longleftrightarrow> api_app (snd x) = api_app s \<and> (\<forall>r p. fst x = Responded r \<longrightarrow> hs_body r \<noteq> Content p)"

lemma untouched_error [simp]: "untouched s (Responded (error_response rid code message st), s)"
  by (simp add: untouched_def error_response_def)

lemma untouched_crash [simp]: "untouched s (Crashed, s)"
  by (simp add: untouched_def)

text \<open>
  C14. Only guarded requests reach the application. When a request to a path that is not
  exempt changes the application's state or is answered with content, it carried the configured
  non-empty API key, its body was within the limit, a declared length was a number
  within it, and its identity's window had room.
\<close>

theorem guarded_requests_reach_application:
  assumes "gateway admit cfg app now fresh q s = (out, s')"
    and "api_app s' \<noteq> api_app s \<or> (\<exists>r p. out = Responded r \<and> hs_body r = Content p)"
    and "hq_path q \<notin> {''/health/live'', ''/health/ready'', ''/v1/webhooks/github''}"
  shows "cfg_key cfg \<noteq> [] \<and> hq_header q ''x-api-key'' = Some (cfg_key cfg)
    \<and> int (length (hq_body q)) \<le> cfg_body cfg
    \<and> (\<forall>t. hq_header q ''content-length'' = Some t \<and> t \<noteq> [] \<longrightarrow>
         (\<exists>n. int_of_text t = Inr n \<and> 0 \<le> n \<and> n \<le> cfg_body cfg))
    \<and> int (length (fresh_part (real_of_int (cfg_window cfg)) now (api_buckets s (cfg_key cfg)))) < cfg_limit cfg"
proof -
  define limited where "limited = (rate_limited admit (cfg_limit cfg) (cfg_window cfg) now (audited (application_handler app)) :: ('a, 'b) handler)"
  obtain rid where rid: "rid = (if str_or (hq_header q ''x-request-id'') [] \<noteq> [] then take 128 (str_or (hq_header q ''x-request-id'') []) else fresh)"
    by simp
  define inner where "inner = authenticated (cfg_key cfg) (body_limited (cfg_body cfg) (timed limited)) rid q s"
  have touched: "\<not> untouched s inner"
    using assms(1,2) rid
    by (auto simp: gateway_def with_request_id_def limited_def [symmetric] inner_def untouched_def Let_def
        split: outcome.splits prod.splits)
  have key: "cfg_key cfg \<noteq> []" "compare_digest (str_or (hq_header q ''x-api-key'') []) (cfg_key cfg) = Some True"
    and body: "\<not> untouched s (body_limited (cfg_body cfg) (timed limited) rid q s)"
    using touched assms(3) unfolding inner_def authenticated_def
    by (auto simp: exempt_paths_def split: if_splits option.splits bool.splits)
  then have header: "hq_header q ''x-api-key'' = Some (cfg_key cfg)"
    by (cases "hq_header q ''x-api-key''") (auto simp: compare_digest_def str_or_def split: if_splits)
  have len: "int (length (hq_body q)) \<le> cfg_body cfg"
      "\<forall>t. hq_header q ''content-length'' = Some t \<and> t \<noteq> [] \<longrightarrow>
         (\<exists>n. int_of_text t = Inr n \<and> 0 \<le> n \<and> n \<le> cfg_body cfg)"
    and inside: "\<not> untouched s (timed limited rid q s)"
    using body by (auto simp: body_limited_def Let_def str_or_def split: if_splits sum.splits option.splits)
  have "rate_identity q = cfg_key cfg" using header key(1) by (simp add: rate_identity_def str_or_def)
  then have "int (length (fresh_part (real_of_int (cfg_window cfg)) now (api_buckets s (cfg_key cfg)))) < cfg_limit cfg"
    using inside
    by (auto simp: timed_def limited_def rate_limited_def admit_def Let_def untouched_def error_response_def
        split: if_splits outcome.splits)
  then show ?thesis using key(1) header len by blast
qed

text \<open>
  The exempt webhook path is limited by a header nobody has checked: with a new value in it every
  request has an empty bucket of its own.
\<close>

lemma unchecked_key_has_its_own_window:
  assumes "api_buckets s k = []" "k \<noteq> []" "hq_header q ''x-api-key'' = Some k" "0 < limit"
  shows "rate_limited admit limit window now inner rid q s = inner rid q (s\<lparr>api_buckets := (api_buckets s)(k := [now])\<rparr>)"
  using assms by (simp add: rate_limited_def rate_identity_def str_or_def admit_def fresh_part_def Let_def)

subsection \<open>The window against its history\<close>

definition api_sim :: "seconds \<Rightarrow> instant \<Rightarrow> 's api_state \<Rightarrow> 's api_state \<Rightarrow> bool" where
  "api_sim window now h b \<longleftrightarrow> api_log h = api_log b \<and> api_app h = api_app b
     \<and> (\<forall>i. window_of window now (api_buckets h i) (api_buckets b i))"

lemma api_sim_later: "\<lbrakk>api_sim window prev h b; prev \<le> now\<rbrakk> \<Longrightarrow> api_sim window now h b"
  unfolding api_sim_def window_of_def by (meson add_mono order_trans diff_right_mono)

text \<open>Two handlers that agree on states in simulation, and what the layers do to them.\<close>

definition similar :: "seconds \<Rightarrow> instant \<Rightarrow> instant \<Rightarrow> ('p, 's) handler \<Rightarrow> ('p, 's) handler \<Rightarrow> bool" where
  "similar window prev now f g \<longleftrightarrow> (\<forall>rid q h b. api_sim window prev h b \<longrightarrow>
     fst (f rid q h) = fst (g rid q b) \<and> api_sim window now (snd (f rid q h)) (snd (g rid q b)))"

lemma similarD: "\<lbrakk>similar window prev now f g; api_sim window prev h b\<rbrakk> \<Longrightarrow>
    fst (f rid q h) = fst (g rid q b) \<and> api_sim window now (snd (f rid q h)) (snd (g rid q b))"
  by (simp add: similar_def)

lemma similarI: "(\<And>rid q h b. api_sim window prev h b \<Longrightarrow>
    fst (f rid q h) = fst (g rid q b) \<and> api_sim window now (snd (f rid q h)) (snd (g rid q b))) \<Longrightarrow> similar window prev now f g"
  by (simp add: similar_def)

lemma similar_application: "similar window now now (application_handler app) (application_handler app)"
  by (rule similarI) (auto simp: application_handler_def api_sim_def split: prod.splits)

lemma similar_audited:
  fixes f g :: "('p, 's) handler"
  assumes "similar window prev now f g"
  shows "similar window prev now (audited f) (audited g)"
proof (rule similarI)
  fix rid q and h b :: "'s api_state"
  assume sim: "api_sim window prev h b"
  obtain o1 h1 o2 b1 where f: "f rid q h = (o1, h1)" and g: "g rid q b = (o2, b1)" by fastforce
  from similarD [OF assms sim, of rid q] f g
  show "fst (audited f rid q h) = fst (audited g rid q b) \<and> api_sim window now (snd (audited f rid q h)) (snd (audited g rid q b))"
    by (cases o1) (auto simp: audited_def api_sim_def)
qed

lemma similar_timed:
  fixes f g :: "('p, 's) handler"
  assumes "similar window prev now f g"
  shows "similar window prev now (timed f) (timed g)"
proof (rule similarI)
  fix rid q and h b :: "'s api_state"
  assume sim: "api_sim window prev h b"
  obtain o1 h1 o2 b1 where f: "f rid q h = (o1, h1)" and g: "g rid q b = (o2, b1)" by fastforce
  from similarD [OF assms sim, of rid q] f g
  show "fst (timed f rid q h) = fst (timed g rid q b) \<and> api_sim window now (snd (timed f rid q h)) (snd (timed g rid q b))"
    by (cases o1) (auto simp: timed_def)
qed

lemma similar_body_limited:
  fixes f g :: "('p, 's) handler"
  assumes "similar window prev now f g" and "prev \<le> now"
  shows "similar window prev now (body_limited m f) (body_limited m g)"
proof (rule similarI)
  fix rid q and h b :: "'s api_state"
  assume sim: "api_sim window prev h b"
  from similarD [OF assms(1) sim, of rid q] api_sim_later [OF sim assms(2)]
  show "fst (body_limited m f rid q h) = fst (body_limited m g rid q b)
      \<and> api_sim window now (snd (body_limited m f rid q h)) (snd (body_limited m g rid q b))"
    by (auto simp: body_limited_def Let_def split: sum.split)
qed

lemma similar_authenticated:
  fixes f g :: "('p, 's) handler"
  assumes "similar window prev now f g" and "prev \<le> now"
  shows "similar window prev now (authenticated k f) (authenticated k g)"
proof (rule similarI)
  fix rid q and h b :: "'s api_state"
  assume sim: "api_sim window prev h b"
  from similarD [OF assms(1) sim, of rid q] api_sim_later [OF sim assms(2)]
  show "fst (authenticated k f rid q h) = fst (authenticated k g rid q b)
      \<and> api_sim window now (snd (authenticated k f rid q h)) (snd (authenticated k g rid q b))"
    by (auto simp: authenticated_def split: option.split bool.split)
qed

lemma similar_rate_limited:
  fixes f g :: "('p, 's) handler"
  assumes "similar (real_of_int window) now now f g" and "prev \<le> now" and "0 \<le> window"
  shows "similar (real_of_int window) prev now (rate_limited admit_spec limit window now f) (rate_limited admit limit window now g)"
proof (rule similarI)
  fix rid q and h b :: "'s api_state"
  assume sim: "api_sim (real_of_int window) prev h b"
  let ?i = "rate_identity q"
  let ?S = "admit_spec limit (real_of_int window) now (api_buckets h ?i)"
  let ?A = "admit limit (real_of_int window) now (api_buckets b ?i)"
  have bucket: "window_of (real_of_int window) prev (api_buckets h ?i) (api_buckets b ?i)" using sim by (simp add: api_sim_def)
  from admit_refines [OF bucket assms(2)] assms(3)
  have step: "fst ?S = fst ?A" "window_of (real_of_int window) now (snd ?S) (snd ?A)" by auto
  let ?h = "h\<lparr>api_buckets := (api_buckets h)(?i := snd ?S)\<rparr>"
  let ?b = "b\<lparr>api_buckets := (api_buckets b)(?i := snd ?A)\<rparr>"
  have sim': "api_sim (real_of_int window) now ?h ?b"
    using api_sim_later [OF sim assms(2)] step(2) by (simp add: api_sim_def)
  show "fst (rate_limited admit_spec limit window now f rid q h) = fst (rate_limited admit limit window now g rid q b)
      \<and> api_sim (real_of_int window) now (snd (rate_limited admit_spec limit window now f rid q h))
          (snd (rate_limited admit limit window now g rid q b))"
    using step(1) sim' similarD [OF assms(1) sim', of rid q]
    by (simp add: rate_limited_def Let_def split_beta)
qed

lemma gateway_similar:
  assumes "api_sim (real_of_int (cfg_window cfg)) prev h b" and "prev \<le> now" and "0 \<le> cfg_window cfg"
  shows "fst (gateway admit_spec cfg app now fresh q h) = fst (gateway admit cfg app now fresh q b)
    \<and> api_sim (real_of_int (cfg_window cfg)) now (snd (gateway admit_spec cfg app now fresh q h))
        (snd (gateway admit cfg app now fresh q b))"
proof -
  let ?w = "real_of_int (cfg_window cfg)"
  let ?inner = "\<lambda>adm. authenticated (cfg_key cfg) (body_limited (cfg_body cfg) (timed
       (rate_limited adm (cfg_limit cfg) (cfg_window cfg) now (audited (application_handler app)))))"
  let ?rid = "if str_or (hq_header q ''x-request-id'') [] \<noteq> [] then take 128 (str_or (hq_header q ''x-request-id'') []) else fresh"
  obtain o1 h1 o2 b1 where f: "?inner admit_spec ?rid q h = (o1, h1)" and g: "?inner admit ?rid q b = (o2, b1)" by fastforce
  have "similar ?w prev now (?inner admit_spec) (?inner admit)"
    by (intro similar_authenticated similar_body_limited similar_timed similar_rate_limited similar_audited
        similar_application assms(2,3))
  from similarD [OF this assms(1), of ?rid q] f g have "o1 = o2 \<and> api_sim ?w now h1 b1" by simp
  then show ?thesis using f g
    unfolding gateway_def with_request_id_def Let_def by (cases o2) auto
qed

text \<open>A run answers the requests in the order of their times.\<close>

fun api_run ::
  "admission \<Rightarrow> api_config \<Rightarrow> ('p, 's) application \<Rightarrow> (instant \<times> uuid \<times> http_request) list \<Rightarrow> 's api_state
   \<Rightarrow> 'p outcome list \<times> 's api_state" where
  "api_run adm cfg app [] s = ([], s)"
| "api_run adm cfg app ((now, fresh, q) # rest) s = (case gateway adm cfg app now fresh q s of
     (out, s1) \<Rightarrow> (case api_run adm cfg app rest s1 of (outs, s2) \<Rightarrow> (out # outs, s2)))"

lemma api_run_similar:
  assumes "api_sim (real_of_int (cfg_window cfg)) prev h b" and "sorted (prev # map fst reqs)" and "0 \<le> cfg_window cfg"
  shows "fst (api_run admit_spec cfg app reqs h) = fst (api_run admit cfg app reqs b)
    \<and> (\<exists>now. api_sim (real_of_int (cfg_window cfg)) now (snd (api_run admit_spec cfg app reqs h)) (snd (api_run admit cfg app reqs b)))"
  using assms(1,2)
proof (induction reqs arbitrary: prev h b)
  case (Cons r reqs)
  obtain now fresh q where r: "r = (now, fresh, q)" by (metis prod_cases3)
  have "prev \<le> now" and "sorted (now # map fst reqs)" using Cons.prems(2) by (simp_all add: r)
  from gateway_similar [OF Cons.prems(1) this(1) assms(3), of app fresh q] Cons.IH [OF _ this(2)]
  show ?case by (simp add: r split_beta)
qed auto

text \<open>The specification's history of an identity stays within the limit.\<close>

definition histories_ok :: "api_config \<Rightarrow> instant \<Rightarrow> 's api_state \<Rightarrow> bool" where
  "histories_ok cfg now h \<longleftrightarrow> (\<forall>i. within_limit (cfg_limit cfg) (real_of_int (cfg_window cfg)) (api_buckets h i)
     \<and> (\<forall>t \<in> set (api_buckets h i). t \<le> now))"

lemma bucket_audited: "api_buckets (snd (audited (application_handler app) rid q s)) = api_buckets s"
  by (cases "app rid q (api_app s)"; cases "fst (app rid q (api_app s))") (auto simp: audited_def application_handler_def)

definition touches :: "(string \<Rightarrow> instant list) \<Rightarrow> (string \<Rightarrow> instant list) \<Rightarrow> 's api_state \<Rightarrow> bool" where
  "touches old new s \<longleftrightarrow> api_buckets s = old \<or> api_buckets s = new"

lemma touches_rate_limited:
  "touches (api_buckets s) ((api_buckets s)(rate_identity q := snd (adm limit (real_of_int window) now (api_buckets s (rate_identity q)))))
     (snd (rate_limited adm limit window now (audited (application_handler app)) rid q s))"
  by (auto simp: rate_limited_def touches_def bucket_audited Let_def split: prod.splits)

lemma touches_timed: "touches old new (snd (inner rid q s)) \<Longrightarrow> touches old new (snd (timed inner rid q s))"
  by (cases "inner rid q s"; cases "fst (inner rid q s)") (auto simp: timed_def)

lemma touches_body_limited:
  "touches (api_buckets s) new (snd (inner rid q s)) \<Longrightarrow> touches (api_buckets s) new (snd (body_limited m inner rid q s))"
  by (auto simp: body_limited_def touches_def Let_def split: sum.split)

lemma touches_authenticated:
  "touches (api_buckets s) new (snd (inner rid q s)) \<Longrightarrow> touches (api_buckets s) new (snd (authenticated k inner rid q s))"
  by (auto simp: authenticated_def touches_def split: option.split bool.split)

lemma touches_request_id:
  "(\<And>rid. touches old new (snd (inner rid q s))) \<Longrightarrow> touches old new (snd (with_request_id fresh inner q s))"
  by (auto simp: with_request_id_def Let_def split: prod.splits outcome.splits) (metis snd_conv)+

lemma gateway_histories:
  assumes "histories_ok cfg prev h" and "prev \<le> now"
  shows "histories_ok cfg now (snd (gateway admit_spec cfg app now fresh q h))"
proof -
  let ?i = "rate_identity q"
  let ?s = "admit_spec (cfg_limit cfg) (real_of_int (cfg_window cfg)) now (api_buckets h ?i)"
  have later: "histories_ok cfg now h" using assms by (fastforce simp: histories_ok_def)
  have "touches (api_buckets h) ((api_buckets h)(?i := snd ?s)) (snd (gateway admit_spec cfg app now fresh q h))"
    unfolding gateway_def
    by (intro touches_request_id touches_authenticated touches_body_limited touches_timed touches_rate_limited)
  moreover have "within_limit (cfg_limit cfg) (real_of_int (cfg_window cfg)) (snd ?s)"
    by (rule admit_spec_within) (use later in \<open>simp_all add: histories_ok_def\<close>)
  moreover have "\<forall>t \<in> set (snd ?s). t \<le> now" using later by (simp add: histories_ok_def admit_spec_def)
  ultimately show ?thesis using later by (auto simp: histories_ok_def touches_def split: if_splits)
qed

lemma api_run_histories:
  "\<lbrakk>histories_ok cfg prev h; sorted (prev # map fst reqs)\<rbrakk> \<Longrightarrow> \<exists>now. histories_ok cfg now (snd (api_run admit_spec cfg app reqs h))"
proof (induction reqs arbitrary: prev h)
  case (Cons r reqs)
  obtain now fresh q where r: "r = (now, fresh, q)" by (metis prod_cases3)
  have "prev \<le> now" and "sorted (now # map fst reqs)" using Cons.prems(2) by (simp_all add: r)
  from Cons.IH [OF gateway_histories [OF Cons.prems(1) this(1)] this(2)] show ?case by (simp add: r split_beta)
qed auto

text \<open>
  C16. The limiter refines its specification. From empty buckets and for requests in the order
  of time, the gateway with its pruned queues gives the same answers, log and application state as
  the one that keeps every admission for ever, and that history holds, for every
  identity, at most the limit in any window.
\<close>

theorem limiter_refines_history:
  assumes "\<forall>i. api_buckets s i = []" and "sorted (map fst reqs)" and "0 \<le> cfg_window cfg"
  shows "fst (api_run admit cfg app reqs s) = fst (api_run admit_spec cfg app reqs s)
    \<and> api_app (snd (api_run admit cfg app reqs s)) = api_app (snd (api_run admit_spec cfg app reqs s))
    \<and> api_log (snd (api_run admit cfg app reqs s)) = api_log (snd (api_run admit_spec cfg app reqs s))
    \<and> (\<forall>i. within_limit (cfg_limit cfg) (real_of_int (cfg_window cfg)) (api_buckets (snd (api_run admit_spec cfg app reqs s)) i))"
proof -
  define start where "start = (case reqs of [] \<Rightarrow> 0 | r # _ \<Rightarrow> fst r)"
  have order: "sorted (start # map fst reqs)" using assms(2) by (cases reqs) (auto simp: start_def)
  have "api_sim (real_of_int (cfg_window cfg)) start s s" using assms(1) by (simp add: api_sim_def)
  from api_run_similar [OF this order assms(3), of app] obtain now where
      "fst (api_run admit_spec cfg app reqs s) = fst (api_run admit cfg app reqs s)"
      "api_sim (real_of_int (cfg_window cfg)) now (snd (api_run admit_spec cfg app reqs s)) (snd (api_run admit cfg app reqs s))" by blast
  moreover have "histories_ok cfg start s" using assms(1) by (simp add: histories_ok_def within_limit_def)
  from api_run_histories [OF this order, of app] obtain now where
      "histories_ok cfg now (snd (api_run admit_spec cfg app reqs s))" by blast
  ultimately show ?thesis by (simp add: api_sim_def histories_ok_def)
qed

subsection \<open>The routes\<close>

fun cancellation_value :: "cancellation_result \<Rightarrow> string" where
  "cancellation_value CX_CANCELLED = ''cancelled''"
| "cancellation_value CX_ALREADY_CANCELLED = ''already_cancelled''"
| "cancellation_value CX_ALREADY_TERMINAL = ''already_terminal''"
| "cancellation_value CX_NOT_FOUND = ''not_found''"
| "cancellation_value CX_RUNNING_SIGNALLED = ''running_task_signalled''"

datatype api_route =
    R_submit task_request string | R_validate task_request | R_list int int | R_get uuid
  | R_cancel uuid string | R_retry uuid | R_evidence uuid | R_reviews uuid | R_approve uuid string
  | R_reject uuid string | R_repositories | R_repository string | R_webhook string string

datatype payload =
    Created_task task_record bool bool | Valid_request task_request | Task_page page | One_task task_record
  | Action string "task_record option" | Evidence_items "evidence_item list" | No_reviews
  | Repositories "string list" | One_repository string | Webhook_accepted | Framework_detail string

text \<open>The limits the request models and parameters put on their fields; otherwise the answer is 422.\<close>

fun route_valid :: "api_route \<Rightarrow> bool" where
  "route_valid (R_submit request key) \<longleftrightarrow> 8 \<le> length key \<and> length key \<le> 255"
| "route_valid (R_list offset limit) \<longleftrightarrow> 0 \<le> offset \<and> 1 \<le> limit \<and> limit \<le> 200"
| "route_valid (R_cancel i reason) \<longleftrightarrow> 1 \<le> length reason \<and> length reason \<le> 1000"
| "route_valid (R_approve i reason) \<longleftrightarrow> 1 \<le> length reason \<and> length reason \<le> 1000"
| "route_valid (R_reject i reason) \<longleftrightarrow> 1 \<le> length reason \<and> length reason \<le> 1000"
| "route_valid _ \<longleftrightarrow> True"

definition respond :: "string \<Rightarrow> int \<Rightarrow> ('a \<Rightarrow> 'p) \<Rightarrow> app_error + 'a \<Rightarrow> 'p outcome" where
  "respond rid status content result = (case result of
     Inr a \<Rightarrow> Responded \<lparr>hs_status = status, hs_headers = [], hs_body = Content (content a)\<rparr>
   | Inl Not_found \<Rightarrow> Responded (error_response rid ''not_found'' ''Task not found'' 404)
   | Inl (Conflict m) \<Rightarrow> Responded (error_response rid ''conflict'' m 409)
   | Inl _ \<Rightarrow> Crashed)"

text \<open>The names of the repositories among the first two hundred tasks, sorted.\<close>

definition repository_names :: "'d database \<Rightarrow> ('d, 's) app_state \<Rightarrow> app_error + string list" where
  "repository_names db A = (case list_page db 0 200 A of
     Inl e \<Rightarrow> Inl e | Inr p \<Rightarrow> Inr (sorted_set (map (\<lambda>t. repository (task_request t)) (page_items p))))"

text \<open>\<open>sign\<close> is ''sha256='' with the HMAC of the body under the webhook secret.\<close>

definition webhook_route :: "string \<Rightarrow> string \<Rightarrow> (string \<Rightarrow> string) \<Rightarrow> string \<Rightarrow> string \<Rightarrow> payload outcome" where
  "webhook_route rid secret sign body signature =
     (let denied = Responded (error_response rid ''http_error'' ''Invalid webhook signature'' 401) in
      if secret = [] then denied
      else case compare_digest signature (sign body) of
        None \<Rightarrow> Crashed
      | Some False \<Rightarrow> denied
      | Some True \<Rightarrow> Responded \<lparr>hs_status = 202, hs_headers = [], hs_body = Content Webhook_accepted\<rparr>)"

record api_services =
  sv_sha256 :: "string \<Rightarrow> digest"
  sv_secret :: string
  sv_sign :: "string \<Rightarrow> string"

fun run_route ::
  "'d database \<Rightarrow> 's queue_redis \<Rightarrow> api_services \<Rightarrow> app_io \<Rightarrow> string \<Rightarrow> api_route \<Rightarrow> ('d, 's) app_state
   \<Rightarrow> payload outcome \<times> ('d, 's) app_state" where
  "run_route db R V io rid (R_submit request key) A =
     (case create_task db R (sv_sha256 V) io request key A of (result, A') \<Rightarrow>
        (respond rid 202 (\<lambda>(t, r). Created_task t (er_accepted r) (\<not> er_accepted r)) result, A'))"
| "run_route db R V io rid (R_validate request) A = (respond rid 200 Valid_request (Inr request), A)"
| "run_route db R V io rid (R_list offset limit) A =
     (respond rid 200 Task_page (list_page db (nat offset) (nat limit) A), A)"
| "run_route db R V io rid (R_get i) A = (respond rid 200 One_task (get_task db i A), A)"
| "run_route db R V io rid (R_cancel i reason) A =
     (case cancel_task db R io i ''api'' reason A of
        (Inl e, A') \<Rightarrow> (respond rid 200 One_task (Inl e), A')
      | (Inr verdict, A') \<Rightarrow>
          (respond rid 200 (\<lambda>t. Action (cancellation_value verdict) (Some t)) (get_task db i A'), A'))"
| "run_route db R V io rid (R_retry i) A = (case retry_task db io i A of (result, A') \<Rightarrow>
     (respond rid 200 (\<lambda>t. Action ''queued'' (Some t)) result, A'))"
| "run_route db R V io rid (R_evidence i) A = (respond rid 200 Evidence_items (task_evidence db i A), A)"
| "run_route db R V io rid (R_reviews i) A = (respond rid 200 (\<lambda>_. No_reviews) (get_task db i A), A)"
| "run_route db R V io rid (R_approve i reason) A = (case decide_task db io i True A of (result, A') \<Rightarrow>
     (respond rid 200 (\<lambda>t. Action ''approved'' (Some t)) result, A'))"
| "run_route db R V io rid (R_reject i reason) A = (case decide_task db io i False A of (result, A') \<Rightarrow>
     (respond rid 200 (\<lambda>t. Action ''rejected'' (Some t)) result, A'))"
| "run_route db R V io rid R_repositories A = (respond rid 200 Repositories (repository_names db A), A)"
| "run_route db R V io rid (R_repository i) A =
     (case repository_names db A of
        Inl e \<Rightarrow> (respond rid 200 One_repository (Inl e), A)
      | Inr names \<Rightarrow> (if i \<in> set names then respond rid 200 One_repository (Inr i)
          else Responded (error_response rid ''http_error'' ''Repository not found'' 404), A))"
| "run_route db R V io rid (R_webhook body signature) A = (webhook_route rid (sv_secret V) (sv_sign V) body signature, A)"

text \<open>
  The application: \<open>parse\<close> is the router and the decoding of the request's models. A path it does not know is answered by
  FastAPI: the handler of \<open>create_app\<close> is for FastAPI's own \<open>HTTPException\<close>, the router raises its superclass.
\<close>

definition api_application ::
  "'d database \<Rightarrow> 's queue_redis \<Rightarrow> api_services \<Rightarrow> app_io \<Rightarrow> (http_request \<Rightarrow> api_route option)
   \<Rightarrow> (payload, ('d, 's) app_state) application" where
  "api_application db R V io parse rid q A = (case parse q of
     None \<Rightarrow> (Responded \<lparr>hs_status = 404, hs_headers = [], hs_body = Content (Framework_detail ''Not Found'')\<rparr>, A)
   | Some r \<Rightarrow> if route_valid r then run_route db R V io rid r A
       else (Responded (error_response rid ''validation_error'' ''Request validation failed'' 422), A))"

text \<open>The routes that write are the calls of the service.\<close>

fun route_call :: "app_io \<Rightarrow> api_route \<Rightarrow> service_call option" where
  "route_call io (R_submit request key) = Some (S_create io request key)"
| "route_call io (R_cancel i reason) = Some (S_cancel io i ''api'' reason)"
| "route_call io (R_retry i) = Some (S_retry io i)"
| "route_call io (R_approve i reason) = Some (S_decide io i True)"
| "route_call io (R_reject i reason) = Some (S_decide io i False)"
| "route_call io _ = None"

text \<open>
  What a request does to the control plane: whatever it is, it leaves the application's
  state alone or makes exactly one call of the service, that of its route, on the task
  and with the reason, key and verdict it names; the database then changes only as
  that call may change it.
\<close>

theorem request_makes_one_service_call:
  assumes "postgres db rows" and "api_application db R V io parse rid q A = (out, A')" and "A' \<noteq> A"
  shows "\<exists>r c. parse q = Some r \<and> route_valid r \<and> route_call io r = Some c \<and> A' = serve db R (sv_sha256 V) c A
    \<and> keeps_rows (rows (app_db A)) (task_move c) (rows (app_db A'))"
proof -
  obtain r where r: "parse q = Some r" "route_valid r" "run_route db R V io rid r A = (out, A')"
    using assms(2,3) by (auto simp: api_application_def split: option.splits if_splits)
  then obtain c where c: "route_call io r = Some c" "A' = serve db R (sv_sha256 V) c A"
    using assms(3) by (cases r) (auto split: prod.splits sum.splits if_splits)
  then show ?thesis using r service_call_moves_one_task [OF assms(1)] by blast
qed

subsection \<open>Sample requests\<close>

definition counting_app :: "(unit, nat) application" where
  "counting_app rid q n = (Responded \<lparr>hs_status = 200, hs_headers = [], hs_body = Content ()\<rparr>, Suc n)"

definition sample_post :: http_request where
  "sample_post = \<lparr>hq_method = ''POST'', hq_path = ''/v1/tasks'', hq_header = [''x-api-key'' \<mapsto> ''key'', ''content-length'' \<mapsto> ''2''],
     hq_client = None, hq_body = ''{}''\<rparr>"

definition sample_cfg :: api_config where
  "sample_cfg = \<lparr>cfg_key = ''key'', cfg_body = 100, cfg_limit = 1, cfg_window = 60\<rparr>"

definition idle_api :: "nat api_state" where
  "idle_api = \<lparr>api_buckets = (\<lambda>_. []), api_log = [], api_app = 0\<rparr>"

lemmas gateway_defs = gateway_def with_request_id_def authenticated_def exempt_paths_def body_limited_def timed_def
  rate_limited_def rate_identity_def audited_def application_handler_def compare_digest_def str_or_def error_response_def

lemma sample_gateway:
  "gateway admit sample_cfg counting_app 5 ''r'' sample_post idle_api
     = (Responded \<lparr>hs_status = 200, hs_headers = [(''x-request-id'', ''r'')], hs_body = Content ()\<rparr>,
        \<lparr>api_buckets = (\<lambda>_. [])(''key'' := [5]),
          api_log = [\<lparr>le_method = ''POST'', le_path = ''/v1/tasks'', le_status = 200, le_request_id = ''r''\<rparr>], api_app = 1\<rparr>)"
proof -
  have two: "int_of_text ''2'' = Inr 2" by code_simp
  have ascii: "list_all (\<lambda>c. c < CHR 0x80) ''key''" by code_simp
  show ?thesis
    by (simp add: gateway_defs sample_cfg_def counting_app_def sample_post_def idle_api_def admit_def fresh_part_def two ascii
        Let_def)
qed

theorem guarded_requests_reach_application_witness:
  "hq_header sample_post ''x-api-key'' = Some (cfg_key sample_cfg)
   \<and> api_app (snd (gateway admit sample_cfg counting_app 5 ''r'' sample_post idle_api)) = 1"
  using guarded_requests_reach_application [OF sample_gateway]
  by (simp add: sample_gateway) (simp add: idle_api_def sample_post_def)

theorem limiter_refines_history_witness:
  "fst (api_run admit sample_cfg counting_app [(5, ''r'', sample_post), (6, ''s'', sample_post), (70, ''t'', sample_post)] idle_api)
     = fst (api_run admit_spec sample_cfg counting_app [(5, ''r'', sample_post), (6, ''s'', sample_post), (70, ''t'', sample_post)] idle_api)"
  using limiter_refines_history [of idle_api "[(5, ''r'', sample_post), (6, ''s'', sample_post), (70, ''t'', sample_post)]"
      sample_cfg counting_app]
  by (simp add: idle_api_def sample_cfg_def)

definition failed_app :: "(memory_db, (queue_key, queue_value) mini_store) app_state" where
  "failed_app = empty_app\<lparr>app_db := \<lparr>md_tasks = [\<lparr>tr_id = ''t'', tr_key = ''k'', tr_repository = ''o/r'', tr_instruction = ''fix'',
     tr_state = ''failed'', tr_risk = LOW, tr_created = 1, tr_updated = 2\<rparr>], md_attempts = [], md_evidence = [], md_audit = []\<rparr>\<rparr>"

theorem request_makes_one_service_call_witness:
  "\<exists>A'. snd (api_application memory_database mini_redis \<lparr>sv_sha256 = id, sv_secret = [], sv_sign = id\<rparr> first_io
       (\<lambda>q. Some (R_retry ''t'')) ''r'' sample_post failed_app) = A'
     \<and> A' = serve memory_database mini_redis id (S_retry first_io ''t'') failed_app \<and> A' \<noteq> failed_app"
proof -
  let ?V = "\<lparr>sv_sha256 = id, sv_secret = [], sv_sign = id\<rparr>"
  let ?x = "api_application memory_database mini_redis ?V first_io (\<lambda>q. Some (R_retry ''t'')) ''r'' sample_post failed_app"
  have moved: "snd ?x \<noteq> failed_app"
    by (simp add: api_application_def retry_task_def get_task_def get_record_def app_transition_def db_transition_def
        on_task_def memory_database_def failed_app_def empty_app_def first_io_def to_record_def TaskRequest_def
        repo_name_ok_def repo_char_def new_task_def state_of_value_def restate_def)
  have run: "?x = (fst ?x, snd ?x)" by simp
  from request_makes_one_service_call [OF memory_pg.postgres_axioms run moved] moved
  show ?thesis by auto
qed

end
