(* ===== verification/Webhook.thy ===== *)
theory Webhook
  imports Py_Json
begin

text \<open>
  The verification of GitHub webhooks (\<open>github/webhooks.py\<close>): size, delivery identifier,
  signature, replay store, payload and repository. The HMAC and the JSON decoder are parameters.
\<close>

subsection \<open>The replay store\<close>

record replay_store =
  ttl_seconds :: seconds
  seen :: "string \<Rightarrow> instant option"

definition WebhookReplayStore :: "seconds \<Rightarrow> replay_store" where
  "WebhookReplayStore ttl = \<lparr>ttl_seconds = ttl, seen = (\<lambda>_. None)\<rparr>"

definition claim_delivery :: "string \<Rightarrow> instant \<Rightarrow> replay_store \<Rightarrow> bool \<times> replay_store" where
  "claim_delivery delivery now s =
     (let kept = (\<lambda>k. case seen s k of Some expiry \<Rightarrow> if expiry > now then Some expiry else None | None \<Rightarrow> None) in
      if kept delivery \<noteq> None then (False, s\<lparr>seen := kept\<rparr>)
      else (True, s\<lparr>seen := kept(delivery := Some (now + ttl_seconds s))\<rparr>))"

subsection \<open>Verification\<close>

record webhook_event =
  we_delivery :: string
  we_event :: string
  we_installation :: "int option"
  we_repository :: "string option"
  we_payload :: json
  actionable :: bool

definition ALLOWED_EVENTS :: "string list" where
  "ALLOWED_EVENTS = [''push'', ''pull_request'', ''pull_request_review'', ''check_run'', ''check_suite'', ''issue'',
     ''issues'', ''issue_comment'', ''installation'', ''installation_repositories'']"

datatype webhook_error =
    Body_too_large | Bad_delivery_id | Bad_signature | Already_processed | Not_json | Repository_not_allowed
  | Raised py_error

record webhook_verifier =
  wv_repositories :: "string list"
  wv_max_body :: nat

definition delivery_char :: "char \<Rightarrow> bool" where
  "delivery_char c \<longleftrightarrow> (CHR ''A'' \<le> c \<and> c \<le> CHR ''Z'') \<or> (CHR ''a'' \<le> c \<and> c \<le> CHR ''z'') \<or> digit c \<or> c = CHR ''-''"

definition delivery_ok :: "string \<Rightarrow> bool" where
  "delivery_ok d \<longleftrightarrow> 1 \<le> length d \<and> length d \<le> 128 \<and> list_all delivery_char d"

text \<open>The payload: \<open>repository.full_name\<close> and \<open>installation.id\<close>, both optional.\<close>

definition read_payload :: "webhook_verifier \<Rightarrow> string \<Rightarrow> string \<Rightarrow> json \<Rightarrow> webhook_error + webhook_event" where
  "read_payload V delivery event payload =
     (case after (get_key payload ''repository'' (JObj [])) (\<lambda>r. get_key r ''full_name'' JNull) of
        Inl e \<Rightarrow> Inl (Raised e)
      | Inr repository \<Rightarrow>
     (case after (get_key payload ''installation'' (JObj [])) (\<lambda>i. get_key i ''id'' JNull) of
        Inl e \<Rightarrow> Inl (Raised e)
      | Inr installation \<Rightarrow>
          if repository \<noteq> JNull \<and> \<not> hashable repository then Inl (Raised Shape_error)
          else if repository \<noteq> JNull \<and> repository \<notin> JStr ` set (wv_repositories V) then Inl Repository_not_allowed
          else (case (if installation = JNull then Inr None else after (int_of_json installation) (\<lambda>n. Inr (Some n))) of
              Inl e \<Rightarrow> Inl (Raised e)
            | Inr number \<Rightarrow> Inr \<lparr>we_delivery = delivery, we_event = event, we_installation = number,
                we_repository = (case repository of JStr name \<Rightarrow> Some name | _ \<Rightarrow> None), we_payload = payload,
                actionable = (event \<in> set ALLOWED_EVENTS)\<rparr>)))"

text \<open>\<open>sign\<close> is ''sha256='' with the HMAC of the body under the secret, \<open>loads\<close> decodes JSON.\<close>

definition verify_webhook ::
  "(string \<Rightarrow> string) \<Rightarrow> (string \<Rightarrow> json option) \<Rightarrow> webhook_verifier \<Rightarrow> instant \<Rightarrow> string \<Rightarrow> string \<Rightarrow> string
   \<Rightarrow> string \<Rightarrow> replay_store \<Rightarrow> (webhook_error + webhook_event) \<times> replay_store" where
  "verify_webhook sign loads V now body signature delivery event s =
     (if length body > wv_max_body V then (Inl Body_too_large, s)
      else if \<not> delivery_ok delivery then (Inl Bad_delivery_id, s)
      else case compare_digest (sign body) signature of
        None \<Rightarrow> (Inl (Raised Shape_error), s)
      | Some False \<Rightarrow> (Inl Bad_signature, s)
      | Some True \<Rightarrow> (case claim_delivery delivery now s of
          (False, s1) \<Rightarrow> (Inl Already_processed, s1)
        | (True, s1) \<Rightarrow> (case loads body of
            None \<Rightarrow> (Inl Not_json, s1)
          | Some payload \<Rightarrow> (read_payload V delivery event payload, s1))))"

subsection \<open>Deliveries\<close>

record webhook_request =
  wr_time :: instant
  wr_body :: string
  wr_signature :: string
  wr_delivery :: string
  wr_event :: string

definition verify_request ::
  "(string \<Rightarrow> string) \<Rightarrow> (string \<Rightarrow> json option) \<Rightarrow> webhook_verifier \<Rightarrow> webhook_request \<Rightarrow> replay_store
   \<Rightarrow> (webhook_error + webhook_event) \<times> replay_store" where
  "verify_request sign loads V q s =
     verify_webhook sign loads V (wr_time q) (wr_body q) (wr_signature q) (wr_delivery q) (wr_event q) s"

text \<open>The requests a run accepts, with the events they became.\<close>

fun accepted_requests ::
  "(string \<Rightarrow> string) \<Rightarrow> (string \<Rightarrow> json option) \<Rightarrow> webhook_verifier \<Rightarrow> webhook_request list \<Rightarrow> replay_store
   \<Rightarrow> (webhook_request \<times> webhook_event) list" where
  "accepted_requests sign loads V [] s = []"
| "accepted_requests sign loads V (q # qs) s = (case verify_request sign loads V q s of
     (Inl _, s1) \<Rightarrow> accepted_requests sign loads V qs s1
   | (Inr event, s1) \<Rightarrow> (q, event) # accepted_requests sign loads V qs s1)"

text \<open>
  As a store of one-shot permissions, for the requests of a window that ends at \<open>horizon\<close> and is no longer
  than the time to live: a delivery is spent when its entry outlives the window.
\<close>

definition use_delivery ::
  "(string \<Rightarrow> string) \<Rightarrow> (string \<Rightarrow> json option) \<Rightarrow> webhook_verifier \<Rightarrow> instant \<Rightarrow> seconds \<Rightarrow> replay_store
   \<Rightarrow> webhook_request \<Rightarrow> bool \<times> replay_store" where
  "use_delivery sign loads V horizon ttl s q =
     (if wr_time q < horizon \<and> horizon \<le> wr_time q + ttl \<and> ttl_seconds s = ttl
      then (case verify_request sign loads V q s of (Inl _, s1) \<Rightarrow> (False, s1) | (Inr _, s1) \<Rightarrow> (True, s1)) else (False, s))"

definition outlives :: "instant \<Rightarrow> replay_store \<Rightarrow> string \<Rightarrow> bool" where
  "outlives horizon s k \<longleftrightarrow> (\<exists>expiry. seen s k = Some expiry \<and> horizon \<le> expiry)"

lemma verify_store:
  assumes "verify_request sign loads V q s = (result, s')"
  shows "(s' = s \<or> s' = snd (claim_delivery (wr_delivery q) (wr_time q) s))
    \<and> (\<forall>event. result = Inr event \<longrightarrow> claim_delivery (wr_delivery q) (wr_time q) s = (True, s'))"
  using assms by (auto simp: verify_request_def verify_webhook_def split: if_splits option.splits bool.splits prod.splits)

lemma claim_keeps: "\<lbrakk>outlives horizon s k; now < horizon\<rbrakk> \<Longrightarrow> horizon \<le> now + ttl_seconds s \<Longrightarrow>
    outlives horizon (snd (claim_delivery d now s)) k"
  by (auto simp: outlives_def claim_delivery_def Let_def)

interpretation deliveries: one_shot "use_delivery sign loads V horizon ttl" wr_delivery "outlives horizon"
proof
  fix s q s'
  assume used: "use_delivery sign loads V horizon ttl s q = (True, s')"
  then have times: "wr_time q < horizon" "horizon \<le> wr_time q + ttl_seconds s"
    and claimed: "claim_delivery (wr_delivery q) (wr_time q) s = (True, s')"
    using verify_store by (auto simp: use_delivery_def split: if_splits prod.splits sum.splits)
  then show "\<not> outlives horizon s (wr_delivery q)"
    by (auto simp: claim_delivery_def outlives_def Let_def split: if_splits)
  show "outlives horizon s' (wr_delivery q)"
    using claimed times by (auto simp: claim_delivery_def outlives_def Let_def split: if_splits)
next
  fix s q ok s' k
  assume used: "use_delivery sign loads V horizon ttl s q = (ok, s')" and "outlives horizon s k"
  then show "outlives horizon s' k"
    using verify_store claim_keeps
    by (auto simp: use_delivery_def split: if_splits prod.splits sum.splits) (metis snd_conv)+
qed

lemma claim_ttl: "ttl_seconds (snd (claim_delivery d now s)) = ttl_seconds s"
  by (simp add: claim_delivery_def Let_def)

lemma accepted_granted:
  assumes "\<forall>q \<in> set qs. wr_time q < horizon \<and> horizon \<le> wr_time q + ttl_seconds s"
  shows "map (wr_delivery \<circ> fst) (accepted_requests sign loads V qs s)
    = granted (use_delivery sign loads V horizon (ttl_seconds s)) wr_delivery s qs"
  using assms
proof (induction qs arbitrary: s)
  case (Cons q qs)
  obtain result s1 where v: "verify_request sign loads V q s = (result, s1)" by fastforce
  then have ttl: "ttl_seconds s1 = ttl_seconds s" using verify_store [OF v] claim_ttl by metis
  from Cons.IH [of s1] Cons.prems ttl have "map (wr_delivery \<circ> fst) (accepted_requests sign loads V qs s1)
      = granted (use_delivery sign loads V horizon (ttl_seconds s)) wr_delivery s1 qs" by (simp add: comp_def)
  moreover have "use_delivery sign loads V horizon (ttl_seconds s) s q = (\<not> isl result, s1)"
    using v Cons.prems by (cases result) (simp_all add: use_delivery_def)
  ultimately show ?case using v by (cases result) (simp_all add: comp_def)
qed simp

lemma accepted_among:
  "fst ` set (accepted_requests sign loads V qs s) \<subseteq> set qs \<and> length (accepted_requests sign loads V qs s) \<le> length qs"
proof (induction qs arbitrary: s)
  case (Cons q qs)
  obtain result s1 where v: "verify_request sign loads V q s = (result, s1)" by fastforce
  show ?case using Cons.IH [of s1] v by (cases result) auto
qed simp

lemma accepted_authentic:
  assumes "(q, event) \<in> set (accepted_requests sign loads V qs s)"
  shows "wr_signature q = sign (wr_body q) \<and> length (wr_body q) \<le> wv_max_body V \<and> delivery_ok (wr_delivery q)
    \<and> we_delivery event = wr_delivery q \<and> loads (wr_body q) = Some (we_payload event)
    \<and> (\<forall>name. we_repository event = Some name \<longrightarrow> name \<in> set (wv_repositories V))
    \<and> (actionable event \<longleftrightarrow> wr_event q \<in> set ALLOWED_EVENTS)"
  using assms
proof (induction qs arbitrary: s)
  case (Cons p qs)
  obtain result s1 where v: "verify_request sign loads V p s = (result, s1)" by fastforce
  show ?case
  proof (cases "(q, event) \<in> set (accepted_requests sign loads V qs s1)")
    case False
    then have here: "p = q" "result = Inr event" using Cons.prems v by (auto split: sum.splits)
    then obtain payload where p: "loads (wr_body q) = Some payload" "read_payload V (wr_delivery q) (wr_event q) payload = Inr event"
        "compare_digest (sign (wr_body q)) (wr_signature q) = Some True" "length (wr_body q) \<le> wv_max_body V"
        "delivery_ok (wr_delivery q)"
      using v by (auto simp: verify_request_def verify_webhook_def split: if_splits option.splits bool.splits prod.splits)
    from p(2) have "we_delivery event = wr_delivery q \<and> we_payload event = payload
        \<and> (\<forall>name. we_repository event = Some name \<longrightarrow> name \<in> set (wv_repositories V))
        \<and> (actionable event \<longleftrightarrow> wr_event q \<in> set ALLOWED_EVENTS)"
      by (auto simp: read_payload_def split: sum.splits if_splits json.splits)
    then show ?thesis using p by (auto simp: compare_digest_def split: if_splits)
  qed (use Cons.IH in blast)
qed simp

text \<open>
  C17. Webhooks are authentic and handled once. In any run of requests whose times lie within one
  time-to-live, in whatever order and whatever they contain, no delivery identifier is
  accepted twice; and each accepted request carries the signature of its own body, is within the
  size limit, has a well-formed identifier, names no repository or an allowed one, and
  is actionable exactly for the listed events.
\<close>

theorem webhook_accepted_once:
  assumes "\<forall>q \<in> set qs. start \<le> wr_time q \<and> wr_time q < start + ttl_seconds s"
  shows "distinct (map (wr_delivery \<circ> fst) (accepted_requests sign loads V qs s))
    \<and> (\<forall>(q, event) \<in> set (accepted_requests sign loads V qs s).
         wr_signature q = sign (wr_body q) \<and> length (wr_body q) \<le> wv_max_body V \<and> delivery_ok (wr_delivery q)
         \<and> we_delivery event = wr_delivery q \<and> loads (wr_body q) = Some (we_payload event)
         \<and> (\<forall>name. we_repository event = Some name \<longrightarrow> name \<in> set (wv_repositories V))
         \<and> (actionable event \<longleftrightarrow> wr_event q \<in> set ALLOWED_EVENTS))"
proof -
  have "\<forall>q \<in> set qs. wr_time q < start + ttl_seconds s \<and> start + ttl_seconds s \<le> wr_time q + ttl_seconds s"
    using assms by auto
  from accepted_granted [OF this] deliveries.granted_distinct
  have "distinct (map (wr_delivery \<circ> fst) (accepted_requests sign loads V qs s))" by metis
  then show ?thesis using accepted_authentic by fastforce
qed

definition sample_hook :: "instant \<Rightarrow> webhook_request" where
  "sample_hook t = \<lparr>wr_time = t, wr_body = ''{}'', wr_signature = ''s={}'', wr_delivery = ''d-1'', wr_event = ''push''\<rparr>"

definition sample_verifier :: webhook_verifier where
  "sample_verifier = \<lparr>wv_repositories = [''o/r''], wv_max_body = 1000\<rparr>"

definition sample_loads :: "string \<Rightarrow> json option" where
  "sample_loads body = (if body = ''{}'' then Some (JObj [(''repository'', JObj [(''full_name'', JStr ''o/r'')])]) else None)"

theorem webhook_accepted_once_witness:
  "map fst (accepted_requests ((@) ''s='') sample_loads sample_verifier [sample_hook 1, sample_hook 2] (WebhookReplayStore 3600))
     = [sample_hook 1]"
proof -
  let ?acc = "accepted_requests ((@) ''s='') sample_loads sample_verifier [sample_hook 1, sample_hook 2] (WebhookReplayStore 3600)"
  have first: "?acc \<noteq> [] \<and> fst (hd ?acc) = sample_hook 1"
  proof -
    have "delivery_ok ''d-1''" "compare_digest ''s={}'' ''s={}'' = Some True" by code_simp+
    then show ?thesis
      by (simp add: verify_request_def verify_webhook_def sample_hook_def sample_verifier_def sample_loads_def
          WebhookReplayStore_def claim_delivery_def read_payload_def)
  qed
  have "distinct (map (wr_delivery \<circ> fst) ?acc)"
    using webhook_accepted_once [of "[sample_hook 1, sample_hook 2]" 0 "WebhookReplayStore 3600"]
    by (simp add: sample_hook_def WebhookReplayStore_def del: accepted_requests.simps)
  moreover have "set (map fst ?acc) \<subseteq> {sample_hook 1, sample_hook 2}" "length ?acc \<le> 2"
    using accepted_among [of "(@) ''s=''" sample_loads sample_verifier "[sample_hook 1, sample_hook 2]" "WebhookReplayStore 3600"]
    by (simp_all del: accepted_requests.simps)
  ultimately show ?thesis using first
    by (cases ?acc; cases "tl ?acc") (auto simp: sample_hook_def)
qed

text \<open>
  The identifier is claimed before the payload is read: a signed body that cannot be decoded,
  or whose repository is null, uses up its delivery.
\<close>

lemma failed_delivery_is_spent:
  assumes "verify_webhook sign loads V now body signature delivery event s = (Inl e, s')"
    and "e = Not_json \<or> e = Repository_not_allowed" and "now \<le> later" "later < now + ttl_seconds s"
    and "length body \<le> wv_max_body V" "compare_digest (sign body) signature = Some True" "delivery_ok delivery"
  shows "fst (verify_webhook sign loads2 V later body signature delivery event s') = Inl Already_processed"
proof -
  have "claim_delivery delivery now s = (True, s')"
    using assms by (auto simp: verify_webhook_def split: if_splits option.splits bool.splits prod.splits)
  then have "seen s' delivery = Some (now + ttl_seconds s)" by (auto simp: claim_delivery_def Let_def split: if_splits)
  then show ?thesis using assms(3-7) by (simp add: verify_webhook_def claim_delivery_def)
qed

end
