(* ===== verification/Telegram_Text.thy ===== *)
theory Telegram_Text
  imports Lifecycle "HOL-Library.Sublist"
begin

text \<open>
  What the Telegram bot sends (\<open>telegram/formatting.py\<close>): redaction, escaping, the parts a long
  message is cut into, and the two summaries.
\<close>

subsection \<open>Redaction and escaping\<close>

text \<open>
  The expression \<open>(api[_-]?key|token|secret|private[_-]?key|authorization)\s*[:=]\s*\S+\<close> without regard to case:
  the length of the word at the front of a text, then of the whole match.
\<close>

definition sensitive_words :: "string list" where
  "sensitive_words = [''api_key'', ''api-key'', ''apikey'', ''token'', ''secret'', ''private_key'', ''private-key'',
     ''privatekey'', ''authorization'']"

definition word_here :: "string \<Rightarrow> string option" where
  "word_here s = map_option (\<lambda>w. take (length w) s) (find (\<lambda>w. lower (take (length w) s) = w) sensitive_words)"

definition after_value :: "string \<Rightarrow> string option" where
  "after_value s = (case dropWhile py_space s of
     c # rest \<Rightarrow> if c = CHR '':'' \<or> c = CHR ''=''
       then (let v = dropWhile py_space rest in if v = [] then None else Some (dropWhile (\<lambda>x. \<not> py_space x) v))
       else None
   | [] \<Rightarrow> None)"

text \<open>The word matched at the front and what follows the match.\<close>

definition sensitive_at :: "string \<Rightarrow> (string \<times> string) option" where
  "sensitive_at s = (case word_here s of None \<Rightarrow> None
     | Some w \<Rightarrow> map_option (Pair w) (after_value (drop (length w) s)))"

lemma dropWhile_length: "length (dropWhile P xs) \<le> length xs"
  by (induction xs) auto

lemma after_value_shorter: "after_value s = Some rest \<Longrightarrow> length rest < length s"
proof (cases "dropWhile py_space s")
  case (Cons c cs)
  assume some: "after_value s = Some rest"
  then have "rest = dropWhile (\<lambda>x. \<not> py_space x) (dropWhile py_space cs)"
    using Cons by (auto simp: after_value_def Let_def split: if_splits)
  moreover have "length (c # cs) \<le> length s" using dropWhile_length [of py_space s] Cons by simp
  ultimately show ?thesis
    using dropWhile_length [of "\<lambda>x. \<not> py_space x" "dropWhile py_space cs"] dropWhile_length [of py_space cs] by simp
qed (simp add: after_value_def)

lemma sensitive_shorter: "sensitive_at s = Some (w, rest) \<Longrightarrow> length rest < length s"
  by (auto simp: sensitive_at_def split: option.splits dest!: after_value_shorter)

function redact_message :: "string \<Rightarrow> string" where
  "redact_message s = (case s of [] \<Rightarrow> []
     | c # cs \<Rightarrow> (case sensitive_at s of
         None \<Rightarrow> c # redact_message cs
       | Some (w, rest) \<Rightarrow> w @ ''=[REDACTED]'' @ redact_message rest))"
  by pat_completeness auto
termination
  by (relation "measure length") (use sensitive_shorter in fastforce)+

declare redact_message.simps [simp del]

fun escape_char :: "char \<Rightarrow> string" where
  "escape_char c = (if c = CHR ''&'' then ''&amp;'' else if c = CHR ''<'' then ''&lt;''
     else if c = CHR ''>'' then ''&gt;'' else [c])"

definition escape :: "string \<Rightarrow> string" where
  "escape t = concat (map escape_char (redact_message t))"

lemma escape_no_markup: "CHR ''<'' \<notin> set (escape t) \<and> CHR ''>'' \<notin> set (escape t)"
  by (auto simp: escape_def split: if_splits)

subsection \<open>Parts of a message\<close>

abbreviation (input) newline :: char where
  "newline \<equiv> CHR 0x0A"

text \<open>The last newline among the first \<open>n\<close> characters.\<close>

definition last_newline :: "nat \<Rightarrow> string \<Rightarrow> nat option" where
  "last_newline n s = (let found = filter (\<lambda>i. i < length s \<and> s ! i = newline) [0..<n] in
     if found = [] then None else Some (last found))"

definition cut_at :: "nat \<Rightarrow> string \<Rightarrow> nat" where
  "cut_at m s = (case last_newline (m + 1) s of None \<Rightarrow> m | Some i \<Rightarrow> if i < m div 2 then m else i)"

lemma cut_bounds: "m div 2 \<le> cut_at m s \<and> cut_at m s \<le> m"
proof -
  have "i \<le> m" if "last_newline (m + 1) s = Some i" for i
  proof -
    let ?f = "filter (\<lambda>i. i < length s \<and> s ! i = newline) [0..<m + 1]"
    have "?f \<noteq> []" "i = last ?f" using that by (simp_all add: last_newline_def Let_def split: if_splits del: upt_Suc filter.simps)
    then have "i \<in> set ?f" using last_in_set by blast
    then have "i \<in> set [0..<m + 1]" by (simp only: set_filter mem_Collect_eq)
    then show ?thesis by auto
  qed
  then show ?thesis by (auto simp: cut_at_def split: option.splits)
qed

function chunk_list :: "nat \<Rightarrow> string \<Rightarrow> string list" where
  "chunk_list m s = (if s = [] \<or> m < 32 then []
     else if length s \<le> m then [s]
     else take (cut_at m s) s # chunk_list m (dropWhile (\<lambda>c. c = newline) (drop (cut_at m s) s)))"
  by pat_completeness auto
termination
proof (relation "measure (length \<circ> snd)")
  fix m :: nat and s :: string
  assume "\<not> (s = [] \<or> m < 32)" "\<not> length s \<le> m"
  then have "0 < cut_at m s" "s \<noteq> []" using cut_bounds [of m s] by auto
  then show "((m, dropWhile (\<lambda>c. c = newline) (drop (cut_at m s) s)), m, s) \<in> measure (length \<circ> snd)"
    using dropWhile_length [of "\<lambda>c. c = newline" "drop (cut_at m s) s"] by (simp add: le_less_trans)
qed simp

declare chunk_list.simps [simp del]

definition chunks :: "string \<Rightarrow> nat \<Rightarrow> string list option" where
  "chunks s maximum = (if maximum < 32 then None
     else Some (case chunk_list maximum s of [] \<Rightarrow> [[]] | output \<Rightarrow> output))"

lemma filter_dropWhile_not: "filter (\<lambda>c. c \<noteq> x) (dropWhile (\<lambda>c. c = x) s) = filter (\<lambda>c. c \<noteq> x) s"
  by (induction s) auto

lemma chunk_list_parts:
  assumes "32 \<le> m"
  shows "(\<forall>c \<in> set (chunk_list m s). 0 < length c \<and> length c \<le> m)
    \<and> filter (\<lambda>c. c \<noteq> newline) (concat (chunk_list m s)) = filter (\<lambda>c. c \<noteq> newline) s
    \<and> length (chunk_list m s) * (m div 2) \<le> length s + m div 2
    \<and> subseq (concat (chunk_list m s)) s"
  using assms
proof (induction m s rule: chunk_list.induct)
  case (1 m s)
  show ?case
  proof (cases "s = [] \<or> length s \<le> m")
    case True
    then show ?thesis using 1(2) by (auto simp: chunk_list.simps [of m s])
  next
    case False
    let ?r = "dropWhile (\<lambda>c. c = newline) (drop (cut_at m s) s)"
    have step: "chunk_list m s = take (cut_at m s) s # chunk_list m ?r"
      using False 1(2) by (simp add: chunk_list.simps [of m s])
    have rest: "(\<forall>c \<in> set (chunk_list m ?r). 0 < length c \<and> length c \<le> m)"
        "filter (\<lambda>c. c \<noteq> newline) (concat (chunk_list m ?r)) = filter (\<lambda>c. c \<noteq> newline) ?r"
        "length (chunk_list m ?r) * (m div 2) \<le> length ?r + m div 2" "subseq (concat (chunk_list m ?r)) ?r"
      using "1.IH" False 1(2) by auto
    have cut: "m div 2 \<le> cut_at m s" "cut_at m s \<le> m" "cut_at m s < length s" using cut_bounds [of m s] False by auto
    have "length ?r \<le> length s - cut_at m s" using dropWhile_length [of "\<lambda>c. c = newline" "drop (cut_at m s) s"] by simp
    moreover have "subseq ?r (drop (cut_at m s) s)"
      by (metis list_emb_append2 subseq_order.refl takeWhile_dropWhile_id)
    then have "subseq (concat (chunk_list m ?r)) (drop (cut_at m s) s)" using rest(4) by (rule subseq_order.trans [rotated])
    then have "subseq (concat (chunk_list m s)) s"
      by (simp add: step) (metis append_take_drop_id list_emb_append_mono subseq_order.refl)
    moreover have "filter (\<lambda>c. c \<noteq> newline) (concat (chunk_list m s)) = filter (\<lambda>c. c \<noteq> newline) s"
      using rest(2) by (simp add: step filter_dropWhile_not) (metis append_take_drop_id filter_append)
    moreover have "length (chunk_list m s) * (m div 2) \<le> length s + m div 2"
      using rest(3) cut calculation(1) by (simp add: step)
    moreover have "\<forall>c \<in> set (chunk_list m s). 0 < length c \<and> length c \<le> m"
      using rest(1) cut 1(2) False by (auto simp: step)
    ultimately show ?thesis by blast
  qed
qed

text \<open>
  The parts of a message: cutting gives at least one part, each part is within the maximum, only
  newlines at the cuts are dropped and everything else comes in order, and the number of
  parts is bounded by the length over half the maximum.
\<close>

theorem message_parts_complete:
  assumes "chunks s maximum = Some parts"
  shows "parts \<noteq> [] \<and> (\<forall>c \<in> set parts. length c \<le> maximum \<and> (c = [] \<longrightarrow> s = []))
    \<and> subseq (concat parts) s
    \<and> filter (\<lambda>c. c \<noteq> newline) (concat parts) = filter (\<lambda>c. c \<noteq> newline) s
    \<and> length parts * (maximum div 2) \<le> length s + maximum div 2"
proof -
  have m: "32 \<le> maximum" and parts: "parts = (if chunk_list maximum s = [] then [[]] else chunk_list maximum s)"
    using assms by (auto simp: chunks_def split: if_splits list.splits)
  note all = chunk_list_parts [OF m, of s]
  have "s = []" if "chunk_list maximum s = []"
    using that m by (simp add: chunk_list.simps [of maximum s] split: if_splits)
  then show ?thesis using all parts by (cases "chunk_list maximum s = []") auto
qed

theorem message_parts_complete_witness:
  "\<exists>parts. chunks (replicate 20 CHR ''a'' @ newline # replicate 20 CHR ''b'') 32 = Some parts
     \<and> (\<forall>c \<in> set parts. length c \<le> 32) \<and> length parts * 16 \<le> 57"
proof -
  obtain parts where parts: "chunks (replicate 20 CHR ''a'' @ newline # replicate 20 CHR ''b'') 32 = Some parts"
    by (simp add: chunks_def)
  from message_parts_complete [OF this] this show ?thesis by auto
qed

text \<open>
  A long line is cut wherever the maximum falls, inside an entity or a tag of the message's markup too.
\<close>

lemma long_line_is_cut_anywhere:
  assumes "newline \<notin> set s" "maximum < length s" "32 \<le> maximum"
  shows "\<exists>rest. chunks s maximum = Some (take maximum s # rest)"
proof -
  have "filter (\<lambda>i. i < length s \<and> s ! i = newline) [0..<maximum + 1] = []"
    by (simp add: filter_empty_conv del: upt_Suc) (use assms(1) nth_mem in metis)
  then have "cut_at maximum s = maximum" by (simp add: cut_at_def last_newline_def Let_def)
  then show ?thesis using assms by (auto simp: chunks_def chunk_list.simps [of maximum s])
qed

subsection \<open>Summaries\<close>

definition task_status :: "task_record \<Rightarrow> string" where
  "task_status task = ''<b>Task</b> <code>'' @ escape (task_id task) @ ''</code>'' @ [newline]
     @ ''<b>State</b> '' @ escape (state_value (task_state task)) @ [newline]
     @ ''<b>Repository</b> '' @ escape (repository (task_request task))"

text \<open>\<open>bullet\<close> is the mark before each item; it has no code among the characters used here.\<close>

definition evidence_summary :: "char \<Rightarrow> evidence_item list \<Rightarrow> string" where
  "evidence_summary bullet items = (if items = [] then ''No evidence has been recorded.''
     else join_with [newline] (map (\<lambda>e. bullet # '' <b>'' @ escape (ev_kind e) @ ''</b>: '' @ escape (ev_summary e)) items))"

end
