(* ===== verification/Telegram.thy ===== *)
theory Telegram
  imports Telegram_Text Application Py_Json Rate_Window
begin

text \<open>
  The Telegram control surface: access policy and callback signer (\<open>telegram/security.py\<close>), the models
  (\<open>telegram/models.py\<close>), sending with back-off (\<open>telegram/transport.py\<close>) and the bot
  (\<open>telegram/bot.py\<close>) over the use-case layer. The HMAC, base64 and JSON coding of callbacks, the
  parsing of identifiers and Telegram's answers are parameters.
\<close>

subsection \<open>Access\<close>

datatype telegram_role = OWNER | OPERATOR | REVIEWER | VIEWER

record access_policy =
  allowed_users :: "int list"
  allowed_chats :: "int list"
  owners :: "int list"
  operators :: "int list"
  reviewers :: "int list"

definition role_for :: "access_policy \<Rightarrow> int \<Rightarrow> telegram_role option" where
  "role_for P user =
     (if user \<notin> set (allowed_users P) then None
      else if user \<in> set (owners P) then Some OWNER
      else if user \<in> set (operators P) then Some OPERATOR
      else if user \<in> set (reviewers P) then Some REVIEWER
      else Some VIEWER)"

definition COMMAND_ROLES :: "(string \<times> telegram_role list) list" where
  "COMMAND_ROLES =
    [(''start'', [OWNER, OPERATOR, REVIEWER, VIEWER]), (''help'', [OWNER, OPERATOR, REVIEWER, VIEWER]),
     (''status'', [OWNER, OPERATOR, REVIEWER, VIEWER]), (''analyze'', [OWNER, OPERATOR]), (''fix'', [OWNER, OPERATOR]),
     (''review'', [OWNER, OPERATOR, REVIEWER]), (''cancel'', [OWNER, OPERATOR]), (''approve'', [OWNER, REVIEWER]),
     (''reject'', [OWNER, REVIEWER]), (''deploy'', [OWNER])]"

definition command_roles :: "string \<Rightarrow> telegram_role list" where
  "command_roles name = (case map_of COMMAND_ROLES name of None \<Rightarrow> [] | Some rs \<Rightarrow> rs)"

subsection \<open>Signed callbacks\<close>

text \<open>\<open>mac\<close> is the first 32 digits of the HMAC; \<open>encode\<close> and \<open>decode\<close> go through JSON and base64 without padding.\<close>

record callback_codec =
  cb_mac :: "string \<Rightarrow> string"
  cb_encode :: "json \<Rightarrow> string"
  cb_decode :: "string \<Rightarrow> json option"
  cb_str :: "json \<Rightarrow> string"

record callback_signer =
  cs_lifetime :: int
  cs_used :: "string \<Rightarrow> int option"

definition CallbackSigner :: "string \<Rightarrow> int \<Rightarrow> callback_signer option" where
  "CallbackSigner secret lifetime = (if length secret < 16 then None
     else Some \<lparr>cs_lifetime = lifetime, cs_used = (\<lambda>_. None)\<rparr>)"

text \<open>\<open>now or int(time.time())\<close>\<close>

definition given_or_clock :: "int option \<Rightarrow> int \<Rightarrow> int" where
  "given_or_clock now clk = (case now of None \<Rightarrow> clk | Some n \<Rightarrow> if n = 0 then clk else n)"

definition callback_payload :: "string \<Rightarrow> string \<Rightarrow> int \<Rightarrow> string \<Rightarrow> json" where
  "callback_payload action tid expires nonce = JObj
     [(''action'', JStr action), (''task_id'', JStr tid), (''expires'', JInt expires), (''nonce'', JStr nonce)]"

definition sign_callback ::
  "callback_codec \<Rightarrow> string \<Rightarrow> string \<Rightarrow> int option \<Rightarrow> int \<Rightarrow> string \<Rightarrow> callback_signer \<Rightarrow> string" where
  "sign_callback C action tid now clk nonce S =
     (let encoded = cb_encode C (callback_payload action tid (given_or_clock now clk + cs_lifetime S) nonce)
      in encoded @ ''.'' @ cb_mac C encoded)"

datatype callback_error = Malformed | Bad_callback_signature | Expired_callback | Used_callback
  | Callback_value_error | Callback_raised py_error

text \<open>\<open>token.split(".", 1)\<close> into two parts.\<close>

definition split_token :: "string \<Rightarrow> (string \<times> string) option" where
  "split_token t = (if CHR ''.'' \<in> set t
     then Some (takeWhile (\<lambda>c. c \<noteq> CHR ''.'') t, tl (dropWhile (\<lambda>c. c \<noteq> CHR ''.'') t)) else None)"

definition open_token :: "callback_codec \<Rightarrow> string \<Rightarrow> callback_error + json" where
  "open_token C token = (case split_token token of
     None \<Rightarrow> Inl Malformed
   | Some (encoded, supplied) \<Rightarrow> (case compare_digest supplied (cb_mac C encoded) of
       None \<Rightarrow> Inl (Callback_raised Shape_error)
     | Some False \<Rightarrow> Inl Bad_callback_signature
     | Some True \<Rightarrow> (case cb_decode C encoded of None \<Rightarrow> Inl Malformed | Some payload \<Rightarrow> Inr payload)))"

definition member_int :: "json \<Rightarrow> string \<Rightarrow> callback_error + int" where
  "member_int p k = (case item_key p k of Inl e \<Rightarrow> Inl (Callback_raised e)
     | Inr v \<Rightarrow> (case int_of_json v of Inr n \<Rightarrow> Inr n
         | Inl e \<Rightarrow> Inl (case v of JStr t \<Rightarrow> Callback_value_error | _ \<Rightarrow> Callback_raised e)))"

definition member_text :: "callback_codec \<Rightarrow> json \<Rightarrow> string \<Rightarrow> callback_error + string" where
  "member_text C p k = (case item_key p k of Inl e \<Rightarrow> Inl (Callback_raised e) | Inr v \<Rightarrow> Inr (cb_str C v))"

text \<open>The two readings of the clock in one call are taken as one.\<close>

definition verify_callback ::
  "callback_codec \<Rightarrow> string \<Rightarrow> int option \<Rightarrow> int \<Rightarrow> callback_signer
   \<Rightarrow> (callback_error + string \<times> string) \<times> callback_signer" where
  "verify_callback C token now clk S =
     (case open_token C token of Inl e \<Rightarrow> (Inl e, S)
      | Inr payload \<Rightarrow> (case member_int payload ''expires'' of Inl e \<Rightarrow> (Inl e, S)
      | Inr expires \<Rightarrow>
          let current = given_or_clock now clk in
          if expires < current then (Inl Expired_callback, S)
          else (case member_text C payload ''nonce'' of Inl e \<Rightarrow> (Inl e, S)
          | Inr nonce \<Rightarrow>
              let kept = (\<lambda>k. case cs_used S k of Some e \<Rightarrow> if e \<ge> current then Some e else None | None \<Rightarrow> None) in
              if kept nonce \<noteq> None then (Inl Used_callback, S\<lparr>cs_used := kept\<rparr>)
              else let S1 = S\<lparr>cs_used := kept(nonce := Some expires)\<rparr> in
                (case member_text C payload ''action'' of Inl e \<Rightarrow> (Inl e, S1)
                 | Inr action \<Rightarrow> (case member_text C payload ''task_id'' of Inl e \<Rightarrow> (Inl e, S1)
                 | Inr tid \<Rightarrow> (Inr (action, tid), S1))))))"

subsection \<open>A callback works once\<close>

text \<open>A request brings a token some time after the last one; the clock does not go back.\<close>

definition use_callback :: "callback_codec \<Rightarrow> int \<times> callback_signer \<Rightarrow> string \<times> nat \<Rightarrow> bool \<times> int \<times> callback_signer" where
  "use_callback C s q = (case s of (clk, S) \<Rightarrow> (case q of (token, wait) \<Rightarrow>
     (case verify_callback C token None (clk + int wait) S of
        (Inl _, S') \<Rightarrow> (False, clk + int wait, S')
      | (Inr _, S') \<Rightarrow> (True, clk + int wait, S'))))"

definition callback_spent :: "callback_codec \<Rightarrow> int \<times> callback_signer \<Rightarrow> string \<Rightarrow> bool" where
  "callback_spent C s token \<longleftrightarrow> (\<exists>payload expires nonce. open_token C token = Inr payload
     \<and> member_int payload ''expires'' = Inr expires \<and> member_text C payload ''nonce'' = Inr nonce
     \<and> (expires < fst s \<or> (\<exists>e. cs_used (snd s) nonce = Some e \<and> expires \<le> e)))"

lemma verify_callback_ok:
  assumes "verify_callback C token now clk S = (Inr (action, tid), S')"
  shows "\<exists>payload expires nonce. open_token C token = Inr payload \<and> member_int payload ''expires'' = Inr expires
    \<and> member_text C payload ''nonce'' = Inr nonce \<and> given_or_clock now clk \<le> expires
    \<and> (\<forall>e. cs_used S nonce = Some e \<longrightarrow> e < given_or_clock now clk)
    \<and> cs_used S' nonce = Some expires
    \<and> member_text C payload ''action'' = Inr action \<and> member_text C payload ''task_id'' = Inr tid"
  using assms by (auto simp: verify_callback_def Let_def split: sum.splits if_splits option.splits)

lemma verify_callback_keeps:
  assumes "verify_callback C token now clk S = (result, S')" and "cs_used S n = Some e"
  shows "cs_used S' n = Some e \<or> e < given_or_clock now clk"
  using assms by (auto simp: verify_callback_def Let_def split: sum.splits if_splits option.splits)

lemma given_or_clock_None [simp]: "given_or_clock None clk = clk"
  by (simp add: given_or_clock_def)

interpretation callbacks: one_shot "use_callback C" fst "callback_spent C"
proof
  fix s q s'
  assume used: "use_callback C s q = (True, s')"
  obtain clk S token wait where s: "s = (clk, S)" and q: "q = (token, wait)" by (cases s, cases q) auto
  from used obtain action tid S' where v: "verify_callback C token None (clk + int wait) S = (Inr (action, tid), S')"
      and s': "s' = (clk + int wait, S')"
    by (auto simp: use_callback_def s q split: sum.splits prod.splits)
  from verify_callback_ok [OF v] obtain payload expires nonce where p: "open_token C token = Inr payload"
      "member_int payload ''expires'' = Inr expires" "member_text C payload ''nonce'' = Inr nonce" "clk + int wait \<le> expires"
      "\<forall>e. cs_used S nonce = Some e \<longrightarrow> e < clk + int wait" "cs_used S' nonce = Some expires" by auto
  show "\<not> callback_spent C s (fst q)" using p by (fastforce simp: callback_spent_def s q)
  show "callback_spent C s' (fst q)" using p by (auto simp: callback_spent_def s' q)
next
  fix s q ok s' k
  assume used: "use_callback C s q = (ok, s')" and spent: "callback_spent C s k"
  obtain clk S token wait where s: "s = (clk, S)" and q: "q = (token, wait)" by (cases s, cases q) auto
  obtain result S' where v: "verify_callback C token None (clk + int wait) S = (result, S')" by fastforce
  then have s': "s' = (clk + int wait, S')" using used by (auto simp: use_callback_def s q split: sum.splits)
  from spent obtain payload expires nonce where p: "open_token C k = Inr payload" "member_int payload ''expires'' = Inr expires"
      "member_text C payload ''nonce'' = Inr nonce" "expires < clk \<or> (\<exists>e. cs_used S nonce = Some e \<and> expires \<le> e)"
    by (auto simp: callback_spent_def s)
  from p(4) have "expires < clk + int wait \<or> (\<exists>e. cs_used S' nonce = Some e \<and> expires \<le> e)"
  proof
    assume "\<exists>e. cs_used S nonce = Some e \<and> expires \<le> e"
    then obtain e where e: "cs_used S nonce = Some e" "expires \<le> e" by blast
    from verify_callback_keeps [OF v e(1)] e(2) show ?thesis by auto
  qed auto
  then show "callback_spent C s' k" using p(1-3) by (auto simp: callback_spent_def s')
qed


text \<open>
  Signing and verifying: a token made for an action and a task is accepted before it expires
  and gives back both, unless its nonce is still remembered; the second time it is refused.
\<close>

theorem signed_callback_verifies:
  assumes "cb_decode C (cb_encode C p) = Some p" and "p = callback_payload action tid (given_or_clock now clk + cs_lifetime S) nonce"
    and "CHR ''.'' \<notin> set (cb_encode C p)" and "list_all (\<lambda>c. c < CHR 0x80) (cb_mac C (cb_encode C p))"
    and "\<forall>t. cb_str C (JStr t) = t"
    and "later \<le> given_or_clock now clk + cs_lifetime S" and "cs_used S nonce = None"
  shows "\<exists>S'. verify_callback C (sign_callback C action tid now clk nonce S) None later S = (Inr (action, tid), S')
    \<and> fst (verify_callback C (sign_callback C action tid now clk nonce S) None later S') = Inl Used_callback"
proof -
  let ?e = "cb_encode C p"
  have token: "sign_callback C action tid now clk nonce S = ?e @ ''.'' @ cb_mac C ?e"
    by (simp add: sign_callback_def assms(2) Let_def)
  have "split_token (?e @ ''.'' @ cb_mac C ?e) = Some (?e, cb_mac C ?e)"
    using assms(3) by (auto simp: split_token_def takeWhile_append dropWhile_append)
  then have opened: "open_token C (sign_callback C action tid now clk nonce S) = Inr p"
    unfolding token using assms(1,4) by (simp add: open_token_def compare_digest_def)
  have members: "member_int p ''expires'' = Inr (given_or_clock now clk + cs_lifetime S)" "member_text C p ''nonce'' = Inr nonce"
      "member_text C p ''action'' = Inr action" "member_text C p ''task_id'' = Inr tid"
    by (simp_all add: assms(2,5) callback_payload_def member_int_def member_text_def)
  show ?thesis
    using assms(6,7) by (simp add: verify_callback_def opened members Let_def)
qed

definition sample_codec :: callback_codec where
  "sample_codec = \<lparr>cb_mac = (\<lambda>e. ''m''), cb_encode = (\<lambda>p. ''e''), cb_decode = (\<lambda>t. Some (callback_payload ''approve'' ''t'' 400 ''n'')),
     cb_str = (\<lambda>v. case v of JStr t \<Rightarrow> t | _ \<Rightarrow> [])\<rparr>"

theorem signed_callback_verifies_witness:
  "\<exists>S'. verify_callback sample_codec (sign_callback sample_codec ''approve'' ''t'' (Some 100) 0 ''n'' \<lparr>cs_lifetime = 300, cs_used = (\<lambda>_. None)\<rparr>)
      None 150 \<lparr>cs_lifetime = 300, cs_used = (\<lambda>_. None)\<rparr> = (Inr (''approve'', ''t''), S')"
proof -
  let ?S = "\<lparr>cs_lifetime = 300, cs_used = (\<lambda>_. None)\<rparr> :: callback_signer"
  let ?p = "callback_payload ''approve'' ''t'' 400 ''n''"
  have ascii: "list_all (\<lambda>c. c < CHR 0x80) (cb_mac sample_codec (cb_encode sample_codec ?p))"
    unfolding sample_codec_def by code_simp
  have p: "?p = callback_payload ''approve'' ''t'' (given_or_clock (Some 100) 0 + cs_lifetime ?S) ''n''"
    by (simp add: given_or_clock_def)
  have "cb_decode sample_codec (cb_encode sample_codec ?p) = Some ?p" "CHR ''.'' \<notin> set (cb_encode sample_codec ?p)"
      "\<forall>t. cb_str sample_codec (JStr t) = t" "150 \<le> given_or_clock (Some 100) 0 + cs_lifetime ?S" "cs_used ?S ''n'' = None"
    by (simp_all add: sample_codec_def given_or_clock_def)
  from signed_callback_verifies [OF this(1) p this(2) ascii this(3-5)] show ?thesis by blast
qed

subsection \<open>The transport\<close>

datatype send_end = Sent | Flood_wait seconds | Send_failed

record 't transport =
  tp_send :: "int \<Rightarrow> string \<Rightarrow> 't \<Rightarrow> send_end \<times> 't"
  tp_answer :: "string \<Rightarrow> string \<Rightarrow> 't \<Rightarrow> bool \<times> 't"
  tp_sleep :: "seconds \<Rightarrow> 't \<Rightarrow> 't"

text \<open>\<open>left\<close> counts the retries that remain; the result is whether the message went out.\<close>

fun send_with_flood_wait :: "'t transport \<Rightarrow> int \<Rightarrow> string \<Rightarrow> nat \<Rightarrow> 't \<Rightarrow> bool \<times> 't" where
  "send_with_flood_wait T chat message left t = (case tp_send T chat message t of
     (Sent, t1) \<Rightarrow> (True, t1)
   | (Send_failed, t1) \<Rightarrow> (False, t1)
   | (Flood_wait d, t1) \<Rightarrow> (case left of 0 \<Rightarrow> (False, t1)
       | Suc k \<Rightarrow> send_with_flood_wait T chat message k (tp_sleep T d t1)))"

declare send_with_flood_wait.simps [simp del]

fun send_parts :: "'t transport \<Rightarrow> int \<Rightarrow> string list \<Rightarrow> 't \<Rightarrow> bool \<times> 't" where
  "send_parts T chat [] t = (True, t)"
| "send_parts T chat (p # ps) t = (case send_with_flood_wait T chat p 2 t of
     (True, t1) \<Rightarrow> send_parts T chat ps t1
   | (False, t1) \<Rightarrow> (False, t1))"

definition send_text :: "'t transport \<Rightarrow> int \<Rightarrow> string \<Rightarrow> 't \<Rightarrow> bool \<times> 't" where
  "send_text T chat message t =
     (let safe = (if \<not> sublist ''<b>'' message \<and> \<not> sublist ''<code>'' message then escape message else message)
      in case chunks safe 4000 of None \<Rightarrow> (False, t) | Some parts \<Rightarrow> send_parts T chat parts t)"

subsection \<open>The bot\<close>

record telegram_message =
  tm_chat :: int
  tm_user :: int
  tm_text :: string

record telegram_callback =
  tc_id :: string
  tc_chat :: int
  tc_user :: int
  tc_data :: string

record telegram_update =
  tu_id :: int
  tu_message :: "telegram_message option"
  tu_callback :: "telegram_callback option"

record bot_config =
  bc_access :: access_policy
  bc_limit :: int
  bc_window :: int

record ('d, 's, 't) bot =
  bot_app :: "('d, 's) app_state"
  bot_wire :: 't
  bot_signer :: callback_signer
  bot_updates :: "int set"
  bot_order :: "int list"
  bot_rates :: "string \<Rightarrow> instant list"
  bot_closing :: bool

text \<open>What the bot is built with: the services, the codec, the parser of identifiers, and the list mark.\<close>

record ('d, 's, 't) bot_world =
  bw_db :: "'d database"
  bw_redis :: "'s queue_redis"
  bw_sha256 :: "string \<Rightarrow> digest"
  bw_codec :: callback_codec
  bw_transport :: "'t transport"
  bw_uuid :: "string \<Rightarrow> uuid option"
  bw_bullet :: char

record bot_command =
  bcmd_name :: string
  bcmd_arguments :: string
  bcmd_update :: int
  bcmd_user :: int

text \<open>\<open>text.partition(" ")\<close>, then the name without its slash and without the bot's own name.\<close>

definition partition_space :: "string \<Rightarrow> string \<times> bool \<times> string" where
  "partition_space s = (takeWhile (\<lambda>c. c \<noteq> CHR '' '') s, CHR '' '' \<in> set s, tl (dropWhile (\<lambda>c. c \<noteq> CHR '' '') s))"

definition parse_command :: "int \<Rightarrow> telegram_message \<Rightarrow> bot_command option" where
  "parse_command update m =
     (let body = strip (tm_text m) in
      if \<not> starts_with body ''/'' then None
      else case partition_space body of (word, _, arguments) \<Rightarrow>
        Some \<lparr>bcmd_name = lower (takeWhile (\<lambda>c. c \<noteq> CHR ''@'') (tl word)), bcmd_arguments = arguments,
          bcmd_update = update, bcmd_user = tm_user m\<rparr>)"

definition repository_instruction :: "string \<Rightarrow> (string \<times> string) option" where
  "repository_instruction arguments = (case partition_space (strip arguments) of
     (repo, separator, instr) \<Rightarrow> if \<not> separator \<or> instr = [] then None else Some (repo, instr))"

text \<open>The exceptions a command's execution is guarded against, by the name the answer shows.\<close>

fun guarded_name :: "app_error \<Rightarrow> string option" where
  "guarded_name Not_found = Some ''NotFoundError''"
| "guarded_name (Conflict m) = Some ''ConflictError''"
| "guarded_name (App_raised e) = (if is_instance e ''ValueError'' then Some (hd (exn_classes e @ [[]])) else None)"
| "guarded_name (App_queue_error Invalid_argument) = Some ''ValueError''"
| "guarded_name (App_queue_error _) = None"

datatype reply_end = Reply string | Guarded string | Unguarded

definition reply_of :: "('a \<Rightarrow> string) \<Rightarrow> app_error + 'a \<Rightarrow> reply_end" where
  "reply_of f r = (case r of Inr a \<Rightarrow> Reply (f a)
     | Inl e \<Rightarrow> (case guarded_name e of Some n \<Rightarrow> Guarded n | None \<Rightarrow> Unguarded))"

definition cancellation_text :: "cancellation_result \<Rightarrow> string" where
  "cancellation_text c = (case c of CX_CANCELLED \<Rightarrow> ''cancelled'' | CX_ALREADY_CANCELLED \<Rightarrow> ''already_cancelled''
     | CX_ALREADY_TERMINAL \<Rightarrow> ''already_terminal'' | CX_NOT_FOUND \<Rightarrow> ''not_found''
     | CX_RUNNING_SIGNALLED \<Rightarrow> ''running_task_signalled'')"

definition help_text :: string where
  "help_text = ''MEZO control commands: /analyze /fix /review /status /cancel /approve /reject /deploy''"

definition telegram_name :: "int \<Rightarrow> string" where
  "telegram_name n = ''telegram:'' @ int_text n"

definition execute_command ::
  "('d, 's, 't) bot_world \<Rightarrow> app_io \<Rightarrow> bot_command \<Rightarrow> ('d, 's) app_state \<Rightarrow> reply_end \<times> ('d, 's) app_state" where
  "execute_command W io c A =
     (let name = bcmd_name c in
      if name = ''start'' \<or> name = ''help'' then (Reply help_text, A)
      else if name \<in> {''analyze'', ''fix'', ''review''} then
        (case repository_instruction (bcmd_arguments c) of
           None \<Rightarrow> (Guarded ''ValueError'', A)
         | Some (repo, instr) \<Rightarrow> (case TaskRequest repo (name @ '': '' @ instr) ''main'' True of
             None \<Rightarrow> (Guarded ''ValidationError'', A)
           | Some request \<Rightarrow>
               (case create_task (bw_db W) (bw_redis W) (bw_sha256 W) io request (telegram_name (bcmd_update c)) A of
                  (result, A') \<Rightarrow> (reply_of (\<lambda>(task, e). task_status task
                     @ (if er_accepted e then newline # ''Queued.'' else newline # ''Already submitted.'')) result, A'))))
      else case bw_uuid W (strip (bcmd_arguments c)) of
        None \<Rightarrow> (Guarded ''ValueError'', A)
      | Some i \<Rightarrow>
          if name = ''status'' then
            (reply_of (\<lambda>task. task_status task @ newline # evidence_summary (bw_bullet W) (evidence_items_of (bw_db W) i (app_db A)))
               (get_task (bw_db W) i A), A)
          else if name = ''cancel'' then
            (case cancel_task (bw_db W) (bw_redis W) io i (telegram_name (bcmd_user c)) ''Telegram cancellation'' A of
               (result, A') \<Rightarrow> (reply_of (\<lambda>v. ''Cancellation: '' @ cancellation_text v) result, A'))
          else if name = ''approve'' \<or> name = ''reject'' then
            (case decide_task (bw_db W) io i (name = ''approve'') A of
               (result, A') \<Rightarrow> (reply_of task_status result, A'))
          else if name = ''deploy'' then
            (reply_of (\<lambda>task. ''Deployment requires the later deployment policy phase.'' @ newline # task_status task)
               (get_task (bw_db W) i A), A)
          else (Guarded ''ValueError'', A))"

definition update_memory :: nat where
  "update_memory = 10000"

definition remember :: "int \<Rightarrow> ('d, 's, 't) bot \<Rightarrow> ('d, 's, 't) bot" where
  "remember i b =
     (let full = (length (bot_order b) = update_memory)
      in b\<lparr>bot_updates := insert i (if full then bot_updates b - {hd (bot_order b)} else bot_updates b),
           bot_order := (if full then tl (bot_order b) else bot_order b) @ [i]\<rparr>)"

text \<open>The user's window first, then the chat's; the user's entry stays when the chat is refused.\<close>

definition allow_one :: "bot_config \<Rightarrow> instant \<Rightarrow> string \<Rightarrow> ('d, 's, 't) bot \<Rightarrow> bool \<times> ('d, 's, 't) bot" where
  "allow_one cfg now i b = (case admit (bc_limit cfg) (real_of_int (bc_window cfg)) now (bot_rates b i) of
     (ok, bucket) \<Rightarrow> (ok, b\<lparr>bot_rates := (bot_rates b)(i := bucket)\<rparr>))"

definition allow :: "bot_config \<Rightarrow> instant \<Rightarrow> int \<Rightarrow> int \<Rightarrow> ('d, 's, 't) bot \<Rightarrow> bool \<times> ('d, 's, 't) bot" where
  "allow cfg now user chat b = (case allow_one cfg now (''user:'' @ int_text user) b of
     (False, b1) \<Rightarrow> (False, b1)
   | (True, b1) \<Rightarrow> allow_one cfg now (''chat:'' @ int_text chat) b1)"

text \<open>A handled update ends quietly or with an exception that leaves the handler.\<close>

definition bot_send :: "('d, 's, 't) bot_world \<Rightarrow> int \<Rightarrow> string \<Rightarrow> ('d, 's, 't) bot \<Rightarrow> bool \<times> ('d, 's, 't) bot" where
  "bot_send W chat message b = (case send_text (bw_transport W) chat message (bot_wire b) of
     (ok, t) \<Rightarrow> (ok, b\<lparr>bot_wire := t\<rparr>))"

definition bot_answer :: "('d, 's, 't) bot_world \<Rightarrow> string \<Rightarrow> string \<Rightarrow> ('d, 's, 't) bot \<Rightarrow> bool \<times> ('d, 's, 't) bot" where
  "bot_answer W i message b = (case tp_answer (bw_transport W) i message (bot_wire b) of
     (ok, t) \<Rightarrow> (ok, b\<lparr>bot_wire := t\<rparr>))"

definition handle_callback ::
  "('d, 's, 't) bot_world \<Rightarrow> app_io \<Rightarrow> int \<Rightarrow> telegram_callback \<Rightarrow> telegram_role \<Rightarrow> ('d, 's, 't) bot
   \<Rightarrow> bool \<times> ('d, 's, 't) bot" where
  "handle_callback W io clk cb role b =
     (case verify_callback (bw_codec W) (tc_data cb) None clk (bot_signer b) of
        (Inl (Callback_raised _), S) \<Rightarrow> (False, b\<lparr>bot_signer := S\<rparr>)
      | (Inl _, S) \<Rightarrow> bot_answer W (tc_id cb) ''Callback is invalid'' (b\<lparr>bot_signer := S\<rparr>)
      | (Inr (action, tid), S) \<Rightarrow>
          let b1 = b\<lparr>bot_signer := S\<rparr>; invalid = bot_answer W (tc_id cb) ''Callback is invalid'' in
          if action \<notin> {''approve'', ''reject''} \<or> role \<notin> set (command_roles action) then invalid b1
          else case bw_uuid W tid of
            None \<Rightarrow> invalid b1
          | Some i \<Rightarrow> (case decide_task (bw_db W) io i (action = ''approve'') (bot_app b1) of
              (Inr _, A') \<Rightarrow> bot_answer W (tc_id cb) (''Task '' @ action @ ''d'') (b1\<lparr>bot_app := A'\<rparr>)
            | (Inl e, A') \<Rightarrow>
                (if guarded_name e = None then (False, b1\<lparr>bot_app := A'\<rparr>) else invalid (b1\<lparr>bot_app := A'\<rparr>))))"

definition handle_message ::
  "('d, 's, 't) bot_world \<Rightarrow> app_io \<Rightarrow> int \<Rightarrow> telegram_message \<Rightarrow> telegram_role \<Rightarrow> ('d, 's, 't) bot
   \<Rightarrow> bool \<times> ('d, 's, 't) bot" where
  "handle_message W io update m role b =
     (case parse_command update m of
        None \<Rightarrow> bot_send W (tm_chat m) ''Use /help to list supported commands.'' b
      | Some c \<Rightarrow>
          if role \<notin> set (command_roles (bcmd_name c))
            then bot_send W (tm_chat m) ''You are not permitted to use this command.'' b
          else case execute_command W io c (bot_app b) of
            (Reply t, A') \<Rightarrow> bot_send W (tm_chat m) t (b\<lparr>bot_app := A'\<rparr>)
          | (Guarded name, A') \<Rightarrow> bot_send W (tm_chat m) (''Request failed: '' @ name) (b\<lparr>bot_app := A'\<rparr>)
          | (Unguarded, A') \<Rightarrow> (False, b\<lparr>bot_app := A'\<rparr>))"

definition update_target :: "telegram_update \<Rightarrow> (int \<times> int) option" where
  "update_target u = (case tu_message u of Some m \<Rightarrow> Some (tm_user m, tm_chat m)
     | None \<Rightarrow> map_option (\<lambda>c. (tc_user c, tc_chat c)) (tu_callback u))"

definition handle_update ::
  "('d, 's, 't) bot_world \<Rightarrow> bot_config \<Rightarrow> app_io \<Rightarrow> instant \<Rightarrow> int \<Rightarrow> telegram_update \<Rightarrow> ('d, 's, 't) bot
   \<Rightarrow> bool \<times> ('d, 's, 't) bot" where
  "handle_update W cfg io now clk u b =
     (if bot_closing b \<or> tu_id u \<in> bot_updates b then (True, b)
      else let b1 = remember (tu_id u) b in
        case update_target u of
          None \<Rightarrow> (True, b1)
        | Some (user, chat) \<Rightarrow> (case role_for (bc_access cfg) user of
            None \<Rightarrow> (True, b1)
          | Some role \<Rightarrow>
              if chat \<notin> set (allowed_chats (bc_access cfg)) then (True, b1)
              else (case allow cfg now user chat b1 of
                (False, b2) \<Rightarrow> bot_send W chat ''Rate limit exceeded. Try again later.'' b2
              | (True, b2) \<Rightarrow> (case tu_callback u of
                  Some cb \<Rightarrow> handle_callback W io clk cb role b2
                | None \<Rightarrow> (case tu_message u of
                    None \<Rightarrow> (True, b2)
                  | Some m \<Rightarrow> handle_message W io (tu_id u) m role b2)))))"

subsection \<open>What an update can do\<close>

text \<open>The memory of updates: the set holds what the queue holds, without repetition and within its bound.\<close>

definition memory_ok :: "('d, 's, 't) bot \<Rightarrow> bool" where
  "memory_ok b \<longleftrightarrow> bot_updates b = set (bot_order b) \<and> distinct (bot_order b) \<and> length (bot_order b) \<le> update_memory"

lemma remember_memory:
  assumes "memory_ok b" and "i \<notin> bot_updates b"
  shows "memory_ok (remember i b) \<and> i \<in> bot_updates (remember i b)"
proof (cases "bot_order b")
  case (Cons x xs)
  then show ?thesis using assms by (auto simp: memory_ok_def remember_def Let_def)
qed (use assms in \<open>auto simp: memory_ok_def remember_def update_memory_def Let_def\<close>)

lemma sends_frame:
  "bot_send W chat t b = (ok, b') \<Longrightarrow> bot_app b' = bot_app b \<and> bot_order b' = bot_order b \<and> bot_updates b' = bot_updates b"
  "bot_answer W i t b = (ok, b') \<Longrightarrow> bot_app b' = bot_app b \<and> bot_order b' = bot_order b \<and> bot_updates b' = bot_updates b"
  by (auto simp: bot_send_def bot_answer_def split: prod.splits)

lemma allow_frame:
  "allow cfg now user chat b = (ok, b') \<Longrightarrow> bot_app b' = bot_app b \<and> bot_order b' = bot_order b \<and> bot_updates b' = bot_updates b
     \<and> bot_signer b' = bot_signer b"
  by (auto simp: allow_def allow_one_def split: prod.splits bool.splits)

lemma remember_frame [simp]:
  "bot_app (remember i b) = bot_app b" "bot_rates (remember i b) = bot_rates b" "bot_signer (remember i b) = bot_signer b"
  by (simp_all add: remember_def Let_def)

text \<open>The service call a command stands for.\<close>

definition bot_call :: "('d, 's, 't) bot_world \<Rightarrow> app_io \<Rightarrow> bot_command \<Rightarrow> service_call \<Rightarrow> bool" where
  "bot_call W io c call \<longleftrightarrow>
     (bcmd_name c \<in> {''analyze'', ''fix'', ''review''} \<and> (\<exists>request. call = S_create io request (telegram_name (bcmd_update c))))
     \<or> (\<exists>i. bw_uuid W (strip (bcmd_arguments c)) = Some i \<and>
          (bcmd_name c = ''cancel'' \<and> call = S_cancel io i (telegram_name (bcmd_user c)) ''Telegram cancellation''
           \<or> bcmd_name c \<in> {''approve'', ''reject''} \<and> call = S_decide io i (bcmd_name c = ''approve'')))"

lemma execute_command_calls:
  assumes "execute_command W io c A = (r, A')" and "A' \<noteq> A"
  shows "\<exists>call. bot_call W io c call \<and> A' = serve (bw_db W) (bw_redis W) (bw_sha256 W) call A"
proof -
  consider "bcmd_name c \<in> {''analyze'', ''fix'', ''review''}" | "bcmd_name c = ''cancel''" | "bcmd_name c = ''approve''"
    | "bcmd_name c = ''reject''"
    using assms by (auto simp: execute_command_def Let_def split: if_splits option.splits)
  then show ?thesis
  proof cases
    case 1
    then obtain request where
        "A' = snd (create_task (bw_db W) (bw_redis W) (bw_sha256 W) io request (telegram_name (bcmd_update c)) A)"
      using assms by (auto simp: execute_command_def Let_def split: if_splits option.splits prod.splits) (metis snd_conv)+
    then show ?thesis using 1
      by (intro exI [of _ "S_create io request (telegram_name (bcmd_update c))"]) (auto simp: bot_call_def)
  next
    case 2
    then obtain i where "bw_uuid W (strip (bcmd_arguments c)) = Some i"
        "A' = snd (cancel_task (bw_db W) (bw_redis W) io i (telegram_name (bcmd_user c)) ''Telegram cancellation'' A)"
      using assms by (auto simp: execute_command_def Let_def split: option.splits prod.splits)
    then show ?thesis using 2
      by (intro exI [of _ "S_cancel io i (telegram_name (bcmd_user c)) ''Telegram cancellation''"]) (auto simp: bot_call_def)
  next
    case 3
    then obtain i where "bw_uuid W (strip (bcmd_arguments c)) = Some i" "A' = snd (decide_task (bw_db W) io i True A)"
      using assms by (auto simp: execute_command_def Let_def split: option.splits prod.splits)
    then show ?thesis using 3 by (intro exI [of _ "S_decide io i True"]) (auto simp: bot_call_def)
  next
    case 4
    then obtain i where "bw_uuid W (strip (bcmd_arguments c)) = Some i" "A' = snd (decide_task (bw_db W) io i False A)"
      using assms by (auto simp: execute_command_def Let_def split: option.splits prod.splits)
    then show ?thesis using 4 by (intro exI [of _ "S_decide io i False"]) (auto simp: bot_call_def)
  qed
qed

lemma handle_message_effect:
  assumes "handle_message W io update m role b = (ok, b')"
  shows "bot_order b' = bot_order b \<and> bot_updates b' = bot_updates b
    \<and> (bot_app b' \<noteq> bot_app b \<longrightarrow> (\<exists>c call. parse_command update m = Some c \<and> role \<in> set (command_roles (bcmd_name c))
         \<and> bot_call W io c call \<and> bot_app b' = serve (bw_db W) (bw_redis W) (bw_sha256 W) call (bot_app b)))"
proof (cases "parse_command update m")
  case (Some c)
  show ?thesis
  proof (cases "role \<in> set (command_roles (bcmd_name c))")
    case True
    obtain r A' where run: "execute_command W io c (bot_app b) = (r, A')" by fastforce
    have b': "bot_order b' = bot_order b \<and> bot_updates b' = bot_updates b \<and> bot_app b' = A'"
      using assms Some True run by (cases r) (auto simp: handle_message_def dest: sends_frame(1))
    then show ?thesis using execute_command_calls [OF run] Some True by (cases "A' = bot_app b") auto
  next
    case False
    then show ?thesis using assms Some by (auto simp: handle_message_def dest: sends_frame(1))
  qed
qed (use assms in \<open>auto simp: handle_message_def dest: sends_frame(1)\<close>)

lemma handle_callback_effect:
  assumes "handle_callback W io clk cb role b = (ok, b')"
  shows "bot_order b' = bot_order b \<and> bot_updates b' = bot_updates b
    \<and> (bot_app b' \<noteq> bot_app b \<longrightarrow> (\<exists>action tid S i. verify_callback (bw_codec W) (tc_data cb) None clk (bot_signer b) = (Inr (action, tid), S)
         \<and> action \<in> {''approve'', ''reject''} \<and> role \<in> set (command_roles action) \<and> bw_uuid W tid = Some i
         \<and> bot_app b' = serve (bw_db W) (bw_redis W) (bw_sha256 W) (S_decide io i (action = ''approve'')) (bot_app b)))"
proof -
  obtain v S where v: "verify_callback (bw_codec W) (tc_data cb) None clk (bot_signer b) = (v, S)" by fastforce
  note answer = sends_frame(2)
  show ?thesis
  proof (cases v)
    case (Inl e)
    then show ?thesis using assms v by (cases e) (auto simp: handle_callback_def dest: answer)
  next
    case (Inr x)
    obtain action tid where x: "x = (action, tid)" by fastforce
    show ?thesis
    proof (cases "action \<in> {''approve'', ''reject''} \<and> role \<in> set (command_roles action) \<and> bw_uuid W tid \<noteq> None")
      case True
      then obtain i where i: "bw_uuid W tid = Some i" by auto
      obtain r A' where run: "decide_task (bw_db W) io i (action = ''approve'') (bot_app b) = (r, A')" by fastforce
      have "bot_order b' = bot_order b \<and> bot_updates b' = bot_updates b \<and> bot_app b' = A'"
        using assms v Inr x True i run
        by (cases r) (auto simp: handle_callback_def Let_def split: if_splits dest: answer)
      then show ?thesis using v Inr x True i run by auto
    next
      case False
      then show ?thesis using assms v Inr x
        by (auto simp: handle_callback_def Let_def split: option.splits if_splits dest: answer)
    qed
  qed
qed

lemma allow_admits:
  assumes "allow cfg now user chat b = (True, b')"
  shows "fst (admit (bc_limit cfg) (real_of_int (bc_window cfg)) now (bot_rates b (''user:'' @ int_text user)))
    \<and> fst (admit (bc_limit cfg) (real_of_int (bc_window cfg)) now (bot_rates b (''chat:'' @ int_text chat)))"
  using assms by (auto simp: allow_def allow_one_def split: prod.splits bool.splits)

text \<open>The roles written out: what each may do, and who has which.\<close>

definition may_do :: "telegram_role \<Rightarrow> string \<Rightarrow> bool" where
  "may_do role name \<longleftrightarrow> role = OWNER
     \<or> role = OPERATOR \<and> name \<in> {''analyze'', ''fix'', ''review'', ''cancel''}
     \<or> role = REVIEWER \<and> name \<in> {''review'', ''approve'', ''reject''}"

definition holds_role :: "access_policy \<Rightarrow> int \<Rightarrow> telegram_role \<Rightarrow> bool" where
  "holds_role P user role \<longleftrightarrow> user \<in> set (allowed_users P)
     \<and> (role = OWNER \<longrightarrow> user \<in> set (owners P)) \<and> (role = OPERATOR \<longrightarrow> user \<in> set (operators P))
     \<and> (role = REVIEWER \<longrightarrow> user \<in> set (reviewers P))"

lemma role_for_holds: "role_for P user = Some role \<Longrightarrow> holds_role P user role"
  by (auto simp: role_for_def holds_role_def split: if_splits)

lemma command_roles_named:
  "command_roles ''analyze'' = [OWNER, OPERATOR]" "command_roles ''fix'' = [OWNER, OPERATOR]"
  "command_roles ''review'' = [OWNER, OPERATOR, REVIEWER]" "command_roles ''cancel'' = [OWNER, OPERATOR]"
  "command_roles ''approve'' = [OWNER, REVIEWER]" "command_roles ''reject'' = [OWNER, REVIEWER]"
  by (simp_all add: command_roles_def COMMAND_ROLES_def)

lemma command_roles_may_do:
  assumes "role \<in> set (command_roles name)" and "name \<in> {''analyze'', ''fix'', ''review'', ''cancel'', ''approve'', ''reject''}"
  shows "may_do role name"
  using assms(2)
  by (elim insertE emptyE) (use assms(1) in \<open>auto simp: command_roles_named may_do_def\<close>)

lemma bot_call_name:
  "bot_call W io c call \<Longrightarrow> bcmd_name c \<in> {''analyze'', ''fix'', ''review'', ''cancel'', ''approve'', ''reject''}"
  by (auto simp: bot_call_def)

lemma command_may_do:
  "role \<in> set (command_roles (bcmd_name c)) \<Longrightarrow> bot_call W io c call \<Longrightarrow> may_do role (bcmd_name c)"
  by (rule command_roles_may_do [OF _ bot_call_name])

text \<open>
  What an accepted token is: its second part is the code of the first under the secret, the payload's expiry is not
  before the clock, and its nonce is not remembered as used for a time that still lasts.
\<close>

definition fresh_token :: "callback_codec \<Rightarrow> int \<Rightarrow> callback_signer \<Rightarrow> string \<Rightarrow> string \<Rightarrow> string \<Rightarrow> bool" where
  "fresh_token C clk S token action tid \<longleftrightarrow> (\<exists>encoded payload expires nonce.
     token = encoded @ ''.'' @ cb_mac C encoded \<and> cb_decode C encoded = Some payload
     \<and> member_int payload ''expires'' = Inr expires \<and> clk \<le> expires
     \<and> member_text C payload ''nonce'' = Inr nonce \<and> (\<forall>e. cs_used S nonce = Some e \<longrightarrow> e < clk)
     \<and> member_text C payload ''action'' = Inr action \<and> member_text C payload ''task_id'' = Inr tid)"

lemma split_token_parts:
  assumes "split_token t = Some (a, b)"
  shows "t = a @ ''.'' @ b"
proof -
  have "CHR ''.'' \<in> set t" using assms by (simp add: split_token_def split: if_splits)
  then obtain ys zs where t: "t = ys @ CHR ''.'' # zs" "CHR ''.'' \<notin> set ys" using split_list_first by metis
  have "c \<noteq> CHR ''.''" if "c \<in> set ys" for c using t(2) that by blast
  then have "a = ys \<and> b = zs"
    using assms by (simp add: split_token_def t(1) takeWhile_append dropWhile_append)
  then show ?thesis by (simp add: t(1))
qed

lemma open_token_signed:
  assumes "open_token C token = Inr payload"
  shows "\<exists>encoded. token = encoded @ ''.'' @ cb_mac C encoded \<and> cb_decode C encoded = Some payload"
proof -
  obtain encoded supplied where parts: "split_token token = Some (encoded, supplied)"
    using assms by (auto simp: open_token_def split: option.splits)
  have "supplied = cb_mac C encoded \<and> cb_decode C encoded = Some payload"
    using assms by (auto simp: open_token_def parts compare_digest_def split: option.splits bool.splits if_splits)
  then show ?thesis using split_token_parts [OF parts] by blast
qed

lemma verified_token_fresh:
  assumes "verify_callback C token None clk S = (Inr (action, tid), S')"
  shows "fresh_token C clk S token action tid"
proof -
  from verify_callback_ok [OF assms] obtain payload expires nonce where p: "open_token C token = Inr payload"
      "member_int payload ''expires'' = Inr expires" "member_text C payload ''nonce'' = Inr nonce" "clk \<le> expires"
      "\<forall>e. cs_used S nonce = Some e \<longrightarrow> e < clk" "member_text C payload ''action'' = Inr action"
      "member_text C payload ''task_id'' = Inr tid" by auto
  with open_token_signed [OF p(1)] show ?thesis unfolding fresh_token_def by blast
qed

text \<open>
  With a message and a callback in one update, the user and the chat that are checked are the message's: who pressed
  the button, and where, makes no difference.
\<close>

lemma update_parts:
  "tc_data (cb\<lparr>tc_user := x, tc_chat := y\<rparr>) = tc_data cb" "tc_id (cb\<lparr>tc_user := x, tc_chat := y\<rparr>) = tc_id cb"
  "tu_id (u\<lparr>tu_callback := c\<rparr>) = tu_id u" "tu_message (u\<lparr>tu_callback := c\<rparr>) = tu_message u"
  "tu_callback (u\<lparr>tu_callback := c\<rparr>) = c"
  by simp_all

lemma presser_not_checked:
  assumes "tu_message u = Some m"
  shows "handle_update W cfg io now clk (u\<lparr>tu_callback := Some cb\<rparr>) b
    = handle_update W cfg io now clk (u\<lparr>tu_callback := Some (cb\<lparr>tc_user := anyone, tc_chat := anywhere\<rparr>)\<rparr>) b"
  by (simp only: handle_update_def update_target_def handle_callback_def update_parts assms option.case)

text \<open>
  C13. When handling an update changes the control plane, the bot was not closing and had not seen the update, and now
  remembers it. The user and chat of its message (of its callback only when there is no message)
  are allowed and within their rate windows. The change is that of one service call: for a command of the message
  that the user's role may give, or to approve or reject, as an owner or reviewer, by a callback token with the right
  code, not expired, its nonce not in use, for the action and task in its payload. The memory of updates is assumed sound.
\<close>

theorem telegram_change_was_permitted:
  assumes "handle_update W cfg io now clk u b = (ok, b')" and "bot_app b' \<noteq> bot_app b" and "memory_ok b"
  shows "\<not> bot_closing b \<and> tu_id u \<notin> bot_updates b \<and> tu_id u \<in> bot_updates b' \<and> memory_ok b'
    \<and> (\<exists>user chat role call.
         (case tu_message u of Some m \<Rightarrow> user = tm_user m \<and> chat = tm_chat m
            | None \<Rightarrow> \<exists>cb. tu_callback u = Some cb \<and> user = tc_user cb \<and> chat = tc_chat cb)
         \<and> holds_role (bc_access cfg) user role \<and> chat \<in> set (allowed_chats (bc_access cfg))
         \<and> fst (admit (bc_limit cfg) (real_of_int (bc_window cfg)) now (bot_rates b (''user:'' @ int_text user)))
         \<and> fst (admit (bc_limit cfg) (real_of_int (bc_window cfg)) now (bot_rates b (''chat:'' @ int_text chat)))
         \<and> bot_app b' = serve (bw_db W) (bw_redis W) (bw_sha256 W) call (bot_app b)
         \<and> ((\<exists>m c. tu_callback u = None \<and> tu_message u = Some m \<and> parse_command (tu_id u) m = Some c
                \<and> may_do role (bcmd_name c) \<and> bot_call W io c call)
            \<or> (\<exists>cb action tid i. tu_callback u = Some cb
                \<and> fresh_token (bw_codec W) clk (bot_signer b) (tc_data cb) action tid
                \<and> action \<in> {''approve'', ''reject''} \<and> role \<in> {OWNER, REVIEWER}
                \<and> bw_uuid W tid = Some i \<and> call = S_decide io i (action = ''approve''))))"
proof -
  have new: "\<not> bot_closing b" "tu_id u \<notin> bot_updates b" using assms(1,2) by (auto simp: handle_update_def split: if_splits)
  let ?b1 = "remember (tu_id u) b"
  have memory: "memory_ok ?b1 \<and> tu_id u \<in> bot_updates ?b1" by (rule remember_memory [OF assms(3) new(2)])
  obtain user chat where target: "update_target u = Some (user, chat)"
    using assms(1,2) new by (auto simp: handle_update_def Let_def split: option.splits)
  then have whose: "case tu_message u of Some m \<Rightarrow> user = tm_user m \<and> chat = tm_chat m
      | None \<Rightarrow> \<exists>cb. tu_callback u = Some cb \<and> user = tc_user cb \<and> chat = tc_chat cb"
    by (auto simp: update_target_def split: option.splits)
  obtain role where role: "role_for (bc_access cfg) user = Some role"
    using assms(1,2) new target by (auto simp: handle_update_def Let_def split: option.splits)
  have chat: "chat \<in> set (allowed_chats (bc_access cfg))"
    using assms(1,2) new target role by (auto simp: handle_update_def Let_def split: if_splits)
  obtain allowed b2 where allow: "allow cfg now user chat ?b1 = (allowed, b2)" by fastforce
  note frame = allow_frame [OF allow]
  have allowed
    using assms(1,2) new target role chat allow frame
    by (cases allowed) (auto simp: handle_update_def Let_def dest: sends_frame(1))
  then have rates: "allow cfg now user chat ?b1 = (True, b2)" using allow by simp
  note admitted = allow_admits [OF rates, unfolded remember_frame]
  let ?act = "\<exists>call. bot_app b' = serve (bw_db W) (bw_redis W) (bw_sha256 W) call (bot_app b)
         \<and> ((\<exists>m c. tu_callback u = None \<and> tu_message u = Some m \<and> parse_command (tu_id u) m = Some c
                \<and> may_do role (bcmd_name c) \<and> bot_call W io c call)
            \<or> (\<exists>cb action tid i. tu_callback u = Some cb
                \<and> fresh_token (bw_codec W) clk (bot_signer b) (tc_data cb) action tid
                \<and> action \<in> {''approve'', ''reject''} \<and> role \<in> {OWNER, REVIEWER}
                \<and> bw_uuid W tid = Some i \<and> call = S_decide io i (action = ''approve'')))"
  have "bot_order b' = bot_order ?b1 \<and> bot_updates b' = bot_updates ?b1 \<and> ?act"
  proof (cases "tu_callback u")
    case None
    then obtain m where m: "tu_message u = Some m" using target by (auto simp: update_target_def split: option.splits)
    have "handle_message W io (tu_id u) m role b2 = (ok, b')"
      using assms(1) new target role chat rates None m by (simp add: handle_update_def Let_def)
    note effect = handle_message_effect [OF this]
    then obtain c call where "parse_command (tu_id u) m = Some c" "role \<in> set (command_roles (bcmd_name c))"
        "bot_call W io c call" "bot_app b' = serve (bw_db W) (bw_redis W) (bw_sha256 W) call (bot_app b)"
      using frame assms(2) by (simp del: serve.simps) blast
    then have ?act using None m command_may_do by blast
    then show ?thesis using effect frame by (simp del: serve.simps)
  next
    case (Some cb)
    have "handle_callback W io clk cb role b2 = (ok, b')"
      using assms(1) new target role chat rates Some by (simp add: handle_update_def Let_def)
    note effect = handle_callback_effect [OF this]
    then obtain action tid S i where v: "verify_callback (bw_codec W) (tc_data cb) None clk (bot_signer b) = (Inr (action, tid), S)"
        "action \<in> {''approve'', ''reject''}" "role \<in> set (command_roles action)" "bw_uuid W tid = Some i"
        "bot_app b' = serve (bw_db W) (bw_redis W) (bw_sha256 W) (S_decide io i (action = ''approve'')) (bot_app b)"
      using frame assms(2) by (simp del: serve.simps) blast
    have "role \<in> {OWNER, REVIEWER}" using v(2,3) command_roles_named(5,6) by auto
    then have ?act using Some verified_token_fresh [OF v(1)] v(2,4,5) by blast
    then show ?thesis using effect frame by (simp del: serve.simps)
  qed
  then have same: "bot_order b' = bot_order ?b1" "bot_updates b' = bot_updates ?b1" and act: ?act by blast+
  have "memory_ok b' \<and> tu_id u \<in> bot_updates b'"
    using memory unfolding memory_ok_def same by blast
  then show ?thesis
    using new chat admitted act whose role_for_holds [OF role] by blast
qed

definition quiet_wire :: "unit transport" where
  "quiet_wire = \<lparr>tp_send = (\<lambda>chat m t. (Sent, t)), tp_answer = (\<lambda>i m t. (True, t)), tp_sleep = (\<lambda>d t. t)\<rparr>"

definition sample_world :: "(memory_db, (queue_key, queue_value) mini_store, unit) bot_world" where
  "sample_world = \<lparr>bw_db = memory_database, bw_redis = mini_redis, bw_sha256 = id, bw_codec = sample_codec,
     bw_transport = quiet_wire, bw_uuid = Some, bw_bullet = CHR ''*''\<rparr>"

definition sample_bot_config :: bot_config where
  "sample_bot_config = \<lparr>bc_access = \<lparr>allowed_users = [7], allowed_chats = [9], owners = [7], operators = [], reviewers = []\<rparr>,
     bc_limit = 20, bc_window = 60\<rparr>"

definition waiting_app :: "(memory_db, (queue_key, queue_value) mini_store) app_state" where
  "waiting_app = empty_app\<lparr>app_db := \<lparr>md_tasks = [\<lparr>tr_id = ''t'', tr_key = ''k'', tr_repository = ''o/r'', tr_instruction = ''fix'',
     tr_state = ''awaiting_approval'', tr_risk = LOW, tr_created = 1, tr_updated = 2\<rparr>], md_attempts = [], md_evidence = [], md_audit = []\<rparr>\<rparr>"

definition sample_bot :: "(memory_db, (queue_key, queue_value) mini_store, unit) bot" where
  "sample_bot = \<lparr>bot_app = waiting_app, bot_wire = (), bot_signer = \<lparr>cs_lifetime = 300, cs_used = (\<lambda>_. None)\<rparr>,
     bot_updates = {}, bot_order = [], bot_rates = (\<lambda>_. []), bot_closing = False\<rparr>"

definition reject_update :: telegram_update where
  "reject_update = \<lparr>tu_id = 1, tu_message = Some \<lparr>tm_chat = 9, tm_user = 7, tm_text = ''/reject t''\<rparr>, tu_callback = None\<rparr>"

lemma reject_runs: "bot_app (snd (handle_update sample_world sample_bot_config first_io 5 5 reject_update sample_bot)) \<noteq> bot_app sample_bot"
proof -
  have parsed: "parse_command 1 \<lparr>tm_chat = 9, tm_user = 7, tm_text = ''/reject t''\<rparr>
      = Some \<lparr>bcmd_name = ''reject'', bcmd_arguments = ''t'', bcmd_update = 1, bcmd_user = 7\<rparr>" by code_simp
  have name: "strip ''t'' = ''t''" by code_simp
  obtain r A' where run: "decide_task memory_database first_io ''t'' False waiting_app = (r, A')" by fastforce
  have "A' \<noteq> waiting_app"
    using run by (auto simp: decide_task_def get_task_def get_record_def app_transition_def db_transition_def on_task_def
        memory_database_def waiting_app_def empty_app_def first_io_def to_record_def TaskRequest_def
        repo_name_ok_def repo_char_def new_task_def state_of_value_def restate_def)
  moreover have "execute_command sample_world first_io \<lparr>bcmd_name = ''reject'', bcmd_arguments = ''t'', bcmd_update = 1, bcmd_user = 7\<rparr>
      waiting_app = (reply_of task_status r, A')"
    by (simp add: execute_command_def sample_world_def name run)
  ultimately show ?thesis
    by (cases "reply_of task_status r")
      (auto simp: handle_update_def reject_update_def sample_bot_def update_target_def sample_bot_config_def role_for_def
        allow_def allow_one_def admit_def fresh_part_def remember_def update_memory_def Let_def handle_message_def parsed
        command_roles_def COMMAND_ROLES_def bot_send_def split: prod.splits)
qed

theorem telegram_change_was_permitted_witness:
  "\<exists>call. bot_app (snd (handle_update sample_world sample_bot_config first_io 5 5 reject_update sample_bot))
     = serve memory_database mini_redis id call waiting_app"
proof -
  let ?x = "handle_update sample_world sample_bot_config first_io 5 5 reject_update sample_bot"
  have run: "?x = (fst ?x, snd ?x)" by simp
  have memory: "memory_ok sample_bot" by (simp add: memory_ok_def sample_bot_def)
  from telegram_change_was_permitted [OF run reject_runs memory] show ?thesis
    by (simp add: sample_world_def sample_bot_def del: serve.simps) blast
qed

text \<open>
  The role is only looked at after the callback was verified, so anybody allowed in the chat who presses
  the button uses it up for those who may decide.
\<close>

lemma viewer_uses_up_callback:
  assumes "verify_callback (bw_codec W) (tc_data cb) None clk (bot_signer b) = (Inr (action, tid), S)"
    and "action = ''approve''" "clk \<le> later"
    and "verify_callback (bw_codec W) (tc_data cb) None later S = (result, S')"
  shows "bot_app (snd (handle_callback W io clk cb VIEWER b)) = bot_app b
    \<and> bot_signer (snd (handle_callback W io clk cb VIEWER b)) = S \<and> (\<forall>x. result \<noteq> Inr x)"
proof -
  from verify_callback_ok [OF assms(1)] obtain payload expires nonce where p: "open_token (bw_codec W) (tc_data cb) = Inr payload"
      "member_int payload ''expires'' = Inr expires" "member_text (bw_codec W) payload ''nonce'' = Inr nonce"
      "cs_used S nonce = Some expires" by auto
  have "result \<noteq> Inr x" for x
    using assms(4) p by (auto simp: verify_callback_def Let_def split: if_splits)
  then show ?thesis using assms(1,2)
    by (auto simp: handle_callback_def command_roles_def COMMAND_ROLES_def bot_answer_def Let_def split: prod.splits)
qed

end
