(* ===== verification/GitHub.thy ===== *)
theory GitHub
  imports Py_Json
begin

text \<open>
  The GitHub client (\<open>github/client.py\<close>, \<open>github/errors.py\<close>): requests over a transport, whose
  exchanges are recorded in order, the operations of the client as programs over such a talk, and a monitor that says
  which sequences of exchanges may move a branch.
\<close>

subsection \<open>Errors\<close>

datatype github_failure =
    AUTHENTICATION | PERMISSION | NOT_FOUND | CONFLICT | VALIDATION | RATE_LIMIT | SERVER | NETWORK

text \<open>\<open>Raised\<close> is an exception of Python itself, for an answer of an unexpected shape.\<close>

datatype github_exn =
    GitHubError github_failure string bool "py_float option"
  | Raised py_error

subsection \<open>The transport\<close>

record gh_request =
  verb :: string
  target :: string
  bearer :: string
  body :: "json option"

type_synonym gh_headers = "(string \<times> string) list"
type_synonym gh_answer = "int \<times> json \<times> gh_headers"
type_synonym 'w transport = "gh_request \<Rightarrow> 'w \<Rightarrow> (github_exn + gh_answer) \<times> 'w"

record http_reply =
  reply_code :: int
  reply_content :: string
  reply_headers :: gh_headers

definition request_headers :: "string \<Rightarrow> gh_headers" where
  "request_headers token =
     [(''Authorization'', ''Bearer '' @ token), (''Accept'', ''application/vnd.github+json''),
      (''X-GitHub-Api-Version'', ''2022-11-28'')]"

text \<open>\<open>http\<close> is the request of httpx (\<open>None\<close>: an \<open>HTTPError\<close>), \<open>loads\<close> the JSON decoder.\<close>

definition httpx_transport ::
  "(string \<Rightarrow> json option) \<Rightarrow> (string \<Rightarrow> string \<Rightarrow> gh_headers \<Rightarrow> json option \<Rightarrow> 'w \<Rightarrow> http_reply option \<times> 'w)
   \<Rightarrow> 'w transport" where
  "httpx_transport loads http q w =
     (case http (verb q) (target q) (request_headers (bearer q)) (body q) w of
        (None, w1) \<Rightarrow> (Inl (GitHubError NETWORK ''GitHub request failed'' True None), w1)
      | (Some r, w1) \<Rightarrow>
          (if reply_content r = [] then (Inr (reply_code r, JObj [], reply_headers r), w1)
           else case loads (reply_content r) of
             None \<Rightarrow> (Inl (Raised Shape_error), w1)
           | Some payload \<Rightarrow> (Inr (reply_code r, payload, reply_headers r), w1)))"

subsection \<open>Talks\<close>

text \<open>The state of a talk: the other side, and the exchanges so far, oldest first.\<close>

type_synonym exchange = "gh_request \<times> (github_exn + gh_answer)"
type_synonym 'w talk = "'w \<times> exchange list"
type_synonym ('w, 'a) op = "'w talk \<Rightarrow> (github_exn + 'a) \<times> 'w talk"

definition give :: "'a \<Rightarrow> ('w, 'a) op" where
  "give x s = (Inr x, s)"

definition refuse :: "github_exn \<Rightarrow> ('w, 'a) op" where
  "refuse e s = (Inl e, s)"

definition bind_op :: "('w, 'a) op \<Rightarrow> ('a \<Rightarrow> ('w, 'b) op) \<Rightarrow> ('w, 'b) op" where
  "bind_op m f s = (case m s of (Inl e, s1) \<Rightarrow> (Inl e, s1) | (Inr x, s1) \<Rightarrow> f x s1)"

definition require :: "github_exn option \<Rightarrow> ('w, 'a) op \<Rightarrow> ('w, 'a) op" where
  "require problem m = (case problem of None \<Rightarrow> m | Some e \<Rightarrow> refuse e)"

definition need :: "py_error + 'a \<Rightarrow> ('w, 'a) op" where
  "need x = (case x of Inl e \<Rightarrow> refuse (Raised e) | Inr a \<Rightarrow> give a)"

definition ask :: "'w transport \<Rightarrow> gh_request \<Rightarrow> ('w, gh_answer) op" where
  "ask send q s = (case send q (fst s) of (a, w) \<Rightarrow> (a, w, snd s @ [(q, a)]))"

subsection \<open>Status codes, paths, names\<close>

definition status_failure :: "int \<Rightarrow> github_failure \<times> bool" where
  "status_failure status =
     (if status = 401 then (AUTHENTICATION, False)
      else if status = 403 then (PERMISSION, False)
      else if status = 404 then (NOT_FOUND, False)
      else if status = 409 then (CONFLICT, False)
      else if status = 422 then (VALIDATION, False)
      else (SERVER, 500 \<le> status))"

definition raise_for_status :: "int \<Rightarrow> gh_headers \<Rightarrow> github_exn option" where
  "raise_for_status status headers =
     (if status < 400 then None
      else case status_failure status of (failure, retryable) \<Rightarrow>
        let message = ''GitHub operation failed with status '' @ int_text status in
        (case str_or (map_of headers ''retry-after'') [] of
           [] \<Rightarrow> Some (GitHubError failure message retryable None)
         | text \<Rightarrow> (case float_of_text text of
             Inl e \<Rightarrow> Some (Raised e)
           | Inr seconds \<Rightarrow> Some (GitHubError failure message retryable (Some seconds)))))"

definition validate_path :: "string \<Rightarrow> github_exn option" where
  "validate_path path =
     (let normalized = map (\<lambda>c. if c = CHR 0x5C then CHR ''/'' else c) path in
      if starts_with normalized ''/'' \<or> ''..'' \<in> set (split_on CHR ''/'' normalized) \<or> normalized = ''.git''
      then Some (GitHubError VALIDATION ''Invalid repository path'' False None)
      else if starts_with normalized ''.github/workflows/''
      then Some (GitHubError PERMISSION ''Workflow changes require explicit approval'' False None)
      else None)"

text \<open>\<open>str.isalnum\<close> on the characters of the model.\<close>

definition alnum :: "char \<Rightarrow> bool" where
  "alnum c = (let n = (of_char c :: nat) in
     48 \<le> n \<and> n \<le> 57 \<or> 65 \<le> n \<and> n \<le> 90 \<or> 97 \<le> n \<and> n \<le> 122 \<or> n \<in> {170, 178, 179, 181, 185, 186, 188, 189, 190}
     \<or> 192 \<le> n \<and> n \<noteq> 215 \<and> n \<noteq> 247)"

definition slug :: "string \<Rightarrow> string" where
  "slug value =
     (let result = map (\<lambda>c. if alnum c then lower_char c else CHR ''-'') value;
          short = take 48 (join_with ''-'' (filter (\<lambda>p. p \<noteq> []) (split_on CHR ''-'' result))) in
      if short = [] then ''task'' else short)"

subsection \<open>The client\<close>

record permission_decision =
  allowed :: bool
  reason :: string

text \<open>\<open>show\<close> is \<open>repr\<close> for the values \<^const>\<open>json_text\<close> does not write out.\<close>

record 'w github_client =
  send :: "'w transport"
  repositories :: "string list"
  protected :: "string list"
  show_json :: "json \<Rightarrow> string"

definition default_protected :: "string list" where
  "default_protected = [''main'', ''master'']"

definition authorize :: "'w github_client \<Rightarrow> string \<Rightarrow> string \<Rightarrow> string set \<Rightarrow> string \<Rightarrow> permission_decision" where
  "authorize C repository branch permissions required =
     (if repository \<notin> set (repositories C) then \<lparr>allowed = False, reason = ''repository_not_allowed''\<rparr>
      else if branch \<in> set (protected C) then \<lparr>allowed = False, reason = ''protected_branch_write_denied''\<rparr>
      else if required \<notin> permissions then \<lparr>allowed = False, reason = ''missing_permission:'' @ required\<rparr>
      else \<lparr>allowed = True, reason = ''allowed''\<rparr>)"

definition call :: "'w github_client \<Rightarrow> string \<Rightarrow> string \<Rightarrow> string \<Rightarrow> json option \<Rightarrow> ('w, gh_answer) op" where
  "call C method path token content =
     ask (send C) \<lparr>verb = method, target = path, bearer = token, body = content\<rparr>"

text \<open>A request followed by \<open>_raise_for_status\<close>: the payload of the answer.\<close>

definition checked :: "'w github_client \<Rightarrow> string \<Rightarrow> string \<Rightarrow> string \<Rightarrow> json option \<Rightarrow> ('w, json) op" where
  "checked C method path token content =
     bind_op (call C method path token content)
       (\<lambda>(status, payload, headers). require (raise_for_status status headers) (give payload))"

definition text_member :: "'w github_client \<Rightarrow> json \<Rightarrow> string \<Rightarrow> ('w, string) op" where
  "text_member C payload key = bind_op (need (item_key payload key)) (\<lambda>v. give (json_text (show_json C) v))"

definition create_branch ::
  "'w github_client \<Rightarrow> string \<Rightarrow> string \<Rightarrow> string \<Rightarrow> string \<Rightarrow> string \<Rightarrow> ('w, string) op" where
  "create_branch C repository base_sha task_id name token =
     (let branch = ''agent/'' @ task_id @ ''-'' @ slug name in
      bind_op (call C ''POST'' (''/repos/'' @ repository @ ''/git/refs'') token
          (Some (JObj [(''ref'', JStr (''refs/heads/'' @ branch)), (''sha'', JStr base_sha)])))
        (\<lambda>(status, payload, headers).
           bind_op (if status = 422 then need (get_key payload ''message'' JNull) else give JNull)
             (\<lambda>message. if status = 422 \<and> message = JStr ''Reference already exists'' then give branch
                else require (raise_for_status status headers) (give branch))))"

subsection \<open>Commits\<close>

text \<open>The files of a commit are a dictionary: a list of paths and contents with distinct paths.\<close>

definition commit_problem :: "'w github_client \<Rightarrow> string \<Rightarrow> (string \<times> string) list \<Rightarrow> github_exn option" where
  "commit_problem C branch files =
     (if branch \<in> set (protected C)
      then Some (GitHubError PERMISSION ''Protected branch writes are denied'' False None)
      else if files = [] \<or> 100 < length files \<or> 5000000 < sum_list (map (\<lambda>(path, content). int (utf8_size content)) files)
      then Some (GitHubError VALIDATION ''Commit file or byte limit exceeded'' False None)
      else (case filter (\<lambda>p. p \<noteq> None) (map (\<lambda>(path, content). validate_path path) files) of
          [] \<Rightarrow> None
        | problem # _ \<Rightarrow> problem))"

definition ref_target :: "string \<Rightarrow> string \<Rightarrow> string" where
  "ref_target repository branch = ''/repos/'' @ repository @ ''/git/ref/heads/'' @ branch"

definition move_target :: "string \<Rightarrow> string \<Rightarrow> string" where
  "move_target repository branch = ''/repos/'' @ repository @ ''/git/refs/heads/'' @ branch"

definition git_target :: "string \<Rightarrow> string \<Rightarrow> string" where
  "git_target repository kind = ''/repos/'' @ repository @ ''/git/'' @ kind"

definition object_sha :: "json \<Rightarrow> py_error + json" where
  "object_sha ref = after (get_key ref ''object'' (JObj [])) (\<lambda>object. get_key object ''sha'' JNull)"

definition read_base :: "'w github_client \<Rightarrow> string \<Rightarrow> string \<Rightarrow> string \<Rightarrow> string \<Rightarrow> ('w, unit) op" where
  "read_base C repository branch expected_base token =
     bind_op (checked C ''GET'' (ref_target repository branch) token None)
       (\<lambda>ref. bind_op (need (object_sha ref)) (\<lambda>sha.
          if sha \<noteq> JStr expected_base then refuse (GitHubError CONFLICT ''Base branch moved'' False None)
          else give ()))"

fun check_blobs ::
  "'w github_client \<Rightarrow> string \<Rightarrow> string \<Rightarrow> string \<Rightarrow> (string \<times> string) list \<Rightarrow> ('w, unit) op" where
  "check_blobs C repository expected_base token [] = give ()"
| "check_blobs C repository expected_base token ((path, expected_sha) # rest) =
     require (validate_path path)
       (bind_op (checked C ''GET'' (''/repos/'' @ repository @ ''/contents/'' @ path @ ''?ref='' @ expected_base) token None)
         (\<lambda>current. bind_op (need (get_key current ''sha'' JNull)) (\<lambda>sha.
            if sha \<noteq> JStr expected_sha
            then refuse (GitHubError CONFLICT (''Blob changed before commit: '' @ path) False None)
            else check_blobs C repository expected_base token rest)))"

definition base_tree :: "'w github_client \<Rightarrow> string \<Rightarrow> string \<Rightarrow> string \<Rightarrow> ('w, string) op" where
  "base_tree C repository expected_base token =
     bind_op (checked C ''GET'' (git_target repository (''commits/'' @ expected_base)) token None)
       (\<lambda>commit. bind_op (need (after (get_key commit ''tree'' (JObj [])) (\<lambda>tree. get_key tree ''sha'' (JStr []))))
         (\<lambda>sha. let tree = json_text (show_json C) sha in
            if tree = [] then refuse (GitHubError SERVER ''GitHub base tree response is invalid'' True None)
            else give tree))"

definition tree_entry :: "string \<Rightarrow> string \<Rightarrow> json" where
  "tree_entry path sha =
     JObj [(''path'', JStr path), (''mode'', JStr ''100644''), (''type'', JStr ''blob''), (''sha'', JStr sha)]"

fun post_blobs :: "'w github_client \<Rightarrow> string \<Rightarrow> string \<Rightarrow> (string \<times> string) list \<Rightarrow> ('w, json list) op" where
  "post_blobs C repository token [] = give []"
| "post_blobs C repository token ((path, content) # rest) =
     bind_op (checked C ''POST'' (git_target repository ''blobs'') token
         (Some (JObj [(''content'', JStr content), (''encoding'', JStr ''utf-8'')])))
       (\<lambda>blob. bind_op (text_member C blob ''sha'') (\<lambda>sha.
          bind_op (post_blobs C repository token rest) (\<lambda>entries. give (tree_entry path sha # entries))))"

definition commit_body :: "string \<Rightarrow> string \<Rightarrow> json" where
  "commit_body tree expected_base =
     JObj [(''message'', JStr ''MEZO controlled change''), (''tree'', JStr tree), (''parents'', JList [JStr expected_base])]"

definition move_body :: "string \<Rightarrow> json" where
  "move_body sha = JObj [(''sha'', JStr sha), (''force'', JBool False)]"

definition create_commit ::
  "'w github_client \<Rightarrow> string \<Rightarrow> string \<Rightarrow> string \<Rightarrow> (string \<times> string) list \<Rightarrow> string
   \<Rightarrow> (string \<times> string) list option \<Rightarrow> ('w, string) op" where
  "create_commit C repository branch expected_base files token expected_blob_shas =
     require (commit_problem C branch files)
       (bind_op (read_base C repository branch expected_base token) (\<lambda>_.
        bind_op (check_blobs C repository expected_base token (case expected_blob_shas of None \<Rightarrow> [] | Some m \<Rightarrow> m)) (\<lambda>_.
        bind_op (base_tree C repository expected_base token) (\<lambda>base.
        bind_op (post_blobs C repository token (sort files)) (\<lambda>entries.
        bind_op (checked C ''POST'' (git_target repository ''trees'') token
            (Some (JObj [(''base_tree'', JStr base), (''tree'', JList entries)]))) (\<lambda>tree.
        bind_op (text_member C tree ''sha'') (\<lambda>tree_sha.
        bind_op (checked C ''POST'' (git_target repository ''commits'') token
            (Some (commit_body tree_sha expected_base))) (\<lambda>result.
        bind_op (text_member C result ''sha'') (\<lambda>commit_sha.
        bind_op (checked C ''PATCH'' (move_target repository branch) token (Some (move_body commit_sha))) (\<lambda>_.
        give commit_sha))))))))))"

subsection \<open>Pull requests, issues, checks\<close>

definition create_draft_pull_request ::
  "'w github_client \<Rightarrow> string \<Rightarrow> string \<Rightarrow> string \<Rightarrow> string \<Rightarrow> string \<Rightarrow> string \<Rightarrow> ('w, int \<times> string) op" where
  "create_draft_pull_request C repository base head title content token =
     bind_op (checked C ''POST'' (''/repos/'' @ repository @ ''/pulls'') token
         (Some (JObj [(''base'', JStr base), (''head'', JStr head), (''title'', JStr title), (''body'', JStr content),
            (''draft'', JBool True)])))
       (\<lambda>payload. bind_op (need (after (item_key payload ''number'') int_of_json)) (\<lambda>number.
          bind_op (text_member C payload ''html_url'') (\<lambda>url. give (number, url))))"

text \<open>\<open>{k: x.get(k), ...}\<close>.\<close>

fun members :: "json \<Rightarrow> string list \<Rightarrow> py_error + (string \<times> json) list" where
  "members payload [] = Inr []"
| "members payload (k # ks) =
     after (get_key payload k JNull) (\<lambda>v. after (members payload ks) (\<lambda>kvs. Inr ((k, v) # kvs)))"

definition repository_metadata :: "'w github_client \<Rightarrow> string \<Rightarrow> string \<Rightarrow> ('w, json) op" where
  "repository_metadata C repository token =
     bind_op (checked C ''GET'' (''/repos/'' @ repository) token None)
       (\<lambda>payload. need (after (members payload [''full_name'', ''default_branch'']) (\<lambda>kvs.
          after (get_key payload ''archived'' (JBool False)) (\<lambda>archived.
            Inr (JObj (kvs @ [(''archived'', JBool (truthy archived))]))))))"

fun check_runs :: "json list \<Rightarrow> json list" where
  "check_runs [] = []"
| "check_runs (JObj kvs # rest) =
     (case members (JObj kvs) [''name'', ''status'', ''conclusion''] of
        Inl _ \<Rightarrow> check_runs rest | Inr shown \<Rightarrow> JObj shown # check_runs rest)"
| "check_runs (_ # rest) = check_runs rest"

definition required_checks :: "'w github_client \<Rightarrow> string \<Rightarrow> string \<Rightarrow> string \<Rightarrow> ('w, json list) op" where
  "required_checks C repository sha token =
     bind_op (checked C ''GET'' (''/repos/'' @ repository @ ''/commits/'' @ sha @ ''/check-runs'') token None)
       (\<lambda>payload. need (after (after (get_key payload ''check_runs'' (JList [])) iterate_json) (\<lambda>items. Inr (check_runs items))))"

definition issue_target :: "string \<Rightarrow> int \<Rightarrow> string" where
  "issue_target repository number = ''/repos/'' @ repository @ ''/issues/'' @ int_text number"

definition issue :: "'w github_client \<Rightarrow> string \<Rightarrow> int \<Rightarrow> string \<Rightarrow> ('w, json) op" where
  "issue C repository number token =
     bind_op (checked C ''GET'' (issue_target repository number) token None)
       (\<lambda>payload. need (after (members payload [''number'', ''title'', ''body'']) (\<lambda>kvs. Inr (JObj kvs))))"

definition add_evidence_comment :: "'w github_client \<Rightarrow> string \<Rightarrow> int \<Rightarrow> string \<Rightarrow> string \<Rightarrow> ('w, int) op" where
  "add_evidence_comment C repository number content token =
     bind_op (checked C ''POST'' (issue_target repository number @ ''/comments'') token (Some (JObj [(''body'', JStr content)])))
       (\<lambda>payload. need (after (item_key payload ''id'') int_of_json))"

definition update_draft_pull_request :: "'w github_client \<Rightarrow> string \<Rightarrow> int \<Rightarrow> string \<Rightarrow> string \<Rightarrow> ('w, unit) op" where
  "update_draft_pull_request C repository number content token =
     bind_op (checked C ''PATCH'' (''/repos/'' @ repository @ ''/pulls/'' @ int_text number) token
         (Some (JObj [(''body'', JStr content)]))) (\<lambda>_. give ())"

definition approve_pull_request :: "('w, unit) op" where
  "approve_pull_request = refuse (GitHubError PERMISSION ''The agent cannot approve its own pull request'' False None)"

subsection \<open>The exchanges of a commit\<close>

text \<open>
  A monitor reads the exchanges of a commit one by one: the branch is read and is at the expected base, blobs are
  checked, the tree of the base is read, one blob is posted for each file in the order of the paths, the tree is built
  from exactly the answered blobs, the commit has that tree and the expected base as its only parent, and the branch
  is moved to that commit without force. After an answer that is a failure nothing follows.
\<close>

datatype phase =
    Unread | Confirmed | Based string "string list" | Built string | Recorded string | Moved string | Stopped

definition answered :: "github_exn + gh_answer \<Rightarrow> json option" where
  "answered a = (case a of Inl _ \<Rightarrow> None | Inr (status, payload, headers) \<Rightarrow> if status < 400 then Some payload else None)"

definition answered_sha :: "'w github_client \<Rightarrow> github_exn + gh_answer \<Rightarrow> string option" where
  "answered_sha C a = (case answered a of None \<Rightarrow> None | Some payload \<Rightarrow>
     (case item_key payload ''sha'' of Inl _ \<Rightarrow> None | Inr v \<Rightarrow> Some (json_text (show_json C) v)))"

definition answered_tree :: "'w github_client \<Rightarrow> github_exn + gh_answer \<Rightarrow> string option" where
  "answered_tree C a = (case answered a of None \<Rightarrow> None | Some payload \<Rightarrow>
     (case after (get_key payload ''tree'' (JObj [])) (\<lambda>tree. get_key tree ''sha'' (JStr [])) of
        Inl _ \<Rightarrow> None
      | Inr v \<Rightarrow> if json_text (show_json C) v = [] then None else Some (json_text (show_json C) v)))"

definition step_on :: "(string \<Rightarrow> phase) \<Rightarrow> string option \<Rightarrow> phase option" where
  "step_on goto sha = Some (case sha of None \<Rightarrow> Stopped | Some c \<Rightarrow> goto c)"

fun watch ::
  "'w github_client \<Rightarrow> string \<Rightarrow> string \<Rightarrow> string \<Rightarrow> (string \<times> string) list \<Rightarrow> phase \<Rightarrow> exchange \<Rightarrow> phase option" where
  "watch C repo branch base files Unread (q, a) =
     (if verb q = ''GET'' \<and> target q = ref_target repo branch
      then Some (case answered a of
          None \<Rightarrow> Stopped
        | Some ref \<Rightarrow> if object_sha ref = Inr (JStr base) then Confirmed else Stopped)
      else None)"
| "watch C repo branch base files Confirmed (q, a) =
     (if verb q \<noteq> ''GET'' then None
      else if target q = git_target repo (''commits/'' @ base)
      then step_on (\<lambda>tree. Based tree []) (answered_tree C a)
      else if starts_with (target q) (''/repos/'' @ repo @ ''/contents/'')
      then Some (case answered a of None \<Rightarrow> Stopped | Some _ \<Rightarrow> Confirmed)
      else None)"
| "watch C repo branch base files (Based tree shas) (q, a) =
     (if verb q \<noteq> ''POST'' then None
      else if target q = git_target repo ''blobs''
        \<and> length shas < length files
        \<and> body q = Some (JObj [(''content'', JStr (snd (files ! length shas))), (''encoding'', JStr ''utf-8'')])
      then step_on (\<lambda>sha. Based tree (shas @ [sha])) (answered_sha C a)
      else if target q = git_target repo ''trees'' \<and> length shas = length files
        \<and> body q = Some (JObj [(''base_tree'', JStr tree), (''tree'', JList (map2 tree_entry (map fst files) shas))])
      then step_on Built (answered_sha C a)
      else None)"
| "watch C repo branch base files (Built tree) (q, a) =
     (if verb q = ''POST'' \<and> target q = git_target repo ''commits'' \<and> body q = Some (commit_body tree base)
      then step_on Recorded (answered_sha C a) else None)"
| "watch C repo branch base files (Recorded sha) (q, a) =
     (if verb q = ''PATCH'' \<and> target q = move_target repo branch \<and> body q = Some (move_body sha)
      then Some (case answered a of None \<Rightarrow> Stopped | Some _ \<Rightarrow> Moved sha) else None)"
| "watch C repo branch base files (Moved sha) (q, a) = None"
| "watch C repo branch base files Stopped (q, a) = None"

fun watched :: "(phase \<Rightarrow> exchange \<Rightarrow> phase option) \<Rightarrow> phase \<Rightarrow> exchange list \<Rightarrow> phase option" where
  "watched mon p [] = Some p"
| "watched mon p (x # xs) = (case mon p x of None \<Rightarrow> None | Some p1 \<Rightarrow> watched mon p1 xs)"

lemma watched_append:
  "watched mon p (xs @ ys) = (case watched mon p xs of None \<Rightarrow> None | Some p1 \<Rightarrow> watched mon p1 ys)"
  by (induction xs arbitrary: p) (auto split: option.splits)

text \<open>
  What an operation does to the phase: started in \<open>p\<close> it only makes exchanges the monitor accepts, and
  ends in a phase and with a result that \<open>Q\<close> allows.
\<close>

definition follows ::
  "(phase \<Rightarrow> exchange \<Rightarrow> phase option) \<Rightarrow> phase \<Rightarrow> ('w, 'a) op \<Rightarrow> (phase \<Rightarrow> github_exn + 'a \<Rightarrow> bool) \<Rightarrow> bool" where
  "follows mon p m Q \<longleftrightarrow> (\<forall>s r s1. m s = (r, s1) \<longrightarrow>
     (\<exists>t p1. snd s1 = snd s @ t \<and> watched mon p t = Some p1 \<and> Q p1 r))"

named_theorems follows_intros \<open>rules for what operations do to the phase\<close>

lemma follows_give [follows_intros]: "Q p (Inr x) \<Longrightarrow> follows mon p (give x) Q"
  by (simp add: follows_def give_def)

lemma follows_refuse [follows_intros]: "Q p (Inl e) \<Longrightarrow> follows mon p (refuse e) Q"
  by (simp add: follows_def refuse_def)

lemma follows_require [follows_intros]:
  "\<lbrakk>\<And>e. problem = Some e \<Longrightarrow> Q p (Inl e); problem = None \<Longrightarrow> follows mon p m Q\<rbrakk> \<Longrightarrow> follows mon p (require problem m) Q"
  by (cases problem) (auto simp: require_def intro: follows_refuse)

lemma follows_need [follows_intros]:
  "\<lbrakk>\<And>e. x = Inl e \<Longrightarrow> Q p (Inl (Raised e)); \<And>a. x = Inr a \<Longrightarrow> Q p (Inr a)\<rbrakk> \<Longrightarrow> follows mon p (need x) Q"
  by (cases x) (auto simp: need_def intro: follows_refuse follows_give)

lemma follows_bind:
  assumes m: "follows mon p m Q"
    and f: "\<And>p1 x. Q p1 (Inr x) \<Longrightarrow> follows mon p1 (f x) R"
    and e: "\<And>p1 e. Q p1 (Inl e) \<Longrightarrow> R p1 (Inl e)"
  shows "follows mon p (bind_op m f) R"
  unfolding follows_def
proof (intro allI impI)
  fix s r s1
  assume run: "bind_op m f s = (r, s1)"
  obtain r0 s0 where m0: "m s = (r0, s0)" by (cases "m s")
  then obtain t p1 where t: "snd s0 = snd s @ t" "watched mon p t = Some p1" "Q p1 r0"
    using m unfolding follows_def by blast
  show "\<exists>t p1. snd s1 = snd s @ t \<and> watched mon p t = Some p1 \<and> R p1 r"
  proof (cases r0)
    case (Inl err)
    then show ?thesis using run m0 t e [of p1 err] by (auto simp: bind_op_def)
  next
    case (Inr x)
    then have "f x s0 = (r, s1)" using run m0 by (simp add: bind_op_def)
    moreover have "follows mon p1 (f x) R" using f t(3) Inr by simp
    ultimately obtain t1 p2 where "snd s1 = snd s0 @ t1" "watched mon p1 t1 = Some p2" "R p2 r"
      unfolding follows_def by blast
    then show ?thesis using t(1,2) by (intro exI [of _ "t @ t1"] exI [of _ p2]) (simp add: watched_append)
  qed
qed

lemma raise_for_status_None: "raise_for_status status headers = None \<longleftrightarrow> status < 400"
  by (auto simp: raise_for_status_def Let_def split: prod.splits list.splits sum.splits)

lemma follows_checked:
  assumes "\<And>a. \<exists>p1. mon p (\<lparr>verb = method, target = path, bearer = token, body = content\<rparr>, a) = Some p1
      \<and> (case answered a of Some payload \<Rightarrow> Q p1 (Inr payload) | None \<Rightarrow> (\<forall>e. Q p1 (Inl e)))"
  shows "follows mon p (checked C method path token content) Q"
  unfolding follows_def
proof (intro allI impI)
  fix s r s1
  let ?q = "\<lparr>verb = method, target = path, bearer = token, body = content\<rparr>"
  assume run: "checked C method path token content s = (r, s1)"
  obtain a w where a: "send C ?q (fst s) = (a, w)" by fastforce
  obtain p1 where p1: "mon p (?q, a) = Some p1"
      "case answered a of Some payload \<Rightarrow> Q p1 (Inr payload) | None \<Rightarrow> (\<forall>e. Q p1 (Inl e))"
    using assms by blast
  have "snd s1 = snd s @ [(?q, a)] \<and> Q p1 r"
  proof (cases a)
    case (Inl e)
    then show ?thesis using run a p1(2) by (auto simp: checked_def call_def ask_def bind_op_def answered_def)
  next
    case (Inr answer)
    obtain status payload headers where "answer = (status, payload, headers)" by (cases answer)
    then show ?thesis
      using run a p1(2) Inr raise_for_status_None [of status headers]
      by (cases "raise_for_status status headers")
        (auto simp: checked_def call_def ask_def bind_op_def answered_def require_def give_def refuse_def)
  qed
  then show "\<exists>t p1. snd s1 = snd s @ t \<and> watched mon p t = Some p1 \<and> Q p1 r"
    using p1(1) by (intro exI [of _ "[(?q, a)]"] exI [of _ p1]) simp
qed

fun moved :: "phase \<Rightarrow> bool" where
  "moved (Moved _) = True"
| "moved _ = False"

text \<open>An operation that ends well in a phase of \<open>P\<close>, and otherwise has moved nothing.\<close>

definition ends :: "(phase \<Rightarrow> 'a \<Rightarrow> bool) \<Rightarrow> phase \<Rightarrow> github_exn + 'a \<Rightarrow> bool" where
  "ends P p r = (case r of Inl _ \<Rightarrow> \<not> moved p | Inr x \<Rightarrow> P p x)"

lemma ends_simps [simp]: "ends P p (Inl e) \<longleftrightarrow> \<not> moved p" "ends P p (Inr x) \<longleftrightarrow> P p x"
  by (simp_all add: ends_def)

lemma follows_then:
  assumes "follows mon p m (ends P)" and "\<And>p1 x. P p1 x \<Longrightarrow> follows mon p1 (f x) (ends R)"
  shows "follows mon p (bind_op m f) (ends R)"
  by (rule follows_bind [OF assms(1)]) (simp_all add: assms(2))

lemma read_base_follows:
  "follows (watch C repo branch base files) Unread (read_base C repo branch base token) (ends (\<lambda>p _. p = Confirmed))"
  unfolding read_base_def
  by (rule follows_bind [OF follows_checked
        [where Q = "\<lambda>p r. case r of Inl _ \<Rightarrow> p = Stopped
           | Inr ref \<Rightarrow> p = (if object_sha ref = Inr (JStr base) then Confirmed else Stopped)"]])
    (auto split: option.splits if_splits intro!: follows_bind [OF follows_need
        [where Q = "\<lambda>p r. case r of Inl _ \<Rightarrow> p = Stopped | Inr sha \<Rightarrow> p = (if sha = JStr base then Confirmed else Stopped)"]]
        follows_intros)

lemma check_blobs_follows:
  "follows (watch C repo branch base files) Confirmed (check_blobs C repo base token blobs) (ends (\<lambda>p _. p = Confirmed))"
proof (induction blobs)
  case Nil
  then show ?case by (auto intro: follows_intros)
next
  case (Cons blob blobs)
  obtain path sha where blob: "blob = (path, sha)" by fastforce
  show ?case
    unfolding blob check_blobs.simps
    by (intro follows_require follows_bind [OF follows_checked
          [where Q = "\<lambda>p r. case r of Inl _ \<Rightarrow> p = Stopped | Inr _ \<Rightarrow> p = Confirmed"]])
      (auto simp: git_target_def starts_with_def split: option.splits if_splits
        intro!: follows_bind [OF follows_need [where Q = "\<lambda>p r. p = Confirmed"]] follows_intros Cons.IH)
qed

lemma base_tree_follows:
  "follows (watch C repo branch base files) Confirmed (base_tree C repo base token)
     (ends (\<lambda>p tree. p = Based tree []))"
  unfolding base_tree_def
  by (rule follows_bind [OF follows_checked
        [where Q = "\<lambda>p r. case r of Inl _ \<Rightarrow> p = Stopped
           | Inr commit \<Rightarrow> p = (case after (get_key commit ''tree'' (JObj [])) (\<lambda>tree. get_key tree ''sha'' (JStr [])) of
               Inl _ \<Rightarrow> Stopped | Inr v \<Rightarrow> (if json_text (show_json C) v = [] then Stopped else Based (json_text (show_json C) v) []))"]])
    (auto simp: step_on_def answered_tree_def Let_def split: option.splits if_splits sum.splits
      intro!: follows_bind [OF follows_need
        [where Q = "\<lambda>p r. case r of Inl _ \<Rightarrow> p = Stopped
           | Inr v \<Rightarrow> p = (if json_text (show_json C) v = [] then Stopped else Based (json_text (show_json C) v) [])"]]
        follows_intros)

text \<open>An answered request whose answer has to hold a \<open>sha\<close>.\<close>

lemma follows_sha:
  assumes mon: "\<And>a. mon p (\<lparr>verb = method, target = path, bearer = token, body = content\<rparr>, a) = step_on goto (answered_sha C a)"
    and f: "\<And>sha. follows mon (goto sha) (f sha) (ends R)"
  shows "follows mon p (bind_op (checked C method path token content) (\<lambda>x. bind_op (text_member C x ''sha'') f)) (ends R)"
  by (rule follows_bind [OF follows_checked
        [where Q = "\<lambda>p r. case r of Inl _ \<Rightarrow> p = Stopped
           | Inr payload \<Rightarrow> p = (case item_key payload ''sha'' of Inl _ \<Rightarrow> Stopped | Inr v \<Rightarrow> goto (json_text (show_json C) v))"]])
    (auto simp: mon step_on_def answered_sha_def text_member_def split: option.splits sum.splits
      intro!: follows_bind [OF follows_bind [OF follows_need
        [where Q = "\<lambda>p r. case r of Inl _ \<Rightarrow> p = Stopped | Inr v \<Rightarrow> p = goto (json_text (show_json C) v)"],
        where R = "\<lambda>p r. case r of Inl _ \<Rightarrow> p = Stopped | Inr sha \<Rightarrow> p = goto sha"]]
        follows_intros f)

lemma post_blobs_follows:
  assumes "files = before @ rest" "length shas = length before"
  shows "follows (watch C repo branch base files) (Based tree shas) (post_blobs C repo token rest)
     (ends (\<lambda>p entries. \<exists>more_shas. p = Based tree (shas @ more_shas) \<and> length more_shas = length rest
        \<and> entries = map2 tree_entry (map fst rest) more_shas))"
  using assms
proof (induction rest arbitrary: before shas)
  case Nil
  then show ?case by (auto intro: follows_intros)
next
  case (Cons f rest)
  obtain path content where f: "f = (path, content)" by fastforce
  have cur: "snd (files ! length shas) = content" "length shas < length files"
    using Cons.prems f by (simp_all add: nth_append)
  show ?case
    unfolding f post_blobs.simps
  proof (rule follows_sha)
    show "watch C repo branch base files (Based tree shas)
        (\<lparr>verb = ''POST'', target = git_target repo ''blobs'', bearer = token,
          body = Some (JObj [(''content'', JStr content), (''encoding'', JStr ''utf-8'')])\<rparr>, a)
        = step_on (\<lambda>sha. Based tree (shas @ [sha])) (answered_sha C a)" for a
      using cur by simp
  next
    fix sha
    have "follows (watch C repo branch base files) (Based tree (shas @ [sha])) (post_blobs C repo token rest)
       (ends (\<lambda>p entries. \<exists>more_shas. p = Based tree ((shas @ [sha]) @ more_shas) \<and> length more_shas = length rest
          \<and> entries = map2 tree_entry (map fst rest) more_shas))"
      using Cons.prems by (intro Cons.IH [where before = "before @ [f]"]) simp_all
    then show "follows (watch C repo branch base files) (Based tree (shas @ [sha]))
       (bind_op (post_blobs C repo token rest) (\<lambda>entries. give (tree_entry path sha # entries)))
       (ends (\<lambda>p entries. \<exists>more_shas. p = Based tree (shas @ more_shas) \<and> length more_shas = length ((path, content) # rest)
          \<and> entries = map2 tree_entry (map fst ((path, content) # rest)) more_shas))"
    proof (rule follows_then)
      fix p1 entries
      assume "\<exists>more_shas. p1 = Based tree ((shas @ [sha]) @ more_shas) \<and> length more_shas = length rest
          \<and> entries = map2 tree_entry (map fst rest) more_shas"
      then obtain ms where "p1 = Based tree (shas @ sha # ms)" "length ms = length rest"
          "entries = map2 tree_entry (map fst rest) ms" by auto
      then show "follows (watch C repo branch base files) p1 (give (tree_entry path sha # entries))
         (ends (\<lambda>p entries. \<exists>more_shas. p = Based tree (shas @ more_shas) \<and> length more_shas = length ((path, content) # rest)
            \<and> entries = map2 tree_entry (map fst ((path, content) # rest)) more_shas))"
        by (intro follows_give) (auto intro!: exI [of _ "sha # ms"])
    qed
  qed
qed

lemma create_commit_follows:
  "follows (watch C repo branch base (sort files)) Unread (create_commit C repo branch base files token blobs)
     (ends (\<lambda>p sha. p = Moved sha))"
proof -
  let ?mon = "watch C repo branch base (sort files)"
  have move: "follows ?mon (Recorded sha)
      (bind_op (checked C ''PATCH'' (move_target repo branch) token (Some (move_body sha))) (\<lambda>_. give sha))
      (ends (\<lambda>p sha. p = Moved sha))" for sha
    by (rule follows_bind [OF follows_checked [where Q = "\<lambda>p r. case r of Inl _ \<Rightarrow> p = Stopped | Inr _ \<Rightarrow> p = Moved sha"]])
      (auto split: option.splits intro: follows_intros)
  have commit: "follows ?mon (Built tree)
      (bind_op (checked C ''POST'' (git_target repo ''commits'') token (Some (commit_body tree base))) (\<lambda>result.
       bind_op (text_member C result ''sha'') (\<lambda>commit_sha.
       bind_op (checked C ''PATCH'' (move_target repo branch) token (Some (move_body commit_sha))) (\<lambda>_. give commit_sha))))
      (ends (\<lambda>p sha. p = Moved sha))" for tree
    by (rule follows_sha [where goto = Recorded]) (simp_all add: move)
  show ?thesis
    unfolding create_commit_def
    apply (rule follows_require, simp)
    apply (rule follows_then [OF read_base_follows])
    apply (simp only:)
    apply (rule follows_then [OF check_blobs_follows])
    apply (simp only:)
    apply (rule follows_then [OF base_tree_follows])
    apply (simp only:)
    apply (rule follows_then [OF post_blobs_follows [where before = "[]"]])
      apply simp
     apply simp
    apply (elim exE conjE)
    apply (rule follows_sha [where goto = Built])
     apply simp
    apply (rule commit)
    done
qed

text \<open>What the checks before the first request guarantee.\<close>

definition commit_allowed :: "'w github_client \<Rightarrow> string \<Rightarrow> (string \<times> string) list \<Rightarrow> bool" where
  "commit_allowed C branch files \<longleftrightarrow> branch \<notin> set (protected C) \<and> files \<noteq> [] \<and> length files \<le> 100
     \<and> sum_list (map (\<lambda>(path, content). int (utf8_size content)) files) \<le> 5000000
     \<and> (\<forall>(path, content) \<in> set files. validate_path path = None)"

lemma first_problem_None:
  "(case filter (\<lambda>p. p \<noteq> None) xs of [] \<Rightarrow> None | p # ps \<Rightarrow> p) = None \<longleftrightarrow> (\<forall>x \<in> set xs. x = None)"
  by (induction xs) (auto simp: eq_commute)

lemma commit_problem_None: "commit_problem C branch files = None \<longleftrightarrow> commit_allowed C branch files"
  unfolding commit_problem_def first_problem_None commit_allowed_def
  by (simp only: if_distrib [where f = "\<lambda>x. x = None"] first_problem_None) auto

lemma refused_commit_asks_nothing:
  "commit_problem C branch files = Some e
   \<Longrightarrow> create_commit C repo branch base files token blobs s = (Inl e, s)"
  by (simp add: create_commit_def require_def refuse_def)

lemma watch_Moved:
  assumes "watch C repo branch base files p (q, a) = Some (Moved sha)"
  shows "p = Recorded sha \<and> verb q = ''PATCH'' \<and> target q = move_target repo branch
    \<and> body q = Some (move_body sha) \<and> answered a \<noteq> None"
  using assms by (cases p) (auto simp: step_on_def split: if_splits option.splits)

lemma watch_PATCH:
  assumes "watch C repo branch base files p (q, a) = Some p1" and "verb q = ''PATCH''" and "answered a \<noteq> None"
  shows "moved p1"
  using assms by (cases p) (auto split: if_splits option.splits)

lemma watched_Moved:
  assumes "watched (watch C repo branch base files) p t = Some (Moved sha)" and "\<not> moved p"
  shows "\<exists>t0 q a. t = t0 @ [(q, a)] \<and> verb q = ''PATCH'' \<and> target q = move_target repo branch
    \<and> body q = Some (move_body sha) \<and> answered a \<noteq> None"
proof (cases t rule: rev_cases)
  case Nil
  then show ?thesis using assms by simp
next
  case (snoc t0 x)
  obtain q a where x: "x = (q, a)" by (cases x)
  obtain p0 where "watch C repo branch base files p0 (q, a) = Some (Moved sha)"
    using assms(1) by (auto simp: snoc x watched_append split: option.splits)
  from watch_Moved [OF this] show ?thesis by (intro exI [of _ t0] exI [of _ q] exI [of _ a]) (simp add: snoc x)
qed

lemma watched_PATCH:
  assumes "watched (watch C repo branch base files) p t = Some p1" and "(q, a) \<in> set t"
    and "verb q = ''PATCH''" and "answered a \<noteq> None"
  shows "moved p1"
  using assms(1,2)
proof (induction t arbitrary: p)
  case Nil
  then show ?case by simp
next
  case (Cons x t)
  obtain p2 where p2: "watch C repo branch base files p x = Some p2"
      "watched (watch C repo branch base files) p2 t = Some p1"
    using Cons.prems(1) by (auto split: option.splits)
  show ?case
  proof (cases "x = (q, a)")
    case True
    then have "moved p2" using watch_PATCH [OF _ assms(3,4)] p2(1) by simp
    then obtain sha where "p2 = Moved sha" by (cases p2) simp_all
    then show ?thesis using p2(2) \<open>moved p2\<close> by (cases t) (auto split: option.splits)
  next
    case False
    then show ?thesis using Cons.IH [OF p2(2)] Cons.prems(2) by simp
  qed
qed

text \<open>
  C12. Whatever the server answers, create_commit makes only exchanges the monitor accepts: nothing is written before
  the branch was read at the expected base, the tree holds the given files with the identifiers answered for them, and
  its only parent is that base. An identifier is returned only when the last exchange asked, without force, to
  move the branch to it and was answered below 400 (a redirect counts as well); with an
  error, no move was answered below 400. A protected branch, too many files or bytes or a bad
  path let no request out.
\<close>

theorem commit_follows_protocol:
  assumes "create_commit C repo branch base files token blobs (w, []) = (r, w1, t)"
  shows "(\<exists>p. watched (watch C repo branch base (sort files)) Unread t = Some p)
    \<and> (\<forall>sha. r = Inr sha \<longrightarrow> (\<exists>t0 q status payload headers. t = t0 @ [(q, Inr (status, payload, headers))] \<and> status < 400
        \<and> verb q = ''PATCH'' \<and> target q = ''/repos/'' @ repo @ ''/git/refs/heads/'' @ branch
        \<and> body q = Some (JObj [(''sha'', JStr sha), (''force'', JBool False)])))
    \<and> (\<forall>e. r = Inl e \<longrightarrow> (\<forall>q status payload headers. (q, Inr (status, payload, headers)) \<in> set t \<and> verb q = ''PATCH''
        \<longrightarrow> 400 \<le> status))
    \<and> (t \<noteq> [] \<longrightarrow> commit_allowed C branch files)"
proof (intro conjI allI impI)
  obtain p where p: "watched (watch C repo branch base (sort files)) Unread t = Some p" "ends (\<lambda>p sha. p = Moved sha) p r"
    using create_commit_follows [of C repo branch base files token blobs] assms unfolding follows_def by fastforce
  then show "\<exists>p. watched (watch C repo branch base (sort files)) Unread t = Some p" by blast
  show "\<exists>t0 q status payload headers. t = t0 @ [(q, Inr (status, payload, headers))] \<and> status < 400
      \<and> verb q = ''PATCH'' \<and> target q = ''/repos/'' @ repo @ ''/git/refs/heads/'' @ branch
      \<and> body q = Some (JObj [(''sha'', JStr sha), (''force'', JBool False)])" if r: "r = Inr sha" for sha
  proof -
    have "p = Moved sha" using p(2) r by simp
    then obtain t0 q a where last_one: "t = t0 @ [(q, a)]" "verb q = ''PATCH''" "target q = move_target repo branch"
        "body q = Some (move_body sha)" "answered a \<noteq> None"
      using watched_Moved [OF p(1) [unfolded \<open>p = Moved sha\<close>]] by auto
    from last_one(5) obtain status payload headers where "a = Inr (status, payload, headers)" "status < 400"
      by (auto simp: answered_def split: sum.splits if_splits)
    with last_one show ?thesis
      by (intro exI [of _ t0] exI [of _ q] exI [of _ status] exI [of _ payload] exI [of _ headers])
        (simp add: move_target_def git_target_def move_body_def)
  qed
  show "400 \<le> status" if "r = Inl e" and "(q, Inr (status, payload, headers)) \<in> set t \<and> verb q = ''PATCH''"
    for e q status payload headers
  proof -
    have "\<not> moved p" using p(2) that(1) by simp
    then have "answered (Inr (status, payload, headers)) = None" using watched_PATCH [OF p(1)] that(2) by blast
    then show ?thesis by (auto simp: answered_def split: if_splits)
  qed
  show "commit_allowed C branch files" if "t \<noteq> []"
  proof (rule ccontr)
    assume "\<not> commit_allowed C branch files"
    then obtain e where "commit_problem C branch files = Some e" using commit_problem_None by blast
    then show False
      using that assms refused_commit_asks_nothing [of C branch files e repo base token blobs "(w, [])"] by simp
  qed
qed

subsection \<open>A scripted server\<close>

text \<open>The other side of a sample talk is the list of the answers it still gives.\<close>

fun scripted :: "gh_answer list transport" where
  "scripted q [] = (Inl (GitHubError NETWORK ''GitHub request failed'' True None), [])"
| "scripted q (a # rest) = (Inr a, rest)"

definition sample_client :: "gh_answer list github_client" where
  "sample_client = \<lparr>send = scripted, repositories = [''o/r''], protected = default_protected, show_json = (\<lambda>_. ''?'')\<rparr>"

definition sha_answer :: "int \<Rightarrow> string \<Rightarrow> gh_answer" where
  "sha_answer status sha = (status, JObj [(''sha'', JStr sha)], [])"

definition sample_answers :: "gh_answer list" where
  "sample_answers = [(200, JObj [(''object'', JObj [(''sha'', JStr ''b0'')])], []),
     (200, JObj [(''tree'', JObj [(''sha'', JStr ''t0'')])], []),
     sha_answer 201 ''s1'', sha_answer 201 ''s2'', sha_answer 201 ''t1'', sha_answer 201 ''c1'', (200, JObj [], [])]"

definition sample_commit :: "(github_exn + string) \<times> gh_answer list talk" where
  "sample_commit = create_commit sample_client ''o/r'' ''agent/1'' ''b0'' [(''b.py'', ''2''), (''a.py'', ''1'')] ''k'' None
     (sample_answers, [])"

lemma sample_commit_result: "fst sample_commit = Inr ''c1''"
  by code_simp

lemma sample_commit_run:
  "create_commit sample_client ''o/r'' ''agent/1'' ''b0'' [(''b.py'', ''2''), (''a.py'', ''1'')] ''k'' None
     (sample_answers, []) = (Inr ''c1'', fst (snd sample_commit), snd (snd sample_commit))"
  using sample_commit_result by (simp add: sample_commit_def prod_eq_iff)

theorem commit_follows_protocol_witness:
  "(\<exists>p. watched (watch sample_client ''o/r'' ''agent/1'' ''b0'' (sort [(''b.py'', ''2''), (''a.py'', ''1'')])) Unread
      (snd (snd sample_commit)) = Some p)
   \<and> (\<exists>t0 q status payload headers. snd (snd sample_commit) = t0 @ [(q, Inr (status, payload, headers))] \<and> status < 400
        \<and> verb q = ''PATCH'' \<and> target q = ''/repos/'' @ ''o/r'' @ ''/git/refs/heads/'' @ ''agent/1''
        \<and> body q = Some (JObj [(''sha'', JStr ''c1''), (''force'', JBool False)]))
   \<and> length (snd (snd sample_commit)) = 7"
  using commit_follows_protocol [OF sample_commit_run]
proof (intro conjI)
  show "length (snd (snd sample_commit)) = 7" by code_simp
qed blast+

subsection \<open>Names of branches\<close>

lemma set_join_with: "set (join_with sep ps) \<subseteq> set sep \<union> \<Union> (set ` set ps)"
  by (induction sep ps rule: join_with.induct) auto

lemma set_split_on: "p \<in> set (split_on c s) \<Longrightarrow> set p \<subseteq> set s"
proof (induction s arbitrary: p)
  case Nil
  then show ?case by simp
next
  case (Cons x s)
  obtain q qs where "split_on c s = q # qs"
    by (meson neq_Nil_conv split_on_not_Nil)
  moreover from this have "set q \<subseteq> set s" "\<forall>r \<in> set qs. set r \<subseteq> set s"
    using Cons.IH by auto
  ultimately show ?case using Cons.prems by (auto split: if_splits)
qed

lemma slug_shape:
  "slug value \<noteq> [] \<and> length (slug value) \<le> 48 \<and> set (slug value) \<subseteq> insert CHR ''-'' (lower_char ` {c. alnum c})"
proof -
  let ?result = "map (\<lambda>c. if alnum c then lower_char c else CHR ''-'') value"
  let ?parts = "filter (\<lambda>p. p \<noteq> []) (split_on CHR ''-'' ?result)"
  let ?ok = "insert CHR ''-'' (lower_char ` {c. alnum c})"
  have "set ?result \<subseteq> ?ok" by auto
  then have "set p \<subseteq> ?ok" if "p \<in> set ?parts" for p
    using set_split_on [of p "CHR ''-''" ?result] that by auto
  then have "\<Union> (set ` set ?parts) \<subseteq> ?ok" by (intro UN_least)
  then have "set (join_with ''-'' ?parts) \<subseteq> ?ok"
    by (intro subset_trans [OF set_join_with]) auto
  then have "set (take 48 (join_with ''-'' ?parts)) \<subseteq> ?ok"
    using set_take_subset [of 48 "join_with ''-'' ?parts"] by (rule subset_trans [rotated])
  moreover have "set (map lower_char t) \<subseteq> ?ok" if "list_all alnum t" for t
    using that by (auto simp: list.pred_set)
  moreover have "list_all alnum ''task''" "map lower_char ''task'' = ''task''" by code_simp+
  ultimately have "set short \<subseteq> ?ok"
      if "short = (if take 48 (join_with ''-'' ?parts) = [] then ''task'' else take 48 (join_with ''-'' ?parts))" for short
    using that by (metis (no_types, lifting))
  moreover have "slug value = (if take 48 (join_with ''-'' ?parts) = [] then ''task'' else take 48 (join_with ''-'' ?parts))"
    by (simp only: slug_def Let_def)
  ultimately show ?thesis by (auto split: if_splits)
qed

text \<open>A branch the client reports is in the agents' name space, with a short plain name.\<close>

lemma created_branch_name:
  "create_branch C repo base_sha task_id name token s = (Inr branch, s1)
   \<Longrightarrow> branch = ''agent/'' @ task_id @ ''-'' @ slug name"
  by (auto simp: create_branch_def bind_op_def call_def ask_def require_def give_def refuse_def need_def Let_def
      split: prod.splits sum.splits option.splits if_splits)

subsection \<open>What the checks let through\<close>

text \<open>Redirects are not followed and are not errors: a branch that was not created counts as created.\<close>

lemma redirect_counts_as_created:
  "create_branch sample_client ''o/r'' ''b0'' ''1'' ''Fix it'' ''k'' ([(301, JObj [], [])], [])
     = (Inr ''agent/1-fix-it'', [], [(\<lparr>verb = ''POST'', target = ''/repos/o/r/git/refs'', bearer = ''k'',
         body = Some (JObj [(''ref'', JStr ''refs/heads/agent/1-fix-it''), (''sha'', JStr ''b0'')])\<rparr>, Inr (301, JObj [], []))])"
  by code_simp

lemma rate_limits_are_final:
  "raise_for_status 429 [] = Some (GitHubError SERVER ''GitHub operation failed with status 429'' False None)"
  by code_simp

lemma dotted_paths_pass:
  "validate_path ''./.github/workflows/ci.yml'' = None" "validate_path ''.git/config'' = None"
  by code_simp+

lemma dated_retry_header_raises:
  "raise_for_status 503 [(''retry-after'', ''Wed, 21 Oct 2026 07:28:00 GMT'')] = Some (Raised Shape_error)"
  by code_simp

end
