(* ===== verification/Github_Auth.thy ===== *)
theory Github_Auth
  imports GitHub
begin

text \<open>
  Authentication as a GitHub App (\<open>github/app_auth.py\<close>): the signed assertion, the installation requests, and
  the cache of installation tokens with its lock, as a machine whose steps are the pieces of \<open>get\<close> between two awaits.
  Cryptography and the parser of time stamps are parameters.
\<close>

subsection \<open>The assertion\<close>

datatype 'k pem_key = Rsa_key 'k | Other_key

record 'k app_jwt =
  jwt_app_id :: string
  jwt_key :: 'k

definition GitHubAppJWT :: "(string \<Rightarrow> 'k pem_key option) \<Rightarrow> string \<Rightarrow> string \<Rightarrow> github_exn + 'k app_jwt" where
  "GitHubAppJWT load_pem app_id pem =
     (case load_pem pem of
        None \<Rightarrow> Inl (GitHubError AUTHENTICATION ''GitHub App private key is invalid'' False None)
      | Some Other_key \<Rightarrow> Inl (GitHubError AUTHENTICATION ''GitHub App key must be RSA'' False None)
      | Some (Rsa_key k) \<Rightarrow> Inr \<lparr>jwt_app_id = app_id, jwt_key = k\<rparr>)"

definition jwt_claims :: "string \<Rightarrow> int \<Rightarrow> string" where
  "jwt_claims app_id issued =
     ''{'' @ json_quoted ''iat'' @ '': '' @ int_text (issued - 60) @ '', '' @ json_quoted ''exp'' @ '': ''
       @ int_text (issued + 540) @ '', '' @ json_quoted ''iss'' @ '': '' @ json_quoted app_id @ ''}''"

definition jwt_header :: string where
  "jwt_header = ''{'' @ json_quoted ''alg'' @ '': '' @ json_quoted ''RS256'' @ '', '' @ json_quoted ''typ'' @ '': ''
     @ json_quoted ''JWT'' @ ''}''"

text \<open>\<open>sign\<close> is RSA with PKCS 1 padding and SHA-256; \<open>clock\<close> is the whole part of \<open>time.time()\<close>.\<close>

definition create_jwt :: "('k \<Rightarrow> string \<Rightarrow> string) \<Rightarrow> 'k app_jwt \<Rightarrow> int option \<Rightarrow> int \<Rightarrow> string" where
  "create_jwt sign J now clock =
     (let issued = (case now of Some t \<Rightarrow> t | None \<Rightarrow> clock);
          header = b64url jwt_header;
          payload = b64url (jwt_claims (jwt_app_id J) issued) in
      header @ ''.'' @ payload @ ''.'' @ b64url (sign (jwt_key J) (header @ ''.'' @ payload)))"

lemma split_on_free: "c \<notin> set s \<Longrightarrow> split_on c s = [s]"
  by (induction s) auto

lemma split_on_append: "c \<notin> set s \<Longrightarrow> split_on c (s @ c # t) = s # split_on c t"
  by (induction s) auto

lemma jwt_has_three_parts:
  "split_on CHR ''.'' (create_jwt sign J now clock)
     = [b64url jwt_header, b64url (jwt_claims (jwt_app_id J) (case now of Some t \<Rightarrow> t | None \<Rightarrow> clock)),
        b64url (sign (jwt_key J) (b64url jwt_header @ ''.''
          @ b64url (jwt_claims (jwt_app_id J) (case now of Some t \<Rightarrow> t | None \<Rightarrow> clock))))]"
  by (simp add: create_jwt_def Let_def split_on_append split_on_free b64url_no_dot)

subsection \<open>Installation tokens\<close>

record installation_token =
  token_value :: string
  expires_at :: instant
  permissions :: "json list"

definition usable :: "installation_token \<Rightarrow> instant \<Rightarrow> seconds \<Rightarrow> bool" where
  "usable token now early \<longleftrightarrow> expires_at token - now > early"

text \<open>The keys and values of \<open>dict(x)\<close>: of an object, or of a list of pairs, the last value of a key counting.\<close>

fun pair_of :: "json \<Rightarrow> py_error + (json \<times> json)" where
  "pair_of j = (case iterate_json j of
     Inr [k, v] \<Rightarrow> if hashable k then Inr (k, v) else Inl Shape_error
   | _ \<Rightarrow> Inl Shape_error)"

fun put_key :: "json \<Rightarrow> json \<Rightarrow> (json \<times> json) list \<Rightarrow> (json \<times> json) list" where
  "put_key k v [] = [(k, v)]"
| "put_key k v ((l, w) # kvs) = (if k = l then (k, v) # kvs else (l, w) # put_key k v kvs)"

fun dict_of_pairs :: "json list \<Rightarrow> (json \<times> json) list \<Rightarrow> py_error + (json \<times> json) list" where
  "dict_of_pairs [] kvs = Inr kvs"
| "dict_of_pairs (j # js) kvs = after (pair_of j) (\<lambda>(k, v). dict_of_pairs js (put_key k v kvs))"

fun dict_of :: "json \<Rightarrow> py_error + (json \<times> json) list" where
  "dict_of (JObj kvs) = Inr (map (\<lambda>(k, v). (JStr k, v)) kvs)"
| "dict_of j = after (iterate_json j) (\<lambda>js. dict_of_pairs js [])"

definition granted_permissions :: "json \<Rightarrow> py_error + json list" where
  "granted_permissions payload =
     after (after (get_key payload ''permissions'' (JObj [])) dict_of)
       (\<lambda>kvs. Inr (map fst (filter (\<lambda>(k, v). v \<noteq> JStr ''none'') kvs)))"

definition discover :: "'w transport \<Rightarrow> string \<Rightarrow> string \<Rightarrow> ('w, int) op" where
  "discover transport assertion repository =
     bind_op (ask transport \<lparr>verb = ''GET'', target = ''/repos/'' @ repository @ ''/installation'', bearer = assertion, body = None\<rparr>)
       (\<lambda>(status, payload, headers).
          let missing = GitHubError PERMISSION ''GitHub App installation was not found for repository'' False None in
          if status \<noteq> 200 then refuse missing
          else bind_op (need (contains_key payload ''id'')) (\<lambda>present.
            if \<not> present then refuse missing
            else need (after (item_key payload ''id'') int_of_json)))"

text \<open>\<open>read_time\<close> is \<open>datetime.fromisoformat\<close>.\<close>

definition zulu_as_offset :: "string \<Rightarrow> string" where
  "zulu_as_offset s = concat (map (\<lambda>c. if c = CHR ''Z'' then ''+00:00'' else [c]) s)"

definition exchange_token ::
  "(json \<Rightarrow> string) \<Rightarrow> (string \<Rightarrow> instant option) \<Rightarrow> 'w transport \<Rightarrow> string \<Rightarrow> int \<Rightarrow> ('w, installation_token) op" where
  "exchange_token show read_time transport assertion installation =
     bind_op (ask transport \<lparr>verb = ''POST'', target = ''/app/installations/'' @ int_text installation @ ''/access_tokens'',
         bearer = assertion, body = Some (JObj [])\<rparr>)
       (\<lambda>(status, payload, headers).
          if status \<noteq> 201 then refuse (GitHubError AUTHENTICATION ''GitHub installation token exchange failed'' (500 \<le> status) None)
          else bind_op (need (item_key payload ''expires_at'')) (\<lambda>until.
            case read_time (zulu_as_offset (json_text show until)) of
              None \<Rightarrow> refuse (Raised Shape_error)
            | Some expiry \<Rightarrow>
                bind_op (need (granted_permissions payload)) (\<lambda>granted_keys.
                bind_op (need (item_key payload ''token'')) (\<lambda>v.
                  give \<lparr>token_value = json_text show v, expires_at = expiry, permissions = granted_keys\<rparr>))))"

subsection \<open>The token cache\<close>

text \<open>
  A call of \<open>get\<close> is a caller of its own: idle until it is made, finished when it has returned or raised. The locks of
  asyncio are fair: the callers that wait for one enter in the order in which they came.
\<close>

type_synonym caller = nat

datatype activity =
    Idle | Waiting int | Exchanging int | Finished "(github_exn + installation_token) option"

record token_cache =
  early_refresh :: seconds
  tokens :: "int \<Rightarrow> installation_token option"
  holder :: "int \<Rightarrow> caller option"
  line :: "int \<Rightarrow> caller list"
  activity :: "caller \<Rightarrow> activity"

definition InstallationTokenCache :: "seconds \<Rightarrow> token_cache" where
  "InstallationTokenCache early = \<lparr>early_refresh = early, tokens = (\<lambda>_. None), holder = (\<lambda>_. None),
     line = (\<lambda>_. []), activity = (\<lambda>_. Idle)\<rparr>"

definition cached_usable :: "int \<Rightarrow> instant \<Rightarrow> token_cache \<Rightarrow> installation_token option" where
  "cached_usable i now s = (case tokens s i of
     None \<Rightarrow> None | Some t \<Rightarrow> if usable t now (early_refresh s) then Some t else None)"

definition finish :: "caller \<Rightarrow> (github_exn + installation_token) option \<Rightarrow> token_cache \<Rightarrow> token_cache" where
  "finish c result s = s\<lparr>activity := (activity s)(c := Finished result)\<rparr>"

text \<open>With the lock: look again, and start the exchange when there is still no usable token.\<close>

definition enter :: "caller \<Rightarrow> int \<Rightarrow> instant \<Rightarrow> token_cache \<Rightarrow> token_cache" where
  "enter c i now s = (case cached_usable i now s of
     Some t \<Rightarrow> finish c (Some (Inr t)) s
   | None \<Rightarrow> s\<lparr>holder := (holder s)(i := Some c), activity := (activity s)(c := Exchanging i)\<rparr>)"

text \<open>The first piece of \<open>get\<close>; a free lock nobody waits for is entered at once.\<close>

definition get_token :: "caller \<Rightarrow> int \<Rightarrow> instant \<Rightarrow> instant \<Rightarrow> token_cache \<Rightarrow> token_cache" where
  "get_token c i now later s = (case cached_usable i now s of
     Some t \<Rightarrow> finish c (Some (Inr t)) s
   | None \<Rightarrow>
       if holder s i = None \<and> line s i = [] then enter c i later s
       else s\<lparr>line := (line s)(i := line s i @ [c]), activity := (activity s)(c := Waiting i)\<rparr>)"

text \<open>The exchange has answered: the token is stored, the lock released.\<close>

definition answer_exchange :: "caller \<Rightarrow> int \<Rightarrow> github_exn + installation_token \<Rightarrow> token_cache \<Rightarrow> token_cache" where
  "answer_exchange c i r s =
     finish c (Some r) (s\<lparr>tokens := (case r of Inl _ \<Rightarrow> tokens s | Inr t \<Rightarrow> (tokens s)(i := Some t)),
       holder := (holder s)(i := None)\<rparr>)"

definition invalidate :: "int \<Rightarrow> token_cache \<Rightarrow> token_cache" where
  "invalidate i s = s\<lparr>tokens := (tokens s)(i := None)\<rparr>"

text \<open>
  What happens to the cache: a new call, the first of the line entering a free lock, an answer of the exchange, the
  cancellation of a caller, an invalidation. An event that cannot happen leaves everything as it is.
\<close>

datatype cache_event =
    Get caller int instant instant | Turn int instant | Answer int "github_exn + installation_token"
  | Cancelled caller | Invalidate int

fun cache_step :: "cache_event \<Rightarrow> token_cache \<Rightarrow> token_cache" where
  "cache_step (Get c i now later) s = (if activity s c = Idle then get_token c i now later s else s)"
| "cache_step (Turn i now) s = (case (holder s i, line s i) of
     (None, c # rest) \<Rightarrow> enter c i now (s\<lparr>line := (line s)(i := rest)\<rparr>)
   | _ \<Rightarrow> s)"
| "cache_step (Answer i r) s = (case holder s i of None \<Rightarrow> s | Some c \<Rightarrow> answer_exchange c i r s)"
| "cache_step (Cancelled c) s = (case activity s c of
     Waiting i \<Rightarrow> finish c None (s\<lparr>line := (line s)(i := remove1 c (line s i))\<rparr>)
   | Exchanging i \<Rightarrow> finish c None (s\<lparr>holder := (holder s)(i := None)\<rparr>)
   | _ \<Rightarrow> s)"
| "cache_step (Invalidate i) s = invalidate i s"

definition cache_ok :: "token_cache \<Rightarrow> bool" where
  "cache_ok s \<longleftrightarrow> (\<forall>c i. (holder s i = Some c \<longleftrightarrow> activity s c = Exchanging i)
     \<and> (c \<in> set (line s i) \<longleftrightarrow> activity s c = Waiting i)) \<and> (\<forall>i. distinct (line s i))"

lemma cache_ok_start: "cache_ok (InstallationTokenCache early)"
  by (simp add: cache_ok_def InstallationTokenCache_def)

lemma cache_ok_holder: "\<lbrakk>cache_ok s; holder s i = Some c\<rbrakk> \<Longrightarrow> activity s c = Exchanging i"
  by (simp add: cache_ok_def)

lemma finish_ok:
  assumes "cache_ok s" "activity s c = Idle \<or> (\<exists>r. activity s c = Finished r)"
  shows "cache_ok (finish c r s)"
  using assms by (auto simp: cache_ok_def finish_def)

lemma cache_okD:
  assumes "cache_ok s"
  shows "holder s i = Some c \<longleftrightarrow> activity s c = Exchanging i" "c \<in> set (line s i) \<longleftrightarrow> activity s c = Waiting i"
    "distinct (line s i)"
  using assms by (auto simp: cache_ok_def)

lemma cache_ok_free: "\<lbrakk>cache_ok s; holder s i = None\<rbrakk> \<Longrightarrow> activity s c \<noteq> Exchanging i"
  using cache_okD(1) [of s i c] by simp

lemma exchanging_unique:
  "\<lbrakk>cache_ok s; activity s c = Exchanging i; activity s d = Exchanging i\<rbrakk> \<Longrightarrow> c = d"
  using cache_okD(1) [of s i c] cache_okD(1) [of s i d] by simp

lemma step_ok: "cache_ok s \<Longrightarrow> cache_ok (cache_step e s)"
proof -
  assume ok: "cache_ok s"
  note d = cache_okD [OF ok]
  show ?thesis
  proof (cases e)
    case (Get c i now later)
    show ?thesis
    proof (cases "activity s c = Idle")
      case True
      then show ?thesis
        using Get cache_ok_free [OF ok, of i]
        by (auto simp: cache_ok_def get_token_def enter_def finish_def d split: option.splits)
    next
      case False
      then show ?thesis using Get ok by simp
    qed
  next
    case (Turn i now)
    show ?thesis
    proof (cases "holder s i = None \<and> line s i \<noteq> []")
      case True
      then obtain c rest where line: "line s i = c # rest" by (cases "line s i") auto
      have "activity s c = Waiting i" "distinct (c # rest)" "\<And>b. b \<in> set (c # rest) \<longleftrightarrow> activity s b = Waiting i"
        using d(2) [of c i] d(3) [of i] d(2) [where i = i] line by auto
      then show ?thesis
        using Turn True line cache_ok_free [OF ok, of i]
        by (auto simp: cache_ok_def enter_def finish_def d split: option.splits)
    next
      case False
      then show ?thesis using Turn ok by (auto split: option.splits list.splits)
    qed
  next
    case (Answer i r)
    show ?thesis
    proof (cases "holder s i")
      case None
      then show ?thesis using Answer ok by simp
    next
      case (Some c)
      then have "activity s b = Exchanging i \<longleftrightarrow> b = c" "activity s c = Exchanging j \<longleftrightarrow> j = i" "activity s c \<noteq> Waiting j" for b j
        using d(1) [of i b] d(1) [of i c] by auto
      moreover have "cache_step e s = answer_exchange c i r s"
        using Some Answer by simp
      ultimately show ?thesis
        by (auto simp: cache_ok_def answer_exchange_def finish_def d)
    qed
  next
    case (Cancelled c)
    then show ?thesis
      using ok by (cases "activity s c") (auto simp: cache_ok_def finish_def d dest: exchanging_unique [OF ok])
  next
    case (Invalidate i)
    then show ?thesis
      using ok by (auto simp: cache_ok_def invalidate_def)
  qed
qed

interpretation token_cache: kept_by cache_step cache_ok
  by unfold_locales (rule step_ok)

text \<open>How far a pending caller is from the end, counted in turns of its installation.\<close>

definition pending :: "caller \<Rightarrow> int \<Rightarrow> token_cache \<Rightarrow> bool" where
  "pending c i s \<longleftrightarrow> activity s c = Waiting i \<or> activity s c = Exchanging i"

fun place :: "caller \<Rightarrow> caller list \<Rightarrow> nat" where
  "place c [] = 0"
| "place c (d # ds) = (if c = d then 0 else Suc (place c ds))"

definition turns_left :: "caller \<Rightarrow> int \<Rightarrow> token_cache \<Rightarrow> nat" where
  "turns_left c i s =
     (if activity s c = Exchanging i then 1
      else if activity s c = Waiting i then 2 * place c (line s i) + 2 + (if holder s i = None then 0 else 1)
      else 0)"

text \<open>A turn of an installation: its exchange answers, or the first of the line enters its free lock.\<close>

fun turn_of :: "int \<Rightarrow> token_cache \<Rightarrow> cache_event \<Rightarrow> bool" where
  "turn_of i s (Turn j now) \<longleftrightarrow> j = i \<and> holder s i = None \<and> line s i \<noteq> []"
| "turn_of i s (Answer j r) \<longleftrightarrow> j = i \<and> holder s i \<noteq> None"
| "turn_of i s _ \<longleftrightarrow> False"

fun turns :: "int \<Rightarrow> token_cache \<Rightarrow> cache_event list \<Rightarrow> nat" where
  "turns i s [] = 0"
| "turns i s (e # es) = (if turn_of i s e then 1 else 0) + turns i (cache_step e s) es"

lemma place_append: "c \<in> set ds \<Longrightarrow> place c (ds @ es) = place c ds"
  by (induction ds) auto

lemma place_remove1: "distinct ds \<Longrightarrow> c \<in> set ds \<Longrightarrow> c \<noteq> d \<Longrightarrow> place c (remove1 d ds) \<le> place c ds"
  by (induction ds) auto

lemma place_le: "place c ds \<le> length ds"
  by (induction ds) auto

lemma head_waits: "\<lbrakk>cache_ok s; line s i = c # rest\<rbrakk> \<Longrightarrow> activity s c = Waiting i"
  using cache_okD(2) [of s c i] by simp

text \<open>A call that is finished stays so: every caller makes one call.\<close>

lemma finished_stays:
  assumes ok: "cache_ok s" and fin: "activity s c = Finished r"
  shows "activity (cache_step e s) c = Finished r"
proof (cases e)
  case (Get b i now later)
  then show ?thesis
    using fin by (auto simp: get_token_def enter_def finish_def split: option.splits)
next
  case (Turn i now)
  then show ?thesis
    using fin head_waits [OF ok, of i]
    by (auto simp: enter_def finish_def split: option.splits list.splits)
next
  case (Answer i x)
  then show ?thesis
    using fin cache_ok_holder [OF ok, of i]
    by (auto simp: answer_exchange_def finish_def split: option.splits)
next
  case (Cancelled b)
  then show ?thesis
    using fin by (auto simp: finish_def split: activity.splits)
next
  case (Invalidate i)
  then show ?thesis using fin by (simp add: invalidate_def)
qed

lemma finished_stays_run:
  "\<lbrakk>cache_ok s; activity s c = Finished r\<rbrakk> \<Longrightarrow> activity (fold cache_step es s) c = Finished r"
  by (induction es arbitrary: s) (auto simp: finished_stays step_ok)

text \<open>An event finishes a pending call or leaves it pending, a turn nearer when it is one of its installation.\<close>

definition nearer :: "caller \<Rightarrow> int \<Rightarrow> nat \<Rightarrow> token_cache \<Rightarrow> token_cache \<Rightarrow> bool" where
  "nearer c i n s s1 \<longleftrightarrow> (\<exists>r. activity s1 c = Finished r) \<or> pending c i s1 \<and> turns_left c i s1 + n \<le> turns_left c i s"

lemma nearer_same:
  "\<lbrakk>pending c i s; activity s1 c = activity s c; line s1 i = line s i; holder s1 i = holder s i\<rbrakk> \<Longrightarrow> nearer c i 0 s s1"
  by (simp add: nearer_def pending_def turns_left_def)

lemma turn_nearer:
  assumes ok: "cache_ok s" and p: "pending c i s" and turn: "holder s i = None" "line s i = b # rest"
  shows "nearer c i 1 s (enter b i now (s\<lparr>line := (line s)(i := rest)\<rparr>))"
proof -
  have "activity s c = Waiting i"
    using p cache_ok_free [OF ok turn(1)] by (simp add: pending_def)
  then show ?thesis
    using turn by (auto simp: nearer_def pending_def turns_left_def enter_def finish_def split: option.splits)
qed

lemma step_nearer:
  assumes ok: "cache_ok s" and p: "pending c i s"
  shows "nearer c i (if turn_of i s e then 1 else 0) s (cache_step e s)"
proof (cases e)
  case (Get b j now later)
  show ?thesis
  proof (cases "activity s b = Idle")
    case True
    have "\<not> (holder s i = None \<and> line s i = [])" and "b \<noteq> c"
      using p True cache_ok_free [OF ok, of i c] cache_okD(2) [OF ok, of c i] by (auto simp: pending_def)
    then show ?thesis
      using Get True p cache_okD(2) [OF ok, of c i]
      by (auto simp: nearer_def pending_def turns_left_def get_token_def enter_def finish_def place_append split: option.splits)
  next
    case False
    then show ?thesis using Get p by (simp add: nearer_same)
  qed
next
  case (Turn j now)
  show ?thesis
  proof (cases "holder s j = None \<and> line s j \<noteq> []")
    case True
    then obtain b rest where line: "line s j = b # rest" by (cases "line s j") auto
    show ?thesis
    proof (cases "j = i")
      case True
      then show ?thesis using Turn \<open>holder s j = None \<and> _\<close> line turn_nearer [OF ok p] by simp
    next
      case False
      have "b \<noteq> c" using head_waits [OF ok line] False p by (auto simp: pending_def)
      then show ?thesis
        using Turn \<open>holder s j = None \<and> _\<close> line False p
        by (auto simp: enter_def finish_def intro!: nearer_same split: option.splits)
    qed
  next
    case False
    then show ?thesis using Turn p by (auto intro!: nearer_same split: option.splits list.splits)
  qed
next
  case (Answer j r)
  show ?thesis
  proof (cases "holder s j")
    case None
    then show ?thesis using Answer p by (auto intro!: nearer_same)
  next
    case (Some b)
    show ?thesis
    proof (cases "b = c")
      case True
      then show ?thesis using Answer Some by (simp add: nearer_def answer_exchange_def finish_def)
    next
      case False
      then have "activity s c = Waiting i" if "j = i"
        using p Some that cache_okD(1) [OF ok, of i c] by (auto simp: pending_def)
      then show ?thesis
        using Answer Some False p
        by (auto simp: nearer_def pending_def turns_left_def answer_exchange_def finish_def)
    qed
  qed
next
  case (Cancelled b)
  show ?thesis
  proof (cases "b = c")
    case True
    then show ?thesis using Cancelled p by (auto simp: nearer_def pending_def finish_def)
  next
    case False
    then have "place c (remove1 b (line s i)) \<le> place c (line s i)" if "activity s c = Waiting i"
      using that cache_okD(2,3) [OF ok] by (intro place_remove1) auto
    then show ?thesis
      using Cancelled False p
      by (auto simp: nearer_def pending_def turns_left_def finish_def split: activity.splits)
  qed
next
  case (Invalidate j)
  then show ?thesis using p by (auto simp: invalidate_def intro!: nearer_same)
qed

text \<open>
  C20. Nobody waits for ever for a token: a call that waits for the lock of an installation, or for its
  exchange, has returned, raised or been cancelled after a number of turns of that installation (answers of its exchange
  and entries of its lock) that its place in the line bounds, whatever else happens in between.
\<close>

theorem pending_call_finishes:
  assumes "cache_ok s" "pending c i s" "turns_left c i s \<le> turns i s es"
  shows "\<exists>r. activity (fold cache_step es s) c = Finished r"
  using assms
proof (induction es arbitrary: s)
  case Nil
  then show ?case by (auto simp: pending_def turns_left_def split: if_splits)
next
  case (Cons e es)
  have "nearer c i (if turn_of i s e then 1 else 0) s (cache_step e s)"
    using Cons.prems(1,2) by (rule step_nearer)
  then consider r where "activity (cache_step e s) c = Finished r"
    | "pending c i (cache_step e s)" "turns_left c i (cache_step e s) \<le> turns i (cache_step e s) es"
    using Cons.prems(3) by (auto simp: nearer_def split: if_splits)
  then show ?case
  proof cases
    case 1
    then show ?thesis using finished_stays_run [OF step_ok [OF Cons.prems(1)] 1] by auto
  next
    case 2
    then show ?thesis using Cons.IH [OF step_ok [OF Cons.prems(1)]] by simp
  qed
qed

subsection \<open>Reachable caches\<close>

inductive cache_reaches :: "seconds \<Rightarrow> token_cache \<Rightarrow> bool" for early where
  start: "cache_reaches early (InstallationTokenCache early)"
| move: "cache_reaches early s \<Longrightarrow> cache_reaches early (cache_step e s)"

lemma step_keeps_margin: "early_refresh (cache_step e s) = early_refresh s"
  by (cases e) (auto simp: get_token_def enter_def finish_def answer_exchange_def invalidate_def
      split: option.splits list.splits activity.splits)

lemma reached_cache: "cache_reaches early s \<Longrightarrow> cache_ok s \<and> early_refresh s = early"
  by (induction rule: cache_reaches.induct)
    (simp_all add: cache_ok_start step_ok step_keeps_margin, simp add: InstallationTokenCache_def)

text \<open>The readings of the clock of an event, with the installation they are made for.\<close>

fun readings :: "cache_event \<Rightarrow> (int \<times> instant) list" where
  "readings (Get c i now later) = [(i, now), (i, later)]"
| "readings (Turn i now) = [(i, now)]"
| "readings _ = []"

lemma served_token:
  assumes ok: "cache_ok s" and before: "\<And>r. activity s c \<noteq> Finished r"
    and served: "activity (cache_step e s) c = Finished (Some (Inr t))"
  shows "(\<exists>i now. (i, now) \<in> set (readings e) \<and> tokens s i = Some t \<and> usable t now (early_refresh s))
    \<or> (\<exists>i. e = Answer i (Inr t) \<and> activity s c = Exchanging i \<and> tokens (cache_step e s) i = Some t)"
proof (cases e)
  case (Get b i now later)
  then show ?thesis
    using served before
    by (auto simp: get_token_def enter_def finish_def cached_usable_def split: option.splits if_splits)
next
  case (Turn i now)
  then show ?thesis
    using served before
    by (auto simp: enter_def finish_def cached_usable_def split: option.splits if_splits list.splits)
next
  case (Answer i r)
  then show ?thesis
    using served before cache_ok_holder [OF ok, of i]
    by (auto simp: answer_exchange_def finish_def split: option.splits if_splits)
next
  case (Cancelled b)
  then show ?thesis
    using served before by (auto simp: finish_def split: activity.splits if_splits)
next
  case (Invalidate i)
  then show ?thesis using served before by (simp add: invalidate_def)
qed

text \<open>
  C19. In every reachable state of the cache at most one exchange per installation is under way, and a call is only
  ever served a token that is stored for its installation and usable at a reading of the clock just made, or the answer of
  its own exchange.
\<close>

theorem token_served_is_fresh:
  assumes "cache_reaches early s"
  shows "(\<forall>c d i. activity s c = Exchanging i \<and> activity s d = Exchanging i \<longrightarrow> c = d)
    \<and> (\<forall>c e t. (\<forall>r. activity s c \<noteq> Finished r) \<and> activity (cache_step e s) c = Finished (Some (Inr t)) \<longrightarrow>
        (\<exists>i now. (i, now) \<in> set (readings e) \<and> tokens s i = Some t \<and> usable t now early)
        \<or> (\<exists>i. e = Answer i (Inr t) \<and> activity s c = Exchanging i \<and> tokens (cache_step e s) i = Some t))"
proof -
  have ok: "cache_ok s" "early_refresh s = early" using reached_cache [OF assms] by simp_all
  show ?thesis using exchanging_unique [OF ok(1)] served_token [OF ok(1)] ok(2) by blast
qed

definition sample_token :: installation_token where
  "sample_token = \<lparr>token_value = ''t'', expires_at = 4000, permissions = []\<rparr>"

text \<open>Two callers ask at the same time: the second waits for the first one's exchange.\<close>

definition two_callers :: token_cache where
  "two_callers = fold cache_step [Get 1 7 0 0, Get 2 7 0 0] (InstallationTokenCache 300)"

lemma two_callers_reached: "cache_reaches 300 two_callers"
  unfolding two_callers_def by (simp only: fold_simps comp_def id_apply) (intro cache_reaches.intros)

lemma two_callers_state:
  "activity two_callers 1 = Exchanging 7" "activity two_callers 2 = Waiting 7"
  "holder two_callers 7 = Some 1" "line two_callers 7 = [2]" "tokens two_callers 7 = None"
  by (simp_all add: two_callers_def InstallationTokenCache_def get_token_def enter_def cached_usable_def)

theorem token_served_is_fresh_witness:
  "activity two_callers 1 = Exchanging 7 \<and> activity two_callers 2 \<noteq> Exchanging 7"
proof -
  have "activity two_callers 2 \<noteq> Exchanging 7"
    using token_served_is_fresh [OF two_callers_reached] two_callers_state(1)
    by (metis one_eq_numeral_iff semiring_norm(85))
  then show ?thesis using two_callers_state(1) by simp
qed

theorem pending_call_finishes_witness:
  "\<exists>r. activity (fold cache_step [Answer 7 (Inl (Raised Shape_error)), Get 3 7 10 10, Turn 7 20, Answer 7 (Inr sample_token)]
     two_callers) 2 = Finished r"
proof (rule pending_call_finishes)
  show "cache_ok two_callers" using reached_cache [OF two_callers_reached] by simp
  show "pending 2 7 two_callers" by (simp add: pending_def two_callers_state)
  show "turns_left 2 7 two_callers
      \<le> turns 7 two_callers [Answer 7 (Inl (Raised Shape_error)), Get 3 7 10 10, Turn 7 20, Answer 7 (Inr sample_token)]"
    by (simp add: turns_left_def two_callers_def InstallationTokenCache_def get_token_def enter_def finish_def
        cached_usable_def answer_exchange_def)
qed

text \<open>An invalidation while an exchange is under way is undone by its answer.\<close>

lemma invalidation_during_exchange_lost:
  "tokens (fold cache_step [Invalidate 7, Answer 7 (Inr sample_token)] two_callers) 7 = Some sample_token"
  by (simp add: invalidate_def two_callers_state answer_exchange_def finish_def)

end
