(* ===== verification/Worker_Loop.thy ===== *)
theory Worker_Loop
  imports Queue_Samples
begin

text \<open>
  The loops of a worker (\<open>worker/runtime.py\<close>): claiming below the capacity, the executions under way, renewal of a
  lease, maintenance, and the drain, as a machine whose steps are the pieces of code between two awaits. Then the two
  smaller workers: \<open>worker/worker.py\<close> with its life cycle, and the process of \<open>worker/main.py\<close> over
  \<open>queue/tasks.py\<close>. What an execution does to the queue and the database is in \<open>Worker\<close>.
\<close>

subsection \<open>State\<close>

text \<open>An execution is a run with a number of its own; \<open>active\<close> is the dictionary of the runs by message.\<close>

type_synonym run = nat

datatype loop_point = At_head | Claiming | Loop_over

datatype drain_point =
    Serving | Announcing | Draining "run list" | Aborting "run list" | Removed | Drain_failed

record runtime =
  capacity :: nat
  active :: "(string \<times> run) list"
  unfinished :: "run list"
  next_run :: run
  draining :: bool
  stopped :: bool
  loop_point :: loop_point
  drain_point :: drain_point
  cancelled_runs :: "run list"

definition WorkerRuntime :: "nat \<Rightarrow> nat \<Rightarrow> runtime option" where
  "WorkerRuntime concurrency visibility =
     (if concurrency < 1 \<or> visibility < 3 then None
      else Some \<lparr>capacity = concurrency, active = [], unfinished = [], next_run = 0, draining = False,
        stopped = False, loop_point = At_head, drain_point = Serving, cancelled_runs = []\<rparr>)"

definition active_count :: "runtime \<Rightarrow> nat" where
  "active_count s = length (active s)"

subsection \<open>The claim loop\<close>

definition prune_finished :: "runtime \<Rightarrow> runtime" where
  "prune_finished s = s\<lparr>active := filter (\<lambda>(m, r). r \<in> set (unfinished s)) (active s)\<rparr>"

text \<open>One turn of the loop, up to the next await.\<close>

definition loop_turn :: "runtime \<Rightarrow> runtime" where
  "loop_turn s =
     (if draining s then s\<lparr>stopped := True, loop_point := Loop_over\<rparr>
      else let s1 = prune_finished s in
        if capacity s1 \<le> active_count s1 then s1 else s1\<lparr>loop_point := Claiming\<rparr>)"

text \<open>\<open>d[k] = v\<close>: the entry of the key is replaced in its place, or appended.\<close>

fun set_item :: "'k \<Rightarrow> 'v \<Rightarrow> ('k \<times> 'v) list \<Rightarrow> ('k \<times> 'v) list" where
  "set_item k v [] = [(k, v)]"
| "set_item k v ((l, w) # kvs) = (if l = k then (k, v) # kvs else (l, w) # set_item k v kvs)"

datatype claim_end = Claim_failed | Nothing_ready | Delivery string | Claim_raised

definition claim_returns :: "claim_end \<Rightarrow> runtime \<Rightarrow> runtime" where
  "claim_returns result s = (case result of
     Claim_failed \<Rightarrow> s\<lparr>loop_point := At_head\<rparr>
   | Nothing_ready \<Rightarrow> s\<lparr>loop_point := At_head\<rparr>
   | Delivery m \<Rightarrow> s\<lparr>active := set_item m (next_run s) (active s), unfinished := next_run s # unfinished s,
       next_run := Suc (next_run s), loop_point := At_head\<rparr>
   | Claim_raised \<Rightarrow> s\<lparr>stopped := True, loop_point := Loop_over\<rparr>)"

subsection \<open>Shutdown\<close>

definition finished_all :: "run list \<Rightarrow> runtime \<Rightarrow> bool" where
  "finished_all rs s \<longleftrightarrow> (\<forall>r \<in> set rs. r \<notin> set (unfinished s))"

definition begin_shutdown :: "runtime \<Rightarrow> runtime" where
  "begin_shutdown s = s\<lparr>draining := True, drain_point := Announcing\<rparr>"

text \<open>The heartbeat that announces the drain may fail, which ends \<open>shutdown\<close> there.\<close>

definition announced :: "bool \<Rightarrow> runtime \<Rightarrow> runtime" where
  "announced ok s = s\<lparr>drain_point := (if ok then Draining (map snd (active s)) else Drain_failed)\<rparr>"

definition drain_timeout :: "runtime \<Rightarrow> runtime" where
  "drain_timeout s = s\<lparr>cancelled_runs := map snd (active s) @ cancelled_runs s,
     drain_point := Aborting (map snd (active s))\<rparr>"

definition remove_worker :: "runtime \<Rightarrow> runtime" where
  "remove_worker s = s\<lparr>stopped := True, drain_point := Removed\<rparr>"

datatype runtime_event =
    Loop_turn | Claim_returns claim_end | Run_ends run | Shutdown | Announced bool | Waited | Timeout

fun runtime_step :: "runtime_event \<Rightarrow> runtime \<Rightarrow> runtime" where
  "runtime_step Loop_turn s = (if loop_point s = At_head then loop_turn s else s)"
| "runtime_step (Claim_returns c) s = (if loop_point s = Claiming then claim_returns c s else s)"
| "runtime_step (Run_ends r) s = s\<lparr>unfinished := removeAll r (unfinished s)\<rparr>"
| "runtime_step Shutdown s = (if drain_point s = Serving then begin_shutdown s else s)"
| "runtime_step (Announced ok) s = (if drain_point s = Announcing then announced ok s else s)"
| "runtime_step Waited s = (case drain_point s of
     Draining rs \<Rightarrow> if finished_all rs s then remove_worker s else s
   | Aborting rs \<Rightarrow> if finished_all rs s then remove_worker s else s
   | _ \<Rightarrow> s)"
| "runtime_step Timeout s = (case drain_point s of Draining rs \<Rightarrow> drain_timeout s | _ \<Rightarrow> s)"

definition runtime_run :: "runtime_event list \<Rightarrow> runtime \<Rightarrow> runtime" where
  "runtime_run es s = fold runtime_step es s"

subsection \<open>Capacity\<close>

text \<open>
  The claims of a run are fresh when no message is delivered to this worker again while an execution of it is still under
  way; the lease of a message protects this for as long as it is renewed.
\<close>

fun fresh_claim :: "runtime_event \<Rightarrow> runtime \<Rightarrow> bool" where
  "fresh_claim (Claim_returns (Delivery m)) s \<longleftrightarrow> (\<forall>(l, r) \<in> set (active s). l = m \<longrightarrow> r \<notin> set (unfinished s))"
| "fresh_claim _ s \<longleftrightarrow> True"

fun fresh_claims :: "runtime_event list \<Rightarrow> runtime \<Rightarrow> bool" where
  "fresh_claims [] s \<longleftrightarrow> True"
| "fresh_claims (e # es) s \<longleftrightarrow> fresh_claim e s \<and> fresh_claims es (runtime_step e s)"

definition within_capacity :: "runtime \<Rightarrow> bool" where
  "within_capacity s \<longleftrightarrow> length (active s) \<le> capacity s
     \<and> (loop_point s = Claiming \<longrightarrow> length (active s) < capacity s)
     \<and> distinct (map fst (active s))"

definition runs_known :: "runtime \<Rightarrow> bool" where
  "runs_known s \<longleftrightarrow> distinct (unfinished s) \<and> set (unfinished s) \<subseteq> snd ` set (active s)
     \<and> (\<forall>r \<in> snd ` set (active s) \<union> set (unfinished s). r < next_run s)"

lemma length_set_item: "length (set_item k v kvs) = (if k \<in> fst ` set kvs then length kvs else Suc (length kvs))"
  by (induction k v kvs rule: set_item.induct) auto

lemma keys_set_item: "set (map fst (set_item k v kvs)) = insert k (set (map fst kvs))"
  by (induction k v kvs rule: set_item.induct) auto

lemma distinct_set_item: "distinct (map fst kvs) \<Longrightarrow> distinct (map fst (set_item k v kvs))"
  by (induction k v kvs rule: set_item.induct) (auto simp: keys_set_item simp del: set_map)

lemma entry_set_item: "(l, w) \<in> set (set_item k v kvs) \<Longrightarrow> (l, w) = (k, v) \<or> (l, w) \<in> set kvs"
  by (induction k v kvs rule: set_item.induct) (auto split: if_splits)

lemma set_item_keeps:
  "\<lbrakk>(l, w) \<in> set kvs; l \<noteq> k\<rbrakk> \<Longrightarrow> (l, w) \<in> set (set_item k v kvs)"
  by (induction k v kvs rule: set_item.induct) auto

lemma set_item_here: "(k, v) \<in> set (set_item k v kvs)"
  by (induction k v kvs rule: set_item.induct) auto

lemma prune_simps [simp]:
  "capacity (prune_finished s) = capacity s" "draining (prune_finished s) = draining s"
  "loop_point (prune_finished s) = loop_point s" "unfinished (prune_finished s) = unfinished s"
  "next_run (prune_finished s) = next_run s" "drain_point (prune_finished s) = drain_point s"
  "length (active (prune_finished s)) \<le> length (active s)"
  "distinct (map fst (active s)) \<Longrightarrow> distinct (map fst (active (prune_finished s)))"
  "set (active (prune_finished s)) = {(m, r). (m, r) \<in> set (active s) \<and> r \<in> set (unfinished s)}"
  by (auto simp: prune_finished_def distinct_map_filter)

lemma step_within_capacity: "within_capacity s \<Longrightarrow> within_capacity (runtime_step e s)"
proof (cases e)
  case Loop_turn
  assume "within_capacity s"
  then show ?thesis
    using Loop_turn le_trans [OF prune_simps(7), of s "capacity s"]
    by (auto simp: within_capacity_def loop_turn_def active_count_def Let_def)
next
  case (Claim_returns c)
  assume "within_capacity s"
  then show ?thesis
    using Claim_returns
    by (auto simp: within_capacity_def claim_returns_def length_set_item distinct_set_item split: claim_end.splits)
qed (auto simp: within_capacity_def begin_shutdown_def announced_def remove_worker_def drain_timeout_def
    split: drain_point.splits)

interpretation capacity: kept_by runtime_step within_capacity
  by unfold_locales (rule step_within_capacity)

lemma step_capacity: "capacity (runtime_step e s) = capacity s"
  by (cases e) (auto simp: loop_turn_def claim_returns_def begin_shutdown_def announced_def remove_worker_def
      drain_timeout_def Let_def split: claim_end.splits drain_point.splits)

lemma known_entry: "\<lbrakk>runs_known s; r \<in> set (unfinished s)\<rbrakk> \<Longrightarrow> \<exists>m. (m, r) \<in> set (active s)"
  unfolding runs_known_def by (metis imageE prod.collapse subsetD)

lemma step_runs_known: "\<lbrakk>runs_known s; fresh_claim e s\<rbrakk> \<Longrightarrow> runs_known (runtime_step e s)"
proof (cases e)
  case Loop_turn
  assume known: "runs_known s"
  have "r \<in> snd ` set (active (prune_finished s))" if r: "r \<in> set (unfinished s)" for r
  proof -
    obtain m where "(m, r) \<in> set (active s)" using known_entry [OF known r] by blast
    then show ?thesis using r by force
  qed
  moreover have "snd ` set (active (prune_finished s)) \<subseteq> snd ` set (active s)" by auto
  ultimately have "runs_known (prune_finished s)"
    using known unfolding runs_known_def prune_simps by blast
  then show ?thesis
    using known Loop_turn by (auto simp: loop_turn_def Let_def runs_known_def)
next
  case (Claim_returns c)
  assume known: "runs_known s" and fresh: "fresh_claim e s"
  show ?thesis
  proof (cases "loop_point s = Claiming \<and> (\<exists>m. c = Delivery m)")
    case True
    then obtain m where m: "c = Delivery m" by blast
    have old: "r \<in> snd ` set (set_item m (next_run s) (active s))" if r: "r \<in> set (unfinished s)" for r
    proof -
      obtain l where l: "(l, r) \<in> set (active s)" using known_entry [OF known r] by blast
      then have "l \<noteq> m" using fresh r True Claim_returns m by auto
      then show ?thesis using set_item_keeps [OF l] by force
    qed
    have here: "next_run s \<in> snd ` set (set_item m (next_run s) (active s))"
      using set_item_here by force
    have bound: "r \<le> next_run s" if r: "r \<in> snd ` set (set_item m (next_run s) (active s))" for r
    proof -
      obtain l where "(l, r) \<in> set (set_item m (next_run s) (active s))" using r by (metis imageE prod.collapse)
      then have "r = next_run s \<or> r \<in> snd ` set (active s)" by (force dest: entry_set_item)
      then show ?thesis using known unfolding runs_known_def by (metis UnI1 less_imp_le order_refl)
    qed
    have "next_run s \<notin> set (unfinished s)" "\<forall>r \<in> set (unfinished s). r < next_run s"
      using known by (auto simp: runs_known_def)
    then show ?thesis
      using True Claim_returns m known old here bound
      by (auto simp: runs_known_def claim_returns_def less_Suc_eq_le less_imp_le)
  next
    case False
    then show ?thesis
      using known Claim_returns by (auto simp: runs_known_def claim_returns_def split: claim_end.splits)
  qed
next
  case (Run_ends r)
  assume "runs_known s"
  then show ?thesis using Run_ends by (auto simp: runs_known_def distinct_removeAll)
qed (auto simp: runs_known_def begin_shutdown_def announced_def remove_worker_def drain_timeout_def
    split: drain_point.splits)

lemma run_runs_known: "\<lbrakk>runs_known s; fresh_claims es s\<rbrakk> \<Longrightarrow> runs_known (runtime_run es s)"
  by (induction es arbitrary: s) (simp_all add: runtime_run_def step_runs_known)

lemma run_capacity: "capacity (runtime_run es s) = capacity s"
  by (induction es arbitrary: s) (simp_all add: runtime_run_def step_capacity)

lemma new_worker:
  "WorkerRuntime c v = Some s \<Longrightarrow> within_capacity s \<and> runs_known s \<and> capacity s = c \<and> 1 \<le> c"
  by (auto simp: WorkerRuntime_def within_capacity_def runs_known_def split: if_splits)

text \<open>
  C29. A worker never runs more executions at a time than its concurrency, whatever its claims, executions and shutdown
  do and in whatever order they interleave, as long as no message is delivered to it a second time while its execution of
  that message is still under way; and an execution that is under way is never missing from the worker's dictionary, so
  that a shutdown can wait for it.
\<close>

theorem worker_within_capacity:
  assumes "WorkerRuntime c v = Some s0" "fresh_claims es s0"
  shows "length (unfinished (runtime_run es s0)) \<le> c
    \<and> set (unfinished (runtime_run es s0)) \<subseteq> snd ` set (active (runtime_run es s0))"
proof -
  let ?s = "runtime_run es s0"
  have "within_capacity ?s" "runs_known ?s" "capacity ?s = c"
    using new_worker [OF assms(1)] capacity.run_keeps run_runs_known [OF _ assms(2)]
    by (simp_all add: run_capacity, simp add: runtime_run_def)
  then have "distinct (unfinished ?s)" "set (unfinished ?s) \<subseteq> snd ` set (active ?s)" "length (active ?s) \<le> c"
    by (simp_all add: runs_known_def within_capacity_def)
  moreover from this have "card (set (unfinished ?s)) \<le> length (active ?s)"
    using card_mono [of "snd ` set (active ?s)"] card_image_le [of "set (active ?s)" snd] card_length [of "active ?s"]
    by (meson List.finite_set finite_imageI le_trans)
  ultimately show ?thesis by (simp add: distinct_card)
qed

text \<open>A worker with two places takes two messages, finishes one, and takes another.\<close>

definition two_places :: runtime where
  "two_places = the (WorkerRuntime 2 60)"

definition busy_events :: "runtime_event list" where
  "busy_events = [Loop_turn, Claim_returns (Delivery ''a''), Loop_turn, Claim_returns (Delivery ''b''), Loop_turn,
     Run_ends 0, Loop_turn, Claim_returns (Delivery ''a'')]"

lemma two_places: "WorkerRuntime 2 60 = Some two_places"
  by (simp add: two_places_def WorkerRuntime_def)

theorem worker_within_capacity_witness:
  "length (unfinished (runtime_run busy_events two_places)) \<le> 2 \<and> unfinished (runtime_run busy_events two_places) = [2, 1]"
proof -
  have "fresh_claims busy_events two_places" "unfinished (runtime_run busy_events two_places) = [2, 1]"
    by code_simp+
  then show ?thesis using worker_within_capacity [OF two_places] by blast
qed

text \<open>
  Without that assumption the bound fails: the lease of a message ran out while its handler was being cancelled, the
  worker claimed it again, and its dictionary forgot the first execution.
\<close>

lemma reclaimed_message_exceeds_capacity:
  "let s = runtime_run [Loop_turn, Claim_returns (Delivery ''a''), Loop_turn, Claim_returns (Delivery ''a''),
       Loop_turn, Claim_returns (Delivery ''b'')] two_places
   in unfinished s = [2, 1, 0] \<and> map snd (active s) = [1, 2]"
  by code_simp

subsection \<open>Drain\<close>

text \<open>A draining worker takes at most the delivery of the claim it was waiting for.\<close>

lemma drain_stops_claiming:
  "draining s \<Longrightarrow> draining (runtime_run es s)
     \<and> next_run (runtime_run es s) \<le> next_run s + (if loop_point s = Claiming then 1 else 0)"
proof (induction es arbitrary: s)
  case Nil
  then show ?case by (simp add: runtime_run_def)
next
  case (Cons e es)
  have "draining (runtime_step e s) \<and> next_run (runtime_step e s) + (if loop_point (runtime_step e s) = Claiming then 1 else 0)
      \<le> next_run s + (if loop_point s = Claiming then 1 else 0)"
    using Cons.prems
    by (cases e) (auto simp: loop_turn_def claim_returns_def begin_shutdown_def announced_def remove_worker_def
        drain_timeout_def split: claim_end.splits drain_point.splits)
  then show ?case
    using Cons.IH [of "runtime_step e s"] by (auto simp: runtime_run_def intro: le_trans)
qed

text \<open>The worker is only removed when the executions it waits for have ended.\<close>

lemma removed_after_waiting:
  "\<lbrakk>drain_point s \<noteq> Removed; drain_point (runtime_step e s) = Removed\<rbrakk>
   \<Longrightarrow> \<exists>rs. (drain_point s = Draining rs \<or> drain_point s = Aborting rs) \<and> finished_all rs s"
  by (cases e) (auto simp: loop_turn_def claim_returns_def begin_shutdown_def announced_def drain_timeout_def Let_def
      split: claim_end.splits drain_point.splits if_splits)

text \<open>
  But a delivery that arrives after it has begun to wait is not waited for: the worker is removed while that execution
  still runs. And when the heartbeat of the drain fails, \<open>shutdown\<close> ends there and waits for nothing.
\<close>

lemma late_delivery_not_awaited:
  "let s = runtime_run [Loop_turn, Shutdown, Announced True, Claim_returns (Delivery ''a''), Waited] two_places
   in drain_point s = Removed \<and> unfinished s = [0]"
  by code_simp

lemma failed_announcement_abandons_drain:
  "let s = runtime_run [Loop_turn, Claim_returns (Delivery ''a''), Shutdown, Announced False, Waited, Timeout] two_places
   in drain_point s = Drain_failed \<and> unfinished s = [0] \<and> cancelled_runs s = []"
  by code_simp

subsection \<open>Background loops\<close>

text \<open>
  The renewal of a lease: every third of the visibility time it is renewed, until the execution has ended (\<open>watch_over\<close>)
  or a renewal is refused or fails, which tells the handler. The answers are those of the renewals in their order, with
  whether somebody else has set the cancellation event during the sleep before it.
\<close>

record lease_watch =
  watch_over :: bool
  ownership_lost :: bool
  renewals :: nat

definition renewal_interval :: "nat \<Rightarrow> real" where
  "renewal_interval visibility = real visibility / 3"

fun renewal_loop :: "(bool \<times> (queue_error + bool)) list \<Rightarrow> lease_watch \<Rightarrow> lease_watch" where
  "renewal_loop [] w = w"
| "renewal_loop ((ended, answer) # rest) w =
     (if watch_over w then w
      else let w1 = w\<lparr>watch_over := ended, renewals := Suc (renewals w)\<rparr> in
        (case answer of
           Inr True \<Rightarrow> renewal_loop rest w1
         | _ \<Rightarrow> w1\<lparr>watch_over := True, ownership_lost := True\<rparr>))"

text \<open>A lost lease is always announced to the handler; a renewal is only lost when one was refused or failed.\<close>

lemma renewal_loop_announces:
  "ownership_lost (renewal_loop xs w) \<Longrightarrow> \<not> ownership_lost w \<Longrightarrow>
     watch_over (renewal_loop xs w) \<and> (\<exists>(ended, answer) \<in> set xs. answer \<noteq> Inr True)"
  by (induction xs w rule: renewal_loop.induct) (auto simp: Let_def split: if_splits sum.splits bool.splits)

lemma renewal_loop_while_renewed:
  "\<lbrakk>\<forall>(ended, answer) \<in> set xs. \<not> ended \<and> answer = Inr True; \<not> watch_over w\<rbrakk>
   \<Longrightarrow> renewal_loop xs w = w\<lparr>renewals := renewals w + length xs\<rparr>"
  by (induction xs w rule: renewal_loop.induct) (auto simp: Let_def)

text \<open>The three intervals of a lease: two renewals in a row may be late before it runs out.\<close>

lemma three_renewals_per_lease: "3 * renewal_interval v = real v"
  by (simp add: renewal_interval_def)

text \<open>
  A pass of the maintenance loop calls every operation; one that fails in the queue is counted, one that raises
  anything else ends the loop, and with it all later maintenance of this worker.
\<close>

datatype operation_end = Op_done | Op_queue_error | Op_raised

fun maintenance_pass :: "operation_end list \<Rightarrow> nat \<Rightarrow> bool \<times> nat" where
  "maintenance_pass [] failures = (True, failures)"
| "maintenance_pass (Op_done # rest) failures = maintenance_pass rest failures"
| "maintenance_pass (Op_queue_error # rest) failures = maintenance_pass rest (Suc failures)"
| "maintenance_pass (Op_raised # rest) failures = (False, failures)"

fun maintenance_loop :: "operation_end list list \<Rightarrow> nat \<Rightarrow> nat \<times> nat" where
  "maintenance_loop [] failures = (0, failures)"
| "maintenance_loop (p # ps) failures = (case maintenance_pass p failures of
     (False, n) \<Rightarrow> (1, n)
   | (True, n) \<Rightarrow> (case maintenance_loop ps n of (k, n1) \<Rightarrow> (Suc k, n1)))"

lemma maintenance_survives_queue_errors:
  "\<forall>p \<in> set ps. Op_raised \<notin> set p \<Longrightarrow>
     maintenance_loop ps n = (length ps, n + sum_list (map (\<lambda>p. count_list p Op_queue_error) ps))"
proof (induction ps arbitrary: n)
  case Nil
  then show ?case by simp
next
  case (Cons p ps)
  have "Op_raised \<notin> set q \<Longrightarrow> maintenance_pass q k = (True, k + count_list q Op_queue_error)" for q k
    by (induction q k rule: maintenance_pass.induct) auto
  then show ?case using Cons by simp
qed

lemma one_raise_ends_maintenance: "fst (maintenance_loop ([Op_raised] # ps) n) = 1"
  by simp

text \<open>The heartbeat loop counts its failures the same way, and ends the same way.\<close>

fun heartbeat_loop :: "operation_end list \<Rightarrow> nat \<Rightarrow> nat \<times> nat" where
  "heartbeat_loop [] failures = (0, failures)"
| "heartbeat_loop (Op_done # rest) failures = (case heartbeat_loop rest failures of (k, n) \<Rightarrow> (Suc k, n))"
| "heartbeat_loop (Op_queue_error # rest) failures = (case heartbeat_loop rest (Suc failures) of (k, n) \<Rightarrow> (Suc k, n))"
| "heartbeat_loop (Op_raised # rest) failures = (1, failures)"

subsection \<open>The leased worker\<close>

record lifecycle =
  stopping :: bool

definition WorkerLifecycle :: lifecycle where
  "WorkerLifecycle = \<lparr>stopping = False\<rparr>"

definition accepting_work :: "lifecycle \<Rightarrow> bool" where
  "accepting_work l \<longleftrightarrow> \<not> stopping l"

definition request_shutdown :: "lifecycle \<Rightarrow> lifecycle" where
  "request_shutdown l = l\<lparr>stopping := True\<rparr>"

text \<open>\<open>beat\<close> and the handler may raise; the replies are those of the claim and of the acknowledgement.\<close>

datatype once_end = Once bool | Beat_failed | Handler_failed | Once_queue queue_error

definition run_once ::
  "'s queue_redis \<Rightarrow> string \<Rightarrow> bool \<Rightarrow> (claimed_task \<Rightarrow> bool) \<Rightarrow> reply \<Rightarrow> reply \<Rightarrow> uuid \<Rightarrow> instant \<Rightarrow> lifecycle \<Rightarrow> 's
   \<Rightarrow> once_end \<times> 's" where
  "run_once R worker beats handler claim_reply ack_reply uid now l s =
     (if \<not> accepting_work l then (Once False, s)
      else if \<not> beats then (Beat_failed, s)
      else case claim R worker claim_reply uid now 60 s of
        (Inl e, s1) \<Rightarrow> (Once_queue e, s1)
      | (Inr None, s1) \<Rightarrow> (Once False, s1)
      | (Inr (Some claimed), s1) \<Rightarrow>
          (if \<not> handler claimed then (Handler_failed, s1)
           else case acknowledge R worker ack_reply claimed s1 of
             (Inl e, s2) \<Rightarrow> (Once_queue e, s2)
           | (Inr b, s2) \<Rightarrow> (Once b, s2)))"

lemma stopped_worker_claims_nothing: "run_once R w b h r1 r2 u t (request_shutdown l) s = (Once False, s)"
  by (simp add: run_once_def accepting_work_def request_shutdown_def)

subsection \<open>The worker process\<close>

text \<open>One round of \<open>TaskQueue.consume\<close> with the body of \<open>worker_loop\<close>, which only writes log lines.\<close>

definition consume_round ::
  "'s queue_redis \<Rightarrow> reply \<Rightarrow> reply \<Rightarrow> uuid \<Rightarrow> instant \<Rightarrow> 's \<Rightarrow> (queue_error + task_record option) \<times> 's" where
  "consume_round R claim_reply ack_reply uid now s =
     (case claim R ''legacy-consumer'' claim_reply uid now 60 s of
        (Inl e, s1) \<Rightarrow> (Inl e, s1)
      | (Inr None, s1) \<Rightarrow> (Inr None, s1)
      | (Inr (Some claimed), s1) \<Rightarrow>
          (case acknowledge R ''legacy-consumer'' ack_reply claimed s1 of
             (Inl e, s2) \<Rightarrow> (Inl e, s2)
           | (Inr _, s2) \<Rightarrow> (Inr (Some (ct_task claimed)), s2)))"

definition queue_enqueue ::
  "'s queue_redis \<Rightarrow> (string \<Rightarrow> digest) \<Rightarrow> reply \<Rightarrow> uuid \<Rightarrow> task_record \<Rightarrow> 's \<Rightarrow> (queue_error + enqueue_result) \<times> 's" where
  "queue_enqueue R sha256 reply uid task s = enqueue R sha256 reply uid task (task_id task) P_NORMAL s"

text \<open>A task the process has seen is out of the queue: acknowledged, with nothing done and nothing recorded.\<close>

lemma process_drops_task:
  "let r = consume_round mini_redis Answered Answered ''u'' 5
       (snd (queue_enqueue mini_redis (\<lambda>k. k) Answered ''m'' (sample_task ''t'') empty_store))
   in fst r = Inr (Some (sample_task ''t'')) \<and> mini_list (Ready P_NORMAL) (snd r) = [] \<and> map fst (ms_hashes (snd r)) = [(Task_index, ''t'')]
     \<and> ms_scores (snd r) = []"
  by code_simp

end
