(* ===== verification/Repository.thy ===== *)
theory Repository
  imports Tools
begin

text \<open>
  Repository intelligence: acquiring a checkout (\<open>repository_intelligence/acquisition.py\<close>), mapping it
  (\<open>scanner.py\<close>), and choosing the context for a model (\<open>context_builder.py\<close>), with the data of \<open>contracts.py\<close>. The
  checkout is a part of the model file system; git, the parser of Python sources and the hash are parameters. A directory
  is listed in the order of its paths where the code leaves the order open.
\<close>

subsection \<open>Paths\<close>

definition last_dot :: "string \<Rightarrow> nat option" where
  "last_dot name = (let back_part = takeWhile (\<lambda>c. c \<noteq> CHR ''.'') (rev name) in
     if length back_part = length name then None else Some (length name - length back_part - 1))"

text \<open>Where the suffix of a name starts: not at its first and not at its last character.\<close>

definition suffix_start :: "string \<Rightarrow> nat" where
  "suffix_start name = (case last_dot name of
     Some i \<Rightarrow> if 0 < i \<and> i < length name - 1 then i else length name
   | None \<Rightarrow> length name)"

definition path_suffix :: "string \<Rightarrow> string" where
  "path_suffix s = drop (suffix_start (path_name s)) (path_name s)"

definition path_stem :: "string \<Rightarrow> string" where
  "path_stem s = take (suffix_start (path_name s)) (path_name s)"

definition pure_parent :: "pure_path \<Rightarrow> pure_path" where
  "pure_parent p = p\<lparr>pp_tail := butlast (pp_tail p)\<rparr>"

definition pure_str :: "pure_path \<Rightarrow> string" where
  "pure_str p = (if pp_root p = [] \<and> pp_tail p = [] then ''.'' else pp_root p @ join_with ''/'' (pp_tail p))"

text \<open>\<open>q in p.parents\<close>.\<close>

definition in_parents :: "pure_path \<Rightarrow> pure_path \<Rightarrow> bool" where
  "in_parents q p \<longleftrightarrow> pp_root q = pp_root p \<and> strict_prefix (pp_tail q) (pp_tail p)"

text \<open>\<open>relative_to(...).as_posix()\<close>.\<close>

definition posix :: "location \<Rightarrow> string" where
  "posix rel = (if rel = [] then ''.'' else join_with ''/'' rel)"

subsection \<open>Sensitive paths\<close>

text \<open>The two patterns, on the lower case of the path: what follows the start of the text or a slash.\<close>

fun after_slashes :: "string \<Rightarrow> string list" where
  "after_slashes [] = []"
| "after_slashes (c # cs) = (if c = CHR ''/'' then cs # after_slashes cs else after_slashes cs)"

definition component_starts :: "string \<Rightarrow> string list" where
  "component_starts s = s # after_slashes s"

definition at_end :: "string \<Rightarrow> bool" where
  "at_end s \<longleftrightarrow> s = [] \<or> s = [CHR 0x0A]"

fun later_on_line :: "(string \<Rightarrow> bool) \<Rightarrow> string \<Rightarrow> bool" where
  "later_on_line p [] = p []"
| "later_on_line p (c # cs) = (p (c # cs) \<or> c \<noteq> CHR 0x0A \<and> later_on_line p cs)"

definition followed_by :: "string \<Rightarrow> (string \<Rightarrow> bool) \<Rightarrow> string \<Rightarrow> bool" where
  "followed_by word p s \<longleftrightarrow> starts_with s word \<and> p (drop (length word) s)"

definition end_or :: "string \<Rightarrow> string \<Rightarrow> bool" where
  "end_or cs s \<longleftrightarrow> at_end s \<or> (\<exists>c \<in> set cs. take 1 s = [c])"

definition key_file :: "string \<Rightarrow> bool" where
  "key_file s \<longleftrightarrow> followed_by ''.env'' (end_or ''.'') s \<or> starts_with s ''id_rsa'' \<or> starts_with s ''id_ed25519''
     \<or> later_on_line (followed_by ''.pem'' at_end) s \<or> later_on_line (followed_by ''.key'' at_end) s"

definition secret_name :: "string \<Rightarrow> bool" where
  "secret_name s \<longleftrightarrow> (\<exists>word \<in> set [''secret'', ''secrets'', ''credential'', ''credentials'']. followed_by word (end_or ''/.'') s)"

definition is_sensitive :: "string \<Rightarrow> bool" where
  "is_sensitive path = list_ex (\<lambda>s. key_file s \<or> secret_name s) (component_starts (lower (path_str path)))"

subsection \<open>Data\<close>

record source_citation =
  sc_repository :: string
  sc_commit :: string
  sc_path :: string
  start_line :: nat
  end_line :: nat
  sc_symbol :: "string option"
  analyzer_version :: string
  content_hash :: digest

record context_item =
  citation :: source_citation
  ci_content :: string
  ci_reason :: string
  score :: nat
  estimated_tokens :: nat

record rule_document =
  rd_path :: string
  rd_scope :: string
  rd_content :: string
  rd_hash :: digest

record rule_conflict =
  rc_scope :: string
  rc_paths :: "string list"
  rc_statement :: string

record symbol =
  sy_name :: string
  sy_kind :: string
  sy_path :: string
  sy_line :: nat
  sy_imports :: "string list"

record repository_map =
  rm_files :: "string list"
  rm_languages :: "(string \<times> nat) list"
  rm_tests :: "string list"
  rm_docs :: "string list"
  rm_workflows :: "string list"
  rm_deployment :: "string list"
  rm_generated :: "string list"
  rm_vendor :: "string list"
  rm_sensitive :: "string list"

definition ANALYZER_VERSION :: string where
  "ANALYZER_VERSION = ''1.0.0''"

definition EXCLUDED_DIRS :: "string list" where
  "EXCLUDED_DIRS = [''.git'', ''node_modules'', ''vendor'', ''.venv'', ''dist'', ''build'']"

subsection \<open>The scanner\<close>

text \<open>The entries below a directory; \<open>rglob\<close> does not follow links.\<close>

definition entries_below :: "filesystem \<Rightarrow> location \<Rightarrow> location list" where
  "entries_below fs d = sorted_set (filter (strict_prefix d) (map fst fs))"

datatype scan_error = Scan_loop | Link_escapes string | Scan_decode

text \<open>\<open>home\<close> is the resolved root; the files are kept with their paths relative to it.\<close>

fun scan_files :: "nat \<Rightarrow> filesystem \<Rightarrow> location \<Rightarrow> location list \<Rightarrow> scan_error + (location \<times> string) list" where
  "scan_files n fs home [] = Inr []"
| "scan_files n fs home (p # ps) =
     (let rel = drop (length home) p in
      if list_ex (\<lambda>part. part \<in> set EXCLUDED_DIRS) rel then scan_files n fs home ps
      else case node_at fs p of
        Some (Symlink a t) \<Rightarrow> (case real_path n fs p of
            None \<Rightarrow> Inl Scan_loop
          | Some q \<Rightarrow> if \<not> prefix home q then Inl (Link_escapes (posix rel)) else scan_files n fs home ps)
      | Some (Regular bytes k) \<Rightarrow> (case scan_files n fs home ps of
            Inl e \<Rightarrow> Inl e | Inr rest \<Rightarrow> Inr ((rel, bytes) # rest))
      | _ \<Rightarrow> scan_files n fs home ps)"

definition scanned :: "nat \<Rightarrow> filesystem \<Rightarrow> location \<Rightarrow> scan_error + (string \<times> string) list" where
  "scanned n fs home = (case scan_files n fs home (entries_below fs home) of
     Inl e \<Rightarrow> Inl e
   | Inr found_files \<Rightarrow> Inr (sort_key fst (map (\<lambda>(rel, bytes). (posix rel, bytes)) found_files)))"

definition language :: "string \<Rightarrow> string" where
  "language path = (case map_of
     [(''.py'', ''python''), (''.sh'', ''shell''), (''.yaml'', ''yaml''), (''.yml'', ''yaml''), (''.json'', ''json''),
      (''.java'', ''java''), (''.kt'', ''kotlin''), (''.c'', ''c''), (''.h'', ''c''), (''.cc'', ''cpp''), (''.cpp'', ''cpp'')]
     (lower (path_suffix path)) of None \<Rightarrow> ''unknown'' | Some l \<Rightarrow> l)"

definition is_test :: "string \<Rightarrow> bool" where
  "is_test path \<longleftrightarrow> ''tests'' \<in> set (path_parts path) \<or> starts_with (path_name path) ''test_''"

definition map_repository :: "nat \<Rightarrow> filesystem \<Rightarrow> location \<Rightarrow> scan_error + repository_map" where
  "map_repository n fs home = (case scanned n fs home of
     Inl e \<Rightarrow> Inl e
   | Inr found_files \<Rightarrow>
      let files = map fst found_files; langs = filter (\<lambda>l. l \<noteq> ''unknown'') (map language files) in
      Inr \<lparr>rm_files = files,
        rm_languages = map (\<lambda>l. (l, count_list langs l)) (sorted_set langs),
        rm_tests = filter is_test files,
        rm_docs = filter (\<lambda>p. ends_with (lower p) ''.md'' \<or> ends_with (lower p) ''.rst'') files,
        rm_workflows = filter (\<lambda>p. starts_with p ''.github/workflows/'') files,
        rm_deployment = filter (\<lambda>p. path_name p \<in> set [''Dockerfile'', ''fly.toml'', ''docker-compose.yml'']) files,
        rm_generated = filter (\<lambda>p. sublist ''.generated.'' p \<or> ends_with p ''.min.js'') files,
        rm_vendor = filter (\<lambda>p. ''vendor'' \<in> set (path_parts p)) files,
        rm_sensitive = filter is_sensitive files\<rparr>)"

text \<open>Reading as text turns the line ends into newlines. \<open>lossy\<close> decodes with replacement.\<close>

fun universal_newlines :: "string \<Rightarrow> string" where
  "universal_newlines [] = []"
| "universal_newlines (c # cs) =
     (if c = CHR 0x0D then
        CHR 0x0A # (case cs of d # ds \<Rightarrow> if d = CHR 0x0A then universal_newlines ds else universal_newlines cs | [] \<Rightarrow> [])
      else c # universal_newlines cs)"

definition rule_of :: "(string \<Rightarrow> string) \<Rightarrow> (string \<Rightarrow> digest) \<Rightarrow> string \<times> string \<Rightarrow> rule_document" where
  "rule_of lossy hash found_file = (case found_file of (path, bytes) \<Rightarrow>
     let content = universal_newlines (lossy bytes); scope = pure_str (pure_parent (pure_path path)) in
     \<lparr>rd_path = path, rd_scope = (if scope \<noteq> ''.'' then scope else []), rd_content = content, rd_hash = hash content\<rparr>)"

definition rules ::
  "nat \<Rightarrow> filesystem \<Rightarrow> (string \<Rightarrow> string) \<Rightarrow> (string \<Rightarrow> digest) \<Rightarrow> location \<Rightarrow> scan_error + rule_document list" where
  "rules n fs lossy hash home = (case scanned n fs home of
     Inl e \<Rightarrow> Inl e
   | Inr found_files \<Rightarrow> Inr (map (rule_of lossy hash)
       (filter (\<lambda>(path, bytes). path_name path \<in> set [''AGENTS.md'', ''README.md'', ''CONTRIBUTING.md'', ''SECURITY.md''])
         found_files)))"

definition rule_applies :: "string \<Rightarrow> rule_document \<Rightarrow> bool" where
  "rule_applies target r \<longleftrightarrow> (let parent = pure_parent (pure_path target); scope = pure_path (rd_scope r) in
     rd_scope r = [] \<or> parent = scope \<or> in_parents scope parent)"

definition applicable_rules :: "string \<Rightarrow> rule_document list \<Rightarrow> rule_document list" where
  "applicable_rules target rs = filter (rule_applies target) rs"

definition conflict_of :: "rule_document list \<Rightarrow> string \<Rightarrow> rule_conflict list" where
  "conflict_of rs scope =
     (let here = filter (\<lambda>r. rd_scope r = scope) rs;
          joined = join_with [CHR 0x0A] (map (\<lambda>r. lower (rd_content r)) here) in
      if sublist ''must not modify'' joined \<and> sublist ''may modify'' joined
      then [\<lparr>rc_scope = scope, rc_paths = map rd_path here, rc_statement = ''modify permission conflict''\<rparr>] else [])"

definition conflicts :: "rule_document list \<Rightarrow> rule_conflict list" where
  "conflicts rs = concat (map (conflict_of rs) (rev (remdups (rev (map rd_scope rs)))))"

text \<open>The nodes of a syntax tree the scanner looks at, in the order of \<open>ast.walk\<close>.\<close>

datatype ast_node = Ast_import "string list" | Ast_import_from "string option" | Ast_definition string string nat

definition imports_of :: "ast_node list \<Rightarrow> string list" where
  "imports_of nodes = sorted_set (concat (map (\<lambda>node. case node of
     Ast_import names \<Rightarrow> names | Ast_import_from m \<Rightarrow> [case m of Some name \<Rightarrow> name | None \<Rightarrow> []] | _ \<Rightarrow> []) nodes))"

definition symbols_in :: "string \<Rightarrow> ast_node list \<Rightarrow> symbol list" where
  "symbols_in path nodes = concat (map (\<lambda>node. case node of
     Ast_definition kind name line \<Rightarrow> [\<lparr>sy_name = name, sy_kind = lower kind, sy_path = path, sy_line = line,
       sy_imports = imports_of nodes\<rparr>]
   | _ \<Rightarrow> []) nodes)"

definition symbols ::
  "nat \<Rightarrow> filesystem \<Rightarrow> (string \<Rightarrow> string option) \<Rightarrow> (string \<Rightarrow> ast_node list option) \<Rightarrow> location
   \<Rightarrow> scan_error + symbol list" where
  "symbols n fs decode parse home = (case scanned n fs home of
     Inl e \<Rightarrow> Inl e
   | Inr found_files \<Rightarrow> Inr (sort_key (\<lambda>x. (sy_path x, sy_line x, sy_name x)) (concat (map (\<lambda>(path, bytes).
       if path_suffix path \<noteq> ''.py'' \<or> is_sensitive path then []
       else case decode bytes of None \<Rightarrow> []
         | Some t \<Rightarrow> (case parse (universal_newlines t) of None \<Rightarrow> [] | Some nodes \<Rightarrow> symbols_in path nodes)) found_files))))"

subsection \<open>Context\<close>

record context_request =
  cx_repository :: string
  cx_commit :: string
  cx_instruction :: string
  cx_hypotheses :: "string list"
  cx_changed :: "string list"
  cx_max_tokens :: int
  cx_reserved :: int

definition name_start :: "char \<Rightarrow> bool" where
  "name_start c \<longleftrightarrow> (let k = (of_char c :: nat) in k = 95 \<or> 65 \<le> k \<and> k \<le> 90 \<or> 97 \<le> k \<and> k \<le> 122)"

definition name_char :: "char \<Rightarrow> bool" where
  "name_char c \<longleftrightarrow> name_start c \<or> (let k = (of_char c :: nat) in 48 \<le> k \<and> k \<le> 57)"

text \<open>\<open>re.findall\<close> of the names of at least three characters.\<close>

function names_in_text :: "string \<Rightarrow> string list" where
  "names_in_text [] = []"
| "names_in_text (c # cs) =
     (if name_start c \<and> 2 \<le> length (takeWhile name_char cs)
      then (c # takeWhile name_char cs) # names_in_text (dropWhile name_char cs)
      else names_in_text cs)"
  by pat_completeness auto
termination by (relation "measure length") (auto simp: le_imp_less_Suc length_dropWhile_le)

definition request_terms :: "context_request \<Rightarrow> string list" where
  "request_terms q = remdups (names_in_text (lower (cx_instruction q))
     @ concat (map (\<lambda>h. map lower (words_of h)) (cx_hypotheses q)))"

definition token_budget :: "context_request \<Rightarrow> nat" where
  "token_budget q = nat (cx_max_tokens q - cx_reserved q)"

text \<open>The chunks of a text: at most \<open>k\<close> lines each, with the number of the first line.\<close>

function chunks_from :: "nat \<Rightarrow> nat \<Rightarrow> string list \<Rightarrow> (nat \<times> string) list" where
  "chunks_from k start ls =
     (if ls = [] \<or> k = 0 then [] else (start, join_with [CHR 0x0A] (take k ls)) # chunks_from k (start + k) (drop k ls))"
  by pat_completeness auto
termination by (relation "measure (\<lambda>(k, start, ls). length ls)") auto

declare chunks_from.simps [simp del]

definition chunks_of :: "string \<Rightarrow> (nat \<times> string) list" where
  "chunks_of content = chunks_from 80 1 (splitlines content)"

definition excluded :: "string \<Rightarrow> bool" where
  "excluded path = list_ex (\<lambda>part. part \<in> set EXCLUDED_DIRS) (path_parts path)"

definition item_of ::
  "(string \<Rightarrow> digest) \<Rightarrow> context_request \<Rightarrow> string \<Rightarrow> nat \<times> string \<Rightarrow> context_item" where
  "item_of hash q path numbered = (case numbered of (first_line, chunk) \<Rightarrow>
     let found_terms = length (filter (\<lambda>w. sublist w (lower chunk)) (request_terms q));
         path_part = (if path \<in> set (cx_changed q) then 3 else 0);
         test_part = (if sublist ''test'' (lower path) then 1 else 0);
         rule_part = (if path_name path = ''AGENTS.md'' then 4 else 0) in
     \<lparr>citation = \<lparr>sc_repository = cx_repository q, sc_commit = cx_commit q, sc_path = path, start_line = first_line,
         end_line = first_line + count_list chunk (CHR 0x0A), sc_symbol = None, analyzer_version = ANALYZER_VERSION,
         content_hash = hash chunk\<rparr>,
       ci_content = chunk,
       ci_reason = ''matched '' @ nat_text found_terms @ '' task terms; path='' @ nat_text path_part @ ''; rules=''
         @ nat_text rule_part,
       score = found_terms + path_part + test_part + rule_part,
       estimated_tokens = max 1 (length chunk div 4)\<rparr>)"

definition candidates_in ::
  "filesystem \<Rightarrow> (string \<Rightarrow> string option) \<Rightarrow> (string \<Rightarrow> digest) \<Rightarrow> location \<Rightarrow> context_request \<Rightarrow> location
   \<Rightarrow> context_item list" where
  "candidates_in fs decode hash home q p =
     (case node_at fs p of
        Some (Regular bytes k) \<Rightarrow>
          let path = posix (drop (length home) p) in
          if is_sensitive path \<or> excluded path then []
          else (case decode bytes of
              None \<Rightarrow> []
            | Some content \<Rightarrow> filter (\<lambda>item. score item \<noteq> 0)
                (map (item_of hash q path) (chunks_of (universal_newlines content))))
      | _ \<Rightarrow> [])"

definition item_order :: "context_item \<Rightarrow> int \<times> string \<times> nat" where
  "item_order item = (- int (score item), sc_path (citation item), start_line (citation item))"

fun pick_items :: "nat \<Rightarrow> context_item list \<Rightarrow> nat \<Rightarrow> digest list \<Rightarrow> context_item list" where
  "pick_items budget [] used seen = []"
| "pick_items budget (item # items) used seen =
     (if content_hash (citation item) \<in> set seen \<or> used + estimated_tokens item > budget
      then pick_items budget items used seen
      else item # pick_items budget items (used + estimated_tokens item) (content_hash (citation item) # seen))"

definition build_context ::
  "filesystem \<Rightarrow> (string \<Rightarrow> string option) \<Rightarrow> (string \<Rightarrow> digest) \<Rightarrow> location \<Rightarrow> context_request \<Rightarrow> context_item list" where
  "build_context fs decode hash home q =
     pick_items (token_budget q)
       (sort_key item_order (concat (map (candidates_in fs decode hash home q) (entries_below fs home)))) 0 []"

type_synonym context_key = "string \<times> string \<times> string \<times> string"

definition cache_get :: "(context_key \<Rightarrow> context_item list option) \<Rightarrow> context_key \<Rightarrow> context_item list option" where
  "cache_get values k = values k"

definition cache_put ::
  "context_key \<Rightarrow> context_item list \<Rightarrow> (context_key \<Rightarrow> context_item list option) \<Rightarrow> context_key \<Rightarrow> context_item list option" where
  "cache_put k v values = values(k := Some v)"

definition map_tests :: "string \<Rightarrow> string list \<Rightarrow> string list" where
  "map_tests production_path files =
     filter (\<lambda>p. is_test p \<and> sublist (path_stem production_path) (path_stem p)) files"

subsection \<open>What the context holds\<close>

lemma pick_items_subset: "set (pick_items budget items used seen) \<subseteq> set items"
  by (induction budget items used seen rule: pick_items.induct) auto

lemma pick_items_tokens:
  "used \<le> budget \<Longrightarrow> used + sum_list (map estimated_tokens (pick_items budget items used seen)) \<le> budget"
proof (induction budget items used seen rule: pick_items.induct)
  case (2 budget item items used seen)
  show ?case
  proof (cases "content_hash (citation item) \<in> set seen \<or> used + estimated_tokens item > budget")
    case True
    then show ?thesis using "2.IH"(1) [OF True "2.prems"] by (simp only: pick_items.simps if_True)
  next
    case False
    then have "used + estimated_tokens item \<le> budget" by auto
    from "2.IH"(2) [OF False this] False show ?thesis
      by (simp only: pick_items.simps if_False list.map sum_list.Cons add.assoc)
  qed
qed simp

lemma pick_items_hashes:
  "distinct (map (\<lambda>x. content_hash (citation x)) (pick_items budget items used seen))
   \<and> (\<forall>x \<in> set (pick_items budget items used seen). content_hash (citation x) \<notin> set seen)"
proof (induction budget items used seen rule: pick_items.induct)
  case (2 budget item items used seen)
  show ?case
  proof (cases "content_hash (citation item) \<in> set seen \<or> used + estimated_tokens item > budget")
    case True
    then have step: "pick_items budget (item # items) used seen = pick_items budget items used seen"
      by (simp only: pick_items.simps if_True)
    show ?thesis unfolding step by (rule "2.IH"(1) [OF True])
  next
    case False
    then have step: "pick_items budget (item # items) used seen
        = item # pick_items budget items (used + estimated_tokens item) (content_hash (citation item) # seen)"
      by (simp only: pick_items.simps if_False)
    show ?thesis unfolding step using "2.IH"(2) [OF False] False by auto
  qed
qed simp

lemma pick_items_sublist: "subseq (pick_items budget items used seen) items"
proof (induction budget items used seen rule: pick_items.induct)
  case (2 budget item items used seen)
  show ?case
  proof (cases "content_hash (citation item) \<in> set seen \<or> used + estimated_tokens item > budget")
    case True
    show ?thesis using "2.IH"(1) [OF True] True by (simp only: pick_items.simps if_True list_emb_Cons)
  next
    case False
    show ?thesis using "2.IH"(2) [OF False] False by (simp only: pick_items.simps if_False subseq_Cons2)
  qed
qed simp

lemma pick_items_sorted: "sorted (map f items) \<Longrightarrow> sorted (map f (pick_items budget items used seen))"
  by (metis pick_items_sublist subseq_map subseq_conv_nths sorted_nths)

lemma splitlines_no_newline: "l \<in> set (splitlines s) \<Longrightarrow> CHR 0x0A \<notin> set l"
proof (induction s arbitrary: l rule: splitlines.induct)
  case 1
  then show ?case by simp
next
  case (2 c cs)
  have nl: "line_end (CHR 0x0A)" by (simp add: line_end_def)
  show ?case
  proof (cases "line_end c")
    case True
    then have "l = [] \<or> (\<exists>d ds. cs = d # ds \<and> (l \<in> set (splitlines ds) \<and> c = CHR 0x0D \<and> d = CHR 0x0A
        \<or> l \<in> set (splitlines cs) \<and> \<not> (c = CHR 0x0D \<and> d = CHR 0x0A)))"
      using "2.prems" by (cases cs) (auto split: if_splits)
    then show ?thesis using "2.IH" True by auto
  next
    case False
    then have "c \<noteq> CHR 0x0A" using nl by auto
    obtain r where r: "splitlines (c # cs) = r" "r = (case splitlines cs of [] \<Rightarrow> [[c]] | l # ls \<Rightarrow> (c # l) # ls)"
      using False by simp
    show ?thesis
    proof (cases "splitlines cs")
      case Nil
      then show ?thesis using "2.prems" r \<open>c \<noteq> _\<close> by auto
    next
      case (Cons k ks)
      then have "CHR 0x0A \<notin> set m" if "m \<in> set (k # ks)" for m
        using "2.IH"(3) False that by simp
      then show ?thesis using "2.prems" r Cons \<open>c \<noteq> _\<close> by auto
    qed
  qed
qed

lemma newlines_in_join:
  "\<lbrakk>ls \<noteq> []; \<forall>l \<in> set ls. c \<notin> set l\<rbrakk> \<Longrightarrow> count_list (join_with [c] ls) c = length ls - 1"
  by (induction "[c]" ls rule: join_with.induct) (auto simp: count_list_append count_notin)

lemma chunks_from_lines:
  "(first_line, chunk) \<in> set (chunks_from k start ls) \<Longrightarrow>
     \<exists>i < length ls. first_line = start + i \<and> chunk = join_with [CHR 0x0A] (take k (drop i ls))"
proof (induction k start ls rule: chunks_from.induct)
  case (1 k start ls)
  show ?case
  proof (cases "(first_line, chunk) = (start, join_with [CHR 0x0A] (take k ls))")
    case True
    then show ?thesis
      using "1.prems" by (intro exI [of _ 0]) (auto simp: chunks_from.simps [of k start ls] split: if_splits)
  next
    case False
    then have "\<not> (ls = [] \<or> k = 0)" "(first_line, chunk) \<in> set (chunks_from k (start + k) (drop k ls))"
      using "1.prems" by (auto simp: chunks_from.simps [of k start ls] split: if_splits)
    then obtain i where "i < length (drop k ls)" "first_line = start + k + i"
        "chunk = join_with [CHR 0x0A] (take k (drop i (drop k ls)))"
      using "1.IH" by blast
    then show ?thesis by (intro exI [of _ "k + i"]) (auto simp: add.commute)
  qed
qed

text \<open>An item is backed by a file when it quotes the cited lines of a readable, harmless file of the checkout.\<close>

definition backed_by_file ::
  "filesystem \<Rightarrow> (string \<Rightarrow> string option) \<Rightarrow> (string \<Rightarrow> digest) \<Rightarrow> location \<Rightarrow> context_item \<Rightarrow> bool" where
  "backed_by_file fs decode hash home item \<longleftrightarrow>
     (\<exists>p bytes links content lines. strict_prefix home p \<and> node_at fs p = Some (Regular bytes links)
       \<and> sc_path (citation item) = posix (drop (length home) p)
       \<and> \<not> is_sensitive (sc_path (citation item)) \<and> \<not> excluded (sc_path (citation item))
       \<and> decode bytes = Some content
       \<and> lines = take 80 (drop (start_line (citation item) - 1) (splitlines (universal_newlines content)))
       \<and> 1 \<le> start_line (citation item) \<and> lines \<noteq> []
       \<and> end_line (citation item) = start_line (citation item) + length lines - 1
       \<and> ci_content item = join_with [CHR 0x0A] lines
       \<and> content_hash (citation item) = hash (ci_content item) \<and> 0 < score item)"

lemma candidate_backed:
  assumes "item \<in> set (candidates_in fs decode hash home q p)" "p \<in> set (entries_below fs home)"
  shows "backed_by_file fs decode hash home item"
proof -
  let ?path = "posix (drop (length home) p)"
  obtain bytes links content where entry: "node_at fs p = Some (Regular bytes links)" "decode bytes = Some content"
      "\<not> is_sensitive ?path" "\<not> excluded ?path"
    and item: "item \<in> item_of hash q ?path ` set (chunks_of (universal_newlines content))" "score item \<noteq> 0"
  proof (cases "node_at fs p")
    case (Some x)
    then show ?thesis
    proof (cases x)
      case (Regular bytes links)
      then show ?thesis
        using Some assms(1) that by (cases "decode bytes") (auto simp: candidates_in_def Let_def split: if_splits)
    qed (use Some assms(1) in \<open>simp_all add: candidates_in_def\<close>)
  qed (use assms(1) in \<open>simp add: candidates_in_def\<close>)
  obtain first_line chunk where it: "item = item_of hash q ?path (first_line, chunk)"
    and ch: "(first_line, chunk) \<in> set (chunks_from 80 1 (splitlines (universal_newlines content)))"
    using item(1) by (auto simp: chunks_of_def)
  obtain i where i: "i < length (splitlines (universal_newlines content))" "first_line = 1 + i"
      "chunk = join_with [CHR 0x0A] (take 80 (drop i (splitlines (universal_newlines content))))"
    using chunks_from_lines [OF ch] by blast
  define cited where "cited = take 80 (drop i (splitlines (universal_newlines content)))"
  have lines: "cited \<noteq> []" "\<forall>l \<in> set cited. CHR 0x0A \<notin> set l"
    using i(1) splitlines_no_newline by (auto simp: cited_def dest!: in_set_takeD in_set_dropD)
  have chunk: "chunk = join_with [CHR 0x0A] cited" using i(3) by (simp only: cited_def)
  have "count_list chunk (CHR 0x0A) = length cited - 1"
    unfolding chunk using lines by (rule newlines_in_join)
  moreover have "1 \<le> length cited" using lines(1) by (cases cited) auto
  ultimately have last_line: "first_line + count_list chunk (CHR 0x0A) = first_line + length cited - 1" by simp
  have below: "strict_prefix home p" using assms(2) by (auto simp: entries_below_def)
  have facts: "sc_path (citation item) = ?path" "start_line (citation item) = first_line" "ci_content item = chunk"
      "end_line (citation item) = first_line + count_list chunk (CHR 0x0A)" "content_hash (citation item) = hash chunk"
    by (simp_all add: it item_of_def Let_def)
  show ?thesis
    unfolding backed_by_file_def facts last_line
    using entry item(2) i(2) lines(1) below chunk cited_def
    by (intro exI [of _ p] exI [of _ bytes] exI [of _ links] exI [of _ content] exI [of _ cited] conjI) simp_all
qed

text \<open>
  C10. The context for a model stays within the token budget, has no content twice, is ordered by falling score,
  then by path and first line, and each item
  quotes exactly the cited lines (at most eighty) of a regular file of the checkout that is neither a link nor sensitive
  nor in an excluded directory, with the hash of the quoted text.
\<close>

theorem context_is_budgeted_and_backed:
  "sum_list (map estimated_tokens (build_context fs decode hash home q)) \<le> token_budget q
   \<and> distinct (map (\<lambda>x. content_hash (citation x)) (build_context fs decode hash home q))
   \<and> sorted_wrt (\<lambda>x y. score y < score x \<or> score x = score y \<and> (sc_path (citation x) < sc_path (citation y)
        \<or> sc_path (citation x) = sc_path (citation y) \<and> start_line (citation x) \<le> start_line (citation y)))
      (build_context fs decode hash home q)
   \<and> list_all (backed_by_file fs decode hash home) (build_context fs decode hash home q)"
proof -
  let ?all = "concat (map (candidates_in fs decode hash home q) (entries_below fs home))"
  have "set (build_context fs decode hash home q) \<subseteq> set ?all"
    using pick_items_subset unfolding build_context_def by fastforce
  then have "list_all (backed_by_file fs decode hash home) (build_context fs decode hash home q)"
    using candidate_backed by (fastforce simp: list_all_iff)
  moreover have "sum_list (map estimated_tokens (build_context fs decode hash home q)) \<le> token_budget q"
    using pick_items_tokens [of 0 "token_budget q"] by (simp add: build_context_def)
  moreover have "distinct (map (\<lambda>x. content_hash (citation x)) (build_context fs decode hash home q))"
    using pick_items_hashes by (simp add: build_context_def)
  moreover have "sorted (map item_order (build_context fs decode hash home q))"
    unfolding build_context_def by (rule pick_items_sorted) simp
  then have "sorted_wrt (\<lambda>x y. score y < score x \<or> score x = score y \<and> (sc_path (citation x) < sc_path (citation y)
        \<or> sc_path (citation x) = sc_path (citation y) \<and> start_line (citation x) \<le> start_line (citation y)))
      (build_context fs decode hash home q)"
    unfolding sorted_map by (rule sorted_wrt_mono_rel [rotated]) (auto simp: item_order_def less_eq_prod_def)
  ultimately show ?thesis by simp
qed

subsection \<open>Acquisition\<close>

record clone_policy =
  cp_repositories :: "string list"
  cp_max_files :: nat
  cp_max_bytes :: nat
  cp_timeout :: seconds
  cp_allow_lfs :: bool
  cp_allow_submodules :: bool

datatype acquisition_error =
    Not_allowlisted | Wrong_remote | Not_a_sha | Not_empty | Os_error | Git_failed int string | Timed_out
  | Escaping_link | Over_limits

datatype git_end = Git_exit int string | Git_timeout

definition hex_char :: "char \<Rightarrow> bool" where
  "hex_char c \<longleftrightarrow> CHR ''0'' \<le> c \<and> c \<le> CHR ''9'' \<or> CHR ''a'' \<le> c \<and> c \<le> CHR ''f''"

definition git_environment :: "(string \<times> string) list \<Rightarrow> (string \<times> string) list" where
  "git_environment environ =
     filter (\<lambda>(k, v). k \<notin> set [''GIT_TERMINAL_PROMPT'', ''GIT_CONFIG_NOSYSTEM'', ''GIT_LFS_SKIP_SMUDGE'']) environ
     @ [(''GIT_TERMINAL_PROMPT'', ''0''), (''GIT_CONFIG_NOSYSTEM'', ''1''), (''GIT_LFS_SKIP_SMUDGE'', ''1'')]"

definition git_commands :: "string \<Rightarrow> string \<Rightarrow> string \<Rightarrow> string list list" where
  "git_commands remote_url base_sha destination =
     [[''git'', ''init'', destination],
      [''git'', ''-C'', destination, ''-c'', ''protocol.file.allow=never'', ''-c'', ''core.hooksPath='', ''fetch'',
       ''--depth=1'', ''--no-tags'', remote_url, base_sha],
      [''git'', ''-C'', destination, ''-c'', ''core.hooksPath='', ''checkout'', ''--detach'', base_sha]]"

text \<open>\<open>git\<close> runs one command and changes the file system; \<open>shown\<close> decodes its error output.\<close>

fun run_git ::
  "(string list \<Rightarrow> (string \<times> string) list \<Rightarrow> filesystem \<Rightarrow> git_end \<times> filesystem) \<Rightarrow> (string \<Rightarrow> string)
   \<Rightarrow> (string \<times> string) list \<Rightarrow> string list list \<Rightarrow> filesystem \<Rightarrow> acquisition_error option \<times> filesystem" where
  "run_git git shown env [] fs = (None, fs)"
| "run_git git shown env (c # cs) fs = (case git c env fs of
     (Git_timeout, fs1) \<Rightarrow> (Some Timed_out, fs1)
   | (Git_exit code stderr, fs1) \<Rightarrow>
       if code \<noteq> 0 then (Some (Git_failed code (take 500 (shown stderr))), fs1) else run_git git shown env cs fs1)"

definition prepare_destination :: "nat \<Rightarrow> filesystem \<Rightarrow> location \<Rightarrow> acquisition_error + filesystem" where
  "prepare_destination n fs dest = (case real_path n fs dest of
     None \<Rightarrow> Inl Os_error
   | Some q \<Rightarrow> (case node_at fs q of
       Some Directory \<Rightarrow> if names_in fs q \<noteq> [] then Inl Not_empty else Inr fs
     | Some _ \<Rightarrow> Inl Os_error
     | None \<Rightarrow> (case os_mkdirs n (map (\<lambda>k. take k dest) [1..<Suc (length dest)]) fs of
         None \<Rightarrow> Inl Os_error | Some fs1 \<Rightarrow> Inr fs1)))"

text \<open>
  One entry of the checkout: a link has to stay inside, and a regular file, also one behind a link, counts with its size.
  \<open>dest\<close> is the destination as it was given, \<open>home\<close> where it really is.
\<close>

definition file_size :: "nat \<Rightarrow> filesystem \<Rightarrow> location \<Rightarrow> nat option" where
  "file_size n fs p = map_option length (os_read n fs p)"

fun validate_checkout ::
  "nat \<Rightarrow> clone_policy \<Rightarrow> filesystem \<Rightarrow> location \<Rightarrow> location \<Rightarrow> location list \<Rightarrow> nat \<Rightarrow> nat \<Rightarrow> acquisition_error option" where
  "validate_checkout n P fs dest home [] files bytes = None"
| "validate_checkout n P fs dest home (p # ps) files bytes =
     (if ''.git'' \<in> set (dest @ drop (length home) p) then validate_checkout n P fs dest home ps files bytes
      else if is_link fs p \<and> real_path n fs p = None then Some Os_error
      else if is_link fs p \<and> \<not> prefix home (the (real_path n fs p)) then Some Escaping_link
      else
        let files1 = (case file_size n fs p of None \<Rightarrow> files | Some _ \<Rightarrow> Suc files);
            bytes1 = (case file_size n fs p of None \<Rightarrow> bytes | Some k \<Rightarrow> bytes + k) in
        if files1 > cp_max_files P \<or> bytes1 > cp_max_bytes P then Some Over_limits
        else validate_checkout n P fs dest home ps files1 bytes1)"

definition acquire ::
  "nat \<Rightarrow> (string list \<Rightarrow> (string \<times> string) list \<Rightarrow> filesystem \<Rightarrow> git_end \<times> filesystem) \<Rightarrow> (string \<Rightarrow> string)
   \<Rightarrow> (string \<times> string) list \<Rightarrow> clone_policy \<Rightarrow> string \<Rightarrow> string \<Rightarrow> string \<Rightarrow> location \<Rightarrow> filesystem
   \<Rightarrow> (acquisition_error + location) \<times> filesystem" where
  "acquire n git shown environ P repository remote_url base_sha dest fs =
     (if repository \<notin> set (cp_repositories P) then (Inl Not_allowlisted, fs)
      else if remote_url \<notin> set [''https://github.com/'' @ repository, ''https://github.com/'' @ repository @ ''.git'']
        then (Inl Wrong_remote, fs)
      else if length base_sha \<noteq> 40 \<or> \<not> list_all hex_char base_sha then (Inl Not_a_sha, fs)
      else case prepare_destination n fs dest of
        Inl e \<Rightarrow> (Inl e, fs)
      | Inr fs1 \<Rightarrow>
          (case run_git git shown (git_environment environ)
              (git_commands remote_url base_sha (''/'' @ join_with ''/'' dest)) fs1 of
             (Some e, fs2) \<Rightarrow> (Inl e, fs2)
           | (None, fs2) \<Rightarrow>
               (case real_path n fs2 dest of
                  None \<Rightarrow> (Inl Os_error, fs2)
                | Some home \<Rightarrow>
                    (case validate_checkout n P fs2 dest home (entries_below fs2 home) 0 0 of
                       Some e \<Rightarrow> (Inl e, fs2)
                     | None \<Rightarrow> (Inr dest, fs2)))))"

text \<open>What a validated checkout promises about the entries that were looked at.\<close>

definition looked_at :: "location \<Rightarrow> location \<Rightarrow> location \<Rightarrow> bool" where
  "looked_at dest home p \<longleftrightarrow> ''.git'' \<notin> set (dest @ drop (length home) p)"

definition sizes_of :: "nat \<Rightarrow> filesystem \<Rightarrow> location \<Rightarrow> location \<Rightarrow> location list \<Rightarrow> nat list" where
  "sizes_of n fs dest home ps = map (\<lambda>p. the (file_size n fs p))
     (filter (\<lambda>p. looked_at dest home p \<and> file_size n fs p \<noteq> None) ps)"

lemma validated_checkout:
  "\<lbrakk>validate_checkout n P fs dest home ps files bytes = None; files \<le> cp_max_files P; bytes \<le> cp_max_bytes P\<rbrakk> \<Longrightarrow>
     (\<forall>p \<in> set ps. looked_at dest home p \<longrightarrow> is_link fs p \<longrightarrow> (\<exists>q. real_path n fs p = Some q \<and> prefix home q))
     \<and> files + length (sizes_of n fs dest home ps) \<le> cp_max_files P
     \<and> bytes + sum_list (sizes_of n fs dest home ps) \<le> cp_max_bytes P"
proof (induction n P fs dest home ps files bytes rule: validate_checkout.induct)
  case (1 n P fs dest home files bytes)
  then show ?case by (simp add: sizes_of_def)
next
  case (2 n P fs dest home p ps files bytes)
  let ?files = "case file_size n fs p of None \<Rightarrow> files | Some _ \<Rightarrow> Suc files"
  let ?bytes = "case file_size n fs p of None \<Rightarrow> bytes | Some k \<Rightarrow> bytes + k"
  show ?case
  proof (cases "looked_at dest home p")
    case False
    then have skip: "''.git'' \<in> set (dest @ drop (length home) p)" by (simp add: looked_at_def)
    then have "validate_checkout n P fs dest home ps files bytes = None" using "2.prems"(1) by simp
    from "2.IH"(1) [OF skip this "2.prems"(2,3)] False show ?thesis by (simp add: sizes_of_def)
  next
    case True
    then have no_git: "''.git'' \<notin> set (dest @ drop (length home) p)" by (simp add: looked_at_def)
    have link: "\<not> (is_link fs p \<and> real_path n fs p = None)" "\<not> (is_link fs p \<and> \<not> prefix home (the (real_path n fs p)))"
      using "2.prems"(1) no_git by (auto split: if_splits)
    have within: "\<not> (?files > cp_max_files P \<or> ?bytes > cp_max_bytes P)"
      and rest: "validate_checkout n P fs dest home ps ?files ?bytes = None"
      using "2.prems"(1) no_git link by (auto simp: Let_def split: if_splits)
    from "2.IH"(2) [OF no_git link refl refl within rest] within
    have ih: "\<forall>p \<in> set ps. looked_at dest home p \<longrightarrow> is_link fs p \<longrightarrow> (\<exists>q. real_path n fs p = Some q \<and> prefix home q)"
        "?files + length (sizes_of n fs dest home ps) \<le> cp_max_files P"
        "?bytes + sum_list (sizes_of n fs dest home ps) \<le> cp_max_bytes P"
      by simp_all
    moreover have "length (sizes_of n fs dest home (p # ps)) + files = ?files + length (sizes_of n fs dest home ps)"
      and "sum_list (sizes_of n fs dest home (p # ps)) + bytes = ?bytes + sum_list (sizes_of n fs dest home ps)"
      using True by (cases "file_size n fs p"; simp add: sizes_of_def)+
    ultimately show ?thesis using link by (auto simp: add.commute)
  qed
qed

lemma run_git_exits:
  "run_git git shown env cs fs = (None, fs1) \<Longrightarrow> c \<in> set cs \<Longrightarrow> \<exists>before next_fs err. git c env before = (Git_exit 0 err, next_fs)"
  by (induction git shown env cs fs rule: run_git.induct) (auto split: prod.splits git_end.splits if_splits)

text \<open>The three commands one after the other.\<close>

lemma run_git_three:
  assumes "run_git git shown env [a, b, c] fs = (None, fs3)"
  shows "\<exists>fs1 fs2 e1 e2 e3. git a env fs = (Git_exit 0 e1, fs1) \<and> git b env fs1 = (Git_exit 0 e2, fs2) \<and> git c env fs2 = (Git_exit 0 e3, fs3)"
  using assms by (auto split: prod.splits git_end.splits if_splits)

lemma git_environment_set:
  "map_of (git_environment environ) ''GIT_TERMINAL_PROMPT'' = Some ''0''"
  "map_of (git_environment environ) ''GIT_CONFIG_NOSYSTEM'' = Some ''1''"
  "map_of (git_environment environ) ''GIT_LFS_SKIP_SMUDGE'' = Some ''1''"
  by (auto simp: git_environment_def map_add_def map_of_filter_in split: option.splits dest!: map_of_SomeD)

lemma sizes_outside_git:
  "''.git'' \<notin> set dest \<Longrightarrow> sizes_of n fs dest home ps = List.map_filter (file_size n fs) (filter (\<lambda>p. ''.git'' \<notin> set (drop (length home) p)) ps)"
  by (induction ps) (auto simp: sizes_of_def looked_at_def map_filter_simps split: option.splits)

text \<open>
  C9. A repository that was acquired is on the allow-list, and its GitHub address was fetched at the full commit identifier
  asked for and that commit checked out, by three git commands that ended well: hooks are switched off in fetch and
  checkout, local protocols in the fetch, prompts and the system configuration in all. Unless the destination's own path
  has a part called .git, every link of the checkout outside .git resolves to a place inside it, and the number and size
  of its files outside .git are within the limits.
\<close>

theorem acquired_checkout_confined:
  assumes "acquire n git shown environ P repository remote_url base_sha dest fs = (Inr place, fs2)"
  shows "place = dest \<and> repository \<in> set (cp_repositories P)
    \<and> remote_url \<in> {''https://github.com/'' @ repository, ''https://github.com/'' @ repository @ ''.git''}
    \<and> length base_sha = 40 \<and> list_all hex_char base_sha
    \<and> (\<exists>env fs0 s1 s2 e1 e2 e3. prepare_destination n fs dest = Inr fs0
        \<and> git [''git'', ''init'', ''/'' @ join_with ''/'' dest] env fs0 = (Git_exit 0 e1, s1)
        \<and> git [''git'', ''-C'', ''/'' @ join_with ''/'' dest, ''-c'', ''protocol.file.allow=never'', ''-c'', ''core.hooksPath='', ''fetch'',
            ''--depth=1'', ''--no-tags'', remote_url, base_sha] env s1 = (Git_exit 0 e2, s2)
        \<and> git [''git'', ''-C'', ''/'' @ join_with ''/'' dest, ''-c'', ''core.hooksPath='', ''checkout'', ''--detach'', base_sha] env s2
            = (Git_exit 0 e3, fs2)
        \<and> map_of env ''GIT_TERMINAL_PROMPT'' = Some ''0'' \<and> map_of env ''GIT_CONFIG_NOSYSTEM'' = Some ''1'')
    \<and> (''.git'' \<notin> set dest \<longrightarrow> (\<exists>home entries. real_path n fs2 dest = Some home
        \<and> entries = filter (\<lambda>p. ''.git'' \<notin> set (drop (length home) p)) (entries_below fs2 home)
        \<and> (\<forall>p \<in> set entries. is_link fs2 p \<longrightarrow> (\<exists>q. real_path n fs2 p = Some q \<and> prefix home q))
        \<and> length (List.map_filter (file_size n fs2) entries) \<le> cp_max_files P
        \<and> sum_list (List.map_filter (file_size n fs2) entries) \<le> cp_max_bytes P))"
proof -
  let ?urls = "[''https://github.com/'' @ repository, ''https://github.com/'' @ repository @ ''.git'']"
  let ?env = "git_environment environ" and ?cs = "git_commands remote_url base_sha (''/'' @ join_with ''/'' dest)"
  have c1: "repository \<in> set (cp_repositories P)" using assms by (rule contrapos_pp) (simp add: acquire_def)
  have c2: "remote_url \<in> set ?urls"
    using assms c1 by (cases "remote_url \<in> set ?urls") (simp_all only: acquire_def if_False if_True not_not simp_thms prod.inject sum.distinct)
  have c3: "\<not> (length base_sha \<noteq> 40 \<or> \<not> list_all hex_char base_sha)"
  proof
    assume "length base_sha \<noteq> 40 \<or> \<not> list_all hex_char base_sha"
    with assms c1 c2 show False by (simp only: acquire_def if_True if_False not_not simp_thms prod.inject sum.distinct)
  qed
  have body: "(case prepare_destination n fs dest of
        Inl e \<Rightarrow> (Inl e, fs)
      | Inr fs1 \<Rightarrow> (case run_git git shown ?env ?cs fs1 of
             (Some e, fs2) \<Rightarrow> (Inl e, fs2)
           | (None, fs2) \<Rightarrow> (case real_path n fs2 dest of
                  None \<Rightarrow> (Inl Os_error, fs2)
                | Some home \<Rightarrow> (case validate_checkout n P fs2 dest home (entries_below fs2 home) 0 0 of
                       Some e \<Rightarrow> (Inl e, fs2) | None \<Rightarrow> (Inr dest, fs2))))) = (Inr place, fs2)"
    using assms c1 c2 c3 by (simp only: acquire_def if_False not_not simp_thms)
  obtain fs1 where p: "prepare_destination n fs dest = Inr fs1"
    using body by (cases "prepare_destination n fs dest") simp_all
  obtain r fs3 where r: "run_git git shown ?env ?cs fs1 = (r, fs3)" by (cases "run_git git shown ?env ?cs fs1")
  have "r = None" using body p r by (cases r) simp_all
  obtain home where home: "real_path n fs3 dest = Some home"
    using body p r \<open>r = None\<close> by (cases "real_path n fs3 dest") simp_all
  have v: "validate_checkout n P fs3 dest home (entries_below fs3 home) 0 0 = None" "place = dest" "fs3 = fs2"
    using body p r \<open>r = None\<close> home
    by (cases "validate_checkout n P fs3 dest home (entries_below fs3 home) 0 0"; simp)+
  note run = p r [unfolded \<open>r = None\<close> v(3)] home [unfolded v(3)] v(1) [unfolded v(3)]
  note checks = v(2) c1 c2 c3
  obtain s1 s2 e1 e2 e3 where git: "git [''git'', ''init'', ''/'' @ join_with ''/'' dest] ?env fs1 = (Git_exit 0 e1, s1)"
      "git [''git'', ''-C'', ''/'' @ join_with ''/'' dest, ''-c'', ''protocol.file.allow=never'', ''-c'', ''core.hooksPath='', ''fetch'',
            ''--depth=1'', ''--no-tags'', remote_url, base_sha] ?env s1 = (Git_exit 0 e2, s2)"
      "git [''git'', ''-C'', ''/'' @ join_with ''/'' dest, ''-c'', ''core.hooksPath='', ''checkout'', ''--detach'', base_sha] ?env s2
            = (Git_exit 0 e3, fs2)"
    using run_git_three [OF run(2) [unfolded git_commands_def]] by blast
  let ?entries = "filter (\<lambda>p. ''.git'' \<notin> set (drop (length home) p)) (entries_below fs2 home)"
  have "(\<forall>p \<in> set ?entries. is_link fs2 p \<longrightarrow> (\<exists>q. real_path n fs2 p = Some q \<and> prefix home q))
        \<and> length (List.map_filter (file_size n fs2) ?entries) \<le> cp_max_files P
        \<and> sum_list (List.map_filter (file_size n fs2) ?entries) \<le> cp_max_bytes P" if "''.git'' \<notin> set dest"
    using validated_checkout [OF run(4)] that sizes_outside_git [OF that, of n fs2 home "entries_below fs2 home"]
    by (simp add: looked_at_def)
  then have last: "''.git'' \<notin> set dest \<longrightarrow> (\<exists>home entries. real_path n fs2 dest = Some home
        \<and> entries = filter (\<lambda>p. ''.git'' \<notin> set (drop (length home) p)) (entries_below fs2 home)
        \<and> (\<forall>p \<in> set entries. is_link fs2 p \<longrightarrow> (\<exists>q. real_path n fs2 p = Some q \<and> prefix home q))
        \<and> length (List.map_filter (file_size n fs2) entries) \<le> cp_max_files P
        \<and> sum_list (List.map_filter (file_size n fs2) entries) \<le> cp_max_bytes P)" using run(3) by blast
  show ?thesis
    using checks run(1) git git_environment_set [of environ]
    by (intro conjI last exI [of _ ?env] exI [of _ fs1] exI [of _ s1] exI [of _ s2] exI [of _ e1] exI [of _ e2] exI [of _ e3]) simp_all
qed

text \<open>A git that makes an empty repository at the destination and puts one file into it.\<close>

definition sample_git :: "string list \<Rightarrow> (string \<times> string) list \<Rightarrow> filesystem \<Rightarrow> git_end \<times> filesystem" where
  "sample_git c env fs = (if ''checkout'' \<in> set c
     then (Git_exit 0 [], put_node [''w'', ''a''] (Regular ''x'' 1) (put_node [''w'', ''l''] (Symlink False [''a'']) fs))
     else (Git_exit 0 [], fs))"

definition sample_sha :: string where
  "sample_sha = replicate 40 (CHR ''0'')"

definition sample_clone :: clone_policy where
  "sample_clone = \<lparr>cp_repositories = [''o/r''], cp_max_files = 2, cp_max_bytes = 2, cp_timeout = 120,
     cp_allow_lfs = False, cp_allow_submodules = False\<rparr>"

definition sample_acquire :: "location \<Rightarrow> (acquisition_error + location) \<times> filesystem" where
  "sample_acquire dest = acquire 40 sample_git (\<lambda>t. t) [] sample_clone ''o/r'' ''https://github.com/o/r'' sample_sha dest []"

lemma sample_acquired: "fst (sample_acquire [''w'']) = Inr [''w'']"
  by code_simp

theorem acquired_checkout_confined_witness:
  "\<exists>home. real_path 40 (snd (sample_acquire [''w''])) [''w''] = Some home
     \<and> sum_list (List.map_filter (file_size 40 (snd (sample_acquire [''w''])))
         (filter (\<lambda>p. ''.git'' \<notin> set (drop (length home) p)) (entries_below (snd (sample_acquire [''w''])) home))) \<le> 2"
proof -
  have "acquire 40 sample_git (\<lambda>t. t) [] sample_clone ''o/r'' ''https://github.com/o/r'' sample_sha [''w''] []
      = (Inr [''w''], snd (sample_acquire [''w'']))"
    using sample_acquired by (simp add: sample_acquire_def prod_eq_iff)
  from acquired_checkout_confined [OF this] show ?thesis
    by (auto simp: sample_clone_def)
qed

text \<open>Below a directory called .git nothing of the checkout is looked at: the parts of the whole path are asked.\<close>

lemma destination_below_git_unchecked: "''.git'' \<in> set dest \<Longrightarrow> validate_checkout n P fs dest home ps files bytes = None"
  by (induction ps) simp_all

lemma sensitive_names_missed:
  "\<not> is_sensitive ''config/secrets_prod.yml'' \<and> \<not> is_sensitive ''.env-production'' \<and> is_sensitive ''config/Secrets.yml''"
  by code_simp

subsection \<open>Where rules apply\<close>

lemma split_on_join:
  "\<lbrakk>ps \<noteq> []; \<forall>p \<in> set ps. c \<notin> set p\<rbrakk> \<Longrightarrow> split_on c (join_with [c] ps) = ps"
proof (induction "[c]" ps rule: join_with.induct)
  case (2 p)
  then show ?case by (induction p) auto
next
  case (3 p q ps)
  then have "split_on c (join_with [c] (q # ps)) = q # ps" "c \<notin> set p" by simp_all
  moreover have "c \<notin> set p \<Longrightarrow> split_on c (p @ c # t) = p # split_on c t" for t
    by (induction p) auto
  ultimately show ?case by simp
qed simp

lemma pure_path_of_join:
  assumes "ps \<noteq> []" "\<forall>p \<in> set ps. p \<noteq> [] \<and> p \<noteq> ''.'' \<and> CHR ''/'' \<notin> set p"
  shows "pure_path (join_with ''/'' ps) = \<lparr>pp_root = [], pp_tail = ps\<rparr>"
proof -
  obtain p qs where ps: "ps = p # qs" using assms(1) by (cases ps) auto
  obtain a as where "p = a # as" "a \<noteq> CHR ''/''"
    using assms(2) ps by (cases p) auto
  then have "leading_slashes (join_with ''/'' ps) = 0"
    using ps by (cases qs) simp_all
  moreover have "filter (\<lambda>p. p \<noteq> [] \<and> p \<noteq> ''.'') ps = ps"
    using assms(2) by (simp add: filter_id_conv)
  ultimately show ?thesis
    using assms split_on_join [of ps "CHR ''/''"] by (simp add: pure_path_def)
qed

lemma tail_update_eq: "(p\<lparr>pp_tail := x\<rparr> = \<lparr>pp_root = r, pp_tail = y\<rparr>) \<longleftrightarrow> pp_root (p :: pure_path) = r \<and> x = y"
  by (cases p) auto

text \<open>A rule document applies to exactly the paths in its directory or below it.\<close>

theorem rule_applies_below_its_directory:
  assumes "pp_root (pure_path path) = []" "pp_root (pure_path changed) = []"
  shows "rule_applies changed (rule_of lossy hash (path, bytes)) \<longleftrightarrow>
     prefix (butlast (pp_tail (pure_path path))) (butlast (pp_tail (pure_path changed)))"
proof -
  let ?dir = "butlast (pp_tail (pure_path path))"
  have parts: "\<forall>p \<in> set ?dir. p \<noteq> [] \<and> p \<noteq> ''.'' \<and> CHR ''/'' \<notin> set p"
    using path_tail_parts by (metis in_set_butlastD)
  show ?thesis
  proof (cases "?dir = []")
    case True
    then show ?thesis using assms(1) by (simp add: rule_applies_def rule_of_def pure_parent_def pure_str_def Let_def)
  next
    case False
    have scope: "pure_path (join_with ''/'' ?dir) = \<lparr>pp_root = [], pp_tail = ?dir\<rparr>"
      using False parts by (rule pure_path_of_join)
    then have "join_with ''/'' ?dir \<noteq> []" "join_with ''/'' ?dir \<noteq> ''.''"
      using False by (auto simp: pure_path_def)
    then show ?thesis
      using assms False scope
      by (auto simp: rule_applies_def rule_of_def pure_parent_def pure_str_def in_parents_def Let_def strict_prefix_def
          tail_update_eq)
  qed
qed

end
