(* ===== verification/Agents.thy ===== *)
theory Agents
  imports Routing
begin

text \<open>
  The agents: their typed contracts (\<open>agents/contracts.py\<close>), the prompts (\<open>agents/prompts.py\<close>), one invocation of a model
  through the router with its budget (\<open>agents/runtime.py\<close>), and the check of the final evidence
  (\<open>agents/verification.py\<close>). The schemas of pydantic, the hash and fresh identifiers are parameters.
\<close>

subsection \<open>Contracts\<close>

text \<open>A contract is a record with the validation of its fields; a value that fails it is pydantic's error.\<close>

datatype agent_role = A_PLANNER | A_EXECUTOR | A_BLIND_REVIEWER | A_SECURITY_REVIEWER | A_FINAL_VERIFIER

fun agent_role_value :: "agent_role \<Rightarrow> string" where
  "agent_role_value A_PLANNER = ''planner''"
| "agent_role_value A_EXECUTOR = ''executor''"
| "agent_role_value A_BLIND_REVIEWER = ''blind_reviewer''"
| "agent_role_value A_SECURITY_REVIEWER = ''security_reviewer''"
| "agent_role_value A_FINAL_VERIFIER = ''final_verifier''"

datatype delivery_decision = ACCEPT | CORRECT | BLOCK

definition hex_of_length :: "nat \<Rightarrow> string \<Rightarrow> bool" where
  "hex_of_length n s \<longleftrightarrow> length s = n \<and> list_all (\<lambda>c. digit c \<or> CHR ''a'' \<le> c \<and> c \<le> CHR ''f'') s"

record agent_limits =
  al_max_tokens :: int
  al_max_model_calls :: int
  al_max_tool_calls :: int
  al_max_corrective_rounds :: int
  al_deadline_seconds :: seconds

definition AgentLimits :: "agent_limits \<Rightarrow> agent_limits option" where
  "AgentLimits l =
     (if 64 \<le> al_max_tokens l \<and> al_max_tokens l \<le> 65536 \<and> 1 \<le> al_max_model_calls l \<and> al_max_model_calls l \<le> 20
         \<and> 0 \<le> al_max_tool_calls l \<and> al_max_tool_calls l \<le> 200
         \<and> 0 \<le> al_max_corrective_rounds l \<and> al_max_corrective_rounds l \<le> 10
         \<and> 0 < al_deadline_seconds l \<and> al_deadline_seconds l \<le> 3600
      then Some l else None)"

record context_reference =
  cr_citation :: string
  cr_path :: string
  cr_hash :: string

definition ContextReference :: "context_reference \<Rightarrow> context_reference option" where
  "ContextReference c =
     (if 1 \<le> length (cr_citation c) \<and> length (cr_citation c) \<le> 128 \<and> 1 \<le> length (cr_path c) \<and> length (cr_path c) \<le> 1024
         \<and> hex_of_length 64 (cr_hash c) then Some c else None)"

record planner_input =
  pi_instruction :: string
  pi_repository :: string
  pi_base :: string
  pi_rules :: "string list"
  pi_context :: "context_reference list"
  pi_risk_policy :: string
  pi_tools :: "string list"
  pi_skills :: "string list"
  pi_budget :: agent_limits

definition PlannerInput :: "planner_input \<Rightarrow> planner_input option" where
  "PlannerInput p =
     (if 3 \<le> length (pi_instruction p) \<and> length (pi_instruction p) \<le> 20000 \<and> hex_of_length 40 (pi_base p)
         \<and> list_all (\<lambda>c. ContextReference c \<noteq> None) (pi_context p) \<and> AgentLimits (pi_budget p) \<noteq> None
      then Some p else None)"

record planner_output =
  po_problem :: string
  po_hypotheses :: "string list"
  po_assumptions :: "string list"
  po_files :: "string list"
  po_investigation :: "string list"
  po_implementation :: "string list"
  po_tests :: "string list"
  po_risks :: "string list"
  po_approvals :: "string list"
  po_evidence :: "string list"
  po_stop :: "string list"

record tool_proposal =
  tp_name :: string
  tp_arguments :: json
  tp_citations :: "string list"
  tp_rationale :: string

definition ToolProposal :: "tool_proposal \<Rightarrow> tool_proposal option" where
  "ToolProposal p =
     (if 1 \<le> length (tp_name p) \<and> length (tp_name p) \<le> 128 \<and> 1 \<le> length (tp_rationale p) \<and> length (tp_rationale p) \<le> 2000
      then Some p else None)"

record executor_input =
  ei_plan :: planner_output
  ei_context :: "context_reference list"
  ei_remaining :: int
  ei_boundaries :: "string list"

definition ExecutorInput :: "executor_input \<Rightarrow> executor_input option" where
  "ExecutorInput x = (if list_all (\<lambda>c. ContextReference c \<noteq> None) (ei_context x) \<and> 0 \<le> ei_remaining x then Some x else None)"

record executor_output =
  eo_proposals :: "tool_proposal list"
  eo_checkpoint :: string
  eo_stopped :: bool
  eo_scope :: "string list"

definition ExecutorOutput :: "executor_output \<Rightarrow> executor_output option" where
  "ExecutorOutput x = (if list_all (\<lambda>p. ToolProposal p \<noteq> None) (eo_proposals x) then Some x else None)"

record review_finding =
  rf_fingerprint :: string
  rf_severity :: string
  rf_path :: string
  rf_evidence :: string
  rf_reproduction :: "string list"
  rf_correction :: string

definition ReviewFinding :: "review_finding \<Rightarrow> review_finding option" where
  "ReviewFinding f =
     (if hex_of_length 64 (rf_fingerprint f) \<and> rf_severity f \<in> set [''critical'', ''important'', ''advisory''] then Some f else None)"

record blind_review_input =
  bi_task :: string
  bi_rules :: "string list"
  bi_plan :: planner_output
  bi_base :: string
  bi_diff :: string
  bi_files :: "string list"
  bi_tests :: "string list"
  bi_receipts :: "string list"
  bi_risks :: "string list"
  bi_tools :: "string list"

definition BlindReviewInput :: "blind_review_input \<Rightarrow> blind_review_input option" where
  "BlindReviewInput x = (if hex_of_length 40 (bi_base x) then Some x else None)"

record review_output =
  ro_findings :: "review_finding list"
  ro_decision :: delivery_decision

definition ReviewOutput :: "review_output \<Rightarrow> review_output option" where
  "ReviewOutput x = (if list_all (\<lambda>f. ReviewFinding f \<noteq> None) (ro_findings x) then Some x else None)"

record security_review_input =
  si_diff :: string
  si_files :: "string list"
  si_boundaries :: "string list"
  si_permissions :: "string list"
  si_network :: string
  si_filesystem :: string

record final_verifier_input =
  fv_criteria :: "string list"
  fv_steps :: "string list"
  fv_diff_hash :: string
  fv_tests :: "string list"
  fv_receipts :: "string list"
  fv_findings :: "review_finding list"
  fv_approvals :: "string list"
  fv_head :: string
  fv_base :: string
  fv_created :: instant
  fv_now :: instant

definition FinalVerifierInput :: "final_verifier_input \<Rightarrow> final_verifier_input option" where
  "FinalVerifierInput x =
     (if hex_of_length 64 (fv_diff_hash x) \<and> hex_of_length 40 (fv_head x) \<and> hex_of_length 40 (fv_base x)
         \<and> list_all (\<lambda>f. ReviewFinding f \<noteq> None) (fv_findings x) then Some x else None)"

record final_verifier_output =
  fo_ready :: bool
  fo_missing :: "string list"
  fo_stale :: "string list"
  fo_reasons :: "string list"

record agent_failure =
  af_code :: string
  af_summary :: string
  af_retryable :: bool
  af_evidence :: "string list"

record agent_execution_record =
  er_invocation :: string
  er_task :: string
  er_role :: agent_role
  er_prompt_version :: string
  er_provider :: string
  er_model :: string
  er_input_hash :: string
  er_output_hash :: string
  er_model_calls :: int
  er_tool_calls :: int
  er_started :: instant
  er_completed :: instant
  er_failure :: "agent_failure option"

definition AgentExecutionRecord :: "agent_execution_record \<Rightarrow> agent_execution_record option" where
  "AgentExecutionRecord r =
     (if hex_of_length 64 (er_input_hash r) \<and> hex_of_length 64 (er_output_hash r) \<and> 0 \<le> er_model_calls r \<and> 0 \<le> er_tool_calls r
      then Some r else None)"

subsection \<open>Prompts\<close>

record versioned_prompt =
  vp_role :: string
  vp_version :: string
  vp_text :: string

definition PROMPTS :: "(string \<times> versioned_prompt) list" where
  "PROMPTS = map (\<lambda>(role, t). (role, \<lparr>vp_role = role, vp_version = ''1.0.0'', vp_text = t\<rparr>))
     [(''planner'', ''Plan from cited repository evidence. Be explicit about uncertainty. '' @
         ''Propose read-only investigation before changes; never claim work is already fixed.''),
      (''executor'', ''Follow only the approved plan and context. Propose typed tool calls; '' @
         ''never execute tools or request credentials. Stop at approval and budget boundaries.''),
      (''blind_reviewer'', ''Independently review supplied task, diff, tests and receipts. '' @
         ''Return reproducible findings without relying on executor narrative or confidence.''),
      (''security_reviewer'', ''Review trust boundaries, authorization, inputs, tools, '' @
         ''sandbox, secrets, GitHub permissions, network, filesystem and security races.''),
      (''final_verifier'', ''Fail closed when required evidence is missing, stale, denied, '' @
         ''or belongs to another base or diff. Never infer success from narrative.'')]"

definition load_prompt :: "string \<Rightarrow> string \<Rightarrow> versioned_prompt option" where
  "load_prompt role version = (case map_of PROMPTS role of
     None \<Rightarrow> None | Some p \<Rightarrow> if vp_version p \<noteq> version then None else Some p)"

text \<open>Every agent role has a prompt and a model role of the same name.\<close>

definition model_role_of :: "string \<Rightarrow> model_role option" where
  "model_role_of v = List.find (\<lambda>r. role_value r = v) all_roles"

lemma every_agent_role_known:
  "load_prompt (agent_role_value r) ''1.0.0'' \<noteq> None \<and> model_role_of (agent_role_value r) \<noteq> None"
  by (cases r) (simp_all add: load_prompt_def PROMPTS_def model_role_of_def all_roles_def)

subsection \<open>One invocation\<close>

text \<open>An output type: its JSON parser, its validation and its own JSON text.\<close>

record 'o output_type =
  ot_parse :: "string \<Rightarrow> json option"
  ot_validate :: "json \<Rightarrow> 'o option"
  ot_dump :: "'o \<Rightarrow> string"

record 's agent =
  ag_role :: agent_role
  ag_prompt :: string
  ag_version :: string
  ag_limits :: agent_limits
  ag_router :: "'s router"
  ag_calls :: int

definition TypedAgent :: "agent_role \<Rightarrow> string \<Rightarrow> string \<Rightarrow> agent_limits \<Rightarrow> 's router \<Rightarrow> 's agent" where
  "TypedAgent role prompt version limits R =
     \<lparr>ag_role = role, ag_prompt = prompt, ag_version = version, ag_limits = limits, ag_router = R, ag_calls = 0\<rparr>"

datatype agent_error = Budget_exceeded | Agent_cancelled | Unknown_role | Routing_error routing_error | Invalid_output

definition agent_request :: "'s agent \<Rightarrow> string \<Rightarrow> model_request" where
  "agent_request a payload = \<lparr>mq_messages = [\<lparr>mm_role = ''user'', mm_content = payload\<rparr>], mq_system = Some (ag_prompt a),
     mq_temperature = 1 / 10, mq_max_output = al_max_tokens (ag_limits a)\<rparr>"

text \<open>What the surroundings of a call supply: an identifier and the readings of the clock.\<close>

record invocation =
  iv_id :: string
  iv_task :: string
  iv_payload :: string
  iv_started :: instant
  iv_completed :: instant

definition record_of ::
  "(string \<Rightarrow> digest) \<Rightarrow> 'o output_type \<Rightarrow> 's agent \<Rightarrow> invocation \<Rightarrow> model_response \<Rightarrow> 'o \<Rightarrow> agent_execution_record" where
  "record_of hash T a i resp out = \<lparr>er_invocation = iv_id i, er_task = iv_task i, er_role = ag_role a,
     er_prompt_version = ag_version a, er_provider = mr_provider resp, er_model = mr_model resp,
     er_input_hash = hash (iv_payload i), er_output_hash = hash (ot_dump T out), er_model_calls = 1, er_tool_calls = 0,
     er_started = iv_started i, er_completed = iv_completed i, er_failure = None\<rparr>"

definition finish_invocation ::
  "(string \<Rightarrow> digest) \<Rightarrow> 'o output_type \<Rightarrow> 's agent \<Rightarrow> invocation \<Rightarrow> model_response
   \<Rightarrow> agent_error + 'o \<times> agent_execution_record" where
  "finish_invocation hash T a i resp =
     (case (case mr_structured resp of None \<Rightarrow> None | Some j \<Rightarrow> ot_validate T j) of
        None \<Rightarrow> Inl Invalid_output
      | Some out \<Rightarrow> (case AgentExecutionRecord (record_of hash T a i resp out) of
          None \<Rightarrow> Inl Invalid_output
        | Some r \<Rightarrow> Inr (out, r)))"

definition invoke ::
  "'s surroundings \<Rightarrow> (string \<Rightarrow> digest) \<Rightarrow> 'o output_type \<Rightarrow> invocation \<Rightarrow> 's agent \<Rightarrow> 's
   \<Rightarrow> (agent_error + 'o \<times> agent_execution_record) \<times> 's agent \<times> 's" where
  "invoke E hash T i a s =
     (if al_max_model_calls (ag_limits a) \<le> ag_calls a then (Inl Budget_exceeded, a, s)
      else if cancelled E s then (Inl Agent_cancelled, a, s)
      else
        let a1 = a\<lparr>ag_calls := ag_calls a + 1\<rparr> in
        (case model_role_of (agent_role_value (ag_role a)) of
           None \<Rightarrow> (Inl Unknown_role, a1, s)
         | Some role \<Rightarrow>
            (case router_generate E role (agent_request a (iv_payload i)) (Some (al_deadline_seconds (ag_limits a)))
                (Some (ot_parse T)) (ag_router a) s of
               (result, R1, s1) \<Rightarrow>
                 ((case result of Inl e \<Rightarrow> Inl (Routing_error e) | Inr resp \<Rightarrow> finish_invocation hash T a i resp),
                  a1\<lparr>ag_router := R1\<rparr>, s1))))"

fun invoke_all ::
  "'s surroundings \<Rightarrow> (string \<Rightarrow> digest) \<Rightarrow> 'o output_type \<Rightarrow> invocation list \<Rightarrow> 's agent \<Rightarrow> 's \<Rightarrow> 's agent \<times> 's" where
  "invoke_all E hash T [] a s = (a, s)"
| "invoke_all E hash T (i # is) a s = (case invoke E hash T i a s of (r, a1, s1) \<Rightarrow> invoke_all E hash T is a1 s1)"

text \<open>The provider attempts one call of the router may make for this agent.\<close>

definition attempts_per_call :: "'s agent \<Rightarrow> nat" where
  "attempts_per_call a = (case model_role_of (agent_role_value (ag_role a)) of
     None \<Rightarrow> 0
   | Some role \<Rightarrow> nat (max_retries (ag_router a) + 1)
       * length (filter (\<lambda>r. al_max_tokens (ag_limits a) \<le> token_budget r) (route_candidates (ag_router a) role)))"

definition same_agent :: "'s agent \<Rightarrow> 's agent \<Rightarrow> bool" where
  "same_agent a b \<longleftrightarrow> ag_role b = ag_role a \<and> ag_limits b = ag_limits a
     \<and> routes (ag_router b) = routes (ag_router a) \<and> max_retries (ag_router b) = max_retries (ag_router a)"

lemma same_agent_attempts: "same_agent a b \<Longrightarrow> attempts_per_call b = attempts_per_call a"
  by (cases "model_role_of (agent_role_value (ag_role a))") (simp_all add: same_agent_def attempts_per_call_def route_candidates_def)

lemma same_agent_trans: "same_agent a b \<Longrightarrow> same_agent b c \<Longrightarrow> same_agent a c"
  by (simp add: same_agent_def)

lemma invoke_effect:
  assumes "invoke E hash T i a s = (r, a1, s1)"
  shows "same_agent a a1 \<and> (a1 = a \<and> (\<exists>e. r = Inl e)
    \<or> ag_calls a < al_max_model_calls (ag_limits a) \<and> ag_calls a1 = ag_calls a + 1
      \<and> length (attempts (ag_router a1)) \<le> length (attempts (ag_router a)) + attempts_per_call a)"
proof (cases "al_max_model_calls (ag_limits a) \<le> ag_calls a \<or> cancelled E s")
  case True
  then show ?thesis using assms by (auto simp: invoke_def same_agent_def split: if_splits)
next
  case False
  show ?thesis
  proof (cases "model_role_of (agent_role_value (ag_role a))")
    case None
    then show ?thesis using assms False by (auto simp: invoke_def Let_def same_agent_def)
  next
    case (Some role)
    let ?q = "agent_request a (iv_payload i)"
    obtain result R1 s2 where g: "router_generate E role ?q (Some (al_deadline_seconds (ag_limits a))) (Some (ot_parse T))
        (ag_router a) s = (result, R1, s2)" by (metis prod_cases3)
    then have a1: "a1 = a\<lparr>ag_calls := ag_calls a + 1, ag_router := R1\<rparr>"
      using assms False Some by (simp add: invoke_def Let_def)
    from try_routes_effect [OF g [unfolded router_generate_def]] obtain new where
      "appended (ag_router a) new R1"
      "length new \<le> nat (max_retries (ag_router a) + 1)
         * length (filter (\<lambda>r. mq_max_output ?q \<le> token_budget r) (route_candidates (ag_router a) role))"
      by blast
    then show ?thesis
      using a1 False Some by (auto simp: appended_def same_agent_def attempts_per_call_def agent_request_def)
  qed
qed


text \<open>An accepted output is the validated structured answer, and its record carries the hashes of what went in and out.\<close>

lemma accepted_output_recorded:
  assumes "invoke E hash T i a s = (Inr (out, r), a1, s1)"
  shows "er_task r = iv_task i \<and> er_role r = ag_role a \<and> er_input_hash r = hash (iv_payload i)
    \<and> er_output_hash r = hash (ot_dump T out) \<and> er_model_calls r = 1
    \<and> (\<exists>(resp :: model_response) j. mr_structured resp = Some j \<and> ot_validate T j = Some out \<and> er_provider r = mr_provider resp)"
proof -
  obtain resp where "finish_invocation hash T a i resp = Inr (out, r)"
    using assms by (auto simp: invoke_def Let_def split: if_splits option.splits prod.splits sum.splits)
  then obtain j where j: "mr_structured resp = Some j" "ot_validate T j = Some out" and r: "r = record_of hash T a i resp out"
    by (auto simp: finish_invocation_def AgentExecutionRecord_def split: option.splits if_splits)
  show ?thesis unfolding r by (simp add: record_of_def) (use j in blast)
qed

definition sample_limits :: agent_limits where
  "sample_limits = \<lparr>al_max_tokens = 1000, al_max_model_calls = 1, al_max_tool_calls = 0, al_max_corrective_rounds = 0,
     al_deadline_seconds = 60\<rparr>"

definition sample_output :: "json output_type" where
  "sample_output = \<lparr>ot_parse = (\<lambda>t. Some (JStr t)), ot_validate = Some, ot_dump = (\<lambda>j. ''out'')\<rparr>"

definition sample_invocation :: invocation where
  "sample_invocation = \<lparr>iv_id = ''i'', iv_task = ''t'', iv_payload = ''in'', iv_started = 1, iv_completed = 2\<rparr>"

definition sample_hash :: "string \<Rightarrow> digest" where
  "sample_hash t = replicate 64 (CHR ''0'')"

definition sample_agent :: "unit agent" where
  "sample_agent = TypedAgent A_PLANNER ''plan'' ''1.0.0'' sample_limits sample_router"


subsection \<open>Final evidence\<close>

definition missing_evidence :: "final_verifier_input \<Rightarrow> string list" where
  "missing_evidence x =
     (if fv_tests x = [] then [''test_evidence''] else [])
     @ (if fv_receipts x = [] then [''guard_receipts''] else [])
     @ (if list_ex (\<lambda>f. rf_severity f \<in> set [''critical'', ''important'']) (fv_findings x) then [''unresolved_review_findings''] else [])"

definition stale_evidence :: "seconds \<Rightarrow> final_verifier_input \<Rightarrow> string list" where
  "stale_evidence max_age x =
     (if fv_now x - fv_created x > max_age then [''test_and_guard_evidence''] else [])
     @ (if fv_head x \<noteq> fv_base x then [''base_branch_moved''] else [])"

definition verify_final_evidence :: "seconds \<Rightarrow> final_verifier_input \<Rightarrow> final_verifier_output" where
  "verify_final_evidence max_age x =
     (let missing = missing_evidence x; stale = stale_evidence max_age x;
          reasons = map (\<lambda>item. ''missing:'' @ item) missing @ map (\<lambda>item. ''stale:'' @ item) stale in
      \<lparr>fo_ready = (missing = [] \<and> stale = []), fo_missing = missing, fo_stale = stale,
        fo_reasons = (if reasons = [] then [''required evidence is current''] else reasons)\<rparr>)"

text \<open>Readiness means tests, receipts, no serious finding, recent evidence and an unmoved base; every lack is a reason.\<close>

lemma ready_iff:
  "fo_ready (verify_final_evidence max_age x) \<longleftrightarrow>
     fv_tests x \<noteq> [] \<and> fv_receipts x \<noteq> [] \<and> (\<forall>f \<in> set (fv_findings x). rf_severity f \<notin> {''critical'', ''important''})
     \<and> fv_now x - fv_created x \<le> max_age \<and> fv_head x = fv_base x"
  by (auto simp: verify_final_evidence_def missing_evidence_def stale_evidence_def list_ex_iff Let_def)

lemma unready_has_reasons:
  "\<not> fo_ready (verify_final_evidence max_age x) \<Longrightarrow>
     length (fo_reasons (verify_final_evidence max_age x))
       = length (fo_missing (verify_final_evidence max_age x)) + length (fo_stale (verify_final_evidence max_age x))
     \<and> fo_reasons (verify_final_evidence max_age x) \<noteq> [''required evidence is current'']"
  by (auto simp: verify_final_evidence_def missing_evidence_def stale_evidence_def Let_def)

text \<open>Approvals, criteria, plan steps and the diff play no part, and evidence dated in the future is current.\<close>

lemma verdict_ignores_approvals:
  "verify_final_evidence max_age (x\<lparr>fv_approvals := p, fv_criteria := c, fv_steps := st, fv_diff_hash := d\<rparr>)
     = verify_final_evidence max_age x"
  by (simp add: verify_final_evidence_def missing_evidence_def stale_evidence_def)

lemma future_evidence_is_current:
  "\<lbrakk>0 \<le> max_age; fv_now x < fv_created x\<rbrakk> \<Longrightarrow> ''test_and_guard_evidence'' \<notin> set (stale_evidence max_age x)"
  by (simp add: stale_evidence_def)

end
