(* ===== verification/Metrics.thy ===== *)
theory Metrics
  imports Queue_Samples
begin

text \<open>
  What the control plane can see of the queue and its workers: the registration a worker keeps alive
  (\<open>worker/registration.py\<close>), the heartbeat of the older worker (\<open>queue/heartbeat.py\<close>) and the metrics
  (\<open>queue/metrics.py\<close>). The reading commands of Redis extend the port of \<open>Redis_Port\<close> by a second record with
  its own laws.
\<close>

subsection \<open>Reading commands\<close>

record ('k, 'v, 's) redis_reads =
  cmd_llen :: "'k \<Rightarrow> 's \<Rightarrow> nat"
  cmd_lhead :: "'k \<Rightarrow> 's \<Rightarrow> 'v option"
  cmd_hlen :: "'k \<Rightarrow> 's \<Rightarrow> nat"
  cmd_zcount :: "'k \<Rightarrow> real \<Rightarrow> 's \<Rightarrow> nat"
  cmd_zcard :: "'k \<Rightarrow> 's \<Rightarrow> nat"
  cmd_hgetall_counts :: "'k \<Rightarrow> 's \<Rightarrow> (string \<times> int) list"
  cmd_scan :: "('k \<Rightarrow> bool) \<Rightarrow> 's \<Rightarrow> 'k list"

text \<open>
  The documented effects. A hash of counters lists each field once, with every field that was ever counted up; SCAN finds
  every key that matches and may name one more than once.
\<close>

locale redis_stats = redis R view
  for R :: "('k, 'v, 's) redis_commands" and view :: "'s \<Rightarrow> ('k, 'v) keyspace" +
  fixes Q :: "('k, 'v, 's) redis_reads"
  assumes llen_law: "cmd_llen Q k s = length (lists (view s) k)"
    and lhead_law: "cmd_lhead Q k s = (case lists (view s) k of [] \<Rightarrow> None | v # vs \<Rightarrow> Some v)"
    and hlen_law: "cmd_hlen Q k s = card (dom (hashes (view s) k))"
    and zcount_law: "cmd_zcount Q k hi s = card {m. \<exists>sc. scores (view s) k m = Some sc \<and> sc \<le> hi}"
    and zcard_law: "cmd_zcard Q k s = card (dom (scores (view s) k))"
    and hgetall_law: "distinct (map fst (cmd_hgetall_counts Q k s))
      \<and> (\<forall>(f, n) \<in> set (cmd_hgetall_counts Q k s). n = counts (view s) k f)
      \<and> {f. counts (view s) k f \<noteq> 0} \<subseteq> fst ` set (cmd_hgetall_counts Q k s)"
    and scan_law: "set (cmd_scan Q P s) = {k. P k \<and> live (view s) k \<noteq> None}"
begin

lemma hgetall_count: "counts (view s) k f \<noteq> 0 \<Longrightarrow> map_of (cmd_hgetall_counts Q k s) f = Some (counts (view s) k f)"
  using hgetall_law [of k s] by (force simp: map_of_eq_None_iff dest!: map_of_SomeD
      intro: weak_map_of_SomeI [elim_format] map_of_is_SomeI)

end

subsection \<open>Worker registration\<close>

record worker_registry =
  wg_worker :: string
  wg_registration :: registration

definition WorkerRegistry :: "string \<Rightarrow> int \<Rightarrow> uuid \<Rightarrow> instant \<Rightarrow> worker_registry" where
  "WorkerRegistry worker capacity uid now = \<lparr>wg_worker = worker, wg_registration = \<lparr>wr_worker_id = worker,
     wr_instance_id = uid, wr_started_at = now, wr_heartbeat = now, wr_capacity = capacity, wr_active = 0,
     wr_draining = False\<rparr>\<rparr>"

definition heartbeat_value :: "worker_registry \<Rightarrow> instant \<Rightarrow> int \<Rightarrow> bool \<Rightarrow> registration" where
  "heartbeat_value g now active draining =
     (wg_registration g)\<lparr>wr_heartbeat := now, wr_active := active, wr_draining := draining\<rparr>"

definition heartbeat_worker ::
  "'s queue_redis \<Rightarrow> worker_registry \<Rightarrow> reply \<Rightarrow> instant \<Rightarrow> int \<Rightarrow> bool \<Rightarrow> seconds \<Rightarrow> 's \<Rightarrow> (queue_error + unit) \<times> 's" where
  "heartbeat_worker R g reply now active draining ttl s = through reply
     (\<lambda>s. (Some (), cmd_set_ex R (Worker_key (wg_worker g)) (VWorker (heartbeat_value g now active draining)) ttl s)) s"

definition deregister_worker :: "'s queue_redis \<Rightarrow> worker_registry \<Rightarrow> reply \<Rightarrow> 's \<Rightarrow> (queue_error + unit) \<times> 's" where
  "deregister_worker R g reply s = through reply (\<lambda>s. (Some (), cmd_del R (Worker_key (wg_worker g)) s)) s"

text \<open>The older heartbeat has a key of its own, under a fixed prefix.\<close>

definition beat_key :: "string \<Rightarrow> string" where
  "beat_key worker = ''mezo:queue:worker:'' @ worker"

definition beat :: "(string, instant, 's) redis_commands \<Rightarrow> string \<Rightarrow> seconds \<Rightarrow> instant \<Rightarrow> 's \<Rightarrow> 's" where
  "beat R worker ttl now s = cmd_set_ex R (beat_key worker) now ttl s"

definition alive :: "(string, instant, 's) redis_commands \<Rightarrow> string \<Rightarrow> 's \<Rightarrow> bool" where
  "alive R worker s \<longleftrightarrow> cmd_get R (beat_key worker) s \<noteq> None"

lemma alive_until_expiry:
  assumes "redis R view" "0 \<le> d"
  shows "alive R w (pass_time R d (beat R w ttl now s)) \<longleftrightarrow> d < ttl"
proof -
  note get_law = redis.get_law [OF assms(1)]
    and pass_time_law = redis.pass_time_law [OF assms(1)]
    and set_ex_law = redis.set_ex_law [OF assms(1)]
  show ?thesis using assms(2) by (simp add: alive_def beat_def get_law pass_time_law set_ex_law live_def)
qed

text \<open>It is never one of the keys the metrics look for.\<close>

lemma older_heartbeat_not_scanned: "key_text ''mezo:queue'' (Worker_key v) \<noteq> beat_key w"
  by (simp add: beat_key_def)

subsection \<open>Counters and averages\<close>

definition increment :: "'s queue_redis \<Rightarrow> reply \<Rightarrow> string \<Rightarrow> int \<Rightarrow> 's \<Rightarrow> (queue_error + unit) \<times> 's" where
  "increment R reply name amount s = through reply (\<lambda>s. (Some (), cmd_hincrby R Counters name amount s)) s"

text \<open>The two hashes of observations, which one transaction updates together.\<close>

record observations =
  totals :: "(string \<times> real) list"
  samples :: "(string \<times> int) list"

definition add_to :: "string \<Rightarrow> 'a \<Rightarrow> (string \<times> 'a::monoid_add) list \<Rightarrow> (string \<times> 'a) list" where
  "add_to f x kvs = AList.update f ((case map_of kvs f of None \<Rightarrow> 0 | Some y \<Rightarrow> y) + x) kvs"

definition observe :: "reply \<Rightarrow> string \<Rightarrow> seconds \<Rightarrow> observations \<Rightarrow> (queue_error + unit) \<times> observations" where
  "observe reply name x ob = through reply
     (\<lambda>ob. (Some (), ob\<lparr>totals := add_to name x (totals ob), samples := add_to name 1 (samples ob)\<rparr>)) ob"

text \<open>\<open>None\<close> on the outside is the \<open>KeyError\<close> of a count without a total.\<close>

definition average :: "observations \<Rightarrow> string \<Rightarrow> real option option" where
  "average ob name = (case map_of (samples ob) name of
     None \<Rightarrow> Some None
   | Some n \<Rightarrow> if n = 0 then Some None else (case map_of (totals ob) name of None \<Rightarrow> None | Some t \<Rightarrow> Some (Some (t / real_of_int n))))"

fun observe_all :: "(reply \<times> string \<times> seconds) list \<Rightarrow> observations \<Rightarrow> observations" where
  "observe_all [] ob = ob"
| "observe_all ((reply, name, x) # rest) ob = observe_all rest (snd (observe reply name x ob))"

definition recorded :: "string \<Rightarrow> (reply \<times> string \<times> seconds) list \<Rightarrow> seconds list" where
  "recorded name obs = map (\<lambda>(r, n, x). x) (filter (\<lambda>(r, n, x). r \<noteq> Not_sent \<and> n = name) obs)"

lemma map_of_add_to:
  "map_of (add_to f x kvs) g = (if g = f then Some ((case map_of kvs f of None \<Rightarrow> 0 | Some y \<Rightarrow> y) + x) else map_of kvs g)"
  by (simp add: add_to_def AList.update_conv')

lemma observe_sent:
  "snd (observe reply name x ob) = (if reply = Not_sent then ob
     else ob\<lparr>totals := add_to name x (totals ob), samples := add_to name 1 (samples ob)\<rparr>)"
  by (cases reply) (simp_all add: observe_def through_def)

text \<open>The average is the mean of the durations whose observation reached the server, and never an error.\<close>

lemma observe_all_sums:
  assumes "map_of (samples ob) name = (if xs = [] then None else Some (int (length xs)))"
    "map_of (totals ob) name = (if xs = [] then None else Some (sum_list xs))"
  shows "\<exists>ys. ys = xs @ recorded name obs
    \<and> map_of (samples (observe_all obs ob)) name = (if ys = [] then None else Some (int (length ys)))
    \<and> map_of (totals (observe_all obs ob)) name = (if ys = [] then None else Some (sum_list ys))"
  using assms
proof (induction obs arbitrary: ob xs)
  case Nil
  then show ?case by (simp add: recorded_def)
next
  case (Cons o1 obs)
  obtain reply n x where o1: "o1 = (reply, n, x)" by (cases o1)
  show ?case
  proof (cases "reply \<noteq> Not_sent \<and> n = name")
    case True
    then have "map_of (samples (snd (observe reply n x ob))) name = Some (int (length (xs @ [x])))"
        "map_of (totals (snd (observe reply n x ob))) name = Some (sum_list (xs @ [x]))"
      using Cons.prems by (auto simp: observe_sent map_of_add_to)
    then show ?thesis using Cons.IH [of "snd (observe reply n x ob)" "xs @ [x]"] True
      by (simp add: o1 recorded_def)
  next
    case False
    then have "map_of (samples (snd (observe reply n x ob))) name = map_of (samples ob) name"
        "map_of (totals (snd (observe reply n x ob))) name = map_of (totals ob) name"
      by (auto simp: observe_sent map_of_add_to)
    then show ?thesis using Cons.IH [of "snd (observe reply n x ob)" xs] Cons.prems False
      by (auto simp: o1 recorded_def)
  qed
qed

lemma average_is_mean:
  "average (observe_all obs \<lparr>totals = [], samples = []\<rparr>) name =
     Some (if recorded name obs = [] then None
       else Some (sum_list (recorded name obs) / real (length (recorded name obs))))"
  using observe_all_sums [of "\<lparr>totals = [], samples = []\<rparr>" name "[]" obs] by (simp add: average_def)

subsection \<open>The snapshot\<close>

fun priority_label :: "task_priority \<Rightarrow> string" where
  "priority_label P_CRITICAL = ''critical''"
| "priority_label P_HIGH = ''high''"
| "priority_label P_NORMAL = ''normal''"
| "priority_label P_LOW = ''low''"

record metrics_snapshot =
  qm_ready :: "(string \<times> nat) list"
  qm_inflight :: nat
  qm_leases :: nat
  qm_expired :: nat
  qm_delayed :: nat
  qm_dead :: nat
  qm_workers :: nat
  qm_draining :: nat
  qm_executions :: int
  qm_oldest_age :: "seconds option"
  qm_counters :: "(string \<times> int) list"
  qm_claim_latency :: "seconds option"
  qm_execution_latency :: "seconds option"

text \<open>The instant an envelope was put in; any other head is an error outside the guarded part.\<close>

fun head_instant :: "queue_value \<Rightarrow> instant option" where
  "head_instant (VEnvelope e) = Some (env_enqueued_at e)"
| "head_instant v = None"

text \<open>The oldest of the heads, as the loop keeps it.\<close>

fun oldest_head :: "queue_value option list \<Rightarrow> instant option \<Rightarrow> queue_error + instant option" where
  "oldest_head [] acc = Inr acc"
| "oldest_head (None # hs) acc = oldest_head hs acc"
| "oldest_head (Some v # hs) acc = (case head_instant v of
     None \<Rightarrow> Inl Decode_error
   | Some t \<Rightarrow> oldest_head hs (case acc of None \<Rightarrow> Some t | Some u \<Rightarrow> Some (if t < u then t else u)))"

text \<open>A registration as read back; the empty object has neither field.\<close>

fun worker_view :: "queue_value \<Rightarrow> (bool \<times> int) option" where
  "worker_view (VWorker r) = Some (wr_draining r, wr_active r)"
| "worker_view VEmpty_object = Some (False, 0)"
| "worker_view v = None"

fun is_worker_key :: "queue_key \<Rightarrow> bool" where
  "is_worker_key (Worker_key w) = True"
| "is_worker_key k = False"

lemma is_worker_key_iff: "is_worker_key k \<longleftrightarrow> (\<exists>w. k = Worker_key w)"
  by (cases k) simp_all

text \<open>
  The commands of a pipeline without a transaction are answered one by one, and other clients may come between:
  \<open>met i\<close> is the store the \<open>i\<close>-th command meets.
\<close>

definition snapshot ::
  "('s \<Rightarrow> observations) \<Rightarrow> 's queue_redis \<Rightarrow> (queue_key, queue_value, 's) redis_reads \<Rightarrow> bool \<Rightarrow> instant \<Rightarrow> (nat \<Rightarrow> 's)
   \<Rightarrow> queue_error + metrics_snapshot" where
  "snapshot hashes_of R Q answered now met =
     (if \<not> answered then Inl Infrastructure_error
      else
        let ready = map (\<lambda>(i, p). (cmd_llen Q (Ready p) (met (2 * i)), cmd_lhead Q (Ready p) (met (2 * i + 1))))
              (enumerate 0 all_priorities);
            ob = \<lparr>totals = totals (hashes_of (met 14)), samples = samples (hashes_of (met 15))\<rparr>;
            raws = List.map_filter (\<lambda>(i, k). cmd_get R k (met (17 + i))) (enumerate 0 (cmd_scan Q is_worker_key (met 16)));
            workers = map worker_view raws in
        (case oldest_head (map snd ready) None of
           Inl e \<Rightarrow> Inl e
         | Inr oldest \<Rightarrow>
             (case (average ob ''claim_latency'', average ob ''execution_latency'') of
                (Some cl, Some ex) \<Rightarrow>
                  (if list_ex (\<lambda>w. w = None) workers then Inl Decode_error
                   else Inr \<lparr>qm_ready = zip (map priority_label all_priorities) (map fst ready),
                     qm_inflight = cmd_hlen Q Inflight (met 8),
                     qm_leases = cmd_hlen Q Leases (met 9),
                     qm_expired = cmd_zcount Q Lease_expiry now (met 10),
                     qm_delayed = cmd_zcard Q Delayed_due (met 11),
                     qm_dead = cmd_hlen Q Dlq (met 12),
                     qm_workers = length workers,
                     qm_draining = length (filter (\<lambda>w. fst (the w)) workers),
                     qm_executions = sum_list (map (\<lambda>w. snd (the w)) workers),
                     qm_oldest_age = map_option (\<lambda>t. now - t) oldest,
                     qm_counters = cmd_hgetall_counts Q Counters (met 13),
                     qm_claim_latency = cl, qm_execution_latency = ex\<rparr>)
              | _ \<Rightarrow> Inl Decode_error)))"

text \<open>What the API asks for: a worker is there if the snapshot succeeds and counts one.\<close>

definition worker_health :: "queue_error + metrics_snapshot \<Rightarrow> bool" where
  "worker_health r = (case r of Inl e \<Rightarrow> False | Inr m \<Rightarrow> 0 < qm_workers m)"

lemma oldest_head_least:
  assumes "oldest_head hs acc = Inr r"
  shows "(\<forall>t. acc = Some t \<or> (\<exists>v. Some v \<in> set hs \<and> head_instant v = Some t) \<longrightarrow> (\<exists>u. r = Some u \<and> u \<le> t))
    \<and> (\<forall>u. r = Some u \<longrightarrow> acc = Some u \<or> (\<exists>v. Some v \<in> set hs \<and> head_instant v = Some u))"
  using assms
proof (induction hs acc rule: oldest_head.induct)
  case (1 acc)
  then show ?case by auto
next
  case (2 hs acc)
  then show ?case by simp
next
  case (3 v hs acc)
  obtain t where t: "head_instant v = Some t" using "3.prems" by (auto split: option.splits)
  let ?acc = "case acc of None \<Rightarrow> Some t | Some u \<Rightarrow> Some (if t < u then t else u)"
  have ih: "(\<forall>t'. ?acc = Some t' \<or> (\<exists>v. Some v \<in> set hs \<and> head_instant v = Some t') \<longrightarrow> (\<exists>u. r = Some u \<and> u \<le> t'))
      \<and> (\<forall>u. r = Some u \<longrightarrow> ?acc = Some u \<or> (\<exists>v. Some v \<in> set hs \<and> head_instant v = Some u))"
    using "3.IH" [OF t] "3.prems" t by simp
  then obtain u where u: "r = Some u" "\<And>w. ?acc = Some w \<Longrightarrow> u \<le> w" by (cases acc) auto
  have "u \<le> t" "\<And>a. acc = Some a \<Longrightarrow> u \<le> a" using u(2) by (cases acc; force split: if_splits)+
  then show ?case using ih u(1) t by (cases acc) (auto split: if_splits)
qed

lemma head_instant_Some: "head_instant v = Some t \<longleftrightarrow> (\<exists>e. v = VEnvelope e \<and> t = env_enqueued_at e)"
  by (cases v) auto

lemma oldest_head_readable:
  assumes "oldest_head hs acc = Inr r" and "Some v \<in> set hs"
  shows "\<exists>e. v = VEnvelope e"
  using assms
proof (induction hs acc rule: oldest_head.induct)
  case (3 w hs acc)
  then obtain t where t: "head_instant w = Some t" by (auto split: option.splits)
  show ?case
  proof (cases "v = w")
    case True
    then show ?thesis using t by (auto simp: head_instant_Some)
  next
    case False
    then show ?thesis using "3.IH" [OF t] "3.prems" t by simp
  qed
qed simp_all

text \<open>A snapshot that is delivered, with what it was computed from.\<close>

lemma snapshot_parts:
  assumes "snapshot hashes_of R Q answered now met = Inr m"
  shows "qm_ready m = map (\<lambda>(i, p). (priority_label p, cmd_llen Q (Ready p) (met (2 * i)))) (enumerate 0 all_priorities)"
    "qm_inflight m = cmd_hlen Q Inflight (met 8)" "qm_leases m = cmd_hlen Q Leases (met 9)"
    "qm_expired m = cmd_zcount Q Lease_expiry now (met 10)" "qm_delayed m = cmd_zcard Q Delayed_due (met 11)"
    "qm_dead m = cmd_hlen Q Dlq (met 12)" "qm_counters m = cmd_hgetall_counts Q Counters (met 13)"
    "qm_workers m = length (List.map_filter (\<lambda>(i, k). cmd_get R k (met (17 + i))) (enumerate 0 (cmd_scan Q is_worker_key (met 16))))"
    "\<exists>oldest. oldest_head (map (\<lambda>(i, p). cmd_lhead Q (Ready p) (met (2 * i + 1))) (enumerate 0 all_priorities)) None = Inr oldest
      \<and> qm_oldest_age m = map_option (\<lambda>t. now - t) oldest"
  using assms
  by (auto simp: snapshot_def Let_def all_priorities_def split: if_splits sum.splits option.splits)

lemma map_filter_enumerate_const: "List.map_filter (\<lambda>(i, k). f k) (enumerate n xs) = List.map_filter f xs"
  by (induction xs arbitrary: n) (auto simp: map_filter_def)

lemma length_map_filter_all: "list_all (\<lambda>x. f x \<noteq> None) xs \<Longrightarrow> length (List.map_filter f xs) = length xs"
  by (induction xs) (auto simp: map_filter_def)

text \<open>The workers counted are those whose registration has not expired, once per time SCAN names them.\<close>

lemma snapshot_counts_workers:
  assumes "redis_stats R view Q" "snapshot hashes_of R Q answered now (\<lambda>_. s) = Inr m"
  shows "qm_workers m = length (cmd_scan Q is_worker_key s)
    \<and> set (cmd_scan Q is_worker_key s) = Worker_key ` {w. live (view s) (Worker_key w) \<noteq> None}"
proof -
  note scan_law = redis_stats.scan_law [OF assms(1)]
    and get_law = redis.get_law [OF redis_stats.axioms(1) [OF assms(1)]]
  have "{k. is_worker_key k \<and> live (view s) k \<noteq> None} = Worker_key ` {w. live (view s) (Worker_key w) \<noteq> None}"
    by (auto simp: is_worker_key_iff)
  then have set: "set (cmd_scan Q is_worker_key s) = Worker_key ` {w. live (view s) (Worker_key w) \<noteq> None}"
    by (simp add: scan_law)
  then have "list_all (\<lambda>k. cmd_get R k s \<noteq> None) (cmd_scan Q is_worker_key s)"
    by (auto simp: list_all_iff get_law)
  then show ?thesis using snapshot_parts(8) [OF assms(2)] set
    by (simp add: map_filter_enumerate_const length_map_filter_all)
qed

text \<open>
  C30. When nothing else happens meanwhile, a snapshot shows the queue: the length of every ready list, the number of
  deliveries in flight, of leases, of leases that are over, of waiting retries and of dead letters, every counter that is
  not zero, and no worker exactly when no registration is alive, or as many workers as there are live
  registrations if SCAN names no key twice. The oldest age is none when all ready lists are empty, and otherwise that of
  the oldest among the first entries of the lists, all of which are envelopes.
\<close>

theorem snapshot_reports_store:
  assumes "redis_stats R view Q" "snapshot hashes_of R Q answered now (\<lambda>_. s) = Inr m"
  shows "map_of (qm_ready m) (priority_label p) = Some (length (lists (view s) (Ready p)))
    \<and> qm_inflight m = card (dom (hashes (view s) Inflight)) \<and> qm_leases m = card (dom (hashes (view s) Leases))
    \<and> qm_expired m = card {i. \<exists>sc. scores (view s) Lease_expiry i = Some sc \<and> sc \<le> now}
    \<and> qm_delayed m = card (dom (scores (view s) Delayed_due)) \<and> qm_dead m = card (dom (hashes (view s) Dlq))
    \<and> (\<forall>f. counts (view s) Counters f \<noteq> 0 \<longrightarrow> map_of (qm_counters m) f = Some (counts (view s) Counters f))
    \<and> (\<forall>q. lists (view s) (Ready q) = [] \<or> (\<exists>e es. lists (view s) (Ready q) = VEnvelope e # es))
    \<and> (case qm_oldest_age m of None \<Rightarrow> \<forall>q. lists (view s) (Ready q) = []
        | Some age \<Rightarrow> (\<exists>q e es. lists (view s) (Ready q) = VEnvelope e # es \<and> age = now - env_enqueued_at e)
            \<and> (\<forall>q e es. lists (view s) (Ready q) = VEnvelope e # es \<longrightarrow> now - env_enqueued_at e \<le> age))
    \<and> (qm_workers m = 0 \<longleftrightarrow> (\<forall>w. live (view s) (Worker_key w) = None))
    \<and> (distinct (cmd_scan Q is_worker_key s) \<longrightarrow> qm_workers m = card {w. live (view s) (Worker_key w) \<noteq> None})"
proof -
  note llen_law = redis_stats.llen_law [OF assms(1)]
    and lhead_law = redis_stats.lhead_law [OF assms(1)]
    and hlen_law = redis_stats.hlen_law [OF assms(1)]
    and zcount_law = redis_stats.zcount_law [OF assms(1)]
    and zcard_law = redis_stats.zcard_law [OF assms(1)]
    and hgetall_count = redis_stats.hgetall_count [OF assms(1)]
  note parts = snapshot_parts [OF assms(2)]
  have ready: "map_of (qm_ready m) (priority_label p) = Some (length (lists (view s) (Ready p)))"
    by (cases p) (simp_all add: parts(1) all_priorities_def llen_law)
  obtain oldest where oldest: "oldest_head (map (\<lambda>(i, p). cmd_lhead Q (Ready p) s) (enumerate 0 all_priorities)) None = Inr oldest"
      "qm_oldest_age m = map_option (\<lambda>t. now - t) oldest" using parts(9) by blast
  let ?heads = "map (\<lambda>(i, p). cmd_lhead Q (Ready p) s) (enumerate 0 all_priorities)"
  have heads: "Some v \<in> set ?heads \<longleftrightarrow> (\<exists>q es. lists (view s) (Ready q) = v # es)" for v
  proof
    assume "Some v \<in> set ?heads"
    then obtain q where "cmd_lhead Q (Ready q) s = Some v" by (auto simp: all_priorities_def)
    then have "(case lists (view s) (Ready q) of [] \<Rightarrow> None | v # vs \<Rightarrow> Some v) = Some v" by (simp only: lhead_law)
    then show "\<exists>q es. lists (view s) (Ready q) = v # es"
      by (intro exI [of _ q]) (cases "lists (view s) (Ready q)"; simp)
  next
    assume "\<exists>q es. lists (view s) (Ready q) = v # es"
    then obtain q es where "lists (view s) (Ready q) = v # es" by blast
    then show "Some v \<in> set ?heads" by (cases q) (simp_all add: all_priorities_def lhead_law)
  qed
  have readable: "lists (view s) (Ready q) = [] \<or> (\<exists>e es. lists (view s) (Ready q) = VEnvelope e # es)" for q
    using oldest_head_readable [OF oldest(1)] heads by (cases "lists (view s) (Ready q)") blast+
  have oldest_least: "\<exists>u. oldest = Some u \<and> u \<le> env_enqueued_at e" if "lists (view s) (Ready q) = VEnvelope e # es" for q e es
    using oldest_head_least [OF oldest(1)] heads that head_instant.simps(1) by blast
  have age: "case qm_oldest_age m of None \<Rightarrow> \<forall>q. lists (view s) (Ready q) = []
      | Some age \<Rightarrow> (\<exists>q e es. lists (view s) (Ready q) = VEnvelope e # es \<and> age = now - env_enqueued_at e)
          \<and> (\<forall>q e es. lists (view s) (Ready q) = VEnvelope e # es \<longrightarrow> now - env_enqueued_at e \<le> age)"
  proof (cases oldest)
    case None
    then show ?thesis using oldest(2) oldest_least readable by fastforce
  next
    case (Some u)
    then obtain v where "Some v \<in> set ?heads" "head_instant v = Some u"
      using oldest_head_least [OF oldest(1)] by blast
    then have "\<exists>q e es. lists (view s) (Ready q) = VEnvelope e # es \<and> u = env_enqueued_at e"
      using heads by (auto simp: head_instant_Some)
    moreover have "u \<le> env_enqueued_at e" if "lists (view s) (Ready q) = VEnvelope e # es" for q e es
      using oldest_least [OF that] Some by simp
    ultimately show ?thesis using oldest(2) Some by auto
  qed
  note workers = snapshot_counts_workers [OF assms]
  have none: "qm_workers m = 0 \<longleftrightarrow> (\<forall>w. live (view s) (Worker_key w) = None)"
    using workers by (metis (mono_tags, lifting) empty_Collect_eq image_is_empty length_0_conv set_empty)
  have card: "qm_workers m = card {w. live (view s) (Worker_key w) \<noteq> None}" if "distinct (cmd_scan Q is_worker_key s)"
    using workers distinct_card [OF that] by (simp add: card_image inj_on_def)
  show ?thesis
    using ready age readable none card hgetall_count
    by (simp add: parts(2-7) hlen_law zcount_law zcard_law)
qed

subsection \<open>Reads of the store of association lists\<close>

definition fields_of :: "'k \<Rightarrow> (('k \<times> string) \<times> 'a) list \<Rightarrow> string list" where
  "fields_of k al = remdups (map snd (filter (\<lambda>p. fst p = k) (map fst al)))"

definition mini_reads :: "('k, 'v, ('k, 'v) mini_store) redis_reads" where
  "mini_reads = \<lparr>
     cmd_llen = (\<lambda>k s. length (mini_list k s)),
     cmd_lhead = (\<lambda>k s. case mini_list k s of [] \<Rightarrow> None | v # vs \<Rightarrow> Some v),
     cmd_hlen = (\<lambda>k s. length (fields_of k (ms_hashes s))),
     cmd_zcount = (\<lambda>k hi s. length (filter (\<lambda>m. the (map_of (ms_scores s) (k, m)) \<le> hi) (fields_of k (ms_scores s)))),
     cmd_zcard = (\<lambda>k s. length (fields_of k (ms_scores s))),
     cmd_hgetall_counts = (\<lambda>k s. map (\<lambda>f. (f, mini_count k f s)) (fields_of k (ms_counts s))),
     cmd_scan = (\<lambda>P s. filter (\<lambda>k. P k \<and> mini_get k s \<noteq> None) (remdups (map fst (ms_strings s))))\<rparr>"

lemma set_fields_of: "set (fields_of k al) = dom (\<lambda>f. map_of al (k, f))"
  unfolding fields_of_def by (rule mini_keys)

lemma length_fields_of: "length (fields_of k al) = card (dom (\<lambda>f. map_of al (k, f)))"
  by (metis distinct_card distinct_remdups fields_of_def set_fields_of)

lemma mini_live: "live (mini_view s) k = mini_get k s"
  by (cases "map_of (ms_strings s) k") (auto simp: live_def mini_view_def mini_get_def)

interpretation mini_stats: redis_stats mini_redis mini_view mini_reads
proof
  fix k :: 'k and s :: "('k, 'v) mini_store" and hi :: real and P :: "'k \<Rightarrow> bool"
  let ?due = "filter (\<lambda>m. the (map_of (ms_scores s) (k, m)) \<le> hi) (fields_of k (ms_scores s))"
  have "set ?due = {m. \<exists>sc. map_of (ms_scores s) (k, m) = Some sc \<and> sc \<le> hi}"
    by (auto simp: set_fields_of)
  moreover have "distinct ?due" by (simp add: fields_of_def)
  ultimately show "cmd_zcount mini_reads k hi s = card {m. \<exists>sc. scores (mini_view s) k m = Some sc \<and> sc \<le> hi}"
    by (simp add: mini_reads_def mini_view_def distinct_card [symmetric])
  have "{f. mini_count k f s \<noteq> 0} \<subseteq> set (fields_of k (ms_counts s))"
    unfolding set_fields_of by (auto simp: mini_count_def split: option.splits)
  then show "distinct (map fst (cmd_hgetall_counts mini_reads k s))
      \<and> (\<forall>(f, n) \<in> set (cmd_hgetall_counts mini_reads k s). n = counts (mini_view s) k f)
      \<and> {f. counts (mini_view s) k f \<noteq> 0} \<subseteq> fst ` set (cmd_hgetall_counts mini_reads k s)"
    by (simp add: mini_reads_def mini_view_def comp_def fields_of_def image_image) 
  have "mini_get k s \<noteq> None \<Longrightarrow> k \<in> set (map fst (ms_strings s))" for k
    by (metis (no_types, lifting) map_of_eq_None_iff mini_get_def option.simps(4) set_map)
  then show "set (cmd_scan mini_reads P s) = {k. P k \<and> live (mini_view s) k \<noteq> None}"
    unfolding mini_live by (auto simp: mini_reads_def)
qed (simp_all add: mini_reads_def mini_view_def length_fields_of)

subsection \<open>A worker that keeps beating\<close>

text \<open>
  After a heartbeat the worker counts until its registration expires, and then only other workers do; a removed one does not
  count at all.
\<close>

lemma heartbeat_effect:
  assumes "redis R view"
  shows "view (snd (heartbeat_worker R g reply now n d ttl s)) = (if reply = Not_sent then view s
    else (view s)\<lparr>strings := (strings (view s))(Worker_key (wg_worker g)
        := Some (VWorker (heartbeat_value g now n d), server_time (view s) + ttl))\<rparr>)"
proof -
  note set_ex_law = redis.set_ex_law [OF assms(1)]
  show ?thesis by (cases reply) (simp_all add: heartbeat_worker_def through_def set_ex_law)
qed

lemma worker_counted_while_beating:
  assumes "redis_stats R view Q" "reply \<noteq> Not_sent" "0 \<le> d"
    and s1: "s1 = pass_time R d (snd (heartbeat_worker R g reply now n dr ttl s))"
    and "snapshot hashes_of R Q answered later (\<lambda>_. s1) = Inr m"
  shows "worker_health (Inr m) \<longleftrightarrow> d < ttl \<or> (\<exists>w. w \<noteq> wg_worker g \<and> live (view s1) (Worker_key w) \<noteq> None)"
proof -
  note pass_time_law = redis.pass_time_law [OF redis_stats.axioms(1) [OF assms(1)]]
    and redis_axioms = redis_stats.axioms(1) [OF assms(1)]
  have "live (view s1) (Worker_key (wg_worker g)) \<noteq> None \<longleftrightarrow> d < ttl"
    using assms(2,3) by (simp add: s1 pass_time_law heartbeat_effect [OF redis_axioms] live_def)
  moreover have "0 < qm_workers m \<longleftrightarrow> (\<exists>w. live (view s1) (Worker_key w) \<noteq> None)"
    using snapshot_counts_workers [OF assms(1,5)]
    by (metis (mono_tags, lifting) empty_Collect_eq gr0I image_is_empty length_0_conv length_greater_0_conv set_empty)
  ultimately have "0 < qm_workers m \<longleftrightarrow> d < ttl \<or> (\<exists>w. w \<noteq> wg_worker g \<and> live (view s1) (Worker_key w) \<noteq> None)"
    by metis
  then show ?thesis by (simp add: worker_health_def)
qed

subsection \<open>Samples and findings\<close>

definition no_observations :: "'s \<Rightarrow> observations" where
  "no_observations s = \<lparr>totals = [], samples = []\<rparr>"

definition sample_registry :: worker_registry where
  "sample_registry = WorkerRegistry ''w'' 2 ''i'' 0"

definition watched_store :: "(queue_key, queue_value) mini_store" where
  "watched_store = snd (heartbeat_worker mini_redis sample_registry Answered 1 1 False 30
     (snd (enqueue mini_redis (\<lambda>k. k) Answered ''m'' (sample_task ''t'') ''key'' P_HIGH empty_store)))"

definition view_of :: "queue_error + metrics_snapshot \<Rightarrow> (nat list \<times> nat \<times> int) option" where
  "view_of r = (case r of Inl e \<Rightarrow> None | Inr m \<Rightarrow> Some (map snd (qm_ready m), qm_workers m, qm_executions m))"

lemma watched_snapshot:
  "view_of (snapshot no_observations mini_redis mini_reads True 5 (\<lambda>_. watched_store)) = Some ([0, 1, 0, 0], 1, 1)"
  by code_simp

theorem snapshot_reports_store_witness:
  "\<exists>m. snapshot no_observations mini_redis mini_reads True 5 (\<lambda>_. watched_store) = Inr m
     \<and> map_of (qm_ready m) ''high'' = Some 1 \<and> qm_workers m \<noteq> 0"
proof -
  obtain m where m: "snapshot no_observations mini_redis mini_reads True 5 (\<lambda>_. watched_store) = Inr m" "qm_workers m = 1"
    using watched_snapshot by (auto simp: view_of_def split: sum.splits)
  have "length (mini_list (Ready P_HIGH) watched_store) = 1" by code_simp
  then have "length (lists (mini_view watched_store) (Ready P_HIGH)) = 1" by (simp add: mini_view_def)
  then have "map_of (qm_ready m) ''high'' = Some 1"
    using snapshot_reports_store [OF mini_stats.redis_stats_axioms m(1), of P_HIGH] by simp
  then show ?thesis using m by auto
qed

text \<open>
  A ready list whose head cannot be read as an envelope makes every snapshot fail, so the workers count as gone although
  they beat.
\<close>

lemma bad_head_hides_workers:
  "worker_health (snapshot no_observations mini_redis mini_reads True 5
     (\<lambda>_. cmd_rpush mini_redis (Ready P_LOW) (VText ''x'') watched_store)) = False
   \<and> live (mini_view watched_store) (Worker_key ''w'') \<noteq> None"
  unfolding mini_live by (intro conjI; code_simp)

text \<open>
  A retry goes to the end of its list with the instant it was first put in, so the heads do not show the oldest delivery.
\<close>

lemma oldest_age_looks_at_heads:
  "map_option (\<lambda>m. qm_oldest_age m) (case snapshot no_observations mini_redis mini_reads True 100
       (\<lambda>_. cmd_rpush mini_redis (Ready P_HIGH) (VEnvelope ((sample_envelope ''r'' ''old'')\<lparr>env_enqueued_at := 0\<rparr>))
         (cmd_rpush mini_redis (Ready P_HIGH) (VEnvelope ((sample_envelope ''m'' ''new'')\<lparr>env_enqueued_at := 90\<rparr>)) empty_store)) of
     Inl e \<Rightarrow> None | Inr m \<Rightarrow> Some m) = Some (Some 10)"
  by code_simp

text \<open>Between two reads of one pipeline a claim moves a delivery, which is then counted twice or not at all.\<close>

lemma pipeline_counts_twice:
  "case snapshot no_observations mini_redis mini_reads True 5
     (\<lambda>i. if i < 5 then watched_store else cmd_hset mini_redis Inflight ''m'' (VEnvelope (sample_envelope ''m'' ''t''))
        (snd (cmd_lpop mini_redis (Ready P_HIGH) watched_store))) of
     Inl e \<Rightarrow> False | Inr m \<Rightarrow> map snd (qm_ready m) = [0, 1, 0, 0] \<and> qm_inflight m = 1"
  by code_simp

end
