(* ===== verification/Schema.thy ===== *)
theory Schema
  imports Lifecycle
begin

text \<open>
  The database schema. Every table is a declaration in data: those of the models (\<open>database/base.py\<close>,
  \<open>database/control_records.py\<close>), and the operations of the two migrations (\<open>alembic/versions\<close>) with their documented effect on
  a schema. The migrations are shown to reach exactly the declared tables, and to be undone by their downgrades. The last
  section says what a row must be to fit the declaration of its table; no code of the repository writes the workflow
  checkpoints to theirs, so nothing is stated of their rows. SQLAlchemy's rendering of the declarations into SQL is not
  modelled, nor are the defaults of columns, which it fills in before the statement.
\<close>

subsection \<open>Declarations\<close>

text \<open>The flag of a date says whether it keeps its time zone.\<close>

datatype column_type = C_uuid | C_integer | C_text | C_json | C_datetime bool | C_string nat

record column =
  col_name :: string
  col_type :: column_type
  col_null :: bool
  col_primary :: bool

text \<open>A foreign key: its column, the table and the column it refers to, and what a deletion there does, if it is said.\<close>

record reference =
  rf_column :: string
  rf_table :: string
  rf_target :: string
  rf_ondelete :: "string option"

text \<open>Unique keys with their name, if they have one; indexes; foreign keys.\<close>

record table =
  tb_name :: string
  tb_columns :: "column list"
  tb_unique :: "(string option \<times> string list) list"
  tb_indexes :: "(string \<times> string list) list"
  tb_foreign :: "reference list"

definition primary_id :: column where
  "primary_id = \<lparr>col_name = ''id'', col_type = C_uuid, col_null = False, col_primary = True\<rparr>"

definition mapped :: "string \<Rightarrow> column_type \<Rightarrow> column" where
  "mapped n t = \<lparr>col_name = n, col_type = t, col_null = False, col_primary = False\<rparr>"

definition nullable :: "string \<Rightarrow> column_type \<Rightarrow> column" where
  "nullable n t = \<lparr>col_name = n, col_type = t, col_null = True, col_primary = False\<rparr>"

definition of_task :: reference where
  "of_task = \<lparr>rf_column = ''task_id'', rf_table = ''tasks'', rf_target = ''id'', rf_ondelete = Some ''CASCADE''\<rparr>"

text \<open>A column declared with an index gets the default name of the index.\<close>

definition declared ::
  "string \<Rightarrow> column list \<Rightarrow> (string option \<times> string list) list \<Rightarrow> string list \<Rightarrow> reference list \<Rightarrow> table" where
  "declared name cols uniques indexed refs = \<lparr>tb_name = name, tb_columns = cols, tb_unique = uniques,
     tb_indexes = map (\<lambda>c. (''ix_'' @ name @ ''_'' @ c, [c])) indexed, tb_foreign = refs\<rparr>"

subsection \<open>The tables of the models\<close>

definition tasks_table :: table where
  "tasks_table = declared ''tasks''
     [primary_id, mapped ''idempotency_key'' (C_string 255), mapped ''repository'' (C_string 255),
      mapped ''instruction'' C_text, mapped ''state'' (C_string 40), mapped ''risk'' (C_string 20),
      mapped ''created_at'' (C_datetime True), mapped ''updated_at'' (C_datetime True)]
     [(None, [''idempotency_key''])] [''repository'', ''state''] []"

definition task_attempts_table :: table where
  "task_attempts_table = declared ''task_attempts''
     [primary_id, mapped ''task_id'' C_uuid, mapped ''number'' C_integer, mapped ''state'' (C_string 40),
      nullable ''lease_owner'' (C_string 128), nullable ''lease_expires_at'' (C_datetime True)]
     [(Some ''uq_task_attempt_number'', [''task_id'', ''number''])] [''task_id'', ''state'', ''lease_expires_at''] [of_task]"

definition evidence_table :: table where
  "evidence_table = declared ''evidence''
     [primary_id, mapped ''task_id'' C_uuid, mapped ''kind'' (C_string 64), mapped ''summary'' C_text,
      mapped ''immutable_hash'' (C_string 64), mapped ''created_at'' (C_datetime True)]
     [(None, [''immutable_hash''])] [''task_id''] [of_task]"

definition audit_events_table :: table where
  "audit_events_table = declared ''audit_events''
     [primary_id, mapped ''task_id'' C_uuid, mapped ''action'' (C_string 128),
      mapped ''actor'' (C_string 128), mapped ''idempotency_key'' (C_string 255),
      mapped ''detail'' C_text, mapped ''occurred_at'' (C_datetime True)]
     [(None, [''idempotency_key''])] [''task_id''] [of_task]"

definition workflow_checkpoints_table :: table where
  "workflow_checkpoints_table = declared ''workflow_checkpoints''
     [primary_id, mapped ''task_id'' C_uuid, mapped ''sequence'' C_integer,
      mapped ''stage'' (C_string 64), mapped ''input_hash'' (C_string 64),
      mapped ''output_hash'' (C_string 64), mapped ''payload'' C_json, mapped ''created_at'' (C_datetime True)]
     [(Some ''uq_workflow_checkpoint_sequence'', [''task_id'', ''sequence'']), (Some ''uq_workflow_stage_input'', [''task_id'', ''stage'', ''input_hash''])] [''task_id'', ''stage''] []"

definition agent_invocations_table :: table where
  "agent_invocations_table = declared ''agent_invocations''
     [primary_id, mapped ''task_id'' C_uuid, mapped ''role'' (C_string 64),
      mapped ''prompt_version'' (C_string 64), mapped ''input_hash'' (C_string 64),
      mapped ''output_hash'' (C_string 64), mapped ''evidence'' C_json, mapped ''created_at'' (C_datetime True)]
     [] [''task_id'', ''role''] []"

definition prompt_versions_table :: table where
  "prompt_versions_table = declared ''prompt_versions''
     [primary_id, mapped ''role'' (C_string 64), mapped ''version'' (C_string 64),
      mapped ''content_hash'' (C_string 64), mapped ''created_at'' (C_datetime True)]
     [(None, [''content_hash'']), (Some ''uq_prompt_role_version'', [''role'', ''version''])] [] []"

definition model_attempts_table :: table where
  "model_attempts_table = declared ''model_attempts''
     [primary_id, mapped ''invocation_id'' C_uuid, mapped ''provider'' (C_string 128),
      mapped ''model'' (C_string 255), mapped ''outcome'' (C_string 40), mapped ''evidence'' C_json,
      mapped ''created_at'' (C_datetime True)]
     [] [''invocation_id''] []"

definition tool_call_records_table :: table where
  "tool_call_records_table = declared ''tool_call_records''
     [primary_id, mapped ''task_id'' C_uuid, mapped ''name'' (C_string 128),
      mapped ''input_hash'' (C_string 64), mapped ''output_hash'' (C_string 64),
      mapped ''evidence'' C_json, mapped ''created_at'' (C_datetime True)]
     [] [''task_id'', ''name''] []"

definition sandbox_records_table :: table where
  "sandbox_records_table = declared ''sandbox_records''
     [primary_id, mapped ''task_id'' C_uuid, mapped ''state'' (C_string 40),
      mapped ''base_sha'' (C_string 40), mapped ''policy'' C_json, mapped ''created_at'' (C_datetime True)]
     [] [''task_id'', ''state''] []"

definition repository_analyses_table :: table where
  "repository_analyses_table = declared ''repository_analyses''
     [primary_id, mapped ''repository'' (C_string 255), mapped ''commit_sha'' (C_string 40),
      mapped ''configuration_hash'' (C_string 64), mapped ''result'' C_json,
      mapped ''created_at'' (C_datetime True)]
     [(Some ''uq_repository_analysis_cache'', [''repository'', ''commit_sha'', ''configuration_hash''])] [''repository''] []"

definition context_citations_table :: table where
  "context_citations_table = declared ''context_citations''
     [primary_id, mapped ''analysis_id'' C_uuid, mapped ''path'' C_text, mapped ''line_start'' C_integer,
      mapped ''line_end'' C_integer, mapped ''content_hash'' (C_string 64),
      mapped ''created_at'' (C_datetime True)]
     [] [''analysis_id''] []"

definition github_installation_references_table :: table where
  "github_installation_references_table = declared ''github_installation_references''
     [primary_id, mapped ''installation_id'' C_integer, mapped ''repository'' (C_string 255),
      mapped ''permissions'' C_json, mapped ''created_at'' (C_datetime True)]
     [(Some ''uq_installation_repository'', [''installation_id'', ''repository''])] [] []"

definition branch_deliveries_table :: table where
  "branch_deliveries_table = declared ''branch_deliveries''
     [primary_id, mapped ''task_id'' C_uuid, mapped ''repository'' (C_string 255),
      mapped ''branch'' (C_string 255), mapped ''base_sha'' (C_string 40),
      nullable ''head_sha'' (C_string 40), mapped ''created_at'' (C_datetime True)]
     [(None, [''task_id''])] [] []"

definition review_findings_table :: table where
  "review_findings_table = declared ''review_findings''
     [primary_id, mapped ''task_id'' C_uuid, mapped ''fingerprint'' (C_string 64),
      mapped ''severity'' (C_string 20), mapped ''evidence'' C_json, mapped ''created_at'' (C_datetime True)]
     [] [''task_id'', ''fingerprint''] []"

definition guard_receipt_records_table :: table where
  "guard_receipt_records_table = declared ''guard_receipt_records''
     [primary_id, mapped ''task_id'' C_uuid, mapped ''skill'' (C_string 128),
      mapped ''receipt_hash'' (C_string 64), mapped ''receipt'' C_json, mapped ''created_at'' (C_datetime True)]
     [(None, [''receipt_hash''])] [''task_id''] []"

definition policy_decision_records_table :: table where
  "policy_decision_records_table = declared ''policy_decision_records''
     [primary_id, mapped ''task_id'' C_uuid, mapped ''decision_hash'' (C_string 64),
      mapped ''decision'' C_json, mapped ''created_at'' (C_datetime True)]
     [(None, [''decision_hash''])] [''task_id''] []"

definition approval_records_table :: table where
  "approval_records_table = declared ''approval_records''
     [primary_id, mapped ''task_id'' C_uuid, mapped ''approval_id'' (C_string 128),
      mapped ''record'' C_json, nullable ''consumed_at'' (C_datetime True), mapped ''created_at'' (C_datetime True)]
     [(None, [''approval_id''])] [''task_id''] []"

definition draft_pr_deliveries_table :: table where
  "draft_pr_deliveries_table = declared ''draft_pr_deliveries''
     [primary_id, mapped ''task_id'' C_uuid, mapped ''repository'' (C_string 255),
      nullable ''pull_number'' C_integer, mapped ''payload_hash'' (C_string 64),
      mapped ''payload'' C_json, mapped ''created_at'' (C_datetime True)]
     [(None, [''task_id'']), (None, [''payload_hash''])] [] []"

definition base_tables :: "table list" where
  "base_tables = [tasks_table, task_attempts_table, evidence_table, audit_events_table]"

definition control_tables :: "table list" where
  "control_tables = [workflow_checkpoints_table, agent_invocations_table, prompt_versions_table, model_attempts_table,
     tool_call_records_table, sandbox_records_table, repository_analyses_table, context_citations_table,
     github_installation_references_table, branch_deliveries_table, review_findings_table,
     guard_receipt_records_table, policy_decision_records_table, approval_records_table,
     draft_pr_deliveries_table]"

subsection \<open>The migrations\<close>

datatype operation = Create_table table | Create_index string string "string list" | Drop_table string

text \<open>An operation on the tables of a schema; \<open>None\<close> is the error of the server.\<close>

definition has_table :: "string \<Rightarrow> table list \<Rightarrow> bool" where
  "has_table n s \<longleftrightarrow> n \<in> set (map tb_name s)"

definition has_column :: "string \<Rightarrow> string \<Rightarrow> table list \<Rightarrow> bool" where
  "has_column n c s \<longleftrightarrow> list_ex (\<lambda>t. tb_name t = n \<and> c \<in> set (map col_name (tb_columns t))) s"

definition index_names :: "table list \<Rightarrow> string list" where
  "index_names s = concat (map (\<lambda>t. map fst (tb_indexes t)) s)"

definition add_index :: "string \<Rightarrow> string \<Rightarrow> string list \<Rightarrow> table \<Rightarrow> table" where
  "add_index i n cs t = (if tb_name t = n then t\<lparr>tb_indexes := tb_indexes t @ [(i, cs)]\<rparr> else t)"

fun run_operation :: "operation \<Rightarrow> table list \<Rightarrow> table list option" where
  "run_operation (Create_table t) s =
     (if has_table (tb_name t) s \<or> list_ex (\<lambda>f. \<not> has_column (rf_table f) (rf_target f) s) (tb_foreign t)
         \<or> list_ex (\<lambda>(i, cs). i \<in> set (index_names s)) (tb_indexes t) then None else Some (s @ [t]))"
| "run_operation (Create_index i n cs) s =
     (if \<not> has_table n s \<or> i \<in> set (index_names s)
         \<or> list_ex (\<lambda>t. tb_name t = n \<and> \<not> set cs \<subseteq> set (map col_name (tb_columns t))) s then None
      else Some (map (add_index i n cs) s))"
| "run_operation (Drop_table n) s =
     (if \<not> has_table n s \<or> list_ex (\<lambda>t. tb_name t \<noteq> n \<and> list_ex (\<lambda>f. rf_table f = n) (tb_foreign t)) s then None
      else Some (filter (\<lambda>t. tb_name t \<noteq> n) s))"

fun run_operations :: "operation list \<Rightarrow> table list \<Rightarrow> table list option" where
  "run_operations [] s = Some s"
| "run_operations (p # ps) s = (case run_operation p s of None \<Rightarrow> None | Some s1 \<Rightarrow> run_operations ps s1)"

definition plain_table ::
  "string \<Rightarrow> column list \<Rightarrow> (string option \<times> string list) list \<Rightarrow> reference list \<Rightarrow> operation" where
  "plain_table name cols uniques refs = Create_table
     \<lparr>tb_name = name, tb_columns = cols, tb_unique = uniques, tb_indexes = [], tb_foreign = refs\<rparr>"

definition upgrade_0001 :: "operation list" where
  "upgrade_0001 =
     [plain_table ''tasks''
         [primary_id, mapped ''idempotency_key'' (C_string 255), mapped ''repository'' (C_string 255),
          mapped ''instruction'' C_text, mapped ''state'' (C_string 40), mapped ''risk'' (C_string 20),
          mapped ''created_at'' (C_datetime True), mapped ''updated_at'' (C_datetime True)]
         [(None, [''idempotency_key''])] [],
      Create_index ''ix_tasks_repository'' ''tasks'' [''repository''],
      Create_index ''ix_tasks_state'' ''tasks'' [''state''],
      plain_table ''task_attempts''
         [primary_id, mapped ''task_id'' C_uuid, mapped ''number'' C_integer, mapped ''state'' (C_string 40),
          nullable ''lease_owner'' (C_string 128), nullable ''lease_expires_at'' (C_datetime True)]
         [(Some ''uq_task_attempt_number'', [''task_id'', ''number''])] [\<lparr>rf_column = ''task_id'', rf_table = ''tasks'', rf_target = ''id'', rf_ondelete = Some ''CASCADE''\<rparr>],
      Create_index ''ix_task_attempts_task_id'' ''task_attempts'' [''task_id''],
      Create_index ''ix_task_attempts_state'' ''task_attempts'' [''state''],
      Create_index ''ix_task_attempts_lease_expires_at'' ''task_attempts'' [''lease_expires_at''],
      plain_table ''evidence''
         [primary_id, mapped ''task_id'' C_uuid, mapped ''kind'' (C_string 64), mapped ''summary'' C_text,
          mapped ''immutable_hash'' (C_string 64), mapped ''created_at'' (C_datetime True)]
         [(None, [''immutable_hash''])] [\<lparr>rf_column = ''task_id'', rf_table = ''tasks'', rf_target = ''id'', rf_ondelete = Some ''CASCADE''\<rparr>],
      Create_index ''ix_evidence_task_id'' ''evidence'' [''task_id''],
      plain_table ''audit_events''
         [primary_id, mapped ''task_id'' C_uuid, mapped ''action'' (C_string 128),
          mapped ''actor'' (C_string 128), mapped ''idempotency_key'' (C_string 255), mapped ''detail'' C_text,
          mapped ''occurred_at'' (C_datetime True)]
         [(None, [''idempotency_key''])] [\<lparr>rf_column = ''task_id'', rf_table = ''tasks'', rf_target = ''id'', rf_ondelete = Some ''CASCADE''\<rparr>],
      Create_index ''ix_audit_events_task_id'' ''audit_events'' [''task_id'']]"

definition downgrade_0001 :: "operation list" where
  "downgrade_0001 = map Drop_table [''audit_events'', ''evidence'', ''task_attempts'', ''tasks'']"

definition TABLES :: "string list" where
  "TABLES = [''workflow_checkpoints'', ''agent_invocations'', ''prompt_versions'', ''model_attempts'',
     ''tool_call_records'', ''sandbox_records'', ''repository_analyses'', ''context_citations'',
     ''github_installation_references'', ''branch_deliveries'', ''review_findings'', ''guard_receipt_records'',
     ''policy_decision_records'', ''approval_records'', ''draft_pr_deliveries'']"

text \<open>\<open>Base.metadata.tables[name].create\<close>: the table with its indexes; a name without a declaration would raise.\<close>

definition metadata_table :: "string \<Rightarrow> table option" where
  "metadata_table n = List.find (\<lambda>t. tb_name t = n) (base_tables @ control_tables)"

definition upgrade_0002 :: "operation list" where
  "upgrade_0002 = map (\<lambda>n. Create_table (the (metadata_table n))) TABLES"

definition downgrade_0002 :: "operation list" where
  "downgrade_0002 = map Drop_table (rev TABLES)"

subsection \<open>The migrations reach the declarations, and go back\<close>

text \<open>An operation that works on a schema works the same beside tables that share nothing with it.\<close>

fun separate :: "table list \<Rightarrow> operation \<Rightarrow> bool" where
  "separate u (Create_table t) \<longleftrightarrow> \<not> has_table (tb_name t) u \<and> list_all (\<lambda>(i, cs). i \<notin> set (index_names u)) (tb_indexes t)"
| "separate u (Create_index i n cs) \<longleftrightarrow> i \<notin> set (index_names u) \<and> \<not> has_table n u"
| "separate u (Drop_table n) \<longleftrightarrow> \<not> has_table n u \<and> list_all (\<lambda>t. list_all (\<lambda>f. rf_table f \<noteq> n) (tb_foreign t)) u"

lemma has_table_append [simp]: "has_table n (u @ s) \<longleftrightarrow> has_table n u \<or> has_table n s"
  by (auto simp: has_table_def)

lemma has_column_append [simp]: "has_column n c (u @ s) \<longleftrightarrow> has_column n c u \<or> has_column n c s"
  by (simp add: has_column_def)

lemma index_names_append [simp]: "index_names (u @ s) = index_names u @ index_names s"
  by (simp add: index_names_def)

lemma other_tables_kept:
  assumes "\<not> has_table n u"
  shows "map (add_index i n cs) u = u" "filter (\<lambda>t. tb_name t \<noteq> n) u = u" "list_ex (\<lambda>t. tb_name t = n \<and> P t) u = False"
proof -
  have "tb_name t \<noteq> n" if "t \<in> set u" for t using that assms by (auto simp: has_table_def)
  then show "map (add_index i n cs) u = u" "filter (\<lambda>t. tb_name t \<noteq> n) u = u" "list_ex (\<lambda>t. tb_name t = n \<and> P t) u = False"
    by (auto simp: add_index_def list_ex_iff intro!: map_idI filter_True)
qed

lemma operation_frame:
  assumes "run_operation p s = Some s1" "separate u p"
  shows "run_operation p (u @ s) = Some (u @ s1)"
proof (cases p)
  case (Create_table t)
  then show ?thesis using assms by (auto simp: list_ex_iff list_all_iff split: if_splits)
next
  case (Create_index i n cs)
  have "\<not> has_table n u" using assms(2) Create_index by simp
  from other_tables_kept [OF this] show ?thesis
    using assms Create_index by (auto split: if_splits)
next
  case (Drop_table n)
  have "\<not> has_table n u" using assms(2) Drop_table by simp
  from other_tables_kept [OF this] show ?thesis
    using assms Drop_table by (auto simp: list_ex_iff list_all_iff split: if_splits)
qed

lemma operations_frame:
  "\<lbrakk>run_operations ps s = Some s1; list_all (separate u) ps\<rbrakk> \<Longrightarrow> run_operations ps (u @ s) = Some (u @ s1)"
  by (induction ps arbitrary: s) (auto simp: operation_frame split: option.splits)

lemma upgrade_from_nothing: "run_operations (upgrade_0001 @ upgrade_0002) [] = Some (base_tables @ control_tables)"
  by code_simp

lemma downgrade_to_nothing: "run_operations (downgrade_0002 @ downgrade_0001) (base_tables @ control_tables) = Some []"
  by code_simp

text \<open>
  C32. The migrations and the models agree. In a database whose other tables share no name, index or reference with
  them, the two upgrades in their order create exactly the tables the models declare: each column with its type, width,
  time zone and nullability, each unique key, index, and reference with its target column and cascade. The first
  migration writes its four tables out, the second creates from the models the tables of its own list of names, which
  leaves none out. The two downgrades never drop a table still referred to, and lead back.
\<close>

theorem migrations_agree_with_models:
  assumes "list_all (separate u) (upgrade_0001 @ upgrade_0002 @ downgrade_0002 @ downgrade_0001)"
  shows "run_operations (upgrade_0001 @ upgrade_0002) u = Some (u @ base_tables @ control_tables)
    \<and> run_operations (downgrade_0002 @ downgrade_0001) (u @ base_tables @ control_tables) = Some u"
  using operations_frame [OF upgrade_from_nothing, of u] operations_frame [OF downgrade_to_nothing, of u] assms by simp

text \<open>Alembic keeps its own table beside them.\<close>

definition alembic_version :: table where
  "alembic_version = \<lparr>tb_name = ''alembic_version'', tb_columns = [\<lparr>col_name = ''version_num'', col_type = C_string 32,
     col_null = False, col_primary = True\<rparr>], tb_unique = [], tb_indexes = [], tb_foreign = []\<rparr>"

theorem migrations_agree_with_models_witness:
  "run_operations (downgrade_0002 @ downgrade_0001) ([alembic_version] @ base_tables @ control_tables) = Some [alembic_version]"
proof -
  have "list_all (separate [alembic_version]) (upgrade_0001 @ upgrade_0002 @ downgrade_0002 @ downgrade_0001)" by code_simp
  from migrations_agree_with_models [OF this] show ?thesis by blast
qed

subsection \<open>Rows and the declared columns and keys\<close>

datatype cell = Null | Uuid string | Whole int | Chars string | Document string | Moment instant

type_synonym row = "(string \<times> cell) list"

fun cell_fits :: "column_type \<Rightarrow> cell \<Rightarrow> bool" where
  "cell_fits C_uuid (Uuid u) = True"
| "cell_fits C_integer (Whole i) = (- (2 ^ 31) \<le> i \<and> i < 2 ^ 31)"
| "cell_fits C_text (Chars s) = True"
| "cell_fits (C_string n) (Chars s) = (length s \<le> n)"
| "cell_fits C_json (Document s) = True"
| "cell_fits (C_datetime z) (Moment t) = True"
| "cell_fits t c = False"

definition row_fits :: "table \<Rightarrow> row \<Rightarrow> bool" where
  "row_fits t r \<longleftrightarrow> list_all2 (\<lambda>col (n, c). n = col_name col \<and> (if c = Null then col_null col else cell_fits (col_type col) c))
     (tb_columns t) r"

definition unique_keys :: "table \<Rightarrow> string list list" where
  "unique_keys t = map (\<lambda>c. [col_name c]) (filter col_primary (tb_columns t)) @ map snd (tb_unique t)"

definition cells_of :: "string list \<Rightarrow> row \<Rightarrow> cell list" where
  "cells_of cs r = map (\<lambda>c. case map_of r c of None \<Rightarrow> Null | Some v \<Rightarrow> v) cs"

text \<open>Two rows clash on a key when they agree on it and it has no null.\<close>

definition clash :: "string list \<Rightarrow> row \<Rightarrow> row \<Rightarrow> bool" where
  "clash cs r r' \<longleftrightarrow> cells_of cs r = cells_of cs r' \<and> Null \<notin> set (cells_of cs r)"

end
