(* ===== verification/Planning.thy ===== *)
theory Planning
  imports Agents Policy Lifecycle
begin

text \<open>
  The planning half of the older workflow (\<open>orchestrator/workflow.py\<close>): a task is planned by a model through the router
  and its paths are authorised by the policy, both on the task record of \<open>Lifecycle\<close>. The two steps are composed from
  the definitions of the components they call.
\<close>

definition PLANNER_SYSTEM :: string where
  "PLANNER_SYSTEM = (case map_of PROMPTS ''planner'' of None \<Rightarrow> [] | Some p \<Rightarrow> vp_text p)"

datatype planning_error = Bad_transition transition_error | No_plan routing_error

definition planning_request :: "task_record \<Rightarrow> string \<Rightarrow> model_request" where
  "planning_request t context = \<lparr>mq_messages = [\<lparr>mm_role = ''user'', mm_content = instruction (task_request t)\<rparr>,
       \<lparr>mm_role = ''user'', mm_content = context\<rparr>],
     mq_system = Some PLANNER_SYSTEM, mq_temperature = 1 / 10, mq_max_output = 8192\<rparr>"

text \<open>\<open>transition(task, state, note)\<close> with its defaults.\<close>

definition move :: "instant \<Rightarrow> task_state \<Rightarrow> string \<Rightarrow> task_record \<Rightarrow> transition_error option \<times> task_record" where
  "move now st note t = transition now t st (Some note) None ''control-plane''"

definition note_evidence :: "string \<Rightarrow> task_record \<Rightarrow> task_record" where
  "note_evidence e t = t\<lparr>evidence := evidence t @ [e]\<rparr>"

definition plan_note :: "model_response \<Rightarrow> string" where
  "plan_note r = ''plan:'' @ mr_provider r @ '':'' @ mr_model r @ '':'' @ mr_text r"

text \<open>Planning passes no cancellation event.\<close>

definition uncancelled :: "'s surroundings \<Rightarrow> 's surroundings" where
  "uncancelled E = E\<lparr>cancelled := (\<lambda>s. False)\<rparr>"

definition plan ::
  "'s surroundings \<Rightarrow> instant \<Rightarrow> instant \<Rightarrow> string \<Rightarrow> task_record \<Rightarrow> 's router \<Rightarrow> 's
   \<Rightarrow> planning_error option \<times> task_record \<times> 's router \<times> 's" where
  "plan E now later context t R s =
     (case move now CONTEXT_READY ''repository-context-built'' t of
        (Some e, t1) \<Rightarrow> (Some (Bad_transition e), t1, R, s)
      | (None, t1) \<Rightarrow>
          (case router_generate (uncancelled E) PLANNER (planning_request t1 context) None None R s of
             (Inl e, R1, s1) \<Rightarrow> (Some (No_plan e), t1, R1, s1)
           | (Inr resp, R1, s1) \<Rightarrow>
               (case move later PLANNED ''plan-generated'' (note_evidence (plan_note resp) t1) of
                  (e, t2) \<Rightarrow> (map_option Bad_transition e, t2, R1, s1))))"

definition authorize_paths :: "instant \<Rightarrow> string list \<Rightarrow> task_record \<Rightarrow> transition_error option \<times> task_record" where
  "authorize_paths now paths t =
     (let d = evaluate_paths paths; t1 = note_evidence (''policy:'' @ cd_reason d) (t\<lparr>task_risk := cd_risk d\<rparr>) in
      if cd_approval_required d then move now APPROVAL_REQUIRED ''human-approval-required'' t1
      else move now EXECUTING ''execution-authorized'' t1)"

definition needs_approval :: "string list \<Rightarrow> bool" where
  "needs_approval paths \<longleftrightarrow> list_ex (\<lambda>p. list_ex (under_root (path_str p)) protected_roots) paths"

subsection \<open>One move\<close>

definition default_key :: "task_state \<Rightarrow> task_state \<Rightarrow> string \<Rightarrow> string" where
  "default_key source target note = ''transition:'' @ state_value source @ '':'' @ state_value target @ '':'' @ note"

definition moved_to :: "instant \<Rightarrow> task_state \<Rightarrow> string \<Rightarrow> task_record \<Rightarrow> task_record" where
  "moved_to now st note t = t\<lparr>task_state := st, updated_at := now, evidence := evidence t @ [note], audit_events := audit_events t
     @ [\<lparr>ae_action = ''task.transition'', ae_actor = ''control-plane'', ae_key = default_key (task_state t) st note,
         ae_occurred_at = now, ae_detail = edge_detail (task_state t) st\<rparr>]\<rparr>"

text \<open>A move along an edge whose key is new, with a short note, does all a transition does.\<close>

lemma move_new:
  assumes "st \<in> set (ALLOWED (task_state t))" "default_key (task_state t) st note \<notin> ae_key ` set (audit_events t)"
    "note \<noteq> []" "length note \<le> 200"
  shows "move now st note t = (None, moved_to now st note t)"
proof -
  have "length (default_key (task_state t) st note) \<le> 255"
    using assms(4) length_state_value [of "task_state t"] length_state_value [of st] by (simp add: default_key_def)
  moreover have "length (edge_detail (task_state t) st) \<le> 4000" using length_edge_detail [of "task_state t" st] by simp
  ultimately show ?thesis
    using assms(1,2,3)
    by (auto simp: move_def transition_def transition_key_def default_key_def [symmetric] AuditEvent_def moved_to_def Let_def
        str_or_def image_iff default_key_def)
qed

lemma move_denied:
  assumes "st \<notin> set (ALLOWED (task_state t))" "default_key (task_state t) st note \<notin> ae_key ` set (audit_events t)"
  shows "move now st note t = (Some (InvalidTransition (task_state t) st), t)"
  using assms by (auto simp: move_def transition_def transition_key_def default_key_def Let_def str_or_def image_iff)

lemma note_evidence_simps [simp]:
  "task_state (note_evidence e t) = task_state t" "audit_events (note_evidence e t) = audit_events t"
  "evidence (note_evidence e t) = evidence t @ [e]" "task_risk (note_evidence e t) = task_risk t"
  "task_request (note_evidence e t) = task_request t"
  by (simp_all add: note_evidence_def)

lemma moved_to_simps [simp]:
  "task_state (moved_to now st note t) = st" "evidence (moved_to now st note t) = evidence t @ [note]"
  "task_risk (moved_to now st note t) = task_risk t" "task_request (moved_to now st note t) = task_request t"
  "map ae_key (audit_events (moved_to now st note t)) = map ae_key (audit_events t) @ [default_key (task_state t) st note]"
  "map ae_detail (audit_events (moved_to now st note t)) = map ae_detail (audit_events t) @ [edge_detail (task_state t) st]"
  by (simp_all add: moved_to_def)

lemma keys_of: "ae_key ` set es = set (map ae_key es)"
  by simp

subsection \<open>The two steps\<close>

text \<open>The first move of planning a new task, and what the model's answer then leads to.\<close>

lemma first_move:
  "\<lbrakk>task_state t = RECEIVED; audit_events t = []\<rbrakk> \<Longrightarrow>
     move now CONTEXT_READY ''repository-context-built'' t = (None, moved_to now CONTEXT_READY ''repository-context-built'' t)"
  by (rule move_new) simp_all

lemma planned_task:
  assumes "task_state t = RECEIVED" "audit_events t = []"
    "router_generate (uncancelled E) PLANNER (planning_request t context) None None R s = (Inr resp, R1, s1)"
  shows "plan E n1 n2 context t R s = (None, moved_to n2 PLANNED ''plan-generated''
      (note_evidence (plan_note resp) (moved_to n1 CONTEXT_READY ''repository-context-built'' t)), R1, s1)"
proof -
  let ?t = "moved_to n1 CONTEXT_READY ''repository-context-built'' t"
  have q: "planning_request ?t context = planning_request t context" by (simp add: planning_request_def)
  have "move n2 PLANNED ''plan-generated'' (note_evidence (plan_note resp) ?t)
      = (None, moved_to n2 PLANNED ''plan-generated'' (note_evidence (plan_note resp) ?t))"
    by (rule move_new) (simp_all add: keys_of assms(1,2) default_key_def del: set_map)
  then show ?thesis by (simp add: plan_def first_move [OF assms(1,2)] q assms(3))
qed

lemma plan_outcome:
  assumes "task_state t = RECEIVED" "audit_events t = []" "plan E n1 n2 context t R s = (None, t1, R1, s1)"
  shows "\<exists>resp. router_generate (uncancelled E) PLANNER (planning_request t context) None None R s = (Inr resp, R1, s1)
    \<and> t1 = moved_to n2 PLANNED ''plan-generated''
        (note_evidence (plan_note resp) (moved_to n1 CONTEXT_READY ''repository-context-built'' t))"
proof -
  obtain res R2 s2 where g: "router_generate (uncancelled E) PLANNER (planning_request t context) None None R s = (res, R2, s2)"
    by (metis prod_cases3)
  have q: "planning_request (moved_to n1 CONTEXT_READY ''repository-context-built'' t) context = planning_request t context"
    by (simp add: planning_request_def)
  obtain resp where "res = Inr resp"
    using assms(3) by (cases res) (auto simp: plan_def first_move [OF assms(1,2)] q g)
  then show ?thesis using planned_task [OF assms(1,2), of E "context" R s resp R2 s2 n1 n2] assms(3) g by simp
qed

lemma evaluate_paths_iff:
  "cd_approval_required (evaluate_paths paths) = needs_approval paths"
  "cd_risk (evaluate_paths paths) = (if needs_approval paths then HIGH else MEDIUM)"
proof -
  show a: "cd_approval_required (evaluate_paths paths) = needs_approval paths"
    by (simp add: evaluate_paths_guarded needs_approval_def)
  show "cd_risk (evaluate_paths paths) = (if needs_approval paths then HIGH else MEDIUM)"
    unfolding a [symmetric] by (simp add: evaluate_paths_def Let_def)
qed

lemma PLANNER_SYSTEM_literal:
  "PLANNER_SYSTEM = ''Plan from cited repository evidence. Be explicit about uncertainty. '' @
     ''Propose read-only investigation before changes; never claim work is already fixed.''"
  by (simp add: PLANNER_SYSTEM_def PROMPTS_def)

text \<open>
  C28. A received task without audit events that is planned and then authorised goes where its paths allow. If planning
  succeeds, the router was asked once, as planner, with the planner's prompt as system text, the instruction and the
  context as two user messages, temperature 0.1 and 8192 tokens, and authorising then succeeds: the task waits for
  approval at high risk when a path lies under a protected root, and executes at medium risk otherwise; evidence is
  the context, the plan with the answering provider, model and text, and the decision; the audit log has the three edges.
\<close>

theorem planned_then_authorized:
  assumes "task_state t = RECEIVED" "audit_events t = []"
    and "plan E n1 n2 context t R s = (None, t1, R1, s1)"
    and "authorize_paths n3 paths t1 = (e, t2)"
  shows "\<exists>resp. router_generate (uncancelled E) PLANNER
        \<lparr>mq_messages = [\<lparr>mm_role = ''user'', mm_content = instruction (task_request t)\<rparr>, \<lparr>mm_role = ''user'', mm_content = context\<rparr>],
         mq_system = Some (''Plan from cited repository evidence. Be explicit about uncertainty. '' @
           ''Propose read-only investigation before changes; never claim work is already fixed.''), mq_temperature = 1 / 10, mq_max_output = 8192\<rparr> None None R s = (Inr resp, R1, s1)
    \<and> e = None \<and> task_state t2 = (if needs_approval paths then APPROVAL_REQUIRED else EXECUTING)
    \<and> task_risk t2 = (if needs_approval paths then HIGH else MEDIUM)
    \<and> evidence t2 = evidence t @ [''repository-context-built'',
         ''plan:'' @ mr_provider resp @ '':'' @ mr_model resp @ '':'' @ mr_text resp, ''plan-generated'',
         ''policy:'' @ cd_reason (evaluate_paths paths),
         if needs_approval paths then ''human-approval-required'' else ''execution-authorized'']
    \<and> map ae_detail (audit_events t2) = [edge_detail RECEIVED CONTEXT_READY, edge_detail CONTEXT_READY PLANNED,
         edge_detail PLANNED (if needs_approval paths then APPROVAL_REQUIRED else EXECUTING)]"
proof -
  obtain resp where g: "router_generate (uncancelled E) PLANNER (planning_request t context) None None R s = (Inr resp, R1, s1)"
    and t1: "t1 = moved_to n2 PLANNED ''plan-generated''
        (note_evidence (plan_note resp) (moved_to n1 CONTEXT_READY ''repository-context-built'' t))"
    using plan_outcome [OF assms(1-3)] by blast
  let ?t = "note_evidence (''policy:'' @ cd_reason (evaluate_paths paths)) (t1\<lparr>task_risk := cd_risk (evaluate_paths paths)\<rparr>)"
  have keys: "map ae_key (audit_events ?t) = [default_key RECEIVED CONTEXT_READY ''repository-context-built'',
      default_key CONTEXT_READY PLANNED ''plan-generated'']" and state: "task_state ?t = PLANNED"
    by (simp_all add: t1 assms(1,2))
  have "move n3 APPROVAL_REQUIRED ''human-approval-required'' ?t
      = (None, moved_to n3 APPROVAL_REQUIRED ''human-approval-required'' ?t)"
    by (rule move_new) (simp_all only: keys_of keys state, simp_all add: default_key_def)
  moreover have "move n3 EXECUTING ''execution-authorized'' ?t = (None, moved_to n3 EXECUTING ''execution-authorized'' ?t)"
    by (rule move_new) (simp_all only: keys_of keys state, simp_all add: default_key_def)
  ultimately have "e = None \<and> t2 = (if needs_approval paths then moved_to n3 APPROVAL_REQUIRED ''human-approval-required'' ?t
      else moved_to n3 EXECUTING ''execution-authorized'' ?t)"
    using assms(4) by (simp add: authorize_paths_def Let_def evaluate_paths_iff split: if_splits)
  then show ?thesis using g
    by (intro exI [of _ resp]) (simp add: t1 assms(1,2) evaluate_paths_iff planning_request_def PLANNER_SYSTEM_literal plan_note_def)
qed

definition received_task :: task_record where
  "received_task = new_task ''t'' \<lparr>repository = ''o/r'', instruction = ''fix it'', base_branch = ''main'', dry_run = True\<rparr> 0"

theorem planned_then_authorized_witness:
  "\<exists>t1 R1 t2. plan still 1 2 ''context'' received_task sample_router () = (None, t1, R1, ())
     \<and> authorize_paths 3 [''migrations/1.sql''] t1 = (None, t2) \<and> task_state t2 = APPROVAL_REQUIRED"
proof -
  have start: "task_state received_task = RECEIVED" "audit_events received_task = []"
    by (simp_all add: received_task_def new_task_def)
  define R1 where "R1 = fst (snd (router_generate (uncancelled still) PLANNER (planning_request received_task ''context'') None None sample_router ()))"
  have run: "router_generate (uncancelled still) PLANNER (planning_request received_task ''context'') None None sample_router ()
      = (Inr sample_answer, R1, ())"
    by (simp add: R1_def uncancelled_def router_generate_def sample_router_def route_candidates_def full_route_def good_route_def planning_request_def
        still_def attempt_def route_attempts.simps structured_result_def ProviderError_def Let_def)
  obtain t1 where p: "plan still 1 2 ''context'' received_task sample_router () = (None, t1, R1, ())"
    using planned_task [OF start run] by blast
  obtain e t2 where a: "authorize_paths 3 [''migrations/1.sql''] t1 = (e, t2)" by fastforce
  have "needs_approval [''migrations/1.sql'']" by code_simp
  moreover obtain resp where "e = None \<and> task_state t2 = (if needs_approval [''migrations/1.sql''] then APPROVAL_REQUIRED else EXECUTING)"
    using planned_then_authorized [OF start p a] by blast
  ultimately show ?thesis using p a by simp
qed

subsection \<open>What the code should not do\<close>

text \<open>When the model does not answer, the task stays in a state from which planning is refused: it cannot be planned again.\<close>

lemma failed_plan_is_final:
  assumes "task_state t = RECEIVED" "audit_events t = []"
    "router_generate (uncancelled E) PLANNER (planning_request t context) None None R s = (Inl e, R1, s1)"
    "plan E n1 n2 context t R s = (x, t1, R1, s1)"
  shows "x = Some (No_plan e) \<and> plan E' n3 n4 context' t1 R' s'
    = (Some (Bad_transition (InvalidTransition CONTEXT_READY CONTEXT_READY)), t1, R', s')"
proof -
  let ?t = "moved_to n1 CONTEXT_READY ''repository-context-built'' t"
  have q: "planning_request ?t context = planning_request t context" by (simp add: planning_request_def)
  have t1: "x = Some (No_plan e)" "t1 = ?t" using assms(4) by (simp_all add: plan_def first_move [OF assms(1,2)] q assms(3))
  have "move n3 CONTEXT_READY ''repository-context-built'' ?t = (Some (InvalidTransition CONTEXT_READY CONTEXT_READY), ?t)"
    using move_denied [of CONTEXT_READY ?t "''repository-context-built''" n3]
    by (simp add: keys_of assms(1,2) default_key_def del: set_map)
  then show ?thesis by (simp add: t1 plan_def)
qed

text \<open>An authorisation that is refused has already set the risk and written its evidence.\<close>

lemma refused_authorization_leaves_evidence:
  assumes "task_state t = COMPLETED" "audit_events t = []" "\<not> needs_approval paths"
  shows "\<exists>t'. authorize_paths now paths t = (Some (InvalidTransition COMPLETED EXECUTING), t')
    \<and> evidence t' = evidence t @ [''policy:'' @ cd_reason (evaluate_paths paths)] \<and> task_risk t' = MEDIUM"
  using assms by (simp add: authorize_paths_def Let_def evaluate_paths_iff move_denied)

end
