(* ===== verification/Embeddings.thy ===== *)
theory Embeddings
  imports Model_Services
begin

text \<open>
  The embeddings client (\<open>providers/embeddings.py\<close>): the limits of a batch, the request, and the reading, ordering and
  checking of the vectors that come back. What pydantic makes of an index and of a vector is a parameter, as is the
  HTTP client.
\<close>

subsection \<open>Data\<close>

record 'f embedding_vector =
  ev_index :: int
  ev_vector :: "'f list"

definition EmbeddingVector :: "int option \<Rightarrow> 'f list option \<Rightarrow> 'f embedding_vector option" where
  "EmbeddingVector i v = (case (i, v) of
     (Some n, Some xs) \<Rightarrow> if 0 \<le> n \<and> xs \<noteq> [] then Some \<lparr>ev_index = n, ev_vector = xs\<rparr> else None
   | _ \<Rightarrow> None)"

record 'f embedding_batch =
  eb_provider :: string
  eb_model :: string
  eb_version :: string
  eb_dimensions :: nat
  eb_vectors :: "'f embedding_vector list"

record embeddings =
  em_provider :: string
  em_base_url :: string
  em_key :: string
  em_model :: string
  em_version :: string
  em_batch :: nat
  em_input :: nat

definition OpenAICompatibleEmbeddings :: "string \<Rightarrow> string \<Rightarrow> string \<Rightarrow> string \<Rightarrow> string \<Rightarrow> nat \<Rightarrow> nat \<Rightarrow> embeddings" where
  "OpenAICompatibleEmbeddings provider base key model version batch input = \<lparr>em_provider = provider,
     em_base_url = rstrip_slashes base, em_key = key, em_model = model, em_version = version, em_batch = batch, em_input = input\<rparr>"

text \<open>A wrong argument is a \<open>ValueError\<close>; everything later is a provider error.\<close>

datatype embed_error = Wrong_batch | Wrong_input | Embed_failed provider_error

subsection \<open>Reading the answer\<close>

text \<open>
  The keys \<open>sorted\<close> compares: numbers with numbers, texts with texts. Any other key makes the comparison or the
  validation of the index fail, with the same outcome.
\<close>

fun number_key :: "json \<Rightarrow> real option" where
  "number_key (JInt n) = Some (real_of_int n)"
| "number_key (JReal r) = Some r"
| "number_key (JBool b) = Some (if b then 1 else 0)"
| "number_key j = None"

fun text_key :: "json \<Rightarrow> string option" where
  "text_key (JStr s) = Some s"
| "text_key j = None"

fun item_indexes :: "json list \<Rightarrow> py_error + (json \<times> json) list" where
  "item_indexes [] = Inr []"
| "item_indexes (x # xs) = after (item_key x ''index'') (\<lambda>i. after (item_indexes xs) (\<lambda>rest. Inr ((i, x) # rest)))"

definition sorted_items :: "(json \<times> json) list \<Rightarrow> py_error + (json \<times> json) list" where
  "sorted_items ps =
     (if list_all (\<lambda>(i, x). number_key i \<noteq> None) ps then Inr (sort_key (\<lambda>p. the (number_key (fst p))) ps)
      else if list_all (\<lambda>(i, x). text_key i \<noteq> None) ps
        then Inr (sort_key (\<lambda>p. the (text_key (fst p))) ps)
      else Inl Shape_error)"

fun read_vectors ::
  "(json \<Rightarrow> int option) \<Rightarrow> (json \<Rightarrow> 'f list option) \<Rightarrow> (json \<times> json) list \<Rightarrow> py_error + 'f embedding_vector list" where
  "read_vectors to_index to_vector [] = Inr []"
| "read_vectors to_index to_vector ((i, x) # ps) = after (item_key x ''embedding'') (\<lambda>e.
     case EmbeddingVector (to_index i) (to_vector e) of
       None \<Rightarrow> Inl Shape_error
     | Some v \<Rightarrow> after (read_vectors to_index to_vector ps) (\<lambda>vs. Inr (v # vs)))"

definition checked_vectors :: "nat \<Rightarrow> 'f embedding_vector list \<Rightarrow> py_error + 'f embedding_vector list" where
  "checked_vectors wanted vs =
     (if vs = [] then Inl Shape_error
      else if length vs \<noteq> wanted \<or> list_ex (\<lambda>v. length (ev_vector v) \<noteq> length (ev_vector (hd vs))) vs then Inl Shape_error
      else Inr vs)"

definition read_embeddings ::
  "(json \<Rightarrow> int option) \<Rightarrow> (json \<Rightarrow> 'f list option) \<Rightarrow> nat \<Rightarrow> json \<Rightarrow> py_error + 'f embedding_vector list" where
  "read_embeddings to_index to_vector wanted body =
     after (item_key body ''data'') (\<lambda>d. after (iterate_json d) (\<lambda>items. after (item_indexes items) (\<lambda>ps.
     after (sorted_items ps) (\<lambda>sorted. after (read_vectors to_index to_vector sorted) (\<lambda>vs.
       checked_vectors wanted vs)))))"

subsection \<open>One batch\<close>

definition embed_body :: "embeddings \<Rightarrow> string list \<Rightarrow> json" where
  "embed_body c inputs = JObj [(''model'', JStr (em_model c)), (''input'', JList (map JStr inputs))]"

definition embed_failure :: "provider_failure \<Rightarrow> string \<Rightarrow> bool \<Rightarrow> embed_error" where
  "embed_failure f m r = Embed_failed (ProviderError f m r)"

definition embed_answer ::
  "(json \<Rightarrow> int option) \<Rightarrow> (json \<Rightarrow> 'f list option) \<Rightarrow> embeddings \<Rightarrow> nat \<Rightarrow> http_reply \<Rightarrow> embed_error + 'f embedding_batch" where
  "embed_answer to_index to_vector c n r =
     (if hr_status r < 200 \<or> 299 < hr_status r then Inl (embed_failure PF_CONNECTION ''Embedding request failed'' True)
      else case (case hr_json r of None \<Rightarrow> Inl Shape_error | Some body \<Rightarrow> read_embeddings to_index to_vector n body) of
          Inl e \<Rightarrow> Inl (embed_failure PF_MALFORMED_OUTPUT ''Embedding provider returned invalid vectors'' False)
        | Inr vs \<Rightarrow> Inr \<lparr>eb_provider = em_provider c, eb_model = em_model c, eb_version = em_version c,
            eb_dimensions = length (ev_vector (hd vs)), eb_vectors = vs\<rparr>)"

definition embed_timeout :: "seconds option \<Rightarrow> seconds" where
  "embed_timeout timeout = (case timeout of None \<Rightarrow> 30 | Some t \<Rightarrow> if t = 0 then 30 else t)"

definition embed ::
  "(json \<Rightarrow> int option) \<Rightarrow> (json \<Rightarrow> 'f list option) \<Rightarrow> (string \<Rightarrow> json \<Rightarrow> seconds \<Rightarrow> 's \<Rightarrow> http_end \<times> 's) \<Rightarrow> bool \<Rightarrow> seconds option
   \<Rightarrow> embeddings \<Rightarrow> string list \<Rightarrow> 's \<Rightarrow> (embed_error + 'f embedding_batch) \<times> 's" where
  "embed to_index to_vector post is_cancelled timeout c inputs s =
     (if inputs = [] \<or> em_batch c < length inputs then (Inl Wrong_batch, s)
      else if list_ex (\<lambda>i. i = [] \<or> em_input c < length i) inputs then (Inl Wrong_input, s)
      else if is_cancelled then (Inl (embed_failure PF_CANCELLATION ''Embedding cancelled'' False), s)
      else if em_base_url c = [] \<or> em_key c = [] then (Inl (embed_failure PF_AUTHENTICATION ''Embeddings are disabled'' False), s)
      else case post (em_base_url c @ ''/embeddings'') (embed_body c inputs) (embed_timeout timeout) s of
          (Http_timeout, s1) \<Rightarrow> (Inl (embed_failure PF_TIMEOUT ''Embedding request timed out'' True), s1)
        | (Http_failed, s1) \<Rightarrow> (Inl (embed_failure PF_CONNECTION ''Embedding request failed'' True), s1)
        | (Http_reply r, s1) \<Rightarrow> (embed_answer to_index to_vector c (length inputs) r, s1))"

subsection \<open>What a batch guarantees\<close>

lemma after_Inr: "after x f = Inr b \<longleftrightarrow> (\<exists>a. x = Inr a \<and> f a = Inr b)"
  by (cases x) simp_all

lemma EmbeddingVector_Some:
  "EmbeddingVector i v = Some e \<longleftrightarrow> (\<exists>n xs. i = Some n \<and> v = Some xs \<and> 0 \<le> n \<and> xs \<noteq> [] \<and> e = \<lparr>ev_index = n, ev_vector = xs\<rparr>)"
  by (auto simp: EmbeddingVector_def split: option.splits if_splits)

lemma read_vectors_ok:
  "read_vectors to_index to_vector ps = Inr vs \<Longrightarrow> length vs = length ps \<and> (\<forall>v \<in> set vs. 0 \<le> ev_index v \<and> ev_vector v \<noteq> [])
     \<and> list_all2 (\<lambda>p v. to_index (fst p) = Some (ev_index v)) ps vs"
proof (induction ps arbitrary: vs)
  case (Cons p ps)
  obtain i x where p: "p = (i, x)" by (cases p)
  obtain e v ws where "EmbeddingVector (to_index i) (to_vector e) = Some v" "read_vectors to_index to_vector ps = Inr ws" "vs = v # ws"
    using Cons.prems by (auto simp: p after_Inr split: option.splits)
  then show ?case using Cons.IH [of ws] by (auto simp: p EmbeddingVector_Some)
qed simp

lemma read_embeddings_parts:
  assumes "read_embeddings to_index to_vector n body = Inr vs"
  shows "\<exists>ps qs. sorted_items ps = Inr qs \<and> read_vectors to_index to_vector qs = Inr vs" "checked_vectors n vs = Inr vs"
proof -
  obtain ps qs ws where "sorted_items ps = Inr qs" "read_vectors to_index to_vector qs = Inr ws" "checked_vectors n ws = Inr vs"
    using assms unfolding read_embeddings_def after_Inr by blast
  moreover have "ws = vs" using calculation(3) by (simp add: checked_vectors_def split: if_splits)
  ultimately show "\<exists>ps qs. sorted_items ps = Inr qs \<and> read_vectors to_index to_vector qs = Inr vs" "checked_vectors n vs = Inr vs"
    by blast+
qed

lemma read_embeddings_ok:
  assumes "read_embeddings to_index to_vector n body = Inr vs"
  shows "vs \<noteq> [] \<and> length vs = n \<and> (\<forall>v \<in> set vs. 0 \<le> ev_index v \<and> ev_vector v \<noteq> [] \<and> length (ev_vector v) = length (ev_vector (hd vs)))"
proof -
  obtain ps where "read_vectors to_index to_vector ps = Inr vs" using read_embeddings_parts(1) [OF assms] by blast
  note read = read_vectors_ok [OF this]
  have "vs \<noteq> []" "length vs = n" "\<not> list_ex (\<lambda>v. length (ev_vector v) \<noteq> length (ev_vector (hd vs))) vs"
    using read_embeddings_parts(2) [OF assms] unfolding checked_vectors_def by (simp_all only: split: if_splits) simp_all
  then show ?thesis using read unfolding list_ex_iff by blast
qed

text \<open>Where every index is a number that pydantic reads as itself, the vectors are in the order of their indexes.\<close>

lemma vectors_in_index_order:
  assumes "sorted_items ps = Inr qs" "read_vectors to_index to_vector qs = Inr vs" "list_all (\<lambda>(i, x). number_key i \<noteq> None) ps"
    "\<And>i n. to_index i = Some n \<Longrightarrow> number_key i \<noteq> None \<Longrightarrow> number_key i = Some (real_of_int n)"
  shows "sorted_wrt (\<lambda>v w. ev_index v \<le> ev_index w) vs"
proof -
  have q: "qs = sort_key (\<lambda>p. the (number_key (fst p))) ps" using assms(1,3) by (simp add: sorted_items_def)
  have "list_all (\<lambda>p. number_key (fst p) \<noteq> None) qs" using assms(3) by (auto simp: q list_all_iff)
  moreover note ok = conjunct2 [OF conjunct2 [OF read_vectors_ok [OF assms(2)]]]
  ultimately have "number_key (fst (qs ! k)) = Some (real_of_int (ev_index (vs ! k)))" if "k < length qs" for k
    using that assms(4) by (auto simp: list_all2_conv_all_nth list_all_length)
  then have "map (\<lambda>p. the (number_key (fst p))) qs = map (\<lambda>v. real_of_int (ev_index v)) vs"
    using list_all2_lengthD [OF ok] by (intro nth_equalityI) simp_all
  then have "sorted (map (\<lambda>v. real_of_int (ev_index v)) vs)" unfolding q by (metis sorted_sort_key)
  then show ?thesis by (simp add: sorted_wrt_map)
qed

text \<open>
  C25. An embedding batch is complete and even. Whatever the server answers, a batch is returned only for at least one text and
  no more than the limit, none of them empty or too long, after exactly one request, to the configured address, which
  succeeded; it has one vector per text, no vector is empty, all have the stated dimension and no index is negative.
  Every other answer is an error, and an error before the request leaves nothing sent.
\<close>

theorem embedding_batch_complete:
  assumes "embed to_index to_vector post is_cancelled timeout c inputs s = (result, s1)"
  shows "(case result of
      Inr b \<Rightarrow> inputs \<noteq> [] \<and> length inputs \<le> em_batch c \<and> list_all (\<lambda>i. 1 \<le> length i \<and> length i \<le> em_input c) inputs
        \<and> (\<exists>r t. post (em_base_url c @ ''/embeddings'') (embed_body c inputs) t s = (Http_reply r, s1)
            \<and> 200 \<le> hr_status r \<and> hr_status r \<le> 299)
        \<and> eb_model b = em_model c \<and> length (eb_vectors b) = length inputs \<and> 0 < eb_dimensions b
        \<and> list_all (\<lambda>v. 0 \<le> ev_index v \<and> length (ev_vector v) = eb_dimensions b) (eb_vectors b)
    | Inl e \<Rightarrow> s1 = s \<or> (\<exists>t r. post (em_base_url c @ ''/embeddings'') (embed_body c inputs) t s = (r, s1)))"
proof (cases "inputs = [] \<or> em_batch c < length inputs \<or> list_ex (\<lambda>i. i = [] \<or> em_input c < length i) inputs \<or> is_cancelled
    \<or> em_base_url c = [] \<or> em_key c = []")
  case True
  then have "s1 = s \<and> (\<exists>e. result = Inl e)" using assms by (auto simp: embed_def split: if_splits)
  then show ?thesis by auto
next
  case False
  let ?post = "post (em_base_url c @ ''/embeddings'') (embed_body c inputs) (embed_timeout timeout) s"
  have inputs: "inputs \<noteq> [] \<and> length inputs \<le> em_batch c \<and> list_all (\<lambda>i. 1 \<le> length i \<and> length i \<le> em_input c) inputs"
    using False by (auto simp: list_all_iff list_ex_iff Suc_le_eq not_less)
  obtain a s2 where post: "?post = (a, s2)" by (cases ?post)
  have run: "embed to_index to_vector post is_cancelled timeout c inputs s = (case (a, s2) of
          (Http_timeout, s1) \<Rightarrow> (Inl (embed_failure PF_TIMEOUT ''Embedding request timed out'' True), s1)
        | (Http_failed, s1) \<Rightarrow> (Inl (embed_failure PF_CONNECTION ''Embedding request failed'' True), s1)
        | (Http_reply r, s1) \<Rightarrow> (embed_answer to_index to_vector c (length inputs) r, s1))"
    using False unfolding embed_def post by simp
  show ?thesis
  proof (cases "\<exists>r. a = Http_reply r \<and> (\<exists>b. embed_answer to_index to_vector c (length inputs) r = Inr b)")
    case True
    then obtain r b where r: "a = Http_reply r" "embed_answer to_index to_vector c (length inputs) r = Inr b" by blast
    then have res: "result = Inr b" "s1 = s2" using run assms by simp_all
    have status: "200 \<le> hr_status r" "hr_status r \<le> 299"
      using r(2) by (auto simp: embed_answer_def split: if_splits)
    obtain body vs where body: "read_embeddings to_index to_vector (length inputs) body = Inr vs"
      and b: "b = \<lparr>eb_provider = em_provider c, eb_model = em_model c, eb_version = em_version c,
            eb_dimensions = length (ev_vector (hd vs)), eb_vectors = vs\<rparr>"
      using r(2) status by (auto simp: embed_answer_def split: option.splits sum.splits)
    note ok = read_embeddings_ok [OF body]
    have "hd vs \<in> set vs" using ok by simp
    then have "0 < length (ev_vector (hd vs))" using ok by blast
    then have "eb_model b = em_model c \<and> length (eb_vectors b) = length inputs \<and> 0 < eb_dimensions b"
      using conjunct1 [OF conjunct2 [OF ok]] by (simp add: b)
    moreover have "\<forall>v \<in> set vs. 0 \<le> ev_index v \<and> length (ev_vector v) = length (ev_vector (hd vs))" using ok by blast
    then have "list_all (\<lambda>v. 0 \<le> ev_index v \<and> length (ev_vector v) = eb_dimensions b) (eb_vectors b)"
      unfolding b list_all_iff embedding_batch.select_convs .
    moreover have "\<exists>r t. post (em_base_url c @ ''/embeddings'') (embed_body c inputs) t s = (Http_reply r, s1)
        \<and> 200 \<le> hr_status r \<and> hr_status r \<le> 299"
      using post status res(2) r(1) by blast
    ultimately show ?thesis using inputs res(1) by simp
  next
    case False
    then have "s1 = s2 \<and> (\<exists>e. result = Inl e)"
      using run assms by (cases a) (auto, metis sum.exhaust)
    then show ?thesis using post by auto
  qed
qed

definition plain_index :: "json \<Rightarrow> int option" where
  "plain_index j = (case j of JInt n \<Rightarrow> Some n | _ \<Rightarrow> None)"

definition plain_vector :: "json \<Rightarrow> json list option" where
  "plain_vector j = (case j of JList xs \<Rightarrow> Some xs | _ \<Rightarrow> None)"

definition vector_item :: "int \<Rightarrow> json" where
  "vector_item n = JObj [(''index'', JInt n), (''embedding'', JList [JInt 1, JInt 0])]"

definition answer_items :: "int list \<Rightarrow> string \<Rightarrow> json \<Rightarrow> seconds \<Rightarrow> unit \<Rightarrow> http_end \<times> unit" where
  "answer_items ns path body t s = (Http_reply \<lparr>hr_status = 200, hr_retry_after = None, hr_request_id = None, hr_text = [],
     hr_json = Some (JObj [(''data'', JList (map vector_item ns))])\<rparr>, s)"

definition sample_embeddings :: embeddings where
  "sample_embeddings = OpenAICompatibleEmbeddings ''e'' ''http://x/'' ''k'' ''m'' ''1'' 4 9"

definition indexes_of :: "(embed_error + json embedding_batch) \<times> unit \<Rightarrow> int list option" where
  "indexes_of r = (case fst r of Inl e \<Rightarrow> None | Inr b \<Rightarrow> Some (map ev_index (eb_vectors b)))"

lemma out_of_order_answer:
  "indexes_of (embed plain_index plain_vector (answer_items [1, 0]) False None sample_embeddings [''a'', ''b''] ()) = Some [0, 1]"
  by code_simp

theorem embedding_batch_complete_witness:
  "\<exists>b. fst (embed plain_index plain_vector (answer_items [1, 0]) False None sample_embeddings [''a'', ''b''] ()) = Inr b
     \<and> length (eb_vectors b) = 2 \<and> 0 < eb_dimensions b"
proof -
  obtain result s1 where run: "embed plain_index plain_vector (answer_items [1, 0]) False None sample_embeddings [''a'', ''b''] () = (result, s1)"
    by (cases "embed plain_index plain_vector (answer_items [1, 0]) False None sample_embeddings [''a'', ''b''] ()")
  then obtain b where b: "result = Inr b" using out_of_order_answer by (cases result) (simp_all add: indexes_of_def)
  have "length (eb_vectors b) = length [''a'', ''b''] \<and> 0 < eb_dimensions b"
    using embedding_batch_complete [OF run] unfolding b by simp
  then show ?thesis using run b by simp
qed

subsection \<open>What a batch does not guarantee\<close>

text \<open>
  The indexes are not compared with the texts: two vectors may claim the same text, or a text that was not sent. A
  rejected key looks like a failed connection that is worth another try.
\<close>

lemma duplicate_index_accepted:
  "indexes_of (embed plain_index plain_vector (answer_items [7, 7]) False None sample_embeddings [''a'', ''b''] ()) = Some [7, 7]"
  by code_simp

lemma rejected_key_is_retryable:
  assumes "hr_status r = 401"
  shows "embed_answer to_index to_vector c n r = Inl (embed_failure PF_CONNECTION ''Embedding request failed'' True)"
  using assms by (simp add: embed_answer_def)

end
