(* ===== verification/Control_Api.thy ===== *)
theory Control_Api
  imports Http_Api Metrics Model_Services
begin

text \<open>
  The service put together (\<open>create_app\<close> in \<open>api/main.py\<close>): the gateway's limits from the settings, the four health checks
  and the readiness of \<open>application/tasks.py\<close>, the health routes (\<open>api/routes/health.py\<close>) and the routes that show providers
  and models (\<open>api/routes/control.py\<close>), behind the gateway of \<open>Http_Api\<close>.
\<close>

subsection \<open>Configuration\<close>

definition service_config :: "settings \<Rightarrow> api_config" where
  "service_config c = \<lparr>cfg_key = control_plane_api_key c, cfg_body = api_body_limit_bytes c,
     cfg_limit = api_rate_limit_requests c, cfg_window = api_rate_limit_window_seconds c\<rparr>"

definition configuration_health :: "settings \<Rightarrow> bool" where
  "configuration_health c \<longleftrightarrow> control_plane_api_key c \<noteq> [] \<and> control_plane_api_key c \<noteq> ''replace-me''
     \<and> database_url c \<noteq> [] \<and> redis_url c \<noteq> []"

text \<open>What the services answer: whether \<open>SELECT 1\<close> and \<open>PING\<close> succeed, and the snapshot at an instant.\<close>

record backends =
  be_select :: bool
  be_ping :: "bool option"
  be_snapshot :: "queue_error + metrics_snapshot"

definition database_health :: "backends \<Rightarrow> bool" where
  "database_health b = be_select b"

definition redis_health :: "backends \<Rightarrow> bool" where
  "redis_health b = (case be_ping b of None \<Rightarrow> False | Some pong \<Rightarrow> pong)"

definition readiness :: "settings \<Rightarrow> backends \<Rightarrow> (string \<times> bool) list" where
  "readiness c b = [(''postgresql'', database_health b), (''redis'', redis_health b),
     (''workers'', worker_health (be_snapshot b)), (''configuration'', configuration_health c)]"

subsection \<open>Routes\<close>

record provider_view =
  pr_id :: string
  pr_healthy :: bool

record model_view =
  mo_provider :: string
  mo_model :: string
  mo_enabled :: bool

definition providers_route :: "settings \<Rightarrow> provider_view list" where
  "providers_route c = [\<lparr>pr_id = ''gemini-a'', pr_healthy = (gemini_api_key_primary c \<noteq> [])\<rparr>,
     \<lparr>pr_id = ''gemini-b'', pr_healthy = (gemini_api_key_secondary c \<noteq> [])\<rparr>,
     \<lparr>pr_id = ''qwen'', pr_healthy = (qwen_base_url c \<noteq> [])\<rparr>]"

definition models_route :: "settings \<Rightarrow> model_view list" where
  "models_route c = [\<lparr>mo_provider = ''gemini-a'', mo_model = gemini_primary_model c, mo_enabled = True\<rparr>,
     \<lparr>mo_provider = ''gemini-b'', mo_model = gemini_review_model c, mo_enabled = True\<rparr>,
     \<lparr>mo_provider = ''qwen'', mo_model = qwen_model c, mo_enabled = (qwen_base_url c \<noteq> [])\<rparr>]"

datatype control_payload =
    Live | Readiness bool "(string \<times> bool) list" | Snapshot metrics_snapshot | Metrics_unavailable
  | Providers "provider_view list" | Models "model_view list" | Detail string

definition ok :: "int \<Rightarrow> 'p \<Rightarrow> 'p outcome" where
  "ok status p = Responded \<lparr>hs_status = status, hs_headers = [], hs_body = Content p\<rparr>"

definition ready_route :: "settings \<Rightarrow> backends \<Rightarrow> control_payload outcome" where
  "ready_route c b = (let checks = readiness c b; healthy = list_all snd checks in
     ok (if healthy then 200 else 503) (Readiness healthy checks))"

text \<open>An application handed to \<open>create_app\<close> comes without a collector; a failed snapshot is not caught here.\<close>

definition metrics_route :: "backends option \<Rightarrow> control_payload outcome" where
  "metrics_route collector = (case collector of
     None \<Rightarrow> ok 200 Metrics_unavailable
   | Some b \<Rightarrow> (case be_snapshot b of Inl e \<Rightarrow> Crashed | Inr m \<Rightarrow> ok 200 (Snapshot m)))"

text \<open>
  The paths of these routes; every other path, the task routes and FastAPI's own pages, is \<open>rest\<close>. A wrong method is
  answered by FastAPI itself.
\<close>

definition control_paths :: "string list" where
  "control_paths = [''/health/live'', ''/health/ready'', ''/metrics'', ''/v1/providers'', ''/v1/models'']"

definition control_application :: "settings \<Rightarrow> bool \<Rightarrow> backends \<Rightarrow> (control_payload, 's) application \<Rightarrow> (control_payload, 's) application" where
  "control_application c own_service b rest rid q A =
     (if hq_path q \<in> set control_paths \<and> hq_method q \<noteq> ''GET'' then 
        (Responded \<lparr>hs_status = 405, hs_headers = [(''allow'', ''GET'')], hs_body = Content (Detail ''Method Not Allowed'')\<rparr>, A)
      else if hq_path q = ''/health/live'' then (ok 200 Live, A)
      else if hq_path q = ''/health/ready'' then (ready_route c b, A)
      else if hq_path q = ''/metrics'' then (metrics_route (if own_service then Some b else None), A)
      else if hq_path q = ''/v1/providers'' then (ok 200 (Providers (providers_route c)), A)
      else if hq_path q = ''/v1/models'' then (ok 200 (Models (models_route c)), A)
      else rest rid q A)"

definition serve_control ::
  "settings \<Rightarrow> backends \<Rightarrow> (control_payload, 's) application \<Rightarrow> instant \<Rightarrow> uuid \<Rightarrow> http_request \<Rightarrow> 's api_state \<Rightarrow> control_payload outcome \<times> 's api_state" where
  "serve_control c b rest now fresh q s = gateway admit (service_config c) (control_application c True b rest) now fresh q s"

subsection \<open>Through the gateway\<close>

text \<open>Content comes from the application, with its status.\<close>

definition from_app :: "'p outcome \<Rightarrow> 'p outcome \<Rightarrow> bool" where
  "from_app x y \<longleftrightarrow> (\<forall>r p. y = Responded r \<and> hs_body r = Content p \<longrightarrow> (\<exists>r0. x = Responded r0 \<and> hs_body r0 = Content p \<and> hs_status r0 = hs_status r))"

lemma from_app_error [simp]: "from_app x (Responded (error_response rid code m st))"
  "from_app x (Responded ((error_response rid code m st)\<lparr>hs_headers := h\<rparr>))" "from_app x Crashed" "from_app x Deadline_passed"
  by (simp_all add: from_app_def error_response_def)

lemma from_app_audited: "from_app (fst (app rid q (api_app s))) (fst (audited (application_handler app) rid q s))"
  by (auto simp: audited_def application_handler_def from_app_def split: outcome.splits prod.splits)

lemma from_app_limited:
  "from_app (fst (app rid q (api_app s))) (fst (rate_limited adm n w now (audited (application_handler app)) rid q s))"
proof -
  obtain b bucket where a: "adm n (real_of_int w) now (api_buckets s (rate_identity q)) = (b, bucket)" by fastforce
  show ?thesis
    using from_app_audited [of app rid q "s\<lparr>api_buckets := (api_buckets s)(rate_identity q := bucket)\<rparr>"]
    by (simp add: rate_limited_def Let_def a)
qed

lemma from_app_timed: "from_app x (fst (inner rid q s)) \<Longrightarrow> from_app x (fst (timed inner rid q s))"
  by (auto simp: timed_def split: outcome.splits prod.splits)

lemma from_app_body: "from_app x (fst (inner rid q s)) \<Longrightarrow> from_app x (fst (body_limited n inner rid q s))"
  by (auto simp: body_limited_def Let_def split: sum.splits)

lemma from_app_authenticated: "from_app x (fst (inner rid q s)) \<Longrightarrow> from_app x (fst (authenticated k inner rid q s))"
  by (auto simp: authenticated_def split: option.splits bool.splits)

lemma gateway_content:
  assumes "gateway adm cfg app now fresh q s = (Responded r, s')" "hs_body r = Content p"
  shows "\<exists>rid r0 a. app rid q (api_app s) = (Responded r0, a) \<and> hs_body r0 = Content p \<and> hs_status r0 = hs_status r"
proof -
  define rid where "rid = (if str_or (hq_header q ''x-request-id'') [] \<noteq> [] then take 128 (str_or (hq_header q ''x-request-id'') []) else fresh)"
  let ?inner = "authenticated (cfg_key cfg) (body_limited (cfg_body cfg) (timed
       (rate_limited adm (cfg_limit cfg) (cfg_window cfg) now (audited (application_handler app))))) rid q s"
  have "from_app (fst (app rid q (api_app s))) (fst ?inner)"
    by (intro from_app_authenticated from_app_body from_app_timed from_app_limited)
  moreover obtain r1 s1 where "?inner = (Responded r1, s1)" "hs_body r1 = Content p" "hs_status r1 = hs_status r"
    using assms unfolding gateway_def with_request_id_def Let_def rid_def [symmetric]
    by (cases ?inner) (auto split: outcome.splits)
  ultimately show ?thesis unfolding from_app_def by (metis fst_conv surj_pair)
qed

text \<open>
  C15. The service says that it is ready exactly when it is. Behind the gateway, whoever asks, an answer with content to a
  readiness request shows the four checks, and its status is 200 if the database and Redis answered, an API key that is
  not the placeholder is configured with both addresses, and, for a snapshot of a queue at rest that succeeded, some
  worker's registration is alive; in every other case it is 503.
\<close>

theorem ready_exactly_when_working:
  assumes "redis_stats R view Q" and "be_snapshot b = snapshot hashes_of R Q answered moment (\<lambda>_. store)"
    and "serve_control c b rest now fresh q s = (Responded r, s')" "hq_method q = ''GET''" "hq_path q = ''/health/ready''"
    and "hs_body r = Content p"
  shows "p = Readiness (hs_status r = 200) (readiness c b) \<and> hs_status r \<in> {200, 503}
    \<and> (hs_status r = 200 \<longleftrightarrow> be_select b \<and> be_ping b = Some True
         \<and> control_plane_api_key c \<notin> {[], ''replace-me''} \<and> database_url c \<noteq> [] \<and> redis_url c \<noteq> []
         \<and> (\<exists>m. be_snapshot b = Inr m) \<and> (\<exists>w. live (view store) (Worker_key w) \<noteq> None))"
proof -
  obtain rid r0 a where app: "control_application c True b rest rid q (api_app s) = (Responded r0, a)"
      "hs_body r0 = Content p" "hs_status r0 = hs_status r"
    using gateway_content [OF assms(3) [unfolded serve_control_def] assms(6)] by blast
  then have r0: "ready_route c b = Responded r0"
    using assms(4,5) by (simp add: control_application_def)
  have workers: "worker_health (be_snapshot b) \<longleftrightarrow> (\<exists>m. be_snapshot b = Inr m) \<and> (\<exists>w. live (view store) (Worker_key w) \<noteq> None)"
  proof (cases "be_snapshot b")
    case (Inr m)
    then have "snapshot hashes_of R Q answered moment (\<lambda>_. store) = Inr m" using assms(2) by simp
    from snapshot_counts_workers [OF assms(1) this] have "0 < qm_workers m \<longleftrightarrow> {w. live (view store) (Worker_key w) \<noteq> None} \<noteq> {}"
      by (metis image_is_empty length_greater_0_conv set_empty)
    then show ?thesis using Inr by (simp add: worker_health_def)
  qed (simp add: worker_health_def)
  have "redis_health b \<longleftrightarrow> be_ping b = Some True" by (cases "be_ping b") (simp_all add: redis_health_def)
  then have all: "list_all snd (readiness c b) \<longleftrightarrow> be_select b \<and> be_ping b = Some True
      \<and> control_plane_api_key c \<notin> {[], ''replace-me''} \<and> database_url c \<noteq> [] \<and> redis_url c \<noteq> []
      \<and> (\<exists>m. be_snapshot b = Inr m) \<and> (\<exists>w. live (view store) (Worker_key w) \<noteq> None)"
    by (auto simp: readiness_def database_health_def configuration_health_def workers)
  have "hs_status r = (if list_all snd (readiness c b) then 200 else 503) \<and> p = Readiness (list_all snd (readiness c b)) (readiness c b)"
    using r0 app(2,3) by (auto simp: ready_route_def ok_def Let_def)
  then show ?thesis unfolding all [symmetric] by simp
qed

definition live_settings :: settings where
  "live_settings = default_settings\<lparr>control_plane_api_key := ''k''\<rparr>"

definition live_backends :: backends where
  "live_backends = \<lparr>be_select = True, be_ping = Some True,
     be_snapshot = snapshot no_observations mini_redis mini_reads True 5 (\<lambda>_. watched_store)\<rparr>"

definition ready_request :: http_request where
  "ready_request = \<lparr>hq_method = ''GET'', hq_path = ''/health/ready'', hq_header = (\<lambda>_. None), hq_client = Some ''h'', hq_body = []\<rparr>"

definition quiet_api :: "unit api_state" where
  "quiet_api = \<lparr>api_buckets = (\<lambda>_. []), api_log = [], api_app = ()\<rparr>"

definition no_rest :: "(control_payload, unit) application" where
  "no_rest rid q A = (ok 404 (Detail ''Not Found''), A)"

lemma ready_answer:
  "serve_control c b rest now fresh ready_request quiet_api = (out, s') \<Longrightarrow> 0 < api_rate_limit_requests c \<Longrightarrow> 0 \<le> api_body_limit_bytes c \<Longrightarrow>
     \<exists>r. out = Responded r \<and> (\<exists>p. hs_body r = Content p)"
  by (auto simp: serve_control_def gateway_defs service_config_def ready_request_def quiet_api_def control_application_def
      ready_route_def ok_def rate_identity_def admit_def fresh_part_def Let_def)

theorem ready_exactly_when_working_witness:
  "\<exists>r s'. serve_control live_settings live_backends no_rest 0 ''r'' ready_request quiet_api = (Responded r, s') \<and> hs_status r = 200"
proof -
  obtain out s' where run: "serve_control live_settings live_backends no_rest 0 ''r'' ready_request quiet_api = (out, s')"
    by (cases "serve_control live_settings live_backends no_rest 0 ''r'' ready_request quiet_api")
  obtain r p where r: "out = Responded r" "hs_body r = Content p"
    using ready_answer [OF run] by (auto simp: live_settings_def default_settings_def)
  have snap: "be_snapshot live_backends = snapshot no_observations mini_redis mini_reads True 5 (\<lambda>_. watched_store)"
    by (simp add: live_backends_def)
  have q: "hq_method ready_request = ''GET''" "hq_path ready_request = ''/health/ready''" by (simp_all add: ready_request_def)
  have "mini_get (Worker_key ''w'') watched_store \<noteq> None" by code_simp
  then have "\<exists>w. live (mini_view watched_store) (Worker_key w) \<noteq> None" unfolding mini_live by blast
  moreover have "\<exists>m. be_snapshot live_backends = Inr m"
    using watched_snapshot unfolding snap by (auto simp: view_of_def split: sum.splits)
  moreover have "be_select live_backends" "be_ping live_backends = Some True"
      "control_plane_api_key live_settings \<notin> {[], ''replace-me''}" "database_url live_settings \<noteq> []" "redis_url live_settings \<noteq> []"
    by (simp_all add: live_backends_def live_settings_def default_settings_def)
  ultimately have "hs_status r = 200"
    using ready_exactly_when_working [OF mini_stats.redis_stats_axioms snap run [unfolded r(1)] q r(2)] by blast
  then show ?thesis using run r(1) by blast
qed

subsection \<open>What the routes show\<close>

text \<open>A key makes a provider healthy here, whatever its own probe finds; a failed snapshot is an unhandled error.\<close>

lemma shown_healthy_without_project:
  "\<lbrakk>gemini_api_key_primary c \<noteq> []; gemini_project_primary c = []\<rbrakk> \<Longrightarrow>
     pr_healthy (hd (providers_route c)) \<and> \<not> fst (gemini_healthy now (mw_a (new_world c s)))"
  by (simp add: providers_route_def gemini_healthy_iff new_world_def GeminiProvider_def)

lemma failed_snapshot_crashes_metrics:
  "be_snapshot b = Inl e \<Longrightarrow> metrics_route (Some b) = Crashed"
  by (simp add: metrics_route_def)

end
