(* ===== verification/Builtin_Tools.thy ===== *)
theory Builtin_Tools
  imports Commands Py_Json Approval "HOL-Library.Monad_Syntax"
begin

text \<open>
  The built-in tools behind the registry: the input models of \<open>tools/contracts.py\<close>, the executors of \<open>tools/builtins.py\<close> over
  the file tools and the command runner, and a whole tool call from its JSON arguments to its effect on the tree. What
  pydantic accepts for a number or a truth value is a parameter; a text has to be a text.
\<close>

subsection \<open>Reading arguments\<close>

record conversions =
  cv_int :: "json \<Rightarrow> int option"
  cv_float :: "json \<Rightarrow> real option"
  cv_bool :: "json \<Rightarrow> bool option"

type_synonym arguments = "(string \<times> json) list"

definition only_keys :: "string list \<Rightarrow> arguments \<Rightarrow> bool" where
  "only_keys names kvs \<longleftrightarrow> list_all (\<lambda>(k, v). k \<in> set names) kvs"

definition required :: "arguments \<Rightarrow> string \<Rightarrow> (json \<Rightarrow> 'a option) \<Rightarrow> 'a option" where
  "required kvs k f = (case map_of kvs k of None \<Rightarrow> None | Some j \<Rightarrow> f j)"

definition with_default :: "arguments \<Rightarrow> string \<Rightarrow> 'a \<Rightarrow> (json \<Rightarrow> 'a option) \<Rightarrow> 'a option" where
  "with_default kvs k d f = (case map_of kvs k of None \<Rightarrow> Some d | Some j \<Rightarrow> f j)"

definition checked :: "('a \<Rightarrow> bool) \<Rightarrow> 'a option \<Rightarrow> 'a option" where
  "checked ok x = (case x of None \<Rightarrow> None | Some a \<Rightarrow> if ok a then Some a else None)"

fun as_text :: "json \<Rightarrow> string option" where
  "as_text (JStr s) = Some s"
| "as_text _ = None"

fun as_optional_text :: "json \<Rightarrow> string option option" where
  "as_optional_text JNull = Some None"
| "as_optional_text (JStr s) = Some (Some s)"
| "as_optional_text _ = None"

fun as_tuple :: "(json \<Rightarrow> 'a option) \<Rightarrow> json \<Rightarrow> 'a list option" where
  "as_tuple f (JList xs) = those (map f xs)"
| "as_tuple f _ = None"

lemma checked_Some [simp]: "checked ok x = Some a \<longleftrightarrow> x = Some a \<and> ok a"
  by (auto simp: checked_def split: option.splits)

subsection \<open>The input models\<close>

record pull_request =
  pq_summary :: string
  pq_base :: string
  pq_head :: string
  pq_files :: "string list"
  pq_tests :: "string list"
  pq_receipts :: "string list"
  pq_risks :: "string list"
  pq_approvals :: "string list"
  pq_limitations :: "string list"
  pq_rollback :: string

datatype tool_value =
    V_read string int | V_list string int | V_search string string int | V_patch patch_input
  | V_command string "string list" string real int | V_git string | V_pull_request pull_request

definition ReadFileInput :: "conversions \<Rightarrow> arguments \<Rightarrow> tool_value option" where
  "ReadFileInput C kvs = (if \<not> only_keys [''path'', ''max_bytes''] kvs then None else do {
     p \<leftarrow> required kvs ''path'' as_text;
     n \<leftarrow> checked (\<lambda>n. 1 \<le> n \<and> n \<le> 2000000) (with_default kvs ''max_bytes'' 200000 (cv_int C));
     Some (V_read p n) })"

definition ListDirectoryInput :: "conversions \<Rightarrow> arguments \<Rightarrow> tool_value option" where
  "ListDirectoryInput C kvs = (if \<not> only_keys [''path'', ''limit''] kvs then None else do {
     p \<leftarrow> with_default kvs ''path'' ''.'' as_text;
     n \<leftarrow> checked (\<lambda>n. 1 \<le> n \<and> n \<le> 5000) (with_default kvs ''limit'' 500 (cv_int C));
     Some (V_list p n) })"

definition SearchCodeInput :: "conversions \<Rightarrow> arguments \<Rightarrow> tool_value option" where
  "SearchCodeInput C kvs = (if \<not> only_keys [''query'', ''path'', ''limit''] kvs then None else do {
     q \<leftarrow> checked (\<lambda>q. 1 \<le> length q \<and> length q \<le> 500) (required kvs ''query'' as_text);
     p \<leftarrow> with_default kvs ''path'' ''.'' as_text;
     n \<leftarrow> checked (\<lambda>n. 1 \<le> n \<and> n \<le> 1000) (with_default kvs ''limit'' 100 (cv_int C));
     Some (V_search q p n) })"

definition StructuredPatchFile :: "conversions \<Rightarrow> json \<Rightarrow> patch_file option" where
  "StructuredPatchFile C j = (case j of
     JObj kvs \<Rightarrow> if \<not> only_keys [''path'', ''base_hash'', ''content'', ''delete''] kvs then None else do {
       p \<leftarrow> required kvs ''path'' as_text;
       h \<leftarrow> checked (\<lambda>h. case h of None \<Rightarrow> True | Some d \<Rightarrow> hex_ok 64 d) (with_default kvs ''base_hash'' None as_optional_text);
       c \<leftarrow> required kvs ''content'' as_optional_text;
       d \<leftarrow> with_default kvs ''delete'' False (cv_bool C);
       Some \<lparr>pf_path = p, pf_base_hash = h, pf_content = c, pf_delete = d\<rparr> }
   | _ \<Rightarrow> None)"

definition ApplyPatchInput :: "conversions \<Rightarrow> arguments \<Rightarrow> tool_value option" where
  "ApplyPatchInput C kvs = (if \<not> only_keys [''files'', ''approved_protected_write''] kvs then None else do {
     files \<leftarrow> checked (\<lambda>fs. 1 \<le> length fs \<and> length fs \<le> 100) (required kvs ''files'' (as_tuple (StructuredPatchFile C)));
     approved \<leftarrow> with_default kvs ''approved_protected_write'' False (cv_bool C);
     Some (V_patch \<lparr>pi_files = files, pi_approved = approved\<rparr>) })"

definition CommandInput :: "conversions \<Rightarrow> arguments \<Rightarrow> tool_value option" where
  "CommandInput C kvs =
     (if \<not> only_keys [''executable'', ''arguments'', ''working_directory'', ''timeout_seconds'', ''output_limit''] kvs then None else do {
       e \<leftarrow> required kvs ''executable'' as_text;
       args \<leftarrow> required kvs ''arguments'' (as_tuple as_text);
       dir \<leftarrow> with_default kvs ''working_directory'' ''.'' as_text;
       t \<leftarrow> checked (\<lambda>t. 0 < t \<and> t \<le> 1800) (with_default kvs ''timeout_seconds'' 300 (cv_float C));
       n \<leftarrow> checked (\<lambda>n. 1 \<le> n \<and> n \<le> 10000000) (with_default kvs ''output_limit'' 1000000 (cv_int C));
       Some (V_command e args dir t n) })"

definition GitInspectionInput :: "arguments \<Rightarrow> tool_value option" where
  "GitInspectionInput kvs = (if \<not> only_keys [''working_directory''] kvs then None else do {
     dir \<leftarrow> with_default kvs ''working_directory'' ''.'' as_text;
     Some (V_git dir) })"

definition PreparePullRequestInput :: "arguments \<Rightarrow> tool_value option" where
  "PreparePullRequestInput kvs =
     (if \<not> only_keys [''task_summary'', ''base_sha'', ''head_sha'', ''changed_files'', ''test_evidence'', ''guard_receipts'',
          ''risk_decisions'', ''approvals'', ''known_limitations'', ''rollback_plan''] kvs then None else do {
       s \<leftarrow> required kvs ''task_summary'' as_text;
       b \<leftarrow> checked (hex_ok 40) (required kvs ''base_sha'' as_text);
       h \<leftarrow> checked (hex_ok 40) (required kvs ''head_sha'' as_text);
       f \<leftarrow> required kvs ''changed_files'' (as_tuple as_text);
       t \<leftarrow> required kvs ''test_evidence'' (as_tuple as_text);
       g \<leftarrow> required kvs ''guard_receipts'' (as_tuple as_text);
       d \<leftarrow> required kvs ''risk_decisions'' (as_tuple as_text);
       a \<leftarrow> required kvs ''approvals'' (as_tuple as_text);
       l \<leftarrow> required kvs ''known_limitations'' (as_tuple as_text);
       r \<leftarrow> required kvs ''rollback_plan'' as_text;
       Some (V_pull_request \<lparr>pq_summary = s, pq_base = b, pq_head = h, pq_files = f, pq_tests = t, pq_receipts = g,
         pq_risks = d, pq_approvals = a, pq_limitations = l, pq_rollback = r\<rparr>) })"

fun validate_tool :: "conversions \<Rightarrow> builtin \<Rightarrow> arguments \<Rightarrow> tool_value option" where
  "validate_tool C B_read_file kvs = ReadFileInput C kvs"
| "validate_tool C B_list_directory kvs = ListDirectoryInput C kvs"
| "validate_tool C B_search_code kvs = SearchCodeInput C kvs"
| "validate_tool C B_apply_patch kvs = ApplyPatchInput C kvs"
| "validate_tool C B_run_command kvs = CommandInput C kvs"
| "validate_tool C B_git_status kvs = GitInspectionInput kvs"
| "validate_tool C B_git_diff kvs = GitInspectionInput kvs"
| "validate_tool C B_prepare_pull_request kvs = PreparePullRequestInput kvs"

subsection \<open>The executors\<close>

record tool_host =
  th_links :: nat
  th_policy :: filesystem_policy
  th_runner :: command_runner
  th_path :: string
  th_decode :: "string \<Rightarrow> string option"
  th_replace :: "string \<Rightarrow> string"
  th_hash :: "string \<Rightarrow> digest"
  th_fault :: os_faults
  th_undo_fault :: "nat \<Rightarrow> bool"
  th_spawn :: "string \<Rightarrow> string list \<Rightarrow> location \<Rightarrow> (string \<times> string) list \<Rightarrow> filesystem \<Rightarrow> process_end \<times> filesystem"
  th_dumps :: "json \<Rightarrow> string"

datatype builtin_error = Files_failed tool_error | Command_failed command_error

datatype tool_result =
    R_file file_content | R_entries string "string list" | R_matches "code_match list" | R_patched "string list" nat
  | R_process process_result | R_pull_request pull_request digest

definition texts_json :: "string list \<Rightarrow> json" where
  "texts_json xs = JList (map JStr xs)"

text \<open>The payload, its keys in order.\<close>

definition payload_json :: "pull_request \<Rightarrow> json" where
  "payload_json q = JObj [(''approvals'', texts_json (pq_approvals q)), (''base_sha'', JStr (pq_base q)),
     (''changed_files'', texts_json (pq_files q)), (''guard_receipts'', texts_json (pq_receipts q)),
     (''head_sha'', JStr (pq_head q)), (''known_limitations'', texts_json (pq_limitations q)),
     (''risk_decisions'', texts_json (pq_risks q)), (''rollback_plan'', JStr (pq_rollback q)),
     (''task_summary'', JStr (pq_summary q)), (''test_evidence'', texts_json (pq_tests q))]"

definition prepare_pull_request :: "tool_host \<Rightarrow> pull_request \<Rightarrow> tool_result" where
  "prepare_pull_request H q = R_pull_request q (th_hash H (th_dumps H (payload_json q)))"

definition tool_command :: "string \<Rightarrow> string list \<Rightarrow> string \<Rightarrow> real \<Rightarrow> int \<Rightarrow> structured_command" where
  "tool_command e args dir t n = \<lparr>sc_executable = e, sc_arguments = args, working_directory = dir, sc_environment = [],
     timeout_seconds = t, sc_stdin = None, output_limit = nat n, network_required = False\<rparr>"

definition run_tool_command :: "tool_host \<Rightarrow> structured_command \<Rightarrow> filesystem \<Rightarrow> (builtin_error + tool_result) \<times> filesystem" where
  "run_tool_command H c fs = (case run_command (th_links H) (th_runner H) (th_path H) (th_replace H) (th_spawn H) c fs of
     (Inl e, fs') \<Rightarrow> (Inl (Command_failed e), fs') | (Inr p, fs') \<Rightarrow> (Inr (R_process p), fs'))"

definition files_result :: "('a \<Rightarrow> tool_result) \<Rightarrow> tool_error + 'a \<Rightarrow> builtin_error + tool_result" where
  "files_result f x = (case x of Inl e \<Rightarrow> Inl (Files_failed e) | Inr a \<Rightarrow> Inr (f a))"

fun run_builtin :: "tool_host \<Rightarrow> builtin \<Rightarrow> tool_value \<Rightarrow> filesystem \<Rightarrow> (builtin_error + tool_result) \<times> filesystem" where
  "run_builtin H b (V_read p m) fs =
     (files_result R_file (read_file (th_links H) (th_policy H) (th_decode H) (th_hash H) fs p (nat m)), fs)"
| "run_builtin H b (V_list p m) fs = (files_result (R_entries p) (list_directory (th_links H) (th_policy H) fs p (nat m)), fs)"
| "run_builtin H b (V_search q p m) fs =
     (files_result R_matches (search_code (th_links H) (th_policy H) (th_decode H) fs q p (nat m)), fs)"
| "run_builtin H b (V_patch v) fs =
     (case apply_patch (th_links H) (th_policy H) (th_hash H) (th_fault H) (th_undo_fault H) v fs of
        (x, fs') \<Rightarrow> (files_result (\<lambda>(paths, k). R_patched paths k) x, fs'))"
| "run_builtin H b (V_command e args dir t m) fs = run_tool_command H (tool_command e args dir t m) fs"
| "run_builtin H b (V_git dir) fs = run_tool_command H (if b = B_git_status then git_status dir else git_diff dir) fs"
| "run_builtin H b (V_pull_request q) fs = (Inr (prepare_pull_request H q), fs)"

text \<open>Every executor returns a dictionary.\<close>

definition builtin_world ::
  "conversions \<Rightarrow> (tool_value \<Rightarrow> string) \<Rightarrow> (tool_result \<Rightarrow> string) \<Rightarrow> tool_host
   \<Rightarrow> (builtin, arguments, tool_value, tool_result, builtin_error, filesystem) tool_world" where
  "builtin_world C input_json output_json H = \<lparr>tw_validate = validate_tool C, tw_run = run_builtin H,
     tw_input_json = input_json, tw_output_json = output_json, tw_type_name = (\<lambda>_. ''dict''), tw_hash = th_hash H\<rparr>"

subsection \<open>What a validated input can hold\<close>

definition value_in_bounds :: "tool_value \<Rightarrow> bool" where
  "value_in_bounds v = (case v of
     V_read p n \<Rightarrow> 1 \<le> n \<and> n \<le> 2000000
   | V_list p n \<Rightarrow> 1 \<le> n \<and> n \<le> 5000
   | V_search q p n \<Rightarrow> 1 \<le> length q \<and> length q \<le> 500 \<and> 1 \<le> n \<and> n \<le> 1000
   | V_patch w \<Rightarrow> 1 \<le> length (pi_files w) \<and> length (pi_files w) \<le> 100
   | V_command e args dir t n \<Rightarrow> 0 < t \<and> t \<le> 1800 \<and> 1 \<le> n \<and> n \<le> 10000000
   | V_git dir \<Rightarrow> True
   | V_pull_request q \<Rightarrow> hex_ok 40 (pq_base q) \<and> hex_ok 40 (pq_head q))"

definition value_of_tool :: "builtin \<Rightarrow> tool_value \<Rightarrow> bool" where
  "value_of_tool b v = (case v of
     V_read p n \<Rightarrow> b = B_read_file | V_list p n \<Rightarrow> b = B_list_directory | V_search q p n \<Rightarrow> b = B_search_code
   | V_patch w \<Rightarrow> b = B_apply_patch | V_command e args dir t n \<Rightarrow> b = B_run_command
   | V_git dir \<Rightarrow> b = B_git_status \<or> b = B_git_diff | V_pull_request q \<Rightarrow> b = B_prepare_pull_request)"

lemmas input_defs = ReadFileInput_def ListDirectoryInput_def SearchCodeInput_def ApplyPatchInput_def CommandInput_def
  GitInspectionInput_def PreparePullRequestInput_def

lemma validated: "validate_tool C b kvs = Some v \<Longrightarrow> value_of_tool b v \<and> value_in_bounds v"
  by (cases b) (auto simp: input_defs bind_eq_Some_conv value_of_tool_def value_in_bounds_def split: if_splits)

subsection \<open>What a tool call can change\<close>

text \<open>The one process a command may start, with nothing but \<open>PATH\<close> in its environment.\<close>

definition process_effect :: "tool_host \<Rightarrow> string \<Rightarrow> string list \<Rightarrow> filesystem \<Rightarrow> filesystem \<Rightarrow> bool" where
  "process_effect H e args fs fs' \<longleftrightarrow> path_name e \<in> set (allowed_executables (th_runner H))
     \<and> (\<exists>working home. real_path (th_links H) fs (workspace (cr_filesystem (th_runner H))) = Some home \<and> prefix home working
         \<and> plain fs working \<and> fs' = snd (th_spawn H e args working [(''PATH'', th_path H)] fs))"

lemma run_tool_command_effect:
  assumes "run_tool_command H c fs = (x, fs')" "sc_environment c = []"
  shows "fs' = fs \<or> process_effect H (sc_executable c) (sc_arguments c) fs fs'"
proof -
  obtain r where run: "run_command (th_links H) (th_runner H) (th_path H) (th_replace H) (th_spawn H) c fs = (r, fs')"
    using assms(1) by (auto simp: run_tool_command_def split: prod.splits sum.splits)
  show ?thesis
  proof (cases "\<exists>e. r = Inl (Command_refused e)")
    case True
    then show ?thesis using run command_refused_keeps by blast
  next
    case False
    then obtain working home where "path_name (sc_executable c) \<in> set (allowed_executables (th_runner H))"
        "real_path (th_links H) fs (workspace (cr_filesystem (th_runner H))) = Some home" "prefix home working" "plain fs working"
        "(r, fs') = finish_command (th_replace H) c (th_spawn H (sc_executable c) (sc_arguments c) working [(''PATH'', th_path H)] fs)"
      using run_command_started [OF run] assms(2) by (auto simp del: split_paired_Ex)
    moreover from this(5) have "fs' = snd (th_spawn H (sc_executable c) (sc_arguments c) working [(''PATH'', th_path H)] fs)"
      by (auto simp: finish_command_def split: process_end.splits prod.splits)
    ultimately show ?thesis unfolding process_effect_def by blast
  qed
qed

lemma run_builtin_effect:
  assumes "run_builtin H b v fs = (x, fs')" "value_of_tool b v"
  shows "fs' = fs
    \<or> (\<exists>w r. v = V_patch w \<and> b = B_apply_patch \<and> apply_patch (th_links H) (th_policy H) (th_hash H) (th_fault H) (th_undo_fault H) w fs = (r, fs'))
    \<or> (\<exists>e args dir t n. v = V_command e args dir t n \<and> b = B_run_command \<and> process_effect H e args fs fs')
    \<or> (b = B_git_status \<and> process_effect H ''git'' [''status'', ''--short''] fs fs')
    \<or> (b = B_git_diff \<and> process_effect H ''git'' [''diff'', ''--no-ext-diff'', ''--''] fs fs')"
proof (cases v)
  case (V_patch w)
  then show ?thesis using assms by (auto simp: value_of_tool_def split: prod.splits)
next
  case (V_command e args dir t n)
  then show ?thesis using assms run_tool_command_effect [of H "tool_command e args dir t n"]
    by (fastforce simp: value_of_tool_def tool_command_def)
next
  case (V_git dir)
  then show ?thesis using assms run_tool_command_effect [of H "git_status dir"] run_tool_command_effect [of H "git_diff dir"]
    by (fastforce simp: value_of_tool_def git_status_def git_diff_def git_command_def)
qed (use assms in auto)

lemma executed:
  assumes "execute_tool W tools rq permissions network s = (result, s')" "s' \<noteq> s"
  shows "\<exists>tool v x. tool \<in> set tools \<and> same_key tool (rq_name rq) (rq_version rq) \<and> required_permission tool \<in> set permissions
    \<and> (approval_required tool \<longrightarrow> str_or (rq_approval rq) [] \<noteq> []) \<and> tw_validate W (tool_executor tool) (rq_arguments rq) = Some v
    \<and> tw_run W (tool_executor tool) v s = (x, s')"
proof -
  obtain tool where f: "find (\<lambda>t. same_key t (rq_name rq) (rq_version rq)) tools = Some tool"
    using assms by (auto simp: execute_tool_def split: option.splits)
  then have t: "tool \<in> set tools" "same_key tool (rq_name rq) (rq_version rq)" by (auto dest: find_SomeD)
  obtain v where "required_permission tool \<in> set permissions" "approval_required tool \<longrightarrow> str_or (rq_approval rq) [] \<noteq> []"
      "tw_validate W (tool_executor tool) (rq_arguments rq) = Some v"
    using assms f by (auto simp: execute_tool_def split: option.splits if_splits)
  moreover from this obtain x where "tw_run W (tool_executor tool) v s = (x, s')"
    using assms f by (auto simp: execute_tool_def split: if_splits sum.splits prod.splits)
  ultimately show ?thesis using t by blast
qed


definition plain_conversions :: conversions where
  "plain_conversions = \<lparr>cv_int = (\<lambda>j. case j of JInt n \<Rightarrow> Some n | _ \<Rightarrow> None),
     cv_float = (\<lambda>j. case j of JReal r \<Rightarrow> Some r | JInt n \<Rightarrow> Some (real_of_int n) | _ \<Rightarrow> None),
     cv_bool = (\<lambda>j. case j of JBool b \<Rightarrow> Some b | _ \<Rightarrow> None)\<rparr>"

definition sample_host :: tool_host where
  "sample_host = \<lparr>th_links = 40, th_policy = sample_policy, th_runner = sample_runner, th_path = ''/bin'', th_decode = Some,
     th_replace = id, th_hash = id, th_fault = (\<lambda>i op. None), th_undo_fault = (\<lambda>j. False),
     th_spawn = (\<lambda>e a w env fs. (Exited (Some 0) [] [] 1, fs)), th_dumps = (\<lambda>_. [])\<rparr>"

definition patch_request :: "string \<Rightarrow> (string \<times> json) list \<Rightarrow> arguments tool_request" where
  "patch_request path flags = \<lparr>rq_name = ''apply_patch'', rq_version = ''1'', rq_arguments =
     (''files'', JList [JObj [(''path'', JStr path), (''content'', JStr ''new'')]]) # flags, rq_approval = Some ''x''\<rparr>"

lemmas argument_defs = ApplyPatchInput_def StructuredPatchFile_def only_keys_def required_def with_default_def checked_def
  plain_conversions_def patch_request_def

lemma patch_request_valid:
  "validate_tool plain_conversions B_apply_patch (rq_arguments (patch_request p [])) =
     Some (V_patch \<lparr>pi_files = [\<lparr>pf_path = p, pf_base_hash = None, pf_content = Some ''new'', pf_delete = False\<rparr>], pi_approved = False\<rparr>)"
  "validate_tool plain_conversions B_apply_patch (rq_arguments (patch_request p [(''approved_protected_write'', JBool True)])) =
     Some (V_patch \<lparr>pi_files = [\<lparr>pf_path = p, pf_base_hash = None, pf_content = Some ''new'', pf_delete = False\<rparr>], pi_approved = True\<rparr>)"
  by (simp_all add: argument_defs)

lemma patch_request_runs:
  assumes "validate_tool C B_apply_patch (rq_arguments (patch_request p flags)) = Some (V_patch w)"
  shows "snd (execute_tool (builtin_world C ij oj H) builtin_list (patch_request p flags) [''workspace:write''] network fs)
    = snd (apply_patch (th_links H) (th_policy H) (th_hash H) (th_fault H) (th_undo_fault H) w fs)"
proof -
  have "find (\<lambda>t. same_key t ''apply_patch'' ''1'') builtin_list = Some (builtin_tool ''apply_patch'' TR_WRITE ''workspace:write'' True B_apply_patch)"
    by (simp add: builtin_list_def builtin_tool_def same_key_def)
  then show ?thesis using assms
    by (simp add: execute_tool_def patch_request_def builtin_world_def builtin_tool_def split: prod.splits sum.splits)
qed

lemma sample_call_writes:
  "bytes_at (snd (execute_tool (builtin_world plain_conversions ij oj sample_host) builtin_list (patch_request ''a'' []) [''workspace:write''] False
     sample_tree)) [''srv'', ''a''] = Some ''new''"
  unfolding patch_request_runs [OF patch_request_valid(1)]
  by (simp add: sample_host_def apply_patch_def patch_bytes_def sample_resolve)
    (simp add: sample_tree_def real_path_def node_at_def found_def patch_run_defs bytes_at_def)


subsection \<open>Who approves a protected write\<close>

text \<open>
  The approval of a write to a protected path is a field of the tool's arguments, so the caller of the tool, a model,
  gives it to itself.
\<close>

definition git_tree :: filesystem where
  "git_tree = [([''srv''], Directory), ([''srv'', ''.git''], Directory), ([''srv'', ''.git'', ''config''], Regular ''old'' 1)]"

lemma git_resolve:
  "resolve 40 sample_policy git_tree ''.git/config'' True False = Inl Protected_path"
  "resolve 40 sample_policy git_tree ''.git/config'' True True = Inr [''srv'', ''.git'', ''config'']"
  by (simp_all add: sample_policy_def git_tree_def resolve_run_defs)

lemma caller_approves_protected_write:
  "bytes_at (snd (execute_tool (builtin_world plain_conversions ij oj sample_host) builtin_list
     (patch_request ''.git/config'' []) [''workspace:write''] False git_tree)) [''srv'', ''.git'', ''config''] = Some ''old''"
  "bytes_at (snd (execute_tool (builtin_world plain_conversions ij oj sample_host) builtin_list
     (patch_request ''.git/config'' [(''approved_protected_write'', JBool True)]) [''workspace:write''] False git_tree))
       [''srv'', ''.git'', ''config''] = Some ''new''"
  unfolding patch_request_runs [OF patch_request_valid(1)] patch_request_runs [OF patch_request_valid(2)]
   apply (simp add: sample_host_def apply_patch_def patch_bytes_def git_resolve)
   apply (simp add: git_tree_def bytes_at_def node_at_def)
  apply (simp add: sample_host_def apply_patch_def patch_bytes_def git_resolve)
  apply (simp add: git_tree_def real_path_def node_at_def found_def patch_run_defs bytes_at_def)
  done

end
