(* ===== verification/Domain.thy ===== *)
theory Domain
  imports Schema Approval
begin

text \<open>
  The remaining entities of \<open>core/domain.py\<close> with the limits of their fields, and how the entities that are stored meet the
  columns of their tables (\<open>database/base.py\<close>, \<open>control_records.py\<close>): which of them always fit, and which the
  validation lets through although their table refuses them.
\<close>

subsection \<open>Entities\<close>

definition len_in :: "nat \<Rightarrow> nat \<Rightarrow> 'a list \<Rightarrow> bool" where
  "len_in a b s \<longleftrightarrow> a \<le> length s \<and> length s \<le> b"

definition valid_if :: "bool \<Rightarrow> 'a \<Rightarrow> 'a option" where
  "valid_if ok x = (if ok then Some x else None)"

lemma valid_if_Some [simp]: "valid_if ok x = Some y \<longleftrightarrow> ok \<and> y = x"
  by (auto simp: valid_if_def)

record repository_target =
  rt_name :: string
  rt_branch :: string
  rt_sha :: "string option"

definition RepositoryTarget :: "repository_target \<Rightarrow> repository_target option" where
  "RepositoryTarget r = valid_if (repo_name_ok (rt_name r) \<and> len_in 1 255 (rt_branch r)
     \<and> (case rt_sha r of None \<Rightarrow> True | Some s \<Rightarrow> hex_ok 40 s)) r"

definition EvidenceItem :: "evidence_item \<Rightarrow> evidence_item option" where
  "EvidenceItem e = valid_if (len_in 1 64 (ev_kind e) \<and> len_in 1 4000 (ev_summary e)
     \<and> (case ev_immutable_hash e of None \<Rightarrow> True | Some h \<Rightarrow> hex_ok 64 h)) e"

record task_attempt =
  ta_id :: uuid
  ta_task :: uuid
  ta_number :: int
  ta_state :: task_state
  ta_expires :: "instant option"

definition TaskAttempt :: "task_attempt \<Rightarrow> task_attempt option" where
  "TaskAttempt a = valid_if (1 \<le> ta_number a) a"

record execution_entity =
  xe_id :: uuid
  xe_task :: uuid
  xe_attempt :: uuid
  xe_sandbox :: "string option"
  xe_started :: "instant option"
  xe_finished :: "instant option"

record plan_entity =
  pl_id :: uuid
  pl_task :: uuid
  pl_steps :: "string list"
  pl_risk :: string

definition Plan :: "plan_entity \<Rightarrow> plan_entity option" where
  "Plan p = valid_if (len_in 1 100 (pl_steps p) \<and> len_in 1 4000 (pl_risk p)) p"

record patch_entity =
  pe_id :: uuid
  pe_task :: uuid
  pe_diff :: string
  pe_paths :: "string list"

definition Patch :: "patch_entity \<Rightarrow> patch_entity option" where
  "Patch p = valid_if (len_in 1 2000000 (pe_diff p) \<and> len_in 0 1000 (pe_paths p)) p"

record 'v tool_call =
  tc_id :: uuid
  tc_name :: string
  tc_arguments :: "(string \<times> 'v) list"
  tc_idempotency :: string

definition ToolCall :: "'v tool_call \<Rightarrow> 'v tool_call option" where
  "ToolCall c = valid_if (len_in 1 128 (tc_name c) \<and> len_in 1 255 (tc_idempotency c)) c"

record approval_entity =
  ape_id :: uuid
  ape_task :: uuid
  ape_approved :: bool
  ape_actor :: string
  ape_reason :: string

definition ApprovalEntity :: "approval_entity \<Rightarrow> approval_entity option" where
  "ApprovalEntity a = valid_if (len_in 1 128 (ape_actor a) \<and> len_in 0 4000 (ape_reason a)) a"

record review_entity =
  rv_id :: uuid
  rv_task :: uuid
  rv_role :: string
  rv_approved :: bool
  rv_findings :: "string list"

definition Review :: "review_entity \<Rightarrow> review_entity option" where
  "Review r = valid_if (len_in 1 64 (rv_role r) \<and> len_in 0 100 (rv_findings r)) r"

record guard_receipt =
  gr_skill :: string
  gr_version :: string
  gr_commit :: string
  gr_result :: string
  gr_findings :: "(string \<times> string) list list"

definition GuardReceipt :: "guard_receipt \<Rightarrow> guard_receipt option" where
  "GuardReceipt g = valid_if (len_in 1 128 (gr_skill g) \<and> len_in 1 64 (gr_version g) \<and> len_in 7 64 (gr_commit g)
     \<and> gr_result g \<in> {''pass'', ''changes-required''} \<and> len_in 0 100 (gr_findings g)) g"

record model_usage =
  mu_provider :: string
  mu_model :: string
  mu_input_tokens :: int
  mu_output_tokens :: int
  mu_cost :: real

definition ModelUsage :: "model_usage \<Rightarrow> model_usage option" where
  "ModelUsage u = valid_if (len_in 1 128 (mu_provider u) \<and> len_in 1 256 (mu_model u) \<and> 0 \<le> mu_input_tokens u
     \<and> 0 \<le> mu_output_tokens u \<and> 0 \<le> mu_cost u) u"

record deployment_request =
  dr_task :: uuid
  dr_environment :: string
  dr_approved_by :: "string option"

definition DeploymentRequest :: "deployment_request \<Rightarrow> deployment_request option" where
  "DeploymentRequest d = valid_if (len_in 1 64 (dr_environment d)
     \<and> (case dr_approved_by d of None \<Rightarrow> True | Some a \<Rightarrow> length a \<le> 128)) d"

subsection \<open>Their rows\<close>

fun risk_value :: "risk_level \<Rightarrow> string" where
  "risk_value LOW = ''low''"
| "risk_value MEDIUM = ''medium''"
| "risk_value HIGH = ''high''"
| "risk_value CRITICAL = ''critical''"

definition task_cells :: "string \<Rightarrow> task_record \<Rightarrow> row" where
  "task_cells key t = [(''id'', Uuid (task_id t)), (''idempotency_key'', Chars key),
     (''repository'', Chars (repository (task_request t))), (''instruction'', Chars (instruction (task_request t))),
     (''state'', Chars (state_value (task_state t))), (''risk'', Chars (risk_value (task_risk t))),
     (''created_at'', Moment (created_at t)), (''updated_at'', Moment (updated_at t))]"

definition attempt_cells :: "string option \<Rightarrow> task_attempt \<Rightarrow> row" where
  "attempt_cells owner a = [(''id'', Uuid (ta_id a)), (''task_id'', Uuid (ta_task a)), (''number'', Whole (ta_number a)),
     (''state'', Chars (state_value (ta_state a))), (''lease_owner'', case owner of None \<Rightarrow> Null | Some w \<Rightarrow> Chars w),
     (''lease_expires_at'', case ta_expires a of None \<Rightarrow> Null | Some t \<Rightarrow> Moment t)]"

text \<open>\<open>append_evidence\<close> refuses an item without a hash.\<close>

definition evidence_cells :: "uuid \<Rightarrow> uuid \<Rightarrow> evidence_item \<Rightarrow> row option" where
  "evidence_cells i task e = (case ev_immutable_hash e of None \<Rightarrow> None
     | Some h \<Rightarrow> Some [(''id'', Uuid i), (''task_id'', Uuid task), (''kind'', Chars (ev_kind e)), (''summary'', Chars (ev_summary e)),
         (''immutable_hash'', Chars h), (''created_at'', Moment (ev_created_at e))])"

definition audit_cells :: "uuid \<Rightarrow> uuid \<Rightarrow> audit_event \<Rightarrow> row" where
  "audit_cells i task e = [(''id'', Uuid i), (''task_id'', Uuid task), (''action'', Chars (ae_action e)), (''actor'', Chars (ae_actor e)),
     (''idempotency_key'', Chars (ae_key e)), (''detail'', Chars (ae_detail e)), (''occurred_at'', Moment (ae_occurred_at e))]"

lemmas cells_fit_defs = row_fits_def declared_def primary_id_def mapped_def nullable_def

lemma attempt_fits:
  "\<lbrakk>TaskAttempt a = Some b; ta_number a < 2 ^ 31; \<forall>w. owner = Some w \<longrightarrow> length w \<le> 128\<rbrakk> \<Longrightarrow>
     row_fits task_attempts_table (attempt_cells owner b)"
  using length_state_value [of "ta_state a"]
  by (auto simp: TaskAttempt_def cells_fit_defs task_attempts_table_def attempt_cells_def split: option.splits)

lemma evidence_fits:
  "\<lbrakk>EvidenceItem e = Some f; evidence_cells i task f = Some r\<rbrakk> \<Longrightarrow> row_fits evidence_table r"
  by (auto simp: EvidenceItem_def len_in_def hex_ok_def cells_fit_defs evidence_table_def evidence_cells_def split: option.splits)

lemma audit_event_fits:
  "AuditEvent action actor key t detail = Some e \<Longrightarrow> row_fits audit_events_table (audit_cells i task e)"
  by (auto simp: AuditEvent_def cells_fit_defs audit_events_table_def audit_cells_def split: if_splits)

lemma task_fits_iff:
  "row_fits tasks_table (task_cells key t) \<longleftrightarrow> length key \<le> 255 \<and> length (repository (task_request t)) \<le> 255"
  using length_state_value [of "task_state t"]
  by (cases "task_risk t") (auto simp: cells_fit_defs tasks_table_def task_cells_def)

subsection \<open>What passes the validation and not the table\<close>

text \<open>The name of a repository has no maximal length in the request, the column has one.\<close>

lemma long_repository_accepted:
  "\<exists>req. TaskRequest (replicate 255 (CHR ''a'') @ ''/b'') ''fix'' ''main'' True = Some req
     \<and> \<not> row_fits tasks_table (task_cells key (new_task i req now))"
proof -
  have ok: "repo_name_ok (replicate 255 (CHR ''a'') @ ''/b'')" by code_simp
  show ?thesis by (simp add: TaskRequest_def ok task_fits_iff new_task_def)
qed

text \<open>
  The key of an audit event without an explicit key does not name the task, but is unique in the whole table: of two tasks
  that make the same move only one can store the event.
\<close>

lemma same_move_of_two_tasks_clashes:
  assumes "task_state t = task_state u" "tgt \<in> set (ALLOWED (task_state t))" "audit_events t = []" "audit_events u = []"
    and "length (str_or ev []) \<le> 100"
  shows "\<exists>e f. audit_events (snd (transition now t tgt ev None ''control-plane'')) = [e]
    \<and> audit_events (snd (transition later u tgt ev None ''control-plane'')) = [f]
    \<and> clash [''idempotency_key''] (audit_cells i (task_id t) e) (audit_cells j (task_id u) f)
    \<and> [''idempotency_key''] \<in> set (unique_keys audit_events_table)"
proof -
  let ?key = "transition_key (task_state t) tgt ev None"
  have key: "1 \<le> length ?key \<and> length ?key \<le> 255" "length (edge_detail (task_state t) tgt) \<le> 4000"
    using assms(5) length_state_value [of "task_state t"] length_state_value [of tgt] length_edge_detail [of "task_state t" tgt]
    by (auto simp: transition_key_def str_or_def)
  have event: "AuditEvent ''task.transition'' ''control-plane'' ?key x (edge_detail (task_state t) tgt) =
      Some \<lparr>ae_action = ''task.transition'', ae_actor = ''control-plane'', ae_key = ?key, ae_occurred_at = x,
        ae_detail = edge_detail (task_state t) tgt\<rparr>" for x
    using key by (simp add: AuditEvent_def)
  have "[''idempotency_key''] \<in> set (unique_keys audit_events_table)"
    by (simp add: unique_keys_def audit_events_table_def declared_def)
  then show ?thesis using assms(2-4) event
    by (simp add: transition_def Let_def assms(1) [symmetric] clash_def cells_of_def audit_cells_def)
qed

text \<open>A model name of 256 characters is a valid usage and too long for its column.\<close>

lemma long_model_name_accepted:
  assumes "length name = 256"
  shows "ModelUsage \<lparr>mu_provider = ''p'', mu_model = name, mu_input_tokens = 0, mu_output_tokens = 0, mu_cost = 0\<rparr> \<noteq> None
    \<and> (\<forall>c \<in> set (tb_columns model_attempts_table). col_name c = ''model'' \<longrightarrow> \<not> cell_fits (col_type c) (Chars name))"
  using assms by (simp add: ModelUsage_def valid_if_def len_in_def model_attempts_table_def declared_def primary_id_def mapped_def)

end
