(* ===== verification/Telegram_Http.thy ===== *)
theory Telegram_Http
  imports Telegram Providers
begin

text \<open>
  The transport of the Telegram bot over HTTP (\<open>HttpTelegramTransport\<close> in \<open>telegram/transport.py\<close>): what an answer of the Bot API
  means, as an instance of the transport the bot sends through. The HTTP client and \<open>float\<close> of a decoded number are
  parameters.
\<close>

record telegram_http =
  tg_configured :: bool
  tg_base :: string
  tg_timeout :: seconds

definition HttpTelegramTransport :: "string \<Rightarrow> seconds \<Rightarrow> telegram_http" where
  "HttpTelegramTransport token timeout =
     \<lparr>tg_configured = (token \<noteq> []), tg_base = ''https://api.telegram.org/bot'' @ token, tg_timeout = timeout\<rparr>"

text \<open>The pause a 429 asks for; a body that is no such object raises.\<close>

definition asked_pause :: "(json \<Rightarrow> real option) \<Rightarrow> json option \<Rightarrow> real option" where
  "asked_pause to_float body = (case body of
     None \<Rightarrow> None
   | Some j \<Rightarrow> (case after (get_key j ''parameters'' (JObj [])) (\<lambda>p. get_key p ''retry_after'' (JInt 1)) of
       Inl e \<Rightarrow> None | Inr v \<Rightarrow> to_float v))"

definition telegram_post ::
  "(json \<Rightarrow> real option) \<Rightarrow> (string \<Rightarrow> json \<Rightarrow> seconds \<Rightarrow> 's \<Rightarrow> http_end \<times> 's) \<Rightarrow> telegram_http \<Rightarrow> string \<Rightarrow> json \<Rightarrow> 's
   \<Rightarrow> send_end \<times> 's" where
  "telegram_post to_float post h path payload s =
     (if \<not> tg_configured h then (Send_failed, s)
      else case post (tg_base h @ path) payload (tg_timeout h) s of
        (Http_reply r, s1) \<Rightarrow>
          (if hr_status r = 429 then (case asked_pause to_float (hr_json r) of None \<Rightarrow> Send_failed | Some d \<Rightarrow> Flood_wait d)
           else if 400 \<le> hr_status r then Send_failed else Sent, s1)
      | (_, s1) \<Rightarrow> (Send_failed, s1))"

definition message_payload :: "int \<Rightarrow> string \<Rightarrow> json" where
  "message_payload chat message = JObj [(''chat_id'', JInt chat), (''text'', JStr message), (''parse_mode'', JStr ''HTML'')]"

definition answer_payload :: "string \<Rightarrow> string \<Rightarrow> json" where
  "answer_payload i message = JObj [(''callback_query_id'', JStr i), (''text'', JStr message)]"

definition http_transport ::
  "(json \<Rightarrow> real option) \<Rightarrow> (string \<Rightarrow> json \<Rightarrow> seconds \<Rightarrow> 's \<Rightarrow> http_end \<times> 's) \<Rightarrow> (seconds \<Rightarrow> 's \<Rightarrow> 's) \<Rightarrow> telegram_http \<Rightarrow> 's transport" where
  "http_transport to_float post sleep h = \<lparr>
     tp_send = (\<lambda>chat message s. telegram_post to_float post h ''/sendMessage'' (message_payload chat message) s),
     tp_answer = (\<lambda>i message s. case telegram_post to_float post h ''/answerCallbackQuery'' (answer_payload i message) s of
        (end, s1) \<Rightarrow> (end = Sent, s1)),
     tp_sleep = sleep\<rparr>"

definition telegram_healthy :: "(string \<Rightarrow> seconds \<Rightarrow> 's \<Rightarrow> http_end \<times> 's) \<Rightarrow> telegram_http \<Rightarrow> 's \<Rightarrow> bool \<times> 's" where
  "telegram_healthy get h s =
     (if \<not> tg_configured h then (False, s)
      else case get (tg_base h @ ''/getMe'') (tg_timeout h) s of
        (Http_reply r, s1) \<Rightarrow> (hr_status r = 200, s1) | (_, s1) \<Rightarrow> (False, s1))"

subsection \<open>What one message costs\<close>

text \<open>A client that trace what is posted and slept.\<close>

datatype wire_note = Posted string json | Slept seconds

definition noted_post ::
  "(string \<Rightarrow> json \<Rightarrow> seconds \<Rightarrow> 's \<Rightarrow> http_end \<times> 's) \<Rightarrow> string \<Rightarrow> json \<Rightarrow> seconds \<Rightarrow> 's \<times> wire_note list \<Rightarrow> http_end \<times> 's \<times> wire_note list" where
  "noted_post post url payload t = (\<lambda>(s, trace). case post url payload t s of (a, s1) \<Rightarrow> (a, s1, trace @ [Posted url payload]))"

definition noted_sleep :: "(seconds \<Rightarrow> 's \<Rightarrow> 's) \<Rightarrow> seconds \<Rightarrow> 's \<times> wire_note list \<Rightarrow> 's \<times> wire_note list" where
  "noted_sleep sleep d = (\<lambda>(s, trace). (sleep d s, trace @ [Slept d]))"

fun is_post :: "wire_note \<Rightarrow> bool" where
  "is_post (Posted url payload) = True"
| "is_post (Slept d) = False"

text \<open>
  A message is posted at most once more than its retries allow, always with the same content to the same address, and only
  by a configured transport; every retry comes after a pause, and a message reported as sent was answered below 400.
\<close>

lemma telegram_post_ends:
  assumes "telegram_post to_float (noted_post post) h path payload (s, trace) = (a, s1, trace1)"
  shows "trace1 = trace @ (if tg_configured h then [Posted (tg_base h @ path) payload] else [])"
    and "a \<noteq> Send_failed \<Longrightarrow> tg_configured h"
    and "a = Sent \<Longrightarrow> \<exists>t s0 r s2. post (tg_base h @ path) payload t s0 = (Http_reply r, s2) \<and> hr_status r < 400"
  using assms
  by (auto simp: telegram_post_def noted_post_def not_le split: if_splits prod.splits http_end.splits option.splits)

lemma http_transport_sel [simp]:
  "tp_send (http_transport to_float post sleep h) chat message = telegram_post to_float post h ''/sendMessage'' (message_payload chat message)"
  "tp_sleep (http_transport to_float post sleep h) = sleep"
  by (simp_all add: http_transport_def)

lemma noted_sleep_pair [simp]: "noted_sleep sleep d (s, trace) = (sleep d s, trace @ [Slept d])"
  by (simp add: noted_sleep_def)

lemma one_message_wire:
  assumes "send_with_flood_wait (http_transport to_float (noted_post post) (noted_sleep sleep) h) chat message left (s, trace)
    = (sent, s1, trace1)"
  shows "\<exists>new. trace1 = trace @ new \<and> length (filter is_post new) \<le> left + 1
    \<and> (\<forall>n \<in> set new. is_post n \<longrightarrow> n = Posted (tg_base h @ ''/sendMessage'') (message_payload chat message) \<and> tg_configured h)
    \<and> length new \<le> 2 * left + 1
    \<and> (sent \<longrightarrow> (\<exists>t s0 r s2. post (tg_base h @ ''/sendMessage'') (message_payload chat message) t s0 = (Http_reply r, s2) \<and> hr_status r < 400))"
  using assms
proof (induction left arbitrary: s trace)
  case 0
  obtain a s2 trace2 where p: "telegram_post to_float (noted_post post) h ''/sendMessage'' (message_payload chat message) (s, trace) = (a, s2, trace2)"
    by (metis prod_cases3)
  note e = telegram_post_ends [OF p]
  have "s1 = s2 \<and> trace1 = trace2 \<and> (sent \<longrightarrow> a = Sent)"
    using 0 p by (simp add: send_with_flood_wait.simps split: send_end.splits)
  then show ?case using e by (auto split: if_splits)
next
  case (Suc k)
  obtain a s2 trace2 where p: "telegram_post to_float (noted_post post) h ''/sendMessage'' (message_payload chat message) (s, trace) = (a, s2, trace2)"
    by (metis prod_cases3)
  note e = telegram_post_ends [OF p]
  show ?case
  proof (cases "\<exists>d. a = Flood_wait d")
    case True
    then obtain d where d: "a = Flood_wait d" by blast
    have "send_with_flood_wait (http_transport to_float (noted_post post) (noted_sleep sleep) h) chat message k (sleep d s2, trace2 @ [Slept d])
      = (sent, s1, trace1)"
      using Suc.prems p by (simp add: send_with_flood_wait.simps [of _ _ _ "Suc k"] d)
    from Suc.IH [OF this] obtain new where new: "trace1 = (trace2 @ [Slept d]) @ new" "length (filter is_post new) \<le> k + 1"
      "\<forall>n \<in> set new. is_post n \<longrightarrow> n = Posted (tg_base h @ ''/sendMessage'') (message_payload chat message) \<and> tg_configured h"
      "length new \<le> 2 * k + 1"
      "sent \<longrightarrow> (\<exists>t s0 r s2. post (tg_base h @ ''/sendMessage'') (message_payload chat message) t s0 = (Http_reply r, s2) \<and> hr_status r < 400)"
      by blast
    have "tg_configured h" using e(2) d by simp
    then show ?thesis using new e(1)
      by (intro exI [of _ "[Posted (tg_base h @ ''/sendMessage'') (message_payload chat message), Slept d] @ new"]) auto
  next
    case False
    then have "s1 = s2 \<and> trace1 = trace2 \<and> (sent \<longrightarrow> a = Sent)"
      using Suc.prems p by (simp add: send_with_flood_wait.simps [of _ _ _ "Suc k"] split: send_end.splits)
    then show ?thesis using e by (auto split: if_splits)
  qed
qed

end
