(* ===== verification/Queue_Reads.thy ===== *)
theory Queue_Reads
  imports Metrics
begin

text \<open>
  The reading operations of the queue that change nothing: the listing and the count of dead letters
  (\<open>queue/dead_letter_queue.py\<close>), the lookups of a cancellation (\<open>queue/cancellation.py\<close>) and of a waiting retry
  (\<open>queue/retry_scheduler.py\<close>). Each is one command; one that is not answered raises.
\<close>

definition asked :: "bool \<Rightarrow> 'a \<Rightarrow> queue_error + 'a" where
  "asked answered a = (if answered then Inr a else Inl Infrastructure_error)"

subsection \<open>Dead letters\<close>

fun dead_letter_of :: "queue_value \<Rightarrow> dead_letter option" where
  "dead_letter_of (VDead d) = Some d"
| "dead_letter_of _ = None"

text \<open>Sorted by the pair of creation and identifier: a stable sort by the one after a sort by the other.\<close>

definition by_creation :: "dead_letter list \<Rightarrow> dead_letter list" where
  "by_creation records = sort_key dl_created_at (sort_key dl_id records)"

definition dlq_list :: "'s queue_redis \<Rightarrow> bool \<Rightarrow> int \<Rightarrow> int \<Rightarrow> 's \<Rightarrow> queue_error + dead_letter list" where
  "dlq_list R answered offset limit s =
     (if offset < 0 \<or> \<not> (1 \<le> limit \<and> limit \<le> 500) then Inl Invalid_argument
      else case asked answered (cmd_hvals R Dlq s) of
        Inl e \<Rightarrow> Inl e
      | Inr values \<Rightarrow> (case those (map dead_letter_of values) of
          None \<Rightarrow> Inl Decode_error
        | Some records \<Rightarrow> Inr (take (nat limit) (drop (nat offset) (by_creation records)))))"

definition dlq_count :: "(queue_key, queue_value, 's) redis_reads \<Rightarrow> bool \<Rightarrow> 's \<Rightarrow> queue_error + nat" where
  "dlq_count Q answered s = asked answered (cmd_hlen Q Dlq s)"

subsection \<open>Cancellations and retries\<close>

definition is_cancelled :: "'s queue_redis \<Rightarrow> bool \<Rightarrow> string \<Rightarrow> 's \<Rightarrow> queue_error + bool" where
  "is_cancelled R answered tid s = asked answered (cmd_sismember R Cancelled_set tid s)"

definition decoded :: "(queue_value \<Rightarrow> 'a option) \<Rightarrow> queue_value option \<Rightarrow> queue_error + 'a option" where
  "decoded f raw = (case raw of
     None \<Rightarrow> Inr None
   | Some v \<Rightarrow> if v = VText [] then Inr None else (case f v of None \<Rightarrow> Inl Decode_error | Some a \<Rightarrow> Inr (Some a)))"

definition cancellation_record_of :: "'s queue_redis \<Rightarrow> bool \<Rightarrow> string \<Rightarrow> 's \<Rightarrow> queue_error + cancellation_record option" where
  "cancellation_record_of R answered tid s = (case asked answered (cmd_hget R Cancel_meta tid s) of
     Inl e \<Rightarrow> Inl e
   | Inr raw \<Rightarrow> decoded (\<lambda>v. case v of VCancel c \<Rightarrow> Some c | _ \<Rightarrow> None) raw)"

definition retry_record_for :: "'s queue_redis \<Rightarrow> bool \<Rightarrow> string \<Rightarrow> 's \<Rightarrow> queue_error + retry_record option" where
  "retry_record_for R answered m s = (case asked answered (cmd_hget R Delayed m s) of
     Inl e \<Rightarrow> Inl e
   | Inr raw \<Rightarrow> decoded (\<lambda>v. case v of VRetry r \<Rightarrow> Some r | _ \<Rightarrow> None) raw)"

subsection \<open>Pages\<close>

lemma concat_pages: "concat (map (\<lambda>k. take n (drop (k * n) xs)) [0..<m]) = take (m * n) xs"
proof (induction m)
  case (Suc m)
  have "take (m * n) xs @ take n (drop (m * n) xs) = take (m * n + n) xs" by (simp add: take_add)
  then show ?case using Suc by (simp add: add.commute)
qed simp

lemma mset_by_creation [simp]: "mset (by_creation records) = mset records"
  by (simp add: by_creation_def)

lemma dlq_list_page:
  "\<lbrakk>1 \<le> limit; limit \<le> 500; those (map dead_letter_of (cmd_hvals R Dlq s)) = Some records\<rbrakk> \<Longrightarrow>
     dlq_list R True (int (k * nat limit)) limit s = Inr (take (nat limit) (drop (k * nat limit) (by_creation records)))"
  using nat_mult_distrib [of "int k" limit] by (simp add: dlq_list_def asked_def not_less)

text \<open>
  Turning the pages while nothing changes shows every dead letter once: the pages, put together, are the letters in the order of
  their creation, as many as the count says.
\<close>

lemma those_map_dead: "those (map dead_letter_of vs) = Some ds \<Longrightarrow> length ds = length vs \<and> mset vs = mset (map VDead ds)"
proof (induction vs arbitrary: ds)
  case (Cons v vs)
  then obtain d es where "v = VDead d" "those (map dead_letter_of vs) = Some es" "ds = d # es"
    by (cases v) (auto split: option.splits)
  then show ?case using Cons.IH by simp
qed simp

lemma dead_letter_pages:
  assumes "redis_stats R view Q" "1 \<le> limit" "limit \<le> 500"
    and "those (map dead_letter_of (cmd_hvals R Dlq s)) = Some records" "length records \<le> pages * nat limit"
  shows "(\<exists>xs. map (\<lambda>k. dlq_list R True (int (k * nat limit)) limit s) [0..<pages] = map Inr xs
      \<and> mset (concat xs) = mset records \<and> sorted (map dl_created_at (concat xs)))
    \<and> dlq_count Q True s = Inr (length records)"
proof -
  let ?xs = "map (\<lambda>k. take (nat limit) (drop (k * nat limit) (by_creation records))) [0..<pages]"
  have "map (\<lambda>k. dlq_list R True (int (k * nat limit)) limit s) [0..<pages] = map Inr ?xs"
    using dlq_list_page [OF assms(2-4)] by simp
  moreover have "concat ?xs = by_creation records"
    unfolding concat_pages using assms(5) by (simp add: by_creation_def)
  moreover have "sorted (map dl_created_at (by_creation records))" by (simp add: by_creation_def)
  moreover have "length records = card (dom (hashes (view s) Dlq))"
  proof -
    note stats = redis_stats.axioms(1) [OF assms(1)]
    obtain fs where "distinct fs" "set fs = dom (hashes (view s) Dlq)" "length (cmd_hvals R Dlq s) = length fs"
      using redis.hvals_law [OF stats, where k = Dlq and s = s] by (auto dest: arg_cong [of _ _ length])
    then show ?thesis using those_map_dead [OF assms(4)] by (simp add: distinct_card [symmetric])
  qed
  moreover have "dlq_count Q True s = Inr (card (dom (hashes (view s) Dlq)))"
    using redis_stats.hlen_law [OF assms(1)] by (simp add: dlq_count_def asked_def)
  ultimately show ?thesis by (metis mset_by_creation)
qed

end
