(* ===== verification/Review_Context.thy ===== *)
theory Review_Context
  imports Repository Providers
begin

text \<open>
  What a model or a skill loader is given to look at: the request of a blind review (\<open>BlindReviewContext\<close> in
  \<open>model_router/router.py\<close>), a rendered repository context (\<open>repository_intelligence/context.py\<close>), and the checkout of the
  skill repository (\<open>skills/repository.py\<close>). \<open>json.dumps\<close> is a parameter.
\<close>

subsection \<open>Blind review\<close>

record blind_review =
  br_task :: string
  br_rules :: string
  br_plan :: string
  br_diff :: string
  br_files :: "string list"
  br_tests :: string
  br_receipts :: string
  br_policy :: string

text \<open>The payload with its keys sorted.\<close>

definition review_payload :: "blind_review \<Rightarrow> json" where
  "review_payload b = JObj [(''approved_plan'', JStr (br_plan b)), (''changed_files'', JList (map JStr (br_files b))),
     (''diff'', JStr (br_diff b)), (''guard_receipts'', JStr (br_receipts b)), (''original_task'', JStr (br_task b)),
     (''repository_rules'', JStr (br_rules b)), (''risk_policy'', JStr (br_policy b)), (''test_evidence'', JStr (br_tests b))]"

definition review_request :: "(json \<Rightarrow> string) \<Rightarrow> blind_review \<Rightarrow> model_request" where
  "review_request dumps b = \<lparr>mq_messages = [\<lparr>mm_role = ''user'', mm_content = dumps (review_payload b)\<rparr>],
     mq_system = Some ''Perform an independent blind review using only supplied evidence.'',
     mq_temperature = 1 / 10, mq_max_output = 8192\<rparr>"

text \<open>The reviewer sees exactly the evidence: two reviews that ask the same hold the same evidence, and nothing else does.\<close>

lemma review_payload_inj: "review_payload b = review_payload c \<Longrightarrow> b = c"
proof -
  assume "review_payload b = review_payload c"
  moreover have "map JStr xs = map JStr ys \<longleftrightarrow> xs = ys" for xs ys by (simp add: inj_map_eq_map inj_on_def)
  ultimately show ?thesis by (simp add: review_payload_def)
qed

lemma same_request_same_evidence:
  "inj dumps \<Longrightarrow> review_request dumps b = review_request dumps c \<Longrightarrow> b = c"
  by (auto simp: review_request_def inj_on_def intro: review_payload_inj)

subsection \<open>Rendered context\<close>

record repository_context =
  rc_repository :: string
  rc_branch :: string
  rc_tree :: "string list"
  rc_rules :: string
  rc_files :: "(string \<times> string) list"

definition render_context :: "repository_context \<Rightarrow> string" where
  "render_context c = ''Repository: '' @ rc_repository c @ [CHR 0x0A] @ ''Base branch: '' @ rc_branch c @ [CHR 0x0A]
     @ ''Rules:'' @ [CHR 0x0A] @ rc_rules c @ [CHR 0x0A] @ ''Files:'' @ [CHR 0x0A]
     @ join_with [CHR 0x0A] (map (\<lambda>(path, content). ''## '' @ path @ [CHR 0x0A] @ content) (rc_files c))"

text \<open>The tree of the repository is not rendered; a content that looks like a heading is read as another file.\<close>

lemma tree_not_rendered: "render_context (c\<lparr>rc_tree := t\<rparr>) = render_context c"
  by (simp add: render_context_def)

lemma content_forges_file:
  "render_context \<lparr>rc_repository = r, rc_branch = b, rc_tree = t, rc_rules = u, rc_files = [(p, x @ [CHR 0x0A] @ ''## '' @ q @ [CHR 0x0A] @ y)]\<rparr>
   = render_context \<lparr>rc_repository = r, rc_branch = b, rc_tree = t, rc_rules = u, rc_files = [(p, x), (q, y)]\<rparr>"
  by (simp add: render_context_def)

subsection \<open>The skill repository\<close>

record skill_repository =
  sr_repository :: string
  sr_commit :: string
  sr_remote :: string

definition checkout_skills ::
  "nat \<Rightarrow> (string list \<Rightarrow> (string \<times> string) list \<Rightarrow> filesystem \<Rightarrow> git_end \<times> filesystem) \<Rightarrow> (string \<Rightarrow> string)
   \<Rightarrow> (string \<times> string) list \<Rightarrow> clone_policy \<Rightarrow> skill_repository \<Rightarrow> location \<Rightarrow> filesystem
   \<Rightarrow> (acquisition_error + location) \<times> filesystem" where
  "checkout_skills n git shown environ P r dest fs = acquire n git shown environ P (sr_repository r) (sr_remote r) (sr_commit r) dest fs"

lemma skill_checkout_pinned:
  assumes "checkout_skills n git shown environ P r dest fs = (Inr place, fs2)"
  shows "place = dest \<and> sr_repository r \<in> set (cp_repositories P) \<and> length (sr_commit r) = 40
    \<and> (\<exists>fs1. run_git git shown (git_environment environ) (git_commands (sr_remote r) (sr_commit r) (''/'' @ join_with ''/'' dest)) fs1 = (None, fs2))"
  using assms by (auto simp: checkout_skills_def acquire_def split: if_splits sum.splits option.splits prod.splits)

end
