(* ===== verification/Spec2Isabelle.thy ===== *)
theory Spec2Isabelle
  imports Prelude Lifecycle Py_Path Policy Approval Checkpoint Workflow Retry Redis_Port Queue Queue_Failure
    Queue_Safety Queue_Samples Queue_Properties Durable Worker Sandbox Tools Commands Providers Routing
    Application Http_Api Webhook Telegram GitHub Github_Auth Worker_Loop Repository Skills Agents Metrics
    Model_Services Schema Planning Embeddings Control_Api Builtin_Tools Domain Telegram_Http Queue_Reads
    Review_Context
begin

text \<open>
  A verification library for the MEZO AI control plane (\<open>src/src/mezo_control_plane\<close>; paths below are
  relative to it): a service that takes engineering tasks over HTTP, Telegram and GitHub, keeps them in
  PostgreSQL, hands them through Redis to workers, runs a staged agent workflow in a sandbox under a policy
  engine with approvals, and calls language models through a router.

  How a task moves. An adapter (\<open>Http_Api\<close>, \<open>Telegram\<close>) checks and limits the caller and calls the use-case
  layer (\<open>Application\<close>), which writes the task (\<open>Durable\<close>) and puts it into the queue (\<open>Queue\<close>). A worker
  (\<open>Worker\<close>) claims the delivery, the durable gateway (\<open>Durable\<close>) gates it on the stored state, the workflow
  engine (\<open>Workflow\<close>) runs the stages with checkpoints (\<open>Checkpoint\<close>), and the outcome is acknowledged,
  retried, buried, cancelled or recovered (\<open>Queue_Failure\<close>). The task's own state machine is \<open>Lifecycle\<close>.
  Stages reach the world through tools (\<open>Tools\<close>, \<open>Commands\<close>) guarded by \<open>Policy\<close>, \<open>Approval\<close> and \<open>Sandbox\<close>,
  and reach models through the agents (\<open>Agents\<close>, \<open>Planning\<close>) and the router (\<open>Providers\<close>, \<open>Routing\<close>). Checked-out
  repositories and skills come in through \<open>Repository\<close> and \<open>Skills\<close>; the result leaves through \<open>GitHub\<close>.

  Theories, the code they model, and what their lemmas show:

  \<open>Prelude\<close>: Python strings and containers, runs of operations, and the two contracts several components
  share, as locales (\<open>one_shot\<close>: a permission that is used at most once; an invariant kept by every step).
  \<open>Py_Path\<close> (pathlib and fnmatch), \<open>Py_Json\<close> (decoded JSON, numbers and base64 in text, digest comparison) and
  \<open>Rate_Window\<close> (the sliding window of both adapters, shown equal to counting the accepted calls of the last
  window) hold what the code uses of the standard library.

  \<open>Lifecycle\<close> (\<open>core/domain.py\<close>, \<open>orchestrator/state_machine.py\<close>): the task record, the transition table,
  \<open>TaskStateMachine\<close>. The state is the task with its audit log; every public operation is a definition over
  it. Calls follow the table, the log explains the state, terminal states absorb, and no task is delivered
  without an accepted review.

  \<open>Policy\<close> (\<open>policies/engine.py\<close>, \<open>models.py\<close>, \<open>loader.py\<close>): rules, matching and the decision; the decision
  is the strongest of the matching rules, whatever their order, and invariants of critical risk cannot be
  switched off. \<open>Approval\<close> (\<open>policies/approvals.py\<close>): scoped approvals with expiry and one-time use.

  \<open>Checkpoint\<close> and \<open>Workflow\<close> (\<open>orchestrator/checkpoints.py\<close>, \<open>engine.py\<close>): the engine's loop with early
  correction, resumption and its bounds. The loop ends: its measure is the number of stages left plus the
  correction rounds left, so the recursion is a total function and no fuel is involved.

  \<open>Redis_Port\<close>: the Redis commands as a record of operations with their documented effects as a locale over
  a view of the store, interpreted on a store of association lists. \<open>Queue\<close>, \<open>Queue_Failure\<close>
  (\<open>queue/producer.py\<close>, \<open>deduplication.py\<close>, \<open>consumer.py\<close>, \<open>leases.py\<close>, \<open>retry_scheduler.py\<close>,
  \<open>dead_letter_queue.py\<close>, \<open>cancellation.py\<close>, \<open>recovery.py\<close>, \<open>worker/failure_delivery.py\<close>,
  \<open>worker/registration.py\<close>): every Lua script, and the Python around it, as a definition over that port.
  \<open>Queue_Safety\<close> puts the atomic steps of all clients into one relation and shows the invariant of every
  structure under any interleaving, for steps whose arguments name the task of their message, with finished tasks
  enqueued again and recovery's empty payload among them; \<open>Queue_Properties\<close> states the guarantees; \<open>Queue_Samples\<close> has concrete
  stores. \<open>Retry\<close> (\<open>queue/retry_policy.py\<close>, \<open>worker/failure_classification.py\<close>): bounds of delays and
  budgets.

  \<open>Durable\<close> (\<open>database/base.py\<close>, \<open>repositories.py\<close>, \<open>worker/durable_execution.py\<close>) over a PostgreSQL port
  given the same way, and \<open>Worker\<close> (\<open>worker/runtime.py\<close>): one delivery from the claim to the acknowledgement,
  with the failures of each service at each point. \<open>Worker_Loop\<close> (\<open>worker/runtime.py\<close>, \<open>lifecycle.py\<close>,
  \<open>graceful_shutdown.py\<close>, \<open>worker.py\<close>, \<open>main.py\<close>, \<open>queue/tasks.py\<close>): the loops around it, with capacity, renewal and
  drain, as a machine whose steps are the pieces between two awaits. \<open>Metrics\<close> (\<open>queue/metrics.py\<close>, \<open>heartbeat.py\<close>,
  \<open>worker/registration.py\<close>): the snapshot reports what the store holds. \<open>Schema\<close> (\<open>database/base.py\<close>,
  \<open>control_records.py\<close>, \<open>alembic/versions\<close>): the tables as declarations, the migrations as operations, shown to agree (nothing under
  src/ writes the control records, so their rows are not modelled). \<open>Domain\<close> (\<open>core/domain.py\<close>): the other
  entities, held against the columns that store them. \<open>Queue_Reads\<close>: the reading operations of the queue.

  \<open>Sandbox\<close> (\<open>sandbox/policies.py\<close>), \<open>Tools\<close> (\<open>tools/filesystem.py\<close>, \<open>contracts.py\<close>), \<open>Commands\<close>
  (\<open>sandbox/manager.py\<close>, \<open>contracts.py\<close>, \<open>tools/registry.py\<close>, \<open>builtins.py\<close>): a POSIX file system with links
  (at most forty symbolic links are followed, as on Linux, so path resolution is total), path confinement,
  the patch tool with its roll back after every possible failure, command execution with its limits and the
  redaction of its output. \<open>Builtin_Tools\<close> (\<open>tools/contracts.py\<close>, \<open>builtins.py\<close>) composes them: one tool call from its
  JSON arguments, through validation and the registry, to its effect on the tree.

  \<open>Providers\<close> (\<open>providers/base.py\<close>, \<open>resilience.py\<close>, \<open>gemini.py\<close>, \<open>qwen.py\<close>) and \<open>Routing\<close>
  (\<open>model_router/router.py\<close>, \<open>configuration.py\<close>): circuit breaker, calls with their accounting, and the
  choice of a model for a role with fall-backs. \<open>Model_Services\<close> (\<open>core/settings.py\<close>, \<open>model_router/factory.py\<close>,
  \<open>routes.v1.yaml\<close>, provider constructors and probes): the router as the service builds it. \<open>Embeddings\<close>
  (\<open>providers/embeddings.py\<close>): batches of vectors. \<open>Agents\<close> (\<open>agents/\<close>): contracts, prompts, one invocation with its
  budget, and final verification. \<open>Planning\<close> (\<open>orchestrator/workflow.py\<close>): plan and authorisation of a task.

  \<open>Repository\<close> (\<open>repository_intelligence/\<close>): acquisition, scan and context under a budget. \<open>Skills\<close> (\<open>skills/\<close>):
  pinned manifests, integrity, receipts and choice. \<open>Review_Context\<close>: what a blind reviewer is given, and the checkout of
  the skill repository. \<open>GitHub\<close> and \<open>Github_Auth\<close> (\<open>github/client.py\<close>, \<open>app_auth.py\<close>):
  operations as programs over recorded exchanges with a monitor of what may move a branch, and the token cache as an
  asynchronous machine, with the liveness of pending calls.

  \<open>Application\<close> (\<open>application/tasks.py\<close>), \<open>Http_Api\<close> (\<open>api/middleware.py\<close>, \<open>main.py\<close>, \<open>routes/\<close>,
  \<open>schemas.py\<close>), \<open>Webhook\<close> (\<open>github/webhooks.py\<close>), \<open>Telegram_Text\<close>, \<open>Telegram\<close> and \<open>Telegram_Http\<close> (\<open>telegram/\<close>): the adapters.
  \<open>Control_Api\<close> (\<open>api/main.py\<close>, \<open>routes/health.py\<close>, \<open>routes/control.py\<close>): the service put together, its health checks
  and what they mean.

  Conventions. Integers of Python are \<open>int\<close> or \<open>nat\<close>; instants and durations are real seconds, read from
  clocks that are arguments. Text is a list of 8-bit characters, so code that counts bytes of UTF-8 counts
  one or two for a character. Dictionaries are maps, or association lists where the order shows. A raise
  is the left value of a sum type, with an error type per component; an operation that fails after it has
  changed state returns the changed state with the error. Concurrency is interleaving of the atomic steps
  (Lua scripts, SQL transactions, code between two awaits).

  Parameters. Redis, PostgreSQL, the HTTP services of Google, Alibaba, Telegram and GitHub, the process
  started for a command, HMAC and hash functions, JSON, base64 and TOML codecs, random identifiers and clocks
  are arguments of the definitions. What the code relies on is stated as a hypothesis with a witness, or as
  a locale interpreted on a concrete store.

  Kinds of statements. Safety over all histories or all answers of a service; functional behaviour on every
  branch; refinement and equivalence (the limiter and the call history, the policy decision and its
  specification); round trips (tasks through the database, callbacks through signing); bounds (retries, message
  parts, command output); termination of the workflow; liveness of pending token calls; and error behaviour. Beside the properties the theories
  show behaviour the code should not have, by lemmas on concrete inputs; they are listed as findings in the
  manifest.

  Not modelled: reading settings from the environment, logging configuration (\<open>observability/logging.py\<close>), opening and
  closing of connections (\<open>database/session.py\<close>, the lifespan in \<open>api/main.py\<close>), the start of uvicorn and of the event
  loop, \<open>alembic/env.py\<close>, the interfaces without code (\<open>application/ports.py\<close>, \<open>github/contracts.py\<close>,
  \<open>sandbox/contracts.py\<close>, \<open>worker/execution.py\<close>), a cancellation of the asyncio task while a tool's thread runs or while
  a queue call of the worker is under way, Unicode case folding in the redaction (text is 8-bit), SQLAlchemy's rendering into SQL, and the HTML or JSON
  rendering done by libraries.
\<close>

end
